(* ===== verification/PyFloat.thy ===== *)
theory PyFloat
  imports Prelude "HOL-Library.Log_Nat"
begin

text \<open>
  Python floats: IEEE 754 binary64 values with round-to-nearest-even arithmetic. A float is a
  finite value (a rational), an infinity or NaN; the sign of zero is not kept, because no
  operation the repository uses can observe it. \<open>f64_round\<close> is the rounding of an exact
  result, \<open>fl\<close> the float it gives (an overflow gives an infinity). A float literal \<open>c\<close> of the
  source is written \<open>fl c\<close>, so that for instance \<open>0.45\<close> means the binary64 value next to it.
\<close>

section \<open>Rounding to binary64\<close>

definition round_half_even :: "rat \<Rightarrow> int" where
  "round_half_even y =
     (let n = \<lfloor>y\<rfloor>; d = y - of_int n
      in if d < 1/2 then n else if 1/2 < d then n + 1 else if even n then n else n + 1)"

definition f64_exp :: "rat \<Rightarrow> int" where
  "f64_exp x = (if 1 \<le> x then bitlen \<lfloor>x\<rfloor> - 1 else - bitlen (\<lceil>1 / x\<rceil> - 1))"

definition f64_quantum :: "rat \<Rightarrow> rat" where
  "f64_quantum x = 2 powi (max (f64_exp x) (-1022) - 52)"

definition f64_round_pos :: "rat \<Rightarrow> rat" where
  "f64_round_pos x = of_int (round_half_even (x / f64_quantum x)) * f64_quantum x"

definition f64_round :: "rat \<Rightarrow> rat" where
  "f64_round x =
     (if x = 0 then 0 else if x < 0 then - f64_round_pos (- x) else f64_round_pos x)"

lemma round_half_even_of_int [simp]: "round_half_even (of_int n) = n"
  by (simp add: round_half_even_def)

lemma round_half_even_floor: "\<lfloor>y\<rfloor> \<le> round_half_even y \<and> round_half_even y \<le> \<lfloor>y\<rfloor> + 1"
  by (auto simp: round_half_even_def Let_def)

lemma round_half_even_near: "\<bar>of_int (round_half_even y) - y\<bar> \<le> 1/2"
  by (auto simp: round_half_even_def Let_def abs_if) linarith+

lemma round_half_even_mono:
  assumes "x \<le> y" shows "round_half_even x \<le> round_half_even y"
proof (cases "\<lfloor>x\<rfloor> = \<lfloor>y\<rfloor>")
  case True
  with assms show ?thesis
    by (auto simp: round_half_even_def Let_def)
next
  case False
  with assms have "\<lfloor>x\<rfloor> + 1 \<le> \<lfloor>y\<rfloor>"
    using floor_mono[OF assms] by linarith
  then show ?thesis
    using round_half_even_floor[of x] round_half_even_floor[of y] by linarith
qed

lemma powi_rat_pos [simp]: "(0::rat) < 2 powi k"
  by (simp add: zero_less_power_int)

lemma powi_rat_Suc: "(2::rat) powi (k + 1) = 2 * 2 powi k"
  by (simp add: power_int_add)

lemma powi_rat_less_iff [simp]: "(2::rat) powi m < 2 powi n \<longleftrightarrow> m < n"
  using power_int_strict_increasing[of m n "2::rat"] power_int_increasing[of n m "2::rat"]
  by (cases "m < n") (auto simp: not_less)

lemma powi_rat_le_iff [simp]: "(2::rat) powi m \<le> 2 powi n \<longleftrightarrow> m \<le> n"
  by (metis linorder_not_le powi_rat_less_iff)

lemma powi_rat_mult: "(2::rat) powi m * 2 powi n = 2 powi (m + n)"
  by (simp add: power_int_add)

lemma powi_rat_pow: "(2::rat) ^ n * 2 powi k = 2 powi (k + int n)"
  by (simp add: power_int_add)

lemma powi_rat_divide: "(2::rat) powi m / 2 powi n = 2 powi (m - n)"
  by (simp add: power_int_diff)

lemma f64_exp_bounds:
  assumes "0 < x"
  shows "2 powi f64_exp x \<le> x \<and> x < 2 powi (f64_exp x + 1)"
proof (cases "1 \<le> x")
  case True
  define n where "n = \<lfloor>x\<rfloor>"
  have n: "n > 0" using True by (simp add: n_def)
  have b: "bitlen n \<ge> 1" using n bitlen_eq_zero_iff[of n] bitlen_nonneg[of n] by linarith
  have "2 ^ nat (bitlen n - 1) \<le> n" "n + 1 \<le> 2 ^ nat (bitlen n)"
    using bitlen_bounds[OF n] by auto
  then have "of_int (2 ^ nat (bitlen n - 1)) \<le> (of_int n :: rat)"
    and "(of_int (n + 1) :: rat) \<le> of_int (2 ^ nat (bitlen n))"
    by (simp_all only: of_int_le_iff)
  moreover have "of_int n \<le> x" "x < of_int (n + 1)"
    unfolding n_def by linarith+
  ultimately have "2 ^ nat (bitlen n - 1) \<le> x" "x < 2 ^ nat (bitlen n)"
    by (simp_all only: of_int_power of_int_numeral)
  then show ?thesis
    using True b by (simp add: f64_exp_def n_def[symmetric] power_int_nonneg_exp)
next
  case False
  define m where "m = \<lceil>1 / x\<rceil> - 1"
  define k where "k = bitlen m"
  have "1 < 1 / x" using False assms by simp
  then have m: "m > 0" by (simp add: m_def less_ceiling_iff)
  have k: "k \<ge> 1" using m bitlen_eq_zero_iff[of m] bitlen_nonneg[of m] by (simp add: k_def)
  have "2 ^ nat (k - 1) \<le> m" "m + 1 \<le> 2 ^ nat k"
    using bitlen_bounds[OF m] by (auto simp: k_def)
  then have "of_int (2 ^ nat (k - 1)) \<le> (of_int m :: rat)"
    and "(of_int (m + 1) :: rat) \<le> of_int (2 ^ nat k)"
    by (simp_all only: of_int_le_iff)
  moreover have "of_int m < 1 / x" "1 / x \<le> of_int (m + 1)"
    unfolding m_def by linarith+
  ultimately have "2 ^ nat (k - 1) < 1 / x" "1 / x \<le> 2 ^ nat k"
    by (simp_all only: of_int_power of_int_numeral)
  then have "2 powi (k - 1) < 1 / x" "1 / x \<le> 2 powi k"
    using k by (simp_all add: power_int_nonneg_exp)
  then have "x < 1 / 2 powi (k - 1)" "1 / 2 powi k \<le> x"
    using assms by (simp_all add: field_simps)
  moreover have "(1::rat) / 2 powi (k - 1) = 2 powi (- k + 1)" "(1::rat) / 2 powi k = 2 powi (- k)"
    by (simp_all flip: power_int_minus_divide)
  ultimately show ?thesis
    using False by (simp add: f64_exp_def k_def m_def)
qed

lemma f64_exp_unique:
  assumes "2 powi e \<le> x" "x < 2 powi (e + 1)"
  shows "f64_exp x = e"
proof -
  have x: "0 < x" using assms(1) powi_rat_pos[of e] by linarith
  have "(2::rat) powi e < 2 powi (f64_exp x + 1)" "(2::rat) powi f64_exp x < 2 powi (e + 1)"
    using assms f64_exp_bounds[OF x] by linarith+
  then show ?thesis by simp
qed

lemma f64_exp_mono: "0 < x \<Longrightarrow> x \<le> y \<Longrightarrow> f64_exp x \<le> f64_exp y"
proof -
  assume "0 < x" "x \<le> y"
  then have "(2::rat) powi f64_exp x < 2 powi (f64_exp y + 1)"
    using f64_exp_bounds[of x] f64_exp_bounds[of y] by linarith
  then show ?thesis by simp
qed

lemma f64_quantum_pos [simp]: "0 < f64_quantum x"
  by (simp add: f64_quantum_def)

subsection \<open>Rounding is monotone\<close>

text \<open>
  A positive value rounds into the closure of its binade; two values of one binade share a
  quantum, and two of different binades are separated by a power of two.
\<close>

lemma f64_round_pos_upper:
  assumes "0 < x"
  shows "f64_round_pos x \<le> 2 powi (max (f64_exp x) (-1022) + 1)"
proof -
  let ?E = "max (f64_exp x) (-1022)"
  have "x < 2 powi (f64_exp x + 1)" using f64_exp_bounds[OF assms] by simp
  also have "(2::rat) powi (f64_exp x + 1) \<le> 2 powi (?E + 1)" by simp
  also have e: "2 powi (?E + 1) = 2 ^ 53 * f64_quantum x"
    unfolding f64_quantum_def powi_rat_pow by (rule arg_cong [where f = "(powi) 2"]) simp
  finally have "x / f64_quantum x \<le> of_int (2 ^ 53)"
    by (simp add: field_simps)
  from round_half_even_mono[OF this]
  have "round_half_even (x / f64_quantum x) \<le> 2 ^ 53"
    by (simp only: round_half_even_of_int)
  then have "of_int (round_half_even (x / f64_quantum x)) \<le> (of_int (2 ^ 53) :: rat)"
    by (simp only: of_int_le_iff)
  then have "f64_round_pos x \<le> of_int (2 ^ 53) * f64_quantum x"
    unfolding f64_round_pos_def by (rule mult_right_mono) (simp add: less_imp_le)
  also have "\<dots> = 2 powi (?E + 1)" using e by simp
  finally show ?thesis .
qed

lemma f64_round_pos_lower:
  assumes "0 < x" "-1022 \<le> f64_exp x"
  shows "2 powi f64_exp x \<le> f64_round_pos x"
proof -
  have q: "f64_quantum x = 2 powi (f64_exp x - 52)"
    using assms(2) by (simp add: f64_quantum_def max_def)
  have e: "2 powi f64_exp x = 2 ^ 52 * f64_quantum x"
    unfolding q powi_rat_pow by (rule arg_cong [where f = "(powi) 2"]) simp
  then have "of_int (2 ^ 52) \<le> x / f64_quantum x"
    using f64_exp_bounds[OF assms(1)] by (simp add: field_simps)
  from round_half_even_mono[OF this]
  have "2 ^ 52 \<le> round_half_even (x / f64_quantum x)"
    by (simp only: round_half_even_of_int)
  then have "(of_int (2 ^ 52) :: rat) \<le> of_int (round_half_even (x / f64_quantum x))"
    by (simp only: of_int_le_iff)
  then have "of_int (2 ^ 52) * f64_quantum x \<le> f64_round_pos x"
    unfolding f64_round_pos_def by (rule mult_right_mono) (simp add: less_imp_le)
  with e show ?thesis by simp
qed

lemma f64_round_pos_nonneg:
  assumes "0 < x" shows "0 \<le> f64_round_pos x"
proof -
  have "of_int 0 \<le> x / f64_quantum x" using assms by (simp add: less_imp_le)
  from round_half_even_mono[OF this] have "0 \<le> round_half_even (x / f64_quantum x)"
    by (simp only: round_half_even_of_int)
  then show ?thesis by (simp add: f64_round_pos_def less_imp_le)
qed

lemma f64_round_pos_mono:
  assumes "0 < x" "x \<le> y" shows "f64_round_pos x \<le> f64_round_pos y"
proof -
  let ?Ex = "max (f64_exp x) (-1022)" and ?Ey = "max (f64_exp y) (-1022)"
  have y: "0 < y" using assms by simp
  have "f64_exp x \<le> f64_exp y" using f64_exp_mono[OF assms] .
  then consider "?Ex = ?Ey" | "?Ex + 1 \<le> ?Ey" by linarith
  then show ?thesis
  proof cases
    case 1
    then have q: "f64_quantum x = f64_quantum y" by (simp add: f64_quantum_def)
    have "x / f64_quantum x \<le> y / f64_quantum x"
      using assms by (simp add: divide_right_mono less_imp_le)
    from round_half_even_mono[OF this] show ?thesis
      unfolding f64_round_pos_def q by (intro mult_right_mono) (simp_all add: less_imp_le)
  next
    case 2
    then have "f64_exp y = ?Ey" by linarith
    have "f64_round_pos x \<le> 2 powi (?Ex + 1)" by (rule f64_round_pos_upper[OF assms(1)])
    also have "\<dots> \<le> 2 powi (f64_exp y)" using 2 \<open>f64_exp y = ?Ey\<close> by simp
    also have "\<dots> \<le> f64_round_pos y"
      using f64_round_pos_lower[OF y] \<open>f64_exp y = ?Ey\<close> by linarith
    finally show ?thesis .
  qed
qed

lemma f64_round_mono: "x \<le> y \<Longrightarrow> f64_round x \<le> f64_round y"
  using f64_round_pos_mono[of x y] f64_round_pos_mono[of "- y" "- x"]
    f64_round_pos_nonneg[of y] f64_round_pos_nonneg[of "- x"]
  by (auto simp: f64_round_def)

lemma f64_round_minus [simp]: "f64_round (- x) = - f64_round x"
  by (auto simp: f64_round_def)

lemma f64_round_0 [simp]: "f64_round 0 = 0"
  by (simp add: f64_round_def)

subsection \<open>Representable values\<close>

lemma f64_round_pos_dyadic:
  assumes "0 < m" "m \<le> 2 ^ 53" "-1074 \<le> k"
  shows "f64_round_pos (of_int m * 2 powi k) = of_int m * 2 powi k"
proof -
  let ?x = "of_int m * 2 powi k :: rat"
  let ?E = "max (f64_exp ?x) (-1022)"
  have x: "0 < ?x" using assms(1) by simp
  have "\<exists>n::int. ?x / f64_quantum ?x = of_int n"
  proof (cases "?E - 52 \<le> k")
    case True
    have "?x / f64_quantum ?x = of_int m * 2 powi (k - (?E - 52))"
      by (simp add: f64_quantum_def powi_rat_divide flip: times_divide_eq_right)
    also have "\<dots> = of_int (m * 2 ^ nat (k - (?E - 52)))"
      using True by (simp add: power_int_nonneg_exp)
    finally show ?thesis by blast
  next
    case False
    then have e: "?E = f64_exp ?x" "k + 53 \<le> f64_exp ?x" using assms(3) by linarith+
    have "(of_int m :: rat) \<le> of_int (2 ^ 53)" using assms(2) by (simp only: of_int_le_iff)
    then have "?x \<le> of_int (2 ^ 53) * 2 powi k" by (rule mult_right_mono) (simp add: less_imp_le)
    also have "\<dots> = 2 powi (k + 53)"
      using powi_rat_pow[of 53 k] by (simp only: of_int_power of_int_numeral) simp
    finally have le: "?x \<le> 2 powi (k + 53)" .
    moreover have "2 powi f64_exp ?x \<le> ?x" using f64_exp_bounds[OF x] by simp
    ultimately have "(2::rat) powi f64_exp ?x \<le> 2 powi (k + 53)" by linarith
    then have k: "f64_exp ?x = k + 53" using e(2) by simp
    with le \<open>2 powi f64_exp ?x \<le> ?x\<close> have "?x = 2 powi (k + 53)" by simp
    moreover have "f64_quantum ?x = 2 powi (k + 1)"
      using e(1) k by (simp add: f64_quantum_def add.commute)
    ultimately have "?x / f64_quantum ?x = of_int (2 ^ 52)"
      by (simp only: powi_rat_divide) simp
    then show ?thesis by blast
  qed
  then obtain n :: int where n: "?x / f64_quantum ?x = of_int n" by blast
  then have "f64_round_pos ?x = of_int n * f64_quantum ?x"
    unfolding f64_round_pos_def by simp
  also have "\<dots> = ?x" using n f64_quantum_pos[of ?x] by (simp add: field_simps)
  finally show ?thesis .
qed

lemma f64_round_pos_eq: "0 < x \<Longrightarrow> f64_round x = f64_round_pos x"
  by (simp add: f64_round_def)

lemma f64_round_dyadic:
  assumes "\<bar>m\<bar> \<le> 2 ^ 53" "-1074 \<le> k"
  shows "f64_round (of_int m * 2 powi k) = of_int m * 2 powi k"
proof -
  consider "m = 0" | "0 < m" | "m < 0" by linarith
  then show ?thesis
  proof cases
    case 2
    then have "(0::rat) < of_int m * 2 powi k" by simp
    then show ?thesis
      using f64_round_pos_dyadic[of m k] assms 2 by (simp only: f64_round_pos_eq)
  next
    case 3
    then have "(0::rat) < of_int (- m) * 2 powi k"
      by (intro mult_pos_pos) simp_all
    with 3 have "f64_round (of_int (- m) * 2 powi k) = of_int (- m) * 2 powi k"
      using f64_round_pos_dyadic[of "- m" k] assms by (simp only: f64_round_pos_eq abs_minus_cancel)
    then show ?thesis by simp
  qed simp
qed

lemma f64_round_of_int: "\<bar>m\<bar> \<le> 2 ^ 53 \<Longrightarrow> f64_round (of_int m) = of_int m"
  using f64_round_dyadic[of m 0] by simp

lemma f64_round_numeral [simp]:
  "numeral n \<le> (2 ^ 53 :: int) \<Longrightarrow> f64_round (numeral n) = numeral n"
  using f64_round_of_int[of "numeral n"] by simp

lemma f64_round_1 [simp]: "f64_round 1 = 1"
  using f64_round_of_int[of 1] by simp

section \<open>Float values and operations\<close>

datatype pyfloat = Fin rat | PInf | NInf | NaN

definition fl :: "rat \<Rightarrow> pyfloat" where
  "fl x = (let y = f64_round x
           in if 2 ^ 1024 \<le> y then PInf else if y \<le> - (2 ^ 1024) then NInf else Fin y)"

instantiation pyfloat :: "{zero, one, plus, uminus, minus, times, ord, abs}"
begin

definition zero_pyfloat :: pyfloat where "zero_pyfloat = Fin 0"

definition one_pyfloat :: pyfloat where "one_pyfloat = Fin 1"

fun plus_pyfloat :: "pyfloat \<Rightarrow> pyfloat \<Rightarrow> pyfloat" where
  "plus_pyfloat NaN y = NaN"
| "plus_pyfloat x NaN = NaN"
| "plus_pyfloat (Fin a) (Fin b) = fl (a + b)"
| "plus_pyfloat PInf NInf = NaN"
| "plus_pyfloat NInf PInf = NaN"
| "plus_pyfloat PInf y = PInf"
| "plus_pyfloat NInf y = NInf"
| "plus_pyfloat x PInf = PInf"
| "plus_pyfloat x NInf = NInf"

fun uminus_pyfloat :: "pyfloat \<Rightarrow> pyfloat" where
  "uminus_pyfloat NaN = NaN"
| "uminus_pyfloat PInf = NInf"
| "uminus_pyfloat NInf = PInf"
| "uminus_pyfloat (Fin a) = Fin (- a)"

definition minus_pyfloat :: "pyfloat \<Rightarrow> pyfloat \<Rightarrow> pyfloat" where
  "minus_pyfloat x y = x + (- y)"

text \<open>The sign of an infinite product, from the sign of the finite factor.\<close>

fun times_pyfloat :: "pyfloat \<Rightarrow> pyfloat \<Rightarrow> pyfloat" where
  "times_pyfloat NaN y = NaN"
| "times_pyfloat x NaN = NaN"
| "times_pyfloat (Fin a) (Fin b) = fl (a * b)"
| "times_pyfloat PInf (Fin b) = (if b = 0 then NaN else if 0 < b then PInf else NInf)"
| "times_pyfloat NInf (Fin b) = (if b = 0 then NaN else if 0 < b then NInf else PInf)"
| "times_pyfloat (Fin a) PInf = (if a = 0 then NaN else if 0 < a then PInf else NInf)"
| "times_pyfloat (Fin a) NInf = (if a = 0 then NaN else if 0 < a then NInf else PInf)"
| "times_pyfloat PInf PInf = PInf"
| "times_pyfloat NInf NInf = PInf"
| "times_pyfloat PInf NInf = NInf"
| "times_pyfloat NInf PInf = NInf"

text \<open>Every comparison with NaN is false.\<close>

fun less_pyfloat :: "pyfloat \<Rightarrow> pyfloat \<Rightarrow> bool" where
  "less_pyfloat (Fin a) (Fin b) = (a < b)"
| "less_pyfloat (Fin a) PInf = True"
| "less_pyfloat NInf (Fin b) = True"
| "less_pyfloat NInf PInf = True"
| "less_pyfloat x y = False"

fun less_eq_pyfloat :: "pyfloat \<Rightarrow> pyfloat \<Rightarrow> bool" where
  "less_eq_pyfloat (Fin a) (Fin b) = (a \<le> b)"
| "less_eq_pyfloat NaN y = False"
| "less_eq_pyfloat x NaN = False"
| "less_eq_pyfloat NInf y = True"
| "less_eq_pyfloat x PInf = True"
| "less_eq_pyfloat x y = False"

fun abs_pyfloat :: "pyfloat \<Rightarrow> pyfloat" where
  "abs_pyfloat NaN = NaN"
| "abs_pyfloat PInf = PInf"
| "abs_pyfloat NInf = PInf"
| "abs_pyfloat (Fin a) = Fin \<bar>a\<bar>"

instance ..

end

text \<open>\<^verbatim>\<open>==\<close> on floats: NaN differs from itself.\<close>

definition py_eq :: "pyfloat \<Rightarrow> pyfloat \<Rightarrow> bool" where
  "py_eq x y \<longleftrightarrow> x = y \<and> x \<noteq> NaN"

text \<open>
  Python's two-argument \<^verbatim>\<open>min\<close> and \<^verbatim>\<open>max\<close> keep the first argument unless the second is
  strictly better, so a NaN in the first place stays and one in the second place is dropped.
\<close>

definition py_min :: "pyfloat \<Rightarrow> pyfloat \<Rightarrow> pyfloat" where
  "py_min x y = (if y < x then y else x)"

definition py_max :: "pyfloat \<Rightarrow> pyfloat \<Rightarrow> pyfloat" where
  "py_max x y = (if x < y then y else x)"

fun fdiv :: "pyfloat \<Rightarrow> pyfloat \<Rightarrow> pyfloat" where
  "fdiv NaN y = NaN"
| "fdiv x NaN = NaN"
| "fdiv (Fin a) (Fin b) = fl (a / b)"
| "fdiv (Fin a) y = Fin 0"
| "fdiv PInf (Fin b) = (if 0 < b then PInf else NInf)"
| "fdiv NInf (Fin b) = (if 0 < b then NInf else PInf)"
| "fdiv x y = NaN"

text \<open>\<^verbatim>\<open>x / y\<close>: \<open>fdiv\<close> is only reached with a divisor other than zero.\<close>

definition py_div :: "pyfloat \<Rightarrow> pyfloat \<Rightarrow> py_exn + pyfloat" where
  "py_div x y = (if y = Fin 0 then Inl ZeroDivisionError else Inr (fdiv x y))"

text \<open>\<^verbatim>\<open>int(x)\<close> truncates; it raises on NaN and on an infinity.\<close>

fun py_int :: "pyfloat \<Rightarrow> py_exn + int" where
  "py_int (Fin a) = Inr (if 0 \<le> a then \<lfloor>a\<rfloor> else \<lceil>a\<rceil>)"
| "py_int NaN = Inl ValueError"
| "py_int x = Inl OverflowError"

definition float_of_int :: "int \<Rightarrow> pyfloat" where
  "float_of_int n = fl (of_int n)"

text \<open>
  \<^verbatim>\<open>round(x, n)\<close>: the decimal with \<open>n\<close> digits nearest to the exact binary value, ties to
  even, converted back to a float.
\<close>

fun py_round :: "nat \<Rightarrow> pyfloat \<Rightarrow> pyfloat" where
  "py_round n (Fin a) = fl (of_int (round_half_even (a * 10 ^ n)) / 10 ^ n)"
| "py_round n x = x"

text \<open>\<^verbatim>\<open>sum\<close> of Python 3.11 adds from the left, starting from the integer 0.\<close>

definition py_sum :: "pyfloat list \<Rightarrow> pyfloat" where
  "py_sum xs = foldl (+) (Fin 0) xs"

text \<open>\<^verbatim>\<open>round(x)\<close> without digits is an integer; like \<^verbatim>\<open>int\<close> it raises on NaN and on an infinity.\<close>

definition round_int :: "pyfloat \<Rightarrow> py_exn + int" where
  "round_int x = (case x of Fin q \<Rightarrow> Inr (round_half_even q) | NaN \<Rightarrow> Inl ValueError | _ \<Rightarrow> Inl OverflowError)"

definition is_finite :: "pyfloat \<Rightarrow> bool" where
  "is_finite x = (case x of Fin _ \<Rightarrow> True | _ \<Rightarrow> False)"

section \<open>Evaluation of float literals\<close>

lemma bitlen_numeral: "bitlen (numeral n) = bitlen (numeral n div 2) + 1"
  by (subst compute_bitlen) simp

lemma bitlen_1: "bitlen 1 = 1"
  by (subst compute_bitlen) simp

lemma floor_rat_frac:
  "\<lfloor>numeral a / numeral b :: rat\<rfloor> = numeral a div numeral b"
  "\<lfloor>1 / numeral b :: rat\<rfloor> = 1 div numeral b"
  "\<lfloor>- (numeral a / numeral b) :: rat\<rfloor> = - numeral a div numeral b"
  "\<lfloor>- (1 / numeral b) :: rat\<rfloor> = - 1 div numeral b"
  using floor_divide_of_int_eq[of "numeral a" "numeral b", where ?'a = rat]
    floor_divide_of_int_eq[of 1 "numeral b", where ?'a = rat]
    floor_divide_of_int_eq[of "- numeral a" "numeral b", where ?'a = rat]
    floor_divide_of_int_eq[of "- 1" "numeral b", where ?'a = rat]
  by simp_all

lemma ceiling_rat_frac:
  "\<lceil>numeral a / numeral b :: rat\<rceil> = - (- numeral a div numeral b)"
  "\<lceil>1 / numeral b :: rat\<rceil> = - (- 1 div numeral b)"
  by (simp_all add: ceiling_def floor_rat_frac)

lemmas fl_eval =
  fl_def f64_round_def f64_round_pos_def f64_quantum_def f64_exp_def round_half_even_def
  bitlen_numeral bitlen_1 Let_def power_int_minus floor_rat_frac ceiling_rat_frac

section \<open>Interval reasoning\<close>

text \<open>
  \<open>f64 r\<close>: the rational \<open>r\<close> is a binary64 value. \<open>fin_in lo hi x\<close>: the float \<open>x\<close> is finite and
  lies between \<open>lo\<close> and \<open>hi\<close>. Because rounding is monotone, an exact result between two
  representable bounds stays between them after rounding.
\<close>

definition f64 :: "rat \<Rightarrow> bool" where
  "f64 r \<longleftrightarrow> f64_round r = r \<and> \<bar>r\<bar> < 2 ^ 1024"

definition fin_in :: "rat \<Rightarrow> rat \<Rightarrow> pyfloat \<Rightarrow> bool" where
  "fin_in lo hi x = (case x of Fin r \<Rightarrow> lo \<le> r \<and> r \<le> hi | _ \<Rightarrow> False)"

lemma fin_in_Fin [simp]: "fin_in lo hi (Fin r) \<longleftrightarrow> lo \<le> r \<and> r \<le> hi"
  by (simp add: fin_in_def)

lemma fin_inE:
  assumes "fin_in lo hi x"
  obtains r where "x = Fin r" "lo \<le> r" "r \<le> hi"
  using assms by (cases x) (auto simp: fin_in_def)

lemma fin_in_mono: "fin_in lo hi x \<Longrightarrow> lo' \<le> lo \<Longrightarrow> hi \<le> hi' \<Longrightarrow> fin_in lo' hi' x"
  by (auto elim!: fin_inE)

lemma fin_in_is_finite: "fin_in lo hi x \<Longrightarrow> is_finite x"
  by (auto elim!: fin_inE simp: is_finite_def)

lemma f64_round_of_int_simps [simp]:
  "f64_round (1 / 2) = 1 / 2"
  "f64_round (1 / 4) = 1 / 4"
  using f64_round_dyadic[of 1 "- 1"] f64_round_dyadic[of 1 "- 2"]
  by (simp_all add: power_int_minus)

lemma f64_numeral [simp]: "numeral n \<le> (2 ^ 53 :: int) \<Longrightarrow> f64 (numeral n)"
proof -
  assume n: "numeral n \<le> (2 ^ 53 :: int)"
  then have "(of_int (numeral n) :: rat) \<le> of_int (2 ^ 53)" by (simp only: of_int_le_iff)
  also have "(of_int (2 ^ 53) :: rat) < 2 ^ 1024" by simp
  finally show ?thesis using n by (simp add: f64_def)
qed

lemma f64_0 [simp]: "f64 0" and f64_1 [simp]: "f64 1"
  by (simp_all add: f64_def)

lemma f64_uminus [simp]: "f64 (- r) = f64 r"
  by (simp add: f64_def)

lemma fl_f64: "f64 r \<Longrightarrow> fl r = Fin r"
  by (auto simp: f64_def fl_def)

lemma fl_not_NaN [simp]: "fl x \<noteq> NaN"
  by (simp add: fl_def Let_def)

lemma fl_numeral [simp]: "numeral n \<le> (2 ^ 53 :: int) \<Longrightarrow> fl (numeral n) = Fin (numeral n)"
  by (simp add: fl_f64)

lemma fl_0 [simp]: "fl 0 = Fin 0" and fl_1 [simp]: "fl 1 = Fin 1"
  by (simp_all add: fl_f64)

lemma fl_bounds:
  assumes "f64 lo" "f64 hi" "lo \<le> x" "x \<le> hi"
  shows "fin_in lo hi (fl x)"
proof -
  have "lo \<le> f64_round x" "f64_round x \<le> hi"
    using assms f64_round_mono[of lo x] f64_round_mono[of x hi] by (simp_all add: f64_def)
  moreover have "\<bar>lo\<bar> < 2 ^ 1024" "\<bar>hi\<bar> < 2 ^ 1024" using assms by (simp_all add: f64_def)
  ultimately have "- (2 ^ 1024) < f64_round x" "f64_round x < 2 ^ 1024" by linarith+
  then show ?thesis
    using \<open>lo \<le> f64_round x\<close> \<open>f64_round x \<le> hi\<close> by (simp add: fl_def fin_in_def Let_def)
qed

lemma fin_in_add:
  assumes "fin_in a b x" "fin_in c d y" "f64 lo" "f64 hi" "lo \<le> a + c" "b + d \<le> hi"
  shows "fin_in lo hi (x + y)"
  using assms by (auto elim!: fin_inE intro!: fl_bounds)

lemma fin_in_diff:
  assumes "fin_in a b x" "fin_in c d y" "f64 lo" "f64 hi" "lo \<le> a - d" "b - c \<le> hi"
  shows "fin_in lo hi (x - y)"
  using assms by (auto elim!: fin_inE intro!: fl_bounds simp: minus_pyfloat_def)

lemma fin_in_mult_nonneg:
  assumes "fin_in a b x" "fin_in c d y" "0 \<le> a" "0 \<le> c" "f64 lo" "f64 hi"
    "lo \<le> a * c" "b * d \<le> hi"
  shows "fin_in lo hi (x * y)"
proof -
  obtain r s where rs: "x = Fin r" "a \<le> r" "r \<le> b" "y = Fin s" "c \<le> s" "s \<le> d"
    using assms(1,2) by (auto elim!: fin_inE)
  then have "a * c \<le> r * s" "r * s \<le> b * d"
    using assms(3,4) by (auto intro!: mult_mono)
  then show ?thesis using assms rs by (auto intro!: fl_bounds)
qed

lemma fin_in_py_min_upper:
  "py_min x (Fin c) = NaN \<or> py_min x (Fin c) \<le> Fin c"
  by (cases x) (auto simp: py_min_def not_less)

lemma py_max_ge [simp]: "Fin c \<le> py_max (Fin c) x"
  by (cases x) (auto simp: py_max_def)

lemma py_max_lower: "py_max (Fin c) x = Fin c \<or> Fin c < py_max (Fin c) x"
  by (auto simp: py_max_def)

lemma less_pyfloat_Fin_iff: "Fin a < x \<longleftrightarrow> (\<exists>b. x = Fin b \<and> a < b) \<or> x = PInf"
  by (cases x) auto

lemma pyfloat_le_Fin_iff: "x \<le> Fin b \<longleftrightarrow> (\<exists>a. x = Fin a \<and> a \<le> b) \<or> x = NInf"
  by (cases x) auto

lemma pyfloat_arith [simp]:
  "Fin a + Fin b = fl (a + b)"
  "Fin a - Fin b = fl (a - b)"
  "Fin a * Fin b = fl (a * b)"
  by (simp_all add: minus_pyfloat_def)

lemma pyfloat_NaN [simp]:
  "NaN + x = NaN" "x + NaN = NaN" "NaN - x = NaN" "x - NaN = NaN" "NaN * x = NaN" "x * NaN = NaN"
  "\<not> NaN < x" "\<not> x < NaN" "\<not> NaN \<le> x" "\<not> x \<le> NaN"
  by (cases x; simp add: minus_pyfloat_def)+

lemma f64_half [simp]: "f64 (1 / 2)"
proof -
  have "(1 / 2 :: rat) < 2 ^ 1024" by simp
  then show ?thesis by (simp add: f64_def)
qed

lemma f64_pow2: "n \<le> 1023 \<Longrightarrow> f64 (2 ^ n)"
proof -
  assume n: "n \<le> 1023"
  have "(2::rat) ^ n < 2 ^ 1024" using n by (intro power_strict_increasing) simp_all
  moreover have "f64_round (2 ^ n) = 2 ^ n"
    using f64_round_dyadic [of 1 "int n"] by simp
  ultimately show ?thesis by (simp add: f64_def)
qed

lemma fl_nonneg: "0 \<le> r \<Longrightarrow> Fin 0 \<le> fl r"
  using f64_round_mono [of 0 r] by (auto simp: fl_def Let_def)

lemma fl_nonneg_cases: "0 \<le> r \<Longrightarrow> fl r = PInf \<or> (\<exists>q. fl r = Fin q \<and> 0 \<le> q)"
  using fl_nonneg [of r] by (cases "fl r") auto

lemma py_min_unit: "Fin 0 \<le> x \<Longrightarrow> fin_in 0 1 (py_min x (Fin 1))"
  by (cases x) (auto simp: py_min_def)

lemma fdiv_nonneg: "Fin 0 \<le> x \<Longrightarrow> 0 < b \<Longrightarrow> Fin 0 \<le> fdiv x (Fin b)"
  by (cases x) (auto intro: fl_nonneg)

lemma abs_pyfloat_nonneg: "x \<noteq> NaN \<Longrightarrow> Fin 0 \<le> \<bar>x\<bar>"
  by (cases x) auto

lemma fin_in_nonneg: "fin_in lo hi x \<Longrightarrow> 0 \<le> lo \<Longrightarrow> Fin 0 \<le> x"
  by (auto elim!: fin_inE)

text \<open>A sum of \<open>n\<close> values of magnitude at most \<open>B\<close>, when \<open>n * B\<close> stays within range.\<close>

lemma fin_in_foldl_add:
  assumes "\<forall>x \<in> set xs. fin_in lo hi x" "fin_in l h a"
    "\<And>k. k \<le> length xs \<Longrightarrow> f64 (l + of_nat k * lo) \<and> f64 (h + of_nat k * hi)"
  shows "fin_in (l + of_nat (length xs) * lo) (h + of_nat (length xs) * hi) (foldl (+) a xs)"
  using assms
proof (induction xs arbitrary: a l h)
  case (Cons x xs)
  have "fin_in (l + lo) (h + hi) (a + x)"
    using Cons.prems(1) Cons.prems(3) [of 1]
    by (intro fin_in_add [OF Cons.prems(2), of lo hi]) simp_all
  moreover have "f64 (l + lo + of_nat k * lo) \<and> f64 (h + hi + of_nat k * hi)" if "k \<le> length xs" for k
    using Cons.prems(3) [of "Suc k"] that by (simp add: algebra_simps)
  ultimately have "fin_in (l + lo + of_nat (length xs) * lo) (h + hi + of_nat (length xs) * hi)
      (foldl (+) (a + x) xs)"
    using Cons.prems(1) by (intro Cons.IH) simp_all
  then show ?case by (simp add: algebra_simps)
qed simp

lemma f64_int_pow2:
  assumes "\<bar>m\<bar> \<le> 2 ^ 53" "n \<le> 960"
  shows "f64 (of_int m * 2 ^ n)"
proof -
  have "\<bar>of_int m :: rat\<bar> \<le> of_int (2 ^ 53)" using assms(1) by (simp only: of_int_abs of_int_le_iff)
  then have "\<bar>of_int m * 2 ^ n :: rat\<bar> \<le> 2 ^ 53 * 2 ^ n"
    by (simp add: abs_mult mult_right_mono)
  also have "(2::rat) ^ 53 * 2 ^ n = 2 ^ (53 + n)" by (simp only: power_add)
  also have "(2::rat) ^ (53 + n) < 2 ^ 1024"
    using assms(2) by (intro power_strict_increasing) simp_all
  finally show ?thesis
    using f64_round_dyadic [of m "int n"] assms(1) by (simp add: f64_def)
qed

text \<open>\<open>sum\<close> of at most 200 values of magnitude at most \<open>2^n\<close> stays finite.\<close>

lemma f64_small_int: "\<bar>n\<bar> \<le> 2 ^ 53 \<Longrightarrow> f64 (of_int n)"
  using f64_int_pow2 [of n 0] by simp

lemma fin_in_py_sum:
  assumes "\<forall>x \<in> set xs. fin_in (- (2 ^ n)) (2 ^ n) x" "length xs \<le> 200" "n \<le> 900"
  shows "fin_in (- (2 ^ (n + 8))) (2 ^ (n + 8)) (py_sum xs)"
proof -
  have f: "f64 (of_nat k * - (2 ^ n)) \<and> f64 (of_nat k * 2 ^ n)" if "k \<le> length xs" for k
  proof -
    have "\<bar>int k\<bar> \<le> 2 ^ 53" using that assms(2) by simp
    then show ?thesis using f64_int_pow2 [of "int k" n] assms(3) by simp
  qed
  have "fin_in (0 + of_nat (length xs) * - (2 ^ n)) (0 + of_nat (length xs) * 2 ^ n) (py_sum xs)"
    unfolding py_sum_def
    by (rule fin_in_foldl_add [OF assms(1)]) (use f in auto)
  moreover have "(of_nat (length xs) :: rat) * 2 ^ n \<le> 2 ^ (n + 8)"
  proof -
    have "(of_nat (length xs) :: rat) \<le> of_nat 200" using assms(2) by (simp only: of_nat_le_iff)
    then have "(of_nat (length xs) :: rat) \<le> 2 ^ 8" by simp
    then show ?thesis by (simp add: power_add mult.commute)
  qed
  ultimately show ?thesis by (auto elim: fin_in_mono)
qed

text \<open>Monotonicity of \<open>fl\<close> itself: bounds that are rounded first.\<close>

lemma fl_Fin_round: "fl x = Fin y \<Longrightarrow> f64_round x = y \<and> \<bar>y\<bar> < 2 ^ 1024"
  by (auto simp: fl_def Let_def split: if_splits)

lemma fl_bounds_round:
  assumes "l \<le> x" "x \<le> h" "fl l = Fin lo" "fl h = Fin hi"
  shows "fin_in lo hi (fl x)"
proof -
  have "lo \<le> f64_round x" "f64_round x \<le> hi" "\<bar>lo\<bar> < 2 ^ 1024" "\<bar>hi\<bar> < 2 ^ 1024"
    using assms(1,2) f64_round_mono [of l x] f64_round_mono [of x h]
      fl_Fin_round [OF assms(3)] fl_Fin_round [OF assms(4)] by auto
  then show ?thesis by (auto simp: fl_def Let_def)
qed

lemma py_int_range:
  assumes "fin_in 0 b x" "b < of_int h + 1"
  shows "\<exists>d. py_int x = Inr d \<and> 0 \<le> d \<and> d \<le> h"
proof -
  obtain r where r: "x = Fin r" "0 \<le> r" "r < of_int h + 1" using assms by (auto elim!: fin_inE)
  then have "\<lfloor>r\<rfloor> \<le> h" by linarith
  with r show ?thesis by simp
qed

subsection \<open>The literals of the repository\<close>

text \<open>The binary64 values next to the decimal literals the source writes.\<close>

lemma fl_literals [simp]:
  "fl (1 / 2) = Fin (1 / 2)"
  "fl (1 / 10) = Fin (3602879701896397 / 36028797018963968)"
  "fl (1 / 5) = Fin (3602879701896397 / 18014398509481984)"
  "fl (3 / 10) = Fin (5404319552844595 / 18014398509481984)"
  "fl (2 / 5) = Fin (3602879701896397 / 9007199254740992)"
  "fl (3 / 5) = Fin (5404319552844595 / 9007199254740992)"
  "fl (7 / 10) = Fin (3152519739159347 / 4503599627370496)"
  "fl (4 / 5) = Fin (3602879701896397 / 4503599627370496)"
  "fl (9 / 10) = Fin (8106479329266893 / 9007199254740992)"
  "fl (9 / 20) = Fin (8106479329266893 / 18014398509481984)"
  "fl (13 / 20) = Fin (5854679515581645 / 9007199254740992)"
  "fl (11 / 20) = Fin (2476979795053773 / 4503599627370496)"
  "fl (1 / 20) = Fin (3602879701896397 / 72057594037927936)"
  "fl (7 / 50) = Fin (1261007895663739 / 9007199254740992)"
  "fl (11 / 100) = Fin (7926335344172073 / 72057594037927936)"
  "fl (3 / 20) = Fin (5404319552844595 / 36028797018963968)"
  "fl (7 / 100) = Fin (1261007895663739 / 18014398509481984)"
  "fl (1 / 25) = Fin (5764607523034235 / 144115188075855872)"
  "fl (2 / 25) = Fin (5764607523034235 / 72057594037927936)"
  "fl (3 / 25) = Fin (1080863910568919 / 9007199254740992)"
  "fl (3 / 100) = Fin (1080863910568919 / 36028797018963968)"
  "fl (3 / 200) = Fin (1080863910568919 / 72057594037927936)"
  "fl (5 / 2) = Fin (5 / 2)"
  by (simp_all add: fl_eval)

end
