(* ===== verification/Schemas.thy ===== *)
theory Schemas
  imports PyFloat
begin

text \<open>
  The data of the API: \<^verbatim>\<open>backend/app/schemas.py\<close>. Enumerations are datatypes with their wire
  values; the pydantic models and the dataclass are records (field prefixes \<open>ev_\<close> for
  \<^verbatim>\<open>IdentityEvent\<close>, \<open>ra_\<close> for \<^verbatim>\<open>RiskAssessment\<close>, \<open>soc_\<close> for \<^verbatim>\<open>SocAssessment\<close>, \<open>sr_\<close> for
  \<^verbatim>\<open>StepUpResult\<close>). Python's JSON-like values (dictionaries with string keys, lists, numbers,
  strings, \<^verbatim>\<open>None\<close>) are the datatype \<open>json\<close>; a dictionary is an association list in insertion
  order. Strings are byte strings (a non-ASCII character is its UTF-8 bytes).
\<close>

section \<open>JSON-like values\<close>

datatype json =
    JNull
  | JBool bool
  | JInt int
  | JFloat pyfloat
  | JStr string
  | JList "json list"
  | JObj "(string \<times> json) list"

definition json_opt :: "('a \<Rightarrow> json) \<Rightarrow> 'a option \<Rightarrow> json" where
  "json_opt f x = (case x of None \<Rightarrow> JNull | Some a \<Rightarrow> f a)"

text \<open>\<^verbatim>\<open>d.get(k)\<close> and \<^verbatim>\<open>d[k]\<close> on a dictionary.\<close>

definition dget :: "(string \<times> json) list \<Rightarrow> string \<Rightarrow> json" where
  "dget d k = (case map_of d k of None \<Rightarrow> JNull | Some v \<Rightarrow> v)"

definition ditem :: "(string \<times> json) list \<Rightarrow> string \<Rightarrow> py_exn + json" where
  "ditem d k = (case map_of d k of None \<Rightarrow> Inl KeyError | Some v \<Rightarrow> Inr v)"

lemma dget_Some: "dget d k \<noteq> JNull \<Longrightarrow> map_of d k = Some (dget d k)"
  by (auto simp: dget_def split: option.splits)

lemma ditem_Inr: "ditem d k = Inr v \<longleftrightarrow> map_of d k = Some v"
  by (auto simp: ditem_def split: option.splits)

section \<open>Enumerations\<close>

datatype event_type =
  LOGIN | TRANSACTION | ONBOARDING | ACCOUNT_RECOVERY | PRIVILEGED_ACCESS | PROFILE_CHANGE

datatype channel = MOBILE_APP | INTERNET_BANKING | BRANCH | API | ADMIN_CONSOLE

datatype decision = ALLOW | STEP_UP | BLOCK

datatype step_up_method =
  DEVICE_BIOMETRIC | OTP_SMS | SECURITY_QUESTIONS | VIDEO_KYC | MANAGER_APPROVAL

fun event_type_str :: "event_type \<Rightarrow> string" where
  "event_type_str LOGIN = ''login''"
| "event_type_str TRANSACTION = ''transaction''"
| "event_type_str ONBOARDING = ''onboarding''"
| "event_type_str ACCOUNT_RECOVERY = ''account_recovery''"
| "event_type_str PRIVILEGED_ACCESS = ''privileged_access''"
| "event_type_str PROFILE_CHANGE = ''profile_change''"

fun channel_str :: "channel \<Rightarrow> string" where
  "channel_str MOBILE_APP = ''mobile_app''"
| "channel_str INTERNET_BANKING = ''internet_banking''"
| "channel_str BRANCH = ''branch''"
| "channel_str API = ''api''"
| "channel_str ADMIN_CONSOLE = ''admin_console''"

fun decision_str :: "decision \<Rightarrow> string" where
  "decision_str ALLOW = ''ALLOW''"
| "decision_str STEP_UP = ''STEP_UP''"
| "decision_str BLOCK = ''BLOCK''"

fun step_up_method_str :: "step_up_method \<Rightarrow> string" where
  "step_up_method_str DEVICE_BIOMETRIC = ''device_biometric''"
| "step_up_method_str OTP_SMS = ''otp_sms''"
| "step_up_method_str SECURITY_QUESTIONS = ''security_questions''"
| "step_up_method_str VIDEO_KYC = ''video_kyc''"
| "step_up_method_str MANAGER_APPROVAL = ''manager_approval''"

section \<open>Models\<close>

record identity_event =
  ev_identity_id :: string
  ev_event_type :: event_type
  ev_channel :: channel
  ev_device_id :: string
  ev_geo :: string
  ev_hour_of_day :: int
  ev_amount :: "pyfloat option"
  ev_is_new_beneficiary :: bool
  ev_recovery_contact_changed :: bool
  ev_privileged_scope :: "string option"
  ev_device_attestation :: "string option"
  ev_behavior_assertion :: "string option"
  ev_idempotency_key :: "string option"

text \<open>The range pydantic enforces on \<^verbatim>\<open>hour_of_day\<close>.\<close>

definition event_ok :: "identity_event \<Rightarrow> bool" where
  "event_ok e \<longleftrightarrow> 0 \<le> ev_hour_of_day e \<and> ev_hour_of_day e \<le> 23"

text \<open>\<^verbatim>\<open>event.model_dump(mode="json")\<close>: the fields in declaration order.\<close>

definition event_dump :: "identity_event \<Rightarrow> (string \<times> json) list" where
  "event_dump e =
     [(''identity_id'', JStr (ev_identity_id e)),
      (''event_type'', JStr (event_type_str (ev_event_type e))),
      (''channel'', JStr (channel_str (ev_channel e))),
      (''device_id'', JStr (ev_device_id e)),
      (''geo'', JStr (ev_geo e)),
      (''hour_of_day'', JInt (ev_hour_of_day e)),
      (''amount'', json_opt JFloat (ev_amount e)),
      (''is_new_beneficiary'', JBool (ev_is_new_beneficiary e)),
      (''recovery_contact_changed'', JBool (ev_recovery_contact_changed e)),
      (''privileged_scope'', json_opt JStr (ev_privileged_scope e)),
      (''device_attestation'', json_opt JStr (ev_device_attestation e)),
      (''behavior_assertion'', json_opt JStr (ev_behavior_assertion e)),
      (''idempotency_key'', json_opt JStr (ev_idempotency_key e))]"

record risk_assessment =
  ra_event_id :: string
  ra_decision :: decision
  ra_step_up_method :: "step_up_method option"
  ra_challenge_id :: "string option"
  ra_message :: string
  ra_model_mode :: string
  ra_latency_ms :: pyfloat

text \<open>\<^verbatim>\<open>StepUpAssertionRequest\<close>.\<close>

record step_up_request =
  rq_assertion :: string

record step_up_result =
  sr_challenge_id :: json
  sr_decision :: decision
  sr_message :: string

fun client_message :: "decision \<Rightarrow> string" where
  "client_message ALLOW = ''Approved.''"
| "client_message STEP_UP = ''Additional verification is required to continue.''"
| "client_message BLOCK = ''This request could not be completed. Please contact support.''"

record soc_assessment =
  soc_event_id :: string
  soc_identity_id :: string
  soc_trust_score :: int
  soc_risk_band :: string
  soc_decision :: decision
  soc_step_up_method :: "step_up_method option"
  soc_challenge_id :: "string option"
  soc_reason_codes :: "string list"
  soc_feature_contributions :: "(pyfloat \<times> string) list"
  soc_shap_values :: "(pyfloat \<times> string) list"
  soc_counterfactual :: string
  soc_ml_risk :: "pyfloat option"
  soc_det_risk :: pyfloat
  soc_event_risk :: pyfloat
  soc_model_provenance :: string
  soc_model_mode :: string
  soc_degraded :: bool
  soc_latency_ms :: pyfloat

definition to_client_assessment :: "soc_assessment \<Rightarrow> risk_assessment" where
  "to_client_assessment soc =
     \<lparr> ra_event_id = soc_event_id soc,
       ra_decision = soc_decision soc,
       ra_step_up_method = (if soc_decision soc = STEP_UP then soc_step_up_method soc else None),
       ra_challenge_id = (if soc_decision soc = STEP_UP then soc_challenge_id soc else None),
       ra_message = client_message (soc_decision soc),
       ra_model_mode = soc_model_mode soc,
       ra_latency_ms = soc_latency_ms soc \<rparr>"

definition to_client :: "soc_assessment \<Rightarrow> risk_assessment" where
  "to_client soc = to_client_assessment soc"

definition to_audit_payload :: "soc_assessment \<Rightarrow> (string \<times> json) list" where
  "to_audit_payload soc =
     [(''type'', JStr ''assessment''),
      (''event_id'', JStr (soc_event_id soc)),
      (''identity_id'', JStr (soc_identity_id soc)),
      (''trust_score'', JInt (soc_trust_score soc)),
      (''risk_band'', JStr (soc_risk_band soc)),
      (''decision'', JStr (decision_str (soc_decision soc))),
      (''reasons'', JList (map JStr (soc_reason_codes soc))),
      (''feature_contributions'',
        JList (map (\<lambda>(c, n). JList [JFloat (py_round 4 c), JStr n])
                   (soc_feature_contributions soc))),
      (''shap_values'',
        JList (map (\<lambda>(c, n). JList [JFloat c, JStr n]) (soc_shap_values soc))),
      (''counterfactual'', JStr (soc_counterfactual soc)),
      (''ml_risk'', json_opt JFloat (soc_ml_risk soc)),
      (''det_risk'', JFloat (py_round 4 (soc_det_risk soc))),
      (''event_risk'', JFloat (py_round 4 (soc_event_risk soc))),
      (''model_provenance'', JStr (soc_model_provenance soc)),
      (''model_mode'', JStr (soc_model_mode soc)),
      (''degraded'', JBool (soc_degraded soc))]"

text \<open>\<^verbatim>\<open>RiskAssessment.model_dump()\<close>, whose enumeration members serialise as their values.\<close>

definition client_dump :: "risk_assessment \<Rightarrow> (string \<times> json) list" where
  "client_dump r =
     [(''event_id'', JStr (ra_event_id r)),
      (''decision'', JStr (decision_str (ra_decision r))),
      (''step_up_method'', json_opt (\<lambda>m. JStr (step_up_method_str m)) (ra_step_up_method r)),
      (''challenge_id'', json_opt JStr (ra_challenge_id r)),
      (''message'', JStr (ra_message r)),
      (''model_mode'', JStr (ra_model_mode r)),
      (''latency_ms'', JFloat (ra_latency_ms r))]"

section \<open>Lemmas\<close>

lemma event_type_str_inj [simp]: "event_type_str a = event_type_str b \<longleftrightarrow> a = b"
  by (cases a; cases b) simp_all

lemma channel_str_inj [simp]: "channel_str a = channel_str b \<longleftrightarrow> a = b"
  by (cases a; cases b) simp_all

lemma decision_str_inj [simp]: "decision_str a = decision_str b \<longleftrightarrow> a = b"
  by (cases a; cases b) simp_all

lemma step_up_method_str_inj [simp]: "step_up_method_str a = step_up_method_str b \<longleftrightarrow> a = b"
  by (cases a; cases b) simp_all

lemma json_opt_eq:
  assumes "\<And>a b. f a = f b \<longleftrightarrow> a = b" "\<And>a. f a \<noteq> JNull"
  shows "json_opt f x = json_opt f y \<longleftrightarrow> x = y"
  using assms by (auto simp: json_opt_def dest: sym split: option.splits)

lemma json_opt_JFloat_eq [simp]: "json_opt JFloat x = json_opt JFloat y \<longleftrightarrow> x = y"
  by (rule json_opt_eq) simp_all

lemma json_opt_JStr_eq [simp]: "json_opt JStr x = json_opt JStr y \<longleftrightarrow> x = y"
  by (rule json_opt_eq) simp_all

text \<open>Two events with the same dump are the same event.\<close>

lemma event_dump_inj: "event_dump e = event_dump e' \<Longrightarrow> e = e'"
  by (simp add: event_dump_def)

text \<open>
  The client projection reads only the six fields the client may see: two assessments that agree
  on them (and on the challenge only when a step-up is required) give the same response.
\<close>

definition client_visible :: "soc_assessment \<Rightarrow> soc_assessment \<Rightarrow> bool" where
  "client_visible a b \<longleftrightarrow>
     soc_event_id a = soc_event_id b \<and> soc_decision a = soc_decision b \<and>
     soc_model_mode a = soc_model_mode b \<and> soc_latency_ms a = soc_latency_ms b \<and>
     (soc_decision a = STEP_UP \<longrightarrow>
        soc_step_up_method a = soc_step_up_method b \<and> soc_challenge_id a = soc_challenge_id b)"

text \<open>
  The client plane leaks no detector internals. Two assessments give the client the same
  response exactly when they agree on the event id, the decision, the model mode, the latency and,
  for a step-up, the method and the challenge; the trust score, the risks, the band, the reasons and
  the explanations have no influence on it.
\<close>

theorem client_sees_decision_only: "to_client a = to_client b \<longleftrightarrow> client_visible a b"
  by (cases "soc_decision a"; cases "soc_decision b")
    (auto simp: to_client_def to_client_assessment_def client_visible_def)

end
