(* ===== verification/Policy.thy ===== *)
theory Policy
  imports Schemas
begin

text \<open>
  The policy orchestrator (\<^verbatim>\<open>backend/app/policy.py\<close>): the band from trust and event risk, the
  decision of each band, the cheapest sufficient step-up. The degradation policy
  (\<^verbatim>\<open>backend/app/resilience.py\<close>) that adjusts a decision taken without a working model is in the
  second half. Both are pure.
\<close>

section \<open>Bands and decisions\<close>

datatype band =
  LOW | ELEVATED | HIGH | CRITICAL | DRIFT_REVIEW | DEGRADED_FAILCLOSED | DEGRADED_FAILOPEN

fun band_str :: "band \<Rightarrow> string" where
  "band_str LOW = ''LOW''"
| "band_str ELEVATED = ''ELEVATED''"
| "band_str HIGH = ''HIGH''"
| "band_str CRITICAL = ''CRITICAL''"
| "band_str DRIFT_REVIEW = ''DRIFT_REVIEW''"
| "band_str DEGRADED_FAILCLOSED = ''DEGRADED_FAILCLOSED''"
| "band_str DEGRADED_FAILOPEN = ''DEGRADED_FAILOPEN''"

lemma band_str_inj [simp]: "band_str a = band_str b \<longleftrightarrow> a = b"
  by (cases a; cases b) simp_all

definition risk_banding :: "int \<Rightarrow> pyfloat \<Rightarrow> band" where
  "risk_banding trust_score event_risk =
     (if 650 \<le> trust_score \<and> event_risk < fl 0.45 then LOW
      else if 400 \<le> trust_score \<and> event_risk < fl 0.65 then ELEVATED
      else if 150 \<le> trust_score then HIGH
      else CRITICAL)"

definition cheapest_sufficient :: "identity_event \<Rightarrow> bool \<Rightarrow> step_up_method" where
  "cheapest_sufficient e strong =
     (if ev_event_type e = ACCOUNT_RECOVERY \<or> ev_event_type e = ONBOARDING then VIDEO_KYC
      else if strong then OTP_SMS
      else DEVICE_BIOMETRIC)"

definition decide ::
  "int \<Rightarrow> pyfloat \<Rightarrow> identity_event \<Rightarrow> decision \<times> band \<times> step_up_method option" where
  "decide trust_score event_risk e =
     (let band = risk_banding trust_score event_risk in
      if ev_event_type e = PRIVILEGED_ACCESS then
        (if band = LOW then (ALLOW, band, None)
         else if band = ELEVATED \<or> band = HIGH then (STEP_UP, band, Some MANAGER_APPROVAL)
         else (BLOCK, band, None))
      else if band = LOW then (ALLOW, band, None)
      else if band = ELEVATED then (STEP_UP, band, Some (cheapest_sufficient e False))
      else if band = HIGH then (STEP_UP, band, Some (cheapest_sufficient e True))
      else (BLOCK, band, None))"

section \<open>Degradation\<close>

definition fail_closed_events :: "event_type set" where
  "fail_closed_events = {PRIVILEGED_ACCESS, ACCOUNT_RECOVERY, ONBOARDING}"

definition resilience_apply ::
  "decision \<Rightarrow> band \<Rightarrow> step_up_method option \<Rightarrow> identity_event
     \<Rightarrow> decision \<times> band \<times> step_up_method option" where
  "resilience_apply dec band step_up e =
     (if ev_event_type e \<in> fail_closed_events then
        (if dec = ALLOW then
           (STEP_UP, DEGRADED_FAILCLOSED,
            Some (if ev_event_type e = PRIVILEGED_ACCESS then MANAGER_APPROVAL else VIDEO_KYC))
         else (dec, DEGRADED_FAILCLOSED, step_up))
      else (dec, DEGRADED_FAILOPEN, step_up))"

section \<open>Lemmas\<close>

lemma decide_simps:
  "fst (decide t r e) = ALLOW \<longleftrightarrow> 650 \<le> t \<and> r < fl 0.45"
  "fst (snd (decide t r e)) = risk_banding t r"
  by (auto simp: decide_def risk_banding_def Let_def)

lemma decide_allow: "fst (decide t r e) = ALLOW \<Longrightarrow> decide t r e = (ALLOW, LOW, None)"
  by (auto simp: decide_def risk_banding_def Let_def split: if_splits)

lemma decide_step_up_method:
  "fst (decide t r e) = STEP_UP \<longleftrightarrow> snd (snd (decide t r e)) \<noteq> None"
  by (auto simp: decide_def risk_banding_def Let_def)

lemma resilience_step_up:
  "(d = STEP_UP \<longleftrightarrow> m \<noteq> None) \<Longrightarrow>
   fst (resilience_apply d b m e) = STEP_UP \<longleftrightarrow> snd (snd (resilience_apply d b m e)) \<noteq> None"
  by (auto simp: resilience_apply_def)

lemma resilience_allow:
  "fst (resilience_apply d b m e) = ALLOW \<longleftrightarrow> d = ALLOW \<and> ev_event_type e \<notin> fail_closed_events"
  by (auto simp: resilience_apply_def)

lemma resilience_band:
  "fst (snd (resilience_apply d b m e)) =
     (if ev_event_type e \<in> fail_closed_events then DEGRADED_FAILCLOSED else DEGRADED_FAILOPEN)"
  by (simp add: resilience_apply_def)

text \<open>How strict a decision is: the order the policy is monotone in.\<close>

fun strictness :: "decision \<Rightarrow> nat" where
  "strictness ALLOW = 0"
| "strictness STEP_UP = 1"
| "strictness BLOCK = 2"

lemma pyfloat_less_trans: "(x::pyfloat) \<le> y \<Longrightarrow> y < z \<Longrightarrow> x < z"
  by (cases x; cases y; cases z) auto

lemma resilience_stricter: "strictness d \<le> strictness (fst (resilience_apply d b m e))"
  by (auto simp: resilience_apply_def)

section \<open>Properties of the policy\<close>

text \<open>
  The policy is monotone: more trust and less risk never make the decision stricter, with or
  without the degradation policy on top.
\<close>

theorem decide_monotone:
  assumes "t \<le> t'" "r' \<le> r"
  shows "strictness (fst (decide t' r' e)) \<le> strictness (fst (decide t r e)) \<and>
    strictness (fst (decide t r e)) \<le>
      strictness (fst (resilience_apply (fst (decide t r e)) b (snd (snd (decide t r e))) e))"
proof -
  have "r < fl 0.45 \<Longrightarrow> r' < fl 0.45" "r < fl 0.65 \<Longrightarrow> r' < fl 0.65"
    using assms(2) pyfloat_less_trans by blast+
  then show ?thesis
    using assms(1) resilience_stricter
    by (auto simp: decide_def risk_banding_def Let_def simp del: fl_literals)
qed

theorem decide_monotone_witness:
  "\<forall>e. strictness (fst (decide 700 (Fin 0) e)) \<le> strictness (fst (decide 300 (Fin 1) e))"
proof
  fix e show "strictness (fst (decide 700 (Fin 0) e)) \<le> strictness (fst (decide 300 (Fin 1) e))"
    using decide_monotone [of 300 700 "Fin 0" "Fin 1" e LOW] by simp
qed

text \<open>
  The whole decision table. Trust of at least 650 with risk below 0.45 allows; otherwise trust
  of at least 150 asks for a step-up (a manager's approval for privileged access, video KYC for
  recovery and onboarding, else the device biometric while trust is at least 400 and risk below
  0.65, and the one-time password below that); trust under 150 blocks unless it is in a lower band.
\<close>

theorem decide_table:
  "decide t r e =
     (if 650 \<le> t \<and> r < fl 0.45 then (ALLOW, LOW, None)
      else if 150 \<le> t then
        (STEP_UP, if 400 \<le> t \<and> r < fl 0.65 then ELEVATED else HIGH,
         Some (case ev_event_type e of
                 PRIVILEGED_ACCESS \<Rightarrow> MANAGER_APPROVAL
               | ACCOUNT_RECOVERY \<Rightarrow> VIDEO_KYC
               | ONBOARDING \<Rightarrow> VIDEO_KYC
               | _ \<Rightarrow> if 400 \<le> t \<and> r < fl 0.65 then DEVICE_BIOMETRIC else OTP_SMS))
      else (BLOCK, CRITICAL, None))"
  by (auto simp: decide_def risk_banding_def cheapest_sufficient_def Let_def
      split: event_type.splits)

end
