(* ===== verification/StateStore.thy ===== *)
theory StateStore
  imports Schemas
begin

text \<open>
  Externalised per-identity state: \<^verbatim>\<open>backend/app/state_store.py\<close>. The record \<open>identity_state\<close> is the
  dataclass \<^verbatim>\<open>IdentityState\<close>; \<open>state_to_json\<close> and \<open>state_from_json\<close> are its schema-explicit codec up to the
  JSON value (the text of a JSON value is \<^verbatim>\<open>json.dumps\<close>/\<^verbatim>\<open>json.loads\<close>, a parameter with the round-trip
  law where it is used). \<open>mem_store\<close> and its operations are \<^verbatim>\<open>InMemoryStateStore\<close>;
  \<open>redis_commit\<close> and its companions are \<^verbatim>\<open>RedisStateStore\<close> over a client library that is a parameter.
  The locale \<open>state_store\<close> is the abstract class \<^verbatim>\<open>StateStore\<close>: what the engine relies on.
\<close>

section \<open>The state of an identity\<close>

definition DEFAULT_TRUST :: int where "DEFAULT_TRUST = 700"

record identity_state =
  st_trust :: int
  st_devices :: "string fset"
  st_geos :: "string fset"
  st_hours :: "int list"
  st_amounts :: "pyfloat list"
  st_event_count :: int
  st_burst :: pyfloat
  st_last_event_ts :: pyfloat
  st_recovered_in_window :: int
  st_recovery_window_start :: pyfloat
  st_risk_window :: "pyfloat list"
  st_risk_ewma :: pyfloat
  st_cusum :: pyfloat
  st_under_review :: bool
  st_cold_prior_used :: bool
  st_last_geo :: string
  st_last_geo_ts :: pyfloat
  st_version :: int

definition initial_state :: identity_state where
  "initial_state =
     \<lparr> st_trust = DEFAULT_TRUST, st_devices = {||}, st_geos = {||}, st_hours = [], st_amounts = [],
       st_event_count = 0, st_burst = 0, st_last_event_ts = 0, st_recovered_in_window = 0,
       st_recovery_window_start = 0, st_risk_window = [], st_risk_ewma = 0, st_cusum = 0,
       st_under_review = False, st_cold_prior_used = False, st_last_geo = '''', st_last_geo_ts = 0,
       st_version = 0 \<rparr>"

subsection \<open>The JSON codec\<close>

definition state_to_json :: "identity_state \<Rightarrow> json" where
  "state_to_json s = JObj
     [(''trust'', JInt (st_trust s)),
      (''devices'', JList (map JStr (sorted_list_of_fset (st_devices s)))),
      (''geos'', JList (map JStr (sorted_list_of_fset (st_geos s)))),
      (''hours'', JList (map JInt (st_hours s))),
      (''amounts'', JList (map JFloat (st_amounts s))),
      (''event_count'', JInt (st_event_count s)),
      (''burst'', JFloat (st_burst s)),
      (''last_event_ts'', JFloat (st_last_event_ts s)),
      (''recovered_in_window'', JInt (st_recovered_in_window s)),
      (''recovery_window_start'', JFloat (st_recovery_window_start s)),
      (''risk_window'', JList (map JFloat (st_risk_window s))),
      (''risk_ewma'', JFloat (st_risk_ewma s)),
      (''cusum'', JFloat (st_cusum s)),
      (''under_review'', JBool (st_under_review s)),
      (''cold_prior_used'', JBool (st_cold_prior_used s)),
      (''last_geo'', JStr (st_last_geo s)),
      (''last_geo_ts'', JFloat (st_last_geo_ts s)),
      (''version'', JInt (st_version s))]"

fun as_int :: "json \<Rightarrow> py_exn + int" where
  "as_int (JInt n) = Inr n" | "as_int _ = Inl Unmodelled"

fun as_float :: "json \<Rightarrow> py_exn + pyfloat" where
  "as_float (JFloat x) = Inr x" | "as_float _ = Inl Unmodelled"

fun as_str :: "json \<Rightarrow> py_exn + string" where
  "as_str (JStr x) = Inr x" | "as_str _ = Inl Unmodelled"

fun as_bool :: "json \<Rightarrow> py_exn + bool" where
  "as_bool (JBool b) = Inr b" | "as_bool _ = Inl Unmodelled"

fun as_each :: "(json \<Rightarrow> py_exn + 'a) \<Rightarrow> json list \<Rightarrow> py_exn + 'a list" where
  "as_each f [] = Inr []"
| "as_each f (j # js) = sbind (f j) (\<lambda>x. sbind (as_each f js) (\<lambda>xs. Inr (x # xs)))"

fun as_list :: "(json \<Rightarrow> py_exn + 'a) \<Rightarrow> json \<Rightarrow> py_exn + 'a list" where
  "as_list f (JList js) = as_each f js" | "as_list f _ = Inl Unmodelled"

text \<open>
  \<open>set_field\<close> is one keyword argument of \<^verbatim>\<open>cls(**d)\<close>: an unknown name is a \<^verbatim>\<open>TypeError\<close>. The
  dataclass does not check the type of a value; a value of another type than the declared one is
  where the model stops (\<open>Unmodelled\<close>).
\<close>

definition set_field :: "string \<times> json \<Rightarrow> identity_state \<Rightarrow> py_exn + identity_state" where
  "set_field kv s =
     (let k = fst kv; v = snd kv in
      if k = ''trust'' then sbind (as_int v) (\<lambda>x. Inr (s\<lparr>st_trust := x\<rparr>))
      else if k = ''devices'' then
        sbind (as_list as_str v) (\<lambda>x. Inr (s\<lparr>st_devices := fset_of_list x\<rparr>))
      else if k = ''geos'' then
        sbind (as_list as_str v) (\<lambda>x. Inr (s\<lparr>st_geos := fset_of_list x\<rparr>))
      else if k = ''hours'' then sbind (as_list as_int v) (\<lambda>x. Inr (s\<lparr>st_hours := x\<rparr>))
      else if k = ''amounts'' then sbind (as_list as_float v) (\<lambda>x. Inr (s\<lparr>st_amounts := x\<rparr>))
      else if k = ''event_count'' then sbind (as_int v) (\<lambda>x. Inr (s\<lparr>st_event_count := x\<rparr>))
      else if k = ''burst'' then sbind (as_float v) (\<lambda>x. Inr (s\<lparr>st_burst := x\<rparr>))
      else if k = ''last_event_ts'' then sbind (as_float v) (\<lambda>x. Inr (s\<lparr>st_last_event_ts := x\<rparr>))
      else if k = ''recovered_in_window'' then
        sbind (as_int v) (\<lambda>x. Inr (s\<lparr>st_recovered_in_window := x\<rparr>))
      else if k = ''recovery_window_start'' then
        sbind (as_float v) (\<lambda>x. Inr (s\<lparr>st_recovery_window_start := x\<rparr>))
      else if k = ''risk_window'' then
        sbind (as_list as_float v) (\<lambda>x. Inr (s\<lparr>st_risk_window := x\<rparr>))
      else if k = ''risk_ewma'' then sbind (as_float v) (\<lambda>x. Inr (s\<lparr>st_risk_ewma := x\<rparr>))
      else if k = ''cusum'' then sbind (as_float v) (\<lambda>x. Inr (s\<lparr>st_cusum := x\<rparr>))
      else if k = ''under_review'' then sbind (as_bool v) (\<lambda>x. Inr (s\<lparr>st_under_review := x\<rparr>))
      else if k = ''cold_prior_used'' then
        sbind (as_bool v) (\<lambda>x. Inr (s\<lparr>st_cold_prior_used := x\<rparr>))
      else if k = ''last_geo'' then sbind (as_str v) (\<lambda>x. Inr (s\<lparr>st_last_geo := x\<rparr>))
      else if k = ''last_geo_ts'' then sbind (as_float v) (\<lambda>x. Inr (s\<lparr>st_last_geo_ts := x\<rparr>))
      else if k = ''version'' then sbind (as_int v) (\<lambda>x. Inr (s\<lparr>st_version := x\<rparr>))
      else Inl TypeError)"

fun set_fields :: "(string \<times> json) list \<Rightarrow> identity_state \<Rightarrow> py_exn + identity_state" where
  "set_fields [] s = Inr s"
| "set_fields (kv # d) s = sbind (set_field kv s) (set_fields d)"

definition state_from_json :: "json \<Rightarrow> py_exn + identity_state" where
  "state_from_json j = (case j of JObj d \<Rightarrow> set_fields d initial_state | _ \<Rightarrow> Inl AttributeError)"

lemma as_each_map: "(\<And>x. f (g x) = Inr x) \<Longrightarrow> as_each f (map g xs) = Inr xs"
  by (induction xs) simp_all

lemma as_list_map [simp]:
  "as_list as_str (JList (map JStr xs)) = Inr xs"
  "as_list as_int (JList (map JInt ns)) = Inr ns"
  "as_list as_float (JList (map JFloat fs)) = Inr fs"
  by (simp_all add: as_each_map)

lemma fset_of_sorted_list [simp]: "fset_of_list (sorted_list_of_fset A) = A"
  by (rule fset_eqI) (simp add: fset_of_list_elem)

lemma state_json_roundtrip_aux: "state_from_json (state_to_json s) = Inr s"
  by (simp add: state_from_json_def state_to_json_def set_field_def Let_def
      del: as_list.simps)

section \<open>The interface\<close>

record 's store_ops =
  so_lock :: "'s \<Rightarrow> string \<Rightarrow> 's \<times> (py_exn + unit)"
  so_unlock :: "'s \<Rightarrow> string \<Rightarrow> 's \<times> (py_exn + unit)"
  so_load :: "'s \<Rightarrow> string \<Rightarrow> py_exn + identity_state"
  so_commit :: "'s \<Rightarrow> string \<Rightarrow> identity_state \<Rightarrow> int \<Rightarrow> 's \<times> bool"
  so_device_add :: "'s \<Rightarrow> string \<Rightarrow> string \<Rightarrow> 's \<times> (py_exn + int)"
  so_device_count :: "'s \<Rightarrow> string \<Rightarrow> py_exn + int"

text \<open>
  \<^verbatim>\<open>with store.lock(i): body\<close>. Leaving the block releases the lock, whatever the body did; a release
  that fails (a lock that has expired) raises instead of the body's result.
\<close>

definition with_lock ::
  "'s store_ops \<Rightarrow> string \<Rightarrow> ('s \<Rightarrow> 's \<times> (py_exn + 'a)) \<Rightarrow> 's \<Rightarrow> 's \<times> (py_exn + 'a)" where
  "with_lock ops i body s =
     (case so_lock ops s i of
        (s1, Inl x) \<Rightarrow> (s1, Inl x)
      | (s1, Inr _) \<Rightarrow>
          (case body s1 of
             (s2, r) \<Rightarrow> (case so_unlock ops s2 i of
                            (s3, Inl x) \<Rightarrow> (s3, Inl x)
                          | (s3, Inr _) \<Rightarrow> (s3, r))))"

text \<open>
  The contract of a store, over what it holds for each identity (\<open>view\<close>) and each device
  (\<open>dview\<close>): a load returns what is held, a commit is a compare-and-set on the version that
  either writes exactly one identity with the next version or writes nothing, and the device graph
  only grows and does not touch the identities. \<open>inv\<close> is the representation invariant.
\<close>

locale state_store =
  fixes ops :: "'s store_ops"
    and view :: "'s \<Rightarrow> string \<Rightarrow> identity_state"
    and dview :: "'s \<Rightarrow> string \<Rightarrow> string fset"
    and inv :: "'s \<Rightarrow> bool"
  assumes load_view: "inv s \<Longrightarrow> so_load ops s i = Inr st \<Longrightarrow> st = view s i"
    and commit_true: "inv s \<Longrightarrow> so_commit ops s i st v = (s', True) \<Longrightarrow>
      inv s' \<and> st_version (view s i) = v \<and> view s' = (view s)(i := st\<lparr>st_version := v + 1\<rparr>)
        \<and> dview s' = dview s"
    and commit_false: "inv s \<Longrightarrow> so_commit ops s i st v = (s', False) \<Longrightarrow>
      inv s' \<and> view s' = view s \<and> dview s' = dview s"
    and lock_view: "inv s \<Longrightarrow> so_lock ops s i = (s', r) \<Longrightarrow>
      inv s' \<and> view s' = view s \<and> dview s' = dview s"
    and unlock_view: "inv s \<Longrightarrow> so_unlock ops s i = (s', r) \<Longrightarrow>
      inv s' \<and> view s' = view s \<and> dview s' = dview s"
    and device_add_inv: "inv s \<Longrightarrow> so_device_add ops s d i = (s', c) \<Longrightarrow>
      inv s' \<and> view s' = view s \<and> dview s d' |\<subseteq>| dview s' d'"
    and device_add_count: "inv s \<Longrightarrow> so_device_add ops s d i = (s', Inr n) \<Longrightarrow>
      i |\<in>| dview s' d \<and> n = int (fcard (dview s' d))"
begin

text \<open>The reader of a committed state sees it, with its version moved on by one.\<close>

lemma load_after_commit:
  assumes "inv s" "so_commit ops s i st v = (s', True)" "so_load ops s' i = Inr st'"
  shows "st' = st\<lparr>st_version := v + 1\<rparr>"
  using commit_true [OF assms(1,2)] load_view [of s' i st'] assms(3) by simp

text \<open>A commit for one identity never changes what is loaded for another.\<close>

lemma load_other:
  assumes "inv s" "so_commit ops s i st v = (s', ok)" "j \<noteq> i"
  shows "view s' j = view s j"
  using assms commit_true [of s i st v s'] commit_false [of s i st v s'] by (cases ok) auto

text \<open>
  Once a version has been committed over, a writer that loaded the earlier version fails: no update
  is lost.
\<close>

lemma stale_commit_fails:
  assumes "inv s" "so_commit ops s i st v = (s', True)" "inv s''" "view s'' = view s'"
    and "so_commit ops s'' i st2 v = (s3, ok)"
  shows "\<not> ok"
proof
  assume ok: ok
  have "view s' i = st\<lparr>st_version := v + 1\<rparr>"
    using commit_true [OF assms(1,2)] by simp
  moreover have "st_version (view s'' i) = v"
    using commit_true [of s'' i st2 v s3] assms(3,5) ok by simp
  ultimately show False using assms(4) by simp
qed

text \<open>Committing the state that was loaded, at the version it carries, keeps versions growing.\<close>

lemma version_grows:
  assumes "inv s" "so_commit ops s i st v = (s', ok)"
  shows "st_version (view s j) \<le> st_version (view s' j)"
  using assms commit_true [of s i st v s'] commit_false [of s i st v s']
  by (cases ok; cases "j = i") auto

lemma device_add_positive:
  assumes "inv s" "so_device_add ops s d i = (s', Inr n)"
  shows "1 \<le> n"
proof -
  have "i |\<in>| dview s' d" "n = int (fcard (dview s' d))"
    using device_add_count [OF assms] by auto
  then have "dview s' d \<noteq> {||}" by auto
  then have "0 < fcard (dview s' d)"
    by (metis bot_fset.rep_eq card_gt_0_iff fcard.rep_eq finite_fset fset_inject)
  then show ?thesis using \<open>n = int (fcard (dview s' d))\<close> by linarith
qed

end

section \<open>The in-memory store\<close>

text \<open>
  \<open>mem_key_locks\<close> gives each identity the lock object created for it (a lock is its number).
\<close>

record mem_store =
  mem_data :: "string \<Rightarrow> identity_state option"
  mem_devices :: "string \<Rightarrow> string fset option"
  mem_key_locks :: "string \<Rightarrow> nat option"
  mem_next_lock :: nat

definition mem_empty :: mem_store where
  "mem_empty = \<lparr> mem_data = Map.empty, mem_devices = Map.empty, mem_key_locks = Map.empty,
                 mem_next_lock = 0 \<rparr>"

definition mem_key_lock :: "mem_store \<Rightarrow> string \<Rightarrow> mem_store \<times> nat" where
  "mem_key_lock s i =
     (case mem_key_locks s i of
        Some lk \<Rightarrow> (s, lk)
      | None \<Rightarrow> (s\<lparr>mem_key_locks := (mem_key_locks s)(i \<mapsto> mem_next_lock s),
                   mem_next_lock := Suc (mem_next_lock s)\<rparr>, mem_next_lock s))"

definition mem_load :: "mem_store \<Rightarrow> string \<Rightarrow> identity_state" where
  "mem_load s i = (case mem_data s i of Some st \<Rightarrow> st | None \<Rightarrow> initial_state)"

definition mem_commit :: "mem_store \<Rightarrow> string \<Rightarrow> identity_state \<Rightarrow> int \<Rightarrow> mem_store \<times> bool" where
  "mem_commit s i st expected_version =
     (let current_version = (case mem_data s i of Some cur \<Rightarrow> st_version cur | None \<Rightarrow> 0) in
      if current_version \<noteq> expected_version then (s, False)
      else (s\<lparr>mem_data := (mem_data s)(i \<mapsto> st\<lparr>st_version := expected_version + 1\<rparr>)\<rparr>, True))"

definition mem_device_add :: "mem_store \<Rightarrow> string \<Rightarrow> string \<Rightarrow> mem_store \<times> int" where
  "mem_device_add s d i =
     (let ids = finsert i (case mem_devices s d of Some ids \<Rightarrow> ids | None \<Rightarrow> {||}) in
      (s\<lparr>mem_devices := (mem_devices s)(d \<mapsto> ids)\<rparr>, int (fcard ids)))"

definition mem_device_count :: "mem_store \<Rightarrow> string \<Rightarrow> int" where
  "mem_device_count s d = int (fcard (case mem_devices s d of Some ids \<Rightarrow> ids | None \<Rightarrow> {||}))"

definition mem_ops :: "mem_store store_ops" where
  "mem_ops = \<lparr> so_lock = (\<lambda>s i. (fst (mem_key_lock s i), Inr ())),
               so_unlock = (\<lambda>s i. (s, Inr ())),
               so_load = (\<lambda>s i. Inr (mem_load s i)),
               so_commit = mem_commit,
               so_device_add = (\<lambda>s d i. (fst (mem_device_add s d i), Inr (snd (mem_device_add s d i)))),
               so_device_count = (\<lambda>s d. Inr (mem_device_count s d)) \<rparr>"

definition mem_dview :: "mem_store \<Rightarrow> string \<Rightarrow> string fset" where
  "mem_dview s d = (case mem_devices s d of Some ids \<Rightarrow> ids | None \<Rightarrow> {||})"

lemma mem_ops_simps [simp]:
  "so_lock mem_ops s i = (fst (mem_key_lock s i), Inr ())"
  "so_unlock mem_ops s i = (s, Inr ())"
  "so_load mem_ops s i = Inr (mem_load s i)"
  "so_commit mem_ops = mem_commit"
  "so_device_add mem_ops s d i = (fst (mem_device_add s d i), Inr (snd (mem_device_add s d i)))"
  "so_device_count mem_ops s d = Inr (mem_device_count s d)"
  by (simp_all add: mem_ops_def)

lemma mem_commit_iff:
  "snd (mem_commit s i st v) \<longleftrightarrow> st_version (mem_load s i) = v"
  by (auto simp: mem_commit_def mem_load_def initial_state_def Let_def split: option.splits)

interpretation mem: state_store mem_ops mem_load mem_dview "\<lambda>_. True"
proof unfold_locales
  fix s s' :: mem_store and i st v
  assume "so_commit mem_ops s i st v = (s', True)"
  then show "True \<and> st_version (mem_load s i) = v
      \<and> mem_load s' = (mem_load s)(i := st\<lparr>st_version := v + 1\<rparr>) \<and> mem_dview s' = mem_dview s"
    by (auto simp: mem_commit_def mem_load_def mem_dview_def initial_state_def fun_eq_iff Let_def
        split: option.splits if_splits)
qed (auto simp: mem_commit_def mem_load_def mem_dview_def mem_key_lock_def mem_device_add_def
      fun_eq_iff Let_def split: option.splits if_splits)

section \<open>The Redis store\<close>

text \<open>
  The Redis client library and server are outside the repository: \<open>redis_client\<close> is what the store
  calls of them, over a server state \<open>'r\<close> and encoded values \<open>'b\<close>. \<open>rc_exec_set\<close> is
  \<^verbatim>\<open>multi(); set(key, value); execute()\<close>. Every call may raise.
\<close>

record ('r, 'b) redis_client =
  rc_lock :: "'r \<Rightarrow> string \<Rightarrow> 'r \<times> (py_exn + unit)"
  rc_release :: "'r \<Rightarrow> string \<Rightarrow> 'r \<times> (py_exn + unit)"
  rc_get :: "'r \<Rightarrow> string \<Rightarrow> py_exn + 'b option"
  rc_watch :: "'r \<Rightarrow> string \<Rightarrow> 'r \<times> (py_exn + unit)"
  rc_unwatch :: "'r \<Rightarrow> 'r \<times> (py_exn + unit)"
  rc_exec_set :: "'r \<Rightarrow> string \<Rightarrow> 'b \<Rightarrow> 'r \<times> (py_exn + unit)"
  rc_sadd :: "'r \<Rightarrow> string \<Rightarrow> string \<Rightarrow> 'r \<times> (py_exn + unit)"
  rc_scard :: "'r \<Rightarrow> string \<Rightarrow> py_exn + int"
  rc_dumps :: "json \<Rightarrow> 'b"
  rc_loads :: "'b \<Rightarrow> py_exn + json"
  rc_empty :: 'b

definition redis_key :: "string \<Rightarrow> string \<Rightarrow> string" where
  "redis_key ns i = ns @ '':id:'' @ i"

definition redis_dev_key :: "string \<Rightarrow> string \<Rightarrow> string" where
  "redis_dev_key ns d = ns @ '':dev:'' @ d"

definition redis_lock_key :: "string \<Rightarrow> string \<Rightarrow> string" where
  "redis_lock_key ns i = ns @ '':lock:'' @ i"

text \<open>\<^verbatim>\<open>IdentityState.from_json(raw) if raw else IdentityState()\<close>.\<close>

definition redis_decode :: "('r, 'b) redis_client \<Rightarrow> 'b option \<Rightarrow> py_exn + identity_state" where
  "redis_decode c raw =
     (case raw of None \<Rightarrow> Inr initial_state
      | Some b \<Rightarrow> if b = rc_empty c then Inr initial_state
                  else sbind (rc_loads c b) state_from_json)"

definition redis_load ::
  "('r, 'b) redis_client \<Rightarrow> string \<Rightarrow> 'r \<Rightarrow> string \<Rightarrow> py_exn + identity_state" where
  "redis_load c ns s i = sbind (rc_get c s (redis_key ns i)) (redis_decode c)"

text \<open>
  The whole \<^verbatim>\<open>try\<close> block of \<^verbatim>\<open>commit\<close>: any exception, the client's or the decoder's, is \<open>False\<close>.
\<close>

definition redis_commit ::
  "('r, 'b) redis_client \<Rightarrow> string \<Rightarrow> 'r \<Rightarrow> string \<Rightarrow> identity_state \<Rightarrow> int \<Rightarrow> 'r \<times> bool" where
  "redis_commit c ns s i st expected_version =
     (let key = redis_key ns i in
      case rc_watch c s key of
        (s1, Inl _) \<Rightarrow> (s1, False)
      | (s1, Inr _) \<Rightarrow>
        (case rc_get c s1 key of
           Inl _ \<Rightarrow> (s1, False)
         | Inr raw \<Rightarrow>
           (case sbind (redis_decode c raw) (\<lambda>cur. Inr (st_version cur)) of
              Inl _ \<Rightarrow> (s1, False)
            | Inr current_version \<Rightarrow>
              if current_version \<noteq> expected_version then (fst (rc_unwatch c s1), False)
              else (case rc_exec_set c s1 key
                          (rc_dumps c (state_to_json (st\<lparr>st_version := expected_version + 1\<rparr>))) of
                      (s2, Inl _) \<Rightarrow> (s2, False)
                    | (s2, Inr _) \<Rightarrow> (s2, True)))))"

definition redis_device_add ::
  "('r, 'b) redis_client \<Rightarrow> string \<Rightarrow> 'r \<Rightarrow> string \<Rightarrow> string \<Rightarrow> 'r \<times> (py_exn + int)" where
  "redis_device_add c ns s d i =
     (case rc_sadd c s (redis_dev_key ns d) i of
        (s1, Inl e) \<Rightarrow> (s1, Inl e)
      | (s1, Inr _) \<Rightarrow> (s1, rc_scard c s1 (redis_dev_key ns d)))"

definition redis_device_count ::
  "('r, 'b) redis_client \<Rightarrow> string \<Rightarrow> 'r \<Rightarrow> string \<Rightarrow> py_exn + int" where
  "redis_device_count c ns s d = rc_scard c s (redis_dev_key ns d)"

definition redis_ops :: "('r, 'b) redis_client \<Rightarrow> string \<Rightarrow> 'r store_ops" where
  "redis_ops c ns =
     \<lparr> so_lock = (\<lambda>s i. rc_lock c s (redis_lock_key ns i)),
       so_unlock = (\<lambda>s i. rc_release c s (redis_lock_key ns i)),
       so_load = redis_load c ns,
       so_commit = redis_commit c ns,
       so_device_add = redis_device_add c ns,
       so_device_count = redis_device_count c ns \<rparr>"

text \<open>
  The documented behaviour of Redis the store relies on, over the string keys (\<open>kv\<close>) and the sets
  (\<open>sets\<close>) the server holds: \<^verbatim>\<open>GET\<close> reads, a successful \<^verbatim>\<open>EXEC\<close> writes the queued value and a
  failed one nothing, \<^verbatim>\<open>SADD\<close> adds a member or fails, \<^verbatim>\<open>SCARD\<close> counts; and the JSON text of a
  state is not empty and parses back to the same JSON value.
\<close>

definition redis_laws ::
  "('r, 'b) redis_client \<Rightarrow> ('r \<Rightarrow> string \<Rightarrow> 'b option) \<Rightarrow> ('r \<Rightarrow> string \<Rightarrow> string fset) \<Rightarrow> bool" where
  "redis_laws c kv sets \<longleftrightarrow>
     (\<forall>s k v. rc_get c s k = Inr v \<longrightarrow> v = kv s k) \<and>
     (\<forall>s k. kv (fst (rc_lock c s k)) = kv s \<and> sets (fst (rc_lock c s k)) = sets s) \<and>
     (\<forall>s k. kv (fst (rc_release c s k)) = kv s \<and> sets (fst (rc_release c s k)) = sets s) \<and>
     (\<forall>s k. kv (fst (rc_watch c s k)) = kv s \<and> sets (fst (rc_watch c s k)) = sets s) \<and>
     (\<forall>s. kv (fst (rc_unwatch c s)) = kv s \<and> sets (fst (rc_unwatch c s)) = sets s) \<and>
     (\<forall>s k b. sets (fst (rc_exec_set c s k b)) = sets s \<and>
        kv (fst (rc_exec_set c s k b)) =
          (if isl (snd (rc_exec_set c s k b)) then kv s else (kv s)(k \<mapsto> b))) \<and>
     (\<forall>s k m. kv (fst (rc_sadd c s k m)) = kv s \<and>
        sets (fst (rc_sadd c s k m)) =
          (if isl (snd (rc_sadd c s k m)) then sets s
           else (sets s)(k := finsert m (sets s k)))) \<and>
     (\<forall>s k n. rc_scard c s k = Inr n \<longrightarrow> n = int (fcard (sets s k))) \<and>
     (\<forall>st. rc_dumps c (state_to_json st) \<noteq> rc_empty c \<and>
        rc_loads c (rc_dumps c (state_to_json st)) = Inr (state_to_json st))"

text \<open>The laws in the form the proofs use: what one call leaves behind.\<close>

lemma redis_lawsD:
  assumes "redis_laws c kv sets"
  shows "rc_get c s k = Inr v \<Longrightarrow> v = kv s k"
    and "rc_lock c s k = (s', x) \<Longrightarrow> kv s' = kv s \<and> sets s' = sets s"
    and "rc_watch c s k = (s', x) \<Longrightarrow> kv s' = kv s \<and> sets s' = sets s"
    and "rc_release c s k = (s', x) \<Longrightarrow> kv s' = kv s \<and> sets s' = sets s"
    and "kv (fst (rc_unwatch c s)) = kv s" and "sets (fst (rc_unwatch c s)) = sets s"
    and "rc_exec_set c s k b = (s', Inr u) \<Longrightarrow> kv s' = (kv s)(k \<mapsto> b) \<and> sets s' = sets s"
    and "rc_exec_set c s k b = (s', Inl e) \<Longrightarrow> kv s' = kv s \<and> sets s' = sets s"
    and "rc_sadd c s k m = (s', Inr u) \<Longrightarrow>
      kv s' = kv s \<and> sets s' = (sets s)(k := finsert m (sets s k))"
    and "rc_sadd c s k m = (s', Inl e) \<Longrightarrow> kv s' = kv s \<and> sets s' = sets s"
    and "rc_scard c s k = Inr n \<Longrightarrow> n = int (fcard (sets s k))"
    and "rc_dumps c (state_to_json st) \<noteq> rc_empty c"
    and "rc_loads c (rc_dumps c (state_to_json st)) = Inr (state_to_json st)"
proof -
  note l = assms [unfolded redis_laws_def]
  show "rc_get c s k = Inr v \<Longrightarrow> v = kv s k"
    using l by blast
  show "rc_lock c s k = (s', x) \<Longrightarrow> kv s' = kv s \<and> sets s' = sets s"
    using l [THEN conjunct2, THEN conjunct1] by (metis fst_conv)
  show "rc_watch c s k = (s', x) \<Longrightarrow> kv s' = kv s \<and> sets s' = sets s"
    using l [THEN conjunct2, THEN conjunct2, THEN conjunct2, THEN conjunct1] by (metis fst_conv)
  show "rc_release c s k = (s', x) \<Longrightarrow> kv s' = kv s \<and> sets s' = sets s"
    using l [THEN conjunct2, THEN conjunct2, THEN conjunct1] by (metis fst_conv)
  show "kv (fst (rc_unwatch c s)) = kv s" "sets (fst (rc_unwatch c s)) = sets s"
    using l by blast+
  have ex: "sets (fst (rc_exec_set c s k b)) = sets s \<and> kv (fst (rc_exec_set c s k b)) =
      (if isl (snd (rc_exec_set c s k b)) then kv s else (kv s)(k \<mapsto> b))" for s k b
    using l by blast
  show "rc_exec_set c s k b = (s', Inr u) \<Longrightarrow> kv s' = (kv s)(k \<mapsto> b) \<and> sets s' = sets s"
    "rc_exec_set c s k b = (s', Inl e) \<Longrightarrow> kv s' = kv s \<and> sets s' = sets s"
    using ex [of s k b] by simp_all
  have ad: "kv (fst (rc_sadd c s k m)) = kv s \<and> sets (fst (rc_sadd c s k m)) =
      (if isl (snd (rc_sadd c s k m)) then sets s else (sets s)(k := finsert m (sets s k)))" for s k m
    using l by blast
  show "rc_sadd c s k m = (s', Inr u) \<Longrightarrow>
      kv s' = kv s \<and> sets s' = (sets s)(k := finsert m (sets s k))"
    "rc_sadd c s k m = (s', Inl e) \<Longrightarrow> kv s' = kv s \<and> sets s' = sets s"
    using ad [of s k m] by simp_all
  show "rc_scard c s k = Inr n \<Longrightarrow> n = int (fcard (sets s k))"
    using l by blast
  show "rc_dumps c (state_to_json st) \<noteq> rc_empty c"
    "rc_loads c (rc_dumps c (state_to_json st)) = Inr (state_to_json st)"
    using l by blast+
qed

lemma redis_decode_state:
  "redis_laws c kv sets \<Longrightarrow> redis_decode c (Some (rc_dumps c (state_to_json st))) = Inr st"
  by (simp add: redis_decode_def redis_lawsD(12,13) state_json_roundtrip_aux)

definition redis_view ::
  "('r, 'b) redis_client \<Rightarrow> ('r \<Rightarrow> string \<Rightarrow> 'b option) \<Rightarrow> string \<Rightarrow> 'r \<Rightarrow> string \<Rightarrow> identity_state" where
  "redis_view c kv ns s i =
     (case redis_decode c (kv s (redis_key ns i)) of Inr st \<Rightarrow> st | Inl _ \<Rightarrow> initial_state)"

definition redis_dview ::
  "('r \<Rightarrow> string \<Rightarrow> string fset) \<Rightarrow> string \<Rightarrow> 'r \<Rightarrow> string \<Rightarrow> string fset" where
  "redis_dview sets ns s d = sets s (redis_dev_key ns d)"

lemma redis_key_inj [simp]: "redis_key ns i = redis_key ns j \<longleftrightarrow> i = j"
  by (simp add: redis_key_def)

lemma redis_dev_key_inj [simp]: "redis_dev_key ns i = redis_dev_key ns j \<longleftrightarrow> i = j"
  by (simp add: redis_dev_key_def)

lemma redis_key_dev_key [simp]: "redis_key ns i \<noteq> redis_dev_key ns d"
  by (simp add: redis_key_def redis_dev_key_def)

text \<open>The Redis store meets the contract for every client that behaves as documented.\<close>

lemma redis_commit_cases:
  assumes laws: "redis_laws c kv sets"
    and com: "redis_commit c ns s i st v = (s', ok)"
  shows "sets s' = sets s \<and>
    (if ok then st_version (redis_view c kv ns s i) = v \<and>
                kv s' = (kv s)(redis_key ns i \<mapsto> rc_dumps c (state_to_json (st\<lparr>st_version := v + 1\<rparr>)))
     else kv s' = kv s)"
proof -
  obtain s1 w where w: "rc_watch c s (redis_key ns i) = (s1, w)" by fastforce
  have s1: "kv s1 = kv s" "sets s1 = sets s"
    using redis_lawsD(3) [OF laws w] by simp_all
  show ?thesis
    using com w s1
    by (auto simp: redis_commit_def redis_view_def Let_def sbind_def redis_lawsD(5,6) [OF laws]
        split: sum.splits if_splits prod.splits
        dest!: redis_lawsD(1,7,8) [OF laws])
qed

lemma redis_state_store:
  assumes laws: "redis_laws c kv sets"
  shows "state_store (redis_ops c ns) (redis_view c kv ns) (redis_dview sets ns) (\<lambda>_. True)"
proof
  show "st = redis_view c kv ns s i" if "so_load (redis_ops c ns) s i = Inr st" for s i st
    using that
    by (auto simp: redis_ops_def redis_load_def redis_view_def sbind_eq_Inr
        dest!: redis_lawsD(1) [OF laws])
  show "True \<and> st_version (redis_view c kv ns s i) = v \<and>
      redis_view c kv ns s' = (redis_view c kv ns s)(i := st\<lparr>st_version := v + 1\<rparr>)
      \<and> redis_dview sets ns s' = redis_dview sets ns s"
    if "so_commit (redis_ops c ns) s i st v = (s', True)" for s i st v s'
    using redis_commit_cases [OF laws, of ns s i st v s' True] that
    by (auto simp: redis_ops_def redis_view_def redis_dview_def fun_eq_iff
        redis_decode_state [OF laws])
  show "True \<and> redis_view c kv ns s' = redis_view c kv ns s
      \<and> redis_dview sets ns s' = redis_dview sets ns s"
    if "so_commit (redis_ops c ns) s i st v = (s', False)" for s i st v s'
    using redis_commit_cases [OF laws, of ns s i st v s' False] that
    by (auto simp: redis_ops_def redis_view_def redis_dview_def fun_eq_iff)
  show "True \<and> redis_view c kv ns s' = redis_view c kv ns s
      \<and> redis_dview sets ns s' = redis_dview sets ns s"
    if "so_lock (redis_ops c ns) s i = (s', r)" for s i s' r
    using that redis_lawsD(2) [OF laws, of s "redis_lock_key ns i" s' r]
    by (auto simp: redis_ops_def redis_view_def redis_dview_def fun_eq_iff)
  show "True \<and> redis_view c kv ns s' = redis_view c kv ns s
      \<and> redis_dview sets ns s' = redis_dview sets ns s"
    if "so_unlock (redis_ops c ns) s i = (s', r)" for s i s' r
    using that redis_lawsD(4) [OF laws, of s "redis_lock_key ns i" s' r]
    by (auto simp: redis_ops_def redis_view_def redis_dview_def fun_eq_iff)
  show "True \<and> redis_view c kv ns s' = redis_view c kv ns s
      \<and> redis_dview sets ns s d' |\<subseteq>| redis_dview sets ns s' d'"
    if "so_device_add (redis_ops c ns) s d i = (s', n)" for s d i s' n d'
    using that
    by (auto simp: redis_ops_def redis_device_add_def redis_view_def redis_dview_def fun_eq_iff
        split: prod.splits sum.splits dest!: redis_lawsD(9,10) [OF laws])
  show "i |\<in>| redis_dview sets ns s' d \<and> n = int (fcard (redis_dview sets ns s' d))"
    if "so_device_add (redis_ops c ns) s d i = (s', Inr n)" for s d i s' n
    using that
    by (auto simp: redis_ops_def redis_device_add_def redis_dview_def
        split: prod.splits sum.splits dest!: redis_lawsD(9,11) [OF laws])
qed

section \<open>Choosing a store\<close>

text \<open>
  \<^verbatim>\<open>build_state_store\<close>: the Redis store when a URL is configured (and not empty), else the in-memory one.
\<close>

datatype store_kind = RedisStore string | InMemoryStore

definition build_state_store :: "string option \<Rightarrow> store_kind" where
  "build_state_store redis_url =
     (case redis_url of Some u \<Rightarrow> if u \<noteq> [] then RedisStore u else InMemoryStore
      | None \<Rightarrow> InMemoryStore)"

section \<open>Properties of the codec\<close>

text \<open>
  C28: the JSON form of a state reads back as the same state, sets, lists and flags included, and a
  stored object with a field the dataclass does not declare is rejected with \<open>TypeError\<close>.
\<close>

theorem state_json_roundtrip:
  "state_from_json (state_to_json s) = Inr s \<and>
   state_from_json (JObj [(''__class__'', v)]) = Inl TypeError"
  by (simp add: state_json_roundtrip_aux) (simp add: state_from_json_def set_field_def)

end
