(* ===== verification/Drift.thy ===== *)
theory Drift
  imports StateStore
begin

text \<open>
  Drift detection: \<^verbatim>\<open>backend/app/drift.py\<close>. \<open>detect\<close> is the sliding-window mean shift confirmed by a
  Kolmogorov-Smirnov test (scipy's, the parameter \<open>ks\<close>: its p-value, or \<open>None\<close> when it cannot be
  computed), \<open>drift_step\<close> the EWMA and CUSUM update.
\<close>

record drift_detector =
  dd_window :: nat
  dd_min_samples :: nat
  dd_min_shift :: pyfloat
  dd_alpha :: pyfloat
  dd_ewma_alpha :: pyfloat
  dd_cusum_slack :: pyfloat
  dd_cusum_threshold :: pyfloat

definition drift_default :: drift_detector where
  "drift_default =
     \<lparr> dd_window = 12, dd_min_samples = 8, dd_min_shift = fl 0.08, dd_alpha = fl 0.05,
       dd_ewma_alpha = fl 0.03, dd_cusum_slack = fl 0.015, dd_cusum_threshold = fl 0.4 \<rparr>"

text \<open>
  \<^verbatim>\<open>statistics.mean\<close> sums exactly and rounds once; if some value is not finite the result is the
  sum of those.
\<close>

fun fin_part :: "pyfloat \<Rightarrow> rat" where
  "fin_part (Fin r) = r" | "fin_part _ = 0"

definition py_mean :: "pyfloat list \<Rightarrow> pyfloat" where
  "py_mean xs =
     (if \<forall>x \<in> set xs. is_finite x
      then fl (sum_list (map fin_part xs) / of_nat (length xs))
      else py_sum (filter (\<lambda>x. \<not> is_finite x) xs))"

definition detect ::
  "(pyfloat list \<Rightarrow> pyfloat list \<Rightarrow> pyfloat option) \<Rightarrow> drift_detector \<Rightarrow> pyfloat list \<Rightarrow> bool" where
  "detect ks d risk_window =
     (if length risk_window < dd_min_samples d then False
      else
        let recent = last_n (dd_window d) risk_window;
            half = length recent div 2;
            early = take half recent;
            late = drop half recent
        in if early = [] \<or> late = [] then False
           else if py_mean late - py_mean early < dd_min_shift d then False
           else (case ks early late of Some p \<Rightarrow> p < dd_alpha d | None \<Rightarrow> True))"

definition drift_step ::
  "drift_detector \<Rightarrow> pyfloat \<Rightarrow> pyfloat \<Rightarrow> pyfloat \<Rightarrow> pyfloat \<times> pyfloat \<times> bool" where
  "drift_step d ewma cusum risk =
     (let baseline = (if 0 < ewma then ewma else risk);
          new_cusum = py_max (fl 0) (cusum + (risk - baseline - dd_cusum_slack d));
          new_ewma = (if py_eq ewma (fl 0) then risk
                      else ewma + dd_ewma_alpha d * (risk - ewma))
      in (new_ewma, new_cusum, dd_cusum_threshold d < new_cusum))"

section \<open>Lemmas\<close>

text \<open>The CUSUM is never negative and never NaN: Python's \<^verbatim>\<open>max(0.0, x)\<close> drops a NaN.\<close>

lemma cusum_nonneg:
  "drift_step d ewma cusum risk = (ewma', cusum', fired) \<Longrightarrow> 0 \<le> cusum'"
  by (auto simp: drift_step_def Let_def zero_pyfloat_def)

lemma drift_fires_iff:
  "drift_step d ewma cusum risk = (ewma', cusum', fired) \<Longrightarrow>
     fired \<longleftrightarrow> dd_cusum_threshold d < cusum'"
  by (auto simp: drift_step_def Let_def)

lemma detect_window:
  "detect ks d w \<Longrightarrow> dd_min_samples d \<le> length w"
  by (auto simp: detect_def split: if_splits)

end
