(* ===== verification/Features.thy ===== *)
theory Features
  imports StateStore
begin

text \<open>
  Feature extraction: \<^verbatim>\<open>backend/app/features.py\<close>. \<open>compute_features\<close> is the 11-dimensional serving vector
  together with the state it leaves (the burst counter moves on every attempt);
  \<open>commit_features\<close> folds an allowed event into the profile. The float power \<^verbatim>\<open>**\<close> is the C library's
  \<^verbatim>\<open>pow\<close>, whose last-bit accuracy is platform dependent: it is the parameter \<open>fpow\<close>, which may
  raise \<^verbatim>\<open>OverflowError\<close>.
\<close>

type_synonym float_pow = "pyfloat \<Rightarrow> rat \<Rightarrow> py_exn + pyfloat"

text \<open>
  What is assumed of \<^verbatim>\<open>pow\<close>: squaring a value of magnitude at most \<open>2^n\<close> is finite, not negative and
  at most one binade above \<open>2^(2n)\<close>; the root of a finite non-negative value is one.
\<close>

definition pow_laws :: "float_pow \<Rightarrow> bool" where
  "pow_laws pw \<longleftrightarrow>
     (\<forall>a n. n \<le> 400 \<and> \<bar>a\<bar> \<le> 2 ^ n \<longrightarrow>
        (\<exists>q. pw (Fin a) 2 = Inr (Fin q) \<and> 0 \<le> q \<and> q \<le> 2 ^ (2 * n + 1))) \<and>
     (\<forall>a. 0 \<le> a \<longrightarrow> (\<exists>q. pw (Fin a) (1/2) = Inr (Fin q) \<and> 0 \<le> q))"

fun EVENT_CRITICALITY :: "event_type \<Rightarrow> pyfloat" where
  "EVENT_CRITICALITY LOGIN = fl 0.2"
| "EVENT_CRITICALITY TRANSACTION = fl 0.4"
| "EVENT_CRITICALITY PROFILE_CHANGE = fl 0.5"
| "EVENT_CRITICALITY ONBOARDING = fl 0.6"
| "EVENT_CRITICALITY ACCOUNT_RECOVERY = fl 0.8"
| "EVENT_CRITICALITY PRIVILEGED_ACCESS = fl 0.9"

fun CHANNEL_RISK :: "channel \<Rightarrow> pyfloat" where
  "CHANNEL_RISK BRANCH = fl 0.1"
| "CHANNEL_RISK MOBILE_APP = fl 0.3"
| "CHANNEL_RISK INTERNET_BANKING = fl 0.4"
| "CHANNEL_RISK API = fl 0.5"
| "CHANNEL_RISK ADMIN_CONSOLE = fl 0.7"

definition FEATURE_NAMES :: "string list" where
  "FEATURE_NAMES =
     [''new_device'', ''new_geo'', ''hour_deviation'', ''amount_zscore'', ''behavior_anomaly'',
      ''event_criticality'', ''channel_risk'', ''new_beneficiary'', ''recovery_change'',
      ''velocity'', ''device_sharing'']"

definition NEUTRAL_BEHAVIOR_ANOMALY :: pyfloat where
  "NEUTRAL_BEHAVIOR_ANOMALY = fl 0.5"

definition hour_deviation :: "identity_state \<Rightarrow> int \<Rightarrow> pyfloat" where
  "hour_deviation st hour =
     (if st_hours st = [] then fl 0.5
      else let diffs = map (\<lambda>h. min \<bar>hour - h\<bar> (24 - \<bar>hour - h\<bar>)) (last_n 200 (st_hours st))
           in py_min (fdiv (float_of_int (min_list diffs)) (fl 12)) (fl 1))"

fun square_devs :: "float_pow \<Rightarrow> pyfloat \<Rightarrow> pyfloat list \<Rightarrow> py_exn + pyfloat list" where
  "square_devs fpow m [] = Inr []"
| "square_devs fpow m (a # as) =
     sbind (fpow (a - m) 2) (\<lambda>q. sbind (square_devs fpow m as) (\<lambda>qs. Inr (q # qs)))"

definition amount_zscore ::
  "float_pow \<Rightarrow> identity_state \<Rightarrow> pyfloat option \<Rightarrow> py_exn + pyfloat" where
  "amount_zscore fpow st amount =
     (case amount of
        None \<Rightarrow> Inr (fl 0)
      | Some a \<Rightarrow>
          let hist = last_n 200 (st_amounts st) in
          if length hist < 5 then Inr (py_min (fdiv a (fl 100000)) (fl 1))
          else
            let n = float_of_int (int (length hist));
                mean = fdiv (py_sum hist) n
            in sbind (square_devs fpow mean hist) (\<lambda>qs.
               sbind (fpow (fdiv (py_sum qs) n) (1/2)) (\<lambda>root.
               let std = py_max root (fl 1)
               in sbind (py_div \<bar>a - mean\<bar> (fl 3 * std)) (\<lambda>z. Inr (py_min z (fl 1))))))"

definition compute_features ::
  "float_pow \<Rightarrow> identity_event \<Rightarrow> identity_state \<Rightarrow> int \<Rightarrow> pyfloat option
     \<Rightarrow> py_exn + identity_state \<times> pyfloat list" where
  "compute_features fpow e st device_share_count behavior_anomaly =
     (let cold = (st_event_count st = 0);
          st' = st\<lparr>st_burst := st_burst st * fl 0.5 + fl 1\<rparr>;
          sharing = py_min (fdiv (float_of_int (device_share_count - 1)) (fl 3)) (fl 1);
          beh = (case behavior_anomaly of None \<Rightarrow> NEUTRAL_BEHAVIOR_ANOMALY | Some b \<Rightarrow> b)
      in sbind (amount_zscore fpow st' (ev_amount e)) (\<lambda>az.
         Inr (st',
           [(if cold then fl 0.4 else if ev_device_id e |\<in>| st_devices st' then fl 0 else fl 1),
            (if cold then fl 0.5 else if ev_geo e |\<in>| st_geos st' then fl 0 else fl 1),
            hour_deviation st' (ev_hour_of_day e),
            az,
            beh,
            EVENT_CRITICALITY (ev_event_type e),
            CHANNEL_RISK (ev_channel e),
            (if ev_is_new_beneficiary e then fl 1 else fl 0),
            (if ev_recovery_contact_changed e then fl 1 else fl 0),
            py_min (fdiv (st_burst st') (fl 15)) (fl 1),
            sharing])))"

definition commit_features :: "identity_state \<Rightarrow> identity_event \<Rightarrow> identity_state" where
  "commit_features st e =
     st\<lparr>st_devices := finsert (ev_device_id e) (st_devices st),
        st_geos := finsert (ev_geo e) (st_geos st),
        st_hours := st_hours st @ [ev_hour_of_day e],
        st_amounts := (case ev_amount e of None \<Rightarrow> st_amounts st
                       | Some a \<Rightarrow> st_amounts st @ [a]),
        st_event_count := st_event_count st + 1\<rparr>"

section \<open>The part of the state a poisoner would want to move\<close>

text \<open>
  \<open>profile\<close> is what the features compare an event with: it may change only through
  \<open>commit_features\<close>.
\<close>

definition profile ::
  "identity_state \<Rightarrow> string fset \<times> string fset \<times> int list \<times> pyfloat list \<times> int" where
  "profile st = (st_devices st, st_geos st, st_hours st, st_amounts st, st_event_count st)"

lemma compute_features_state:
  "compute_features fpow e st n b = Inr (st', vec) \<Longrightarrow>
     st' = st\<lparr>st_burst := st_burst st * fl 0.5 + fl 1\<rparr> \<and> length vec = 11"
  by (auto simp: compute_features_def Let_def sbind_eq_Inr)

lemma compute_features_profile:
  "compute_features fpow e st n b = Inr (st', vec) \<Longrightarrow> profile st' = profile st"
  by (drule compute_features_state) (simp add: profile_def)

end
