(* ===== verification/Explain.thy ===== *)
theory Explain
  imports Features "HOL-Library.Multiset"
begin

text \<open>
  Explainability: \<^verbatim>\<open>backend/app/explain.py\<close>. The exact Shapley contributions of the additive scorer,
  sorted by magnitude, and the counterfactual sentence. Python's stable \<^verbatim>\<open>sorted(..., reverse=True)\<close>
  is \<open>sort_desc\<close>; on keys that are NaN Python's order is unspecified (the engine raises before it
  uses such a list).
\<close>

section \<open>A stable descending sort\<close>

fun insert_desc :: "('a \<Rightarrow> 'a \<Rightarrow> bool) \<Rightarrow> 'a \<Rightarrow> 'a list \<Rightarrow> 'a list" where
  "insert_desc lt x [] = [x]"
| "insert_desc lt x (y # ys) = (if lt x y then y # insert_desc lt x ys else x # y # ys)"

fun sort_desc :: "('a \<Rightarrow> 'a \<Rightarrow> bool) \<Rightarrow> 'a list \<Rightarrow> 'a list" where
  "sort_desc lt [] = []"
| "sort_desc lt (x # xs) = insert_desc lt x (sort_desc lt xs)"

lemma mset_insert_desc [simp]: "mset (insert_desc lt x xs) = add_mset x (mset xs)"
  by (induction xs) auto

lemma mset_sort_desc [simp]: "mset (sort_desc lt xs) = mset xs"
  by (induction xs) auto

lemma set_sort_desc [simp]: "set (sort_desc lt xs) = set xs"
  using mset_sort_desc [of lt xs] by (metis set_mset_mset)

lemma length_sort_desc [simp]: "length (sort_desc lt xs) = length xs"
  using mset_sort_desc [of lt xs] by (metis size_mset)

text \<open>
  On elements where \<open>lt\<close> is a strict weak order, the result is sorted: no element is below a later one.
\<close>

definition weak_order_on :: "'a set \<Rightarrow> ('a \<Rightarrow> 'a \<Rightarrow> bool) \<Rightarrow> bool" where
  "weak_order_on A lt \<longleftrightarrow>
     (\<forall>x\<in>A. \<forall>y\<in>A. lt x y \<longrightarrow> \<not> lt y x) \<and>
     (\<forall>x\<in>A. \<forall>y\<in>A. \<forall>z\<in>A. \<not> lt x y \<and> \<not> lt y z \<longrightarrow> \<not> lt x z)"

lemma set_insert_desc [simp]: "set (insert_desc lt x ys) = insert x (set ys)"
  using mset_insert_desc [of lt x ys] by (metis set_mset_mset set_mset_add_mset_insert)

lemma weak_order_onD:
  assumes "weak_order_on A lt"
  shows "x \<in> A \<Longrightarrow> y \<in> A \<Longrightarrow> lt x y \<Longrightarrow> \<not> lt y x"
    and "x \<in> A \<Longrightarrow> y \<in> A \<Longrightarrow> z \<in> A \<Longrightarrow> \<not> lt x y \<Longrightarrow> \<not> lt y z \<Longrightarrow> \<not> lt x z"
  using assms unfolding weak_order_on_def by blast+

lemma sorted_insert_desc:
  assumes A: "weak_order_on A lt" "insert x (set ys) \<subseteq> A" "sorted_wrt (\<lambda>a b. \<not> lt a b) ys"
  shows "sorted_wrt (\<lambda>a b. \<not> lt a b) (insert_desc lt x ys)"
  using A(2,3)
proof (induction ys)
  case (Cons y ys)
  then have A': "x \<in> A" "y \<in> A" "set ys \<subseteq> A" by auto
  show ?case
  proof (cases "lt x y")
    case True
    then have "\<not> lt y x" using weak_order_onD(1) [OF A(1)] A' by blast
    with True Cons show ?thesis by simp
  next
    case False
    have "\<not> lt x z" if "z \<in> set ys" for z
      using weak_order_onD(2) [OF A(1), of x y z] A' False that Cons.prems(2) by auto
    with False Cons.prems(2) show ?thesis by simp
  qed
qed simp

lemma sorted_sort_desc:
  assumes "weak_order_on (set xs) lt"
  shows "sorted_wrt (\<lambda>a b. \<not> lt a b) (sort_desc lt xs)"
proof -
  have "set ys \<subseteq> set xs \<Longrightarrow> sorted_wrt (\<lambda>a b. \<not> lt a b) (sort_desc lt ys)" for ys
    by (induction ys) (auto intro!: sorted_insert_desc [OF assms])
  then show ?thesis by simp
qed

section \<open>Shapley values\<close>

definition BASELINE :: "pyfloat list" where
  "BASELINE = [fl 0, fl 0, fl 0, fl 0, fl 0.1, fl 0.2, fl 0.3, fl 0, fl 0, fl 0, fl 0]"

definition shap_terms ::
  "pyfloat list \<Rightarrow> pyfloat list \<Rightarrow> pyfloat list \<Rightarrow> (pyfloat \<times> string) list" where
  "shap_terms vec weights baseline =
     map (\<lambda>(w, f, b, name). (py_round 4 (w * (f - b)), name))
       (zip weights (zip vec (zip baseline FEATURE_NAMES)))"

definition shap_values ::
  "pyfloat list \<Rightarrow> pyfloat list \<Rightarrow> pyfloat list \<Rightarrow> (pyfloat \<times> string) list" where
  "shap_values vec weights baseline =
     sort_desc (\<lambda>s t. \<bar>fst s\<bar> < \<bar>fst t\<bar>) (shap_terms vec weights baseline)"

section \<open>The counterfactual\<close>

definition CF_TEMPLATE :: "(string \<times> string) list" where
  "CF_TEMPLATE =
     [(''new_device'', ''the device were already recognised for this identity''),
      (''new_geo'', ''the login came from a known location''),
      (''hour_deviation'', ''the activity were within the usual hours''),
      (''amount_zscore'', ''the amount were closer to this identity's normal range''),
      (''behavior_anomaly'', ''the behavioural-biometric match were stronger''),
      (''event_criticality'', ''the action were lower-risk''),
      (''channel_risk'', ''the channel were lower-risk''),
      (''new_beneficiary'', ''the payee were already known''),
      (''recovery_change'', ''the recovery contact were not being changed''),
      (''velocity'', ''the activity were less rapid''),
      (''device_sharing'', ''the device were not shared across identities'')]"

text \<open>Decimal digits of a number, and \<^verbatim>\<open>f"{n:,}"\<close> with a comma between groups of three.\<close>

fun nat_str :: "nat \<Rightarrow> string" where
  "nat_str n = (if n < 10 then [char_of (48 + n)] else nat_str (n div 10) @ [char_of (48 + n mod 10)])"

declare nat_str.simps [simp del]

fun comma_groups :: "string \<Rightarrow> string" where
  "comma_groups (a # b # c # d # ds) = a # b # c # CHR '','' # comma_groups (d # ds)"
| "comma_groups ds = ds"

definition int_commas :: "int \<Rightarrow> string" where
  "int_commas n = (if n < 0 then ''-'' else []) @ rev (comma_groups (rev (nat_str (nat \<bar>n\<bar>))))"

definition approx_rupee :: string where
  "approx_rupee = [CHR 0xE2, CHR 0x89, CHR 0x88, CHR '' '', CHR 0xE2, CHR 0x82, CHR 0xB9]"

definition py_truthy :: "pyfloat option \<Rightarrow> bool" where
  "py_truthy x = (case x of None \<Rightarrow> False | Some a \<Rightarrow> a \<noteq> Fin 0)"

definition counterfactual ::
  "pyfloat list \<Rightarrow> pyfloat list \<Rightarrow> identity_event \<Rightarrow> pyfloat list \<Rightarrow> pyfloat option
     \<Rightarrow> py_exn + string" where
  "counterfactual vec weights e baseline amount_ref =
     (case shap_values vec weights baseline of
        [] \<Rightarrow> Inl IndexError
      | (top_phi, top_name) # _ \<Rightarrow>
          if top_phi \<le> fl 0
          then Inr ''No single factor dominated; behaviour was broadly consistent.''
          else if top_name = ''amount_zscore'' \<and> py_truthy (ev_amount e) then
            (case amount_ref of
               Some r \<Rightarrow>
                 if r \<noteq> Fin 0 \<and> fl 0 < r then
                   sbind (py_int r) (\<lambda>n. Inr
                     (''Would have scored materially lower if the amount were closer to ''
                       @ approx_rupee @ int_commas n @ '' (this identity's typical range).''))
                 else Inr (''Would have scored lower if the amount were closer to this ''
                            @ ''identity's normal range.'')
             | None \<Rightarrow> Inr (''Would have scored lower if the amount were closer to this ''
                            @ ''identity's normal range.''))
          else Inr (''Would have scored lower if ''
                 @ (case map_of CF_TEMPLATE top_name of Some t \<Rightarrow> t
                    | None \<Rightarrow> ''this factor were normal'') @ ''.''))"

section \<open>Lemmas\<close>

text \<open>\<^verbatim>\<open><\<close> on the magnitude of non-NaN floats is a strict weak order.\<close>

lemma pyfloat_weak_order: "weak_order_on {x. fst x \<noteq> NaN} (\<lambda>s t. \<bar>fst s\<bar> < (\<bar>fst t\<bar> :: pyfloat))"
  unfolding weak_order_on_def
proof (intro conjI ballI impI)
  fix x y z :: "pyfloat \<times> 'b"
  assume "x \<in> {x. fst x \<noteq> NaN}" "y \<in> {x. fst x \<noteq> NaN}" "z \<in> {x. fst x \<noteq> NaN}"
    "\<not> \<bar>fst x\<bar> < \<bar>fst y\<bar> \<and> \<not> \<bar>fst y\<bar> < \<bar>fst z\<bar>"
  then show "\<not> \<bar>fst x\<bar> < \<bar>fst z\<bar>"
    by (cases "fst x"; cases "fst y"; cases "fst z") auto
next
  fix x y :: "pyfloat \<times> 'b"
  assume "\<bar>fst x\<bar> < \<bar>fst y\<bar>"
  then show "\<not> \<bar>fst y\<bar> < \<bar>fst x\<bar>"
    by (cases "fst x"; cases "fst y") auto
qed

lemma weak_order_on_subset: "weak_order_on A lt \<Longrightarrow> B \<subseteq> A \<Longrightarrow> weak_order_on B lt"
  unfolding weak_order_on_def by blast

lemma shap_values_sorted:
  assumes "\<forall>t \<in> set (shap_terms vec weights baseline). fst t \<noteq> NaN"
  shows "sorted_wrt (\<lambda>s t. \<not> \<bar>fst s\<bar> < \<bar>fst t\<bar>) (shap_values vec weights baseline)"
  unfolding shap_values_def
  by (rule sorted_sort_desc, rule weak_order_on_subset [OF pyfloat_weak_order]) (use assms in auto)

lemma shap_values_perm:
  "mset (shap_values vec weights baseline) = mset (shap_terms vec weights baseline)"
  by (simp add: shap_values_def)

text \<open>The counterfactual never fails on a full vector with a finite reference amount.\<close>

lemma shap_values_nonempty:
  assumes "vec \<noteq> []" "weights \<noteq> []"
  shows "shap_values vec weights BASELINE \<noteq> []"
proof
  assume "shap_values vec weights BASELINE = []"
  then have "length (shap_values vec weights BASELINE) = 0" by simp
  then have "length (shap_terms vec weights BASELINE) = 0"
    by (simp add: shap_values_def)
  with assms show False
    by (cases vec; cases weights) (simp_all add: shap_terms_def BASELINE_def FEATURE_NAMES_def)
qed

lemma counterfactual_total:
  assumes "vec \<noteq> []" "weights \<noteq> []" "\<And>r. amount_ref = Some r \<Longrightarrow> is_finite r"
  shows "\<exists>s. counterfactual vec weights e BASELINE amount_ref = Inr s"
  using shap_values_nonempty [OF assms(1,2)] assms(3)
  by (auto simp: counterfactual_def is_finite_def split: list.splits option.splits pyfloat.splits)

section \<open>Properties of the explanation\<close>

text \<open>
  The Shapley list holds exactly one rounded contribution for each feature (weight times the
  distance from the baseline), is ordered by falling magnitude, and on a finite vector the
  counterfactual is always a sentence.
\<close>

theorem shap_values_explain:
  assumes "length vec = 11" "length weights = 11"
    "\<forall>w \<in> set weights. fin_in 0 1 w" "\<forall>f \<in> set vec. fin_in (-1) 1 f"
  shows "mset (shap_values vec weights BASELINE) = mset (shap_terms vec weights BASELINE) \<and>
    length (shap_values vec weights BASELINE) = 11 \<and>
    sorted_wrt (\<lambda>s t. \<not> \<bar>fst s\<bar> < \<bar>fst t\<bar>) (shap_values vec weights BASELINE) \<and>
    (\<exists>txt. counterfactual vec weights e BASELINE None = Inr txt)"
proof -
  have bl: "fin_in 0 1 b" if "b \<in> set BASELINE" for b
    using that by (auto simp: BASELINE_def)
  have nn: "fst t \<noteq> NaN" if t: "t \<in> set (shap_terms vec weights BASELINE)" for t
  proof -
    from t obtain w f b name where
      m: "(w, f, b, name) \<in> set (zip weights (zip vec (zip BASELINE FEATURE_NAMES)))"
      "t = (py_round 4 (w * (f - b)), name)"
      by (auto simp: shap_terms_def)
    then have "w \<in> set weights" "f \<in> set vec" "b \<in> set BASELINE"
      by (auto dest: set_zip_leftD set_zip_rightD)
    then have w: "fin_in 0 1 w" "fin_in (-1) 1 f" "fin_in 0 1 b" using assms(3,4) bl by auto
    then have "fin_in (-2) 2 (f - b)" by (intro fin_in_diff [of "-1" 1 f 0 1 b]) simp_all
    with w(1) obtain x y where "w = Fin x" "f - b = Fin y" by (auto elim!: fin_inE)
    then have "w * (f - b) \<noteq> NaN" by simp
    then show ?thesis using m(2) by (cases "w * (f - b)") simp_all
  qed
  have ne: "vec \<noteq> []" "weights \<noteq> []" using assms(1,2) by auto
  have "length (shap_values vec weights BASELINE) = length (shap_terms vec weights BASELINE)"
    by (simp add: shap_values_def)
  also have "\<dots> = 11"
    using assms(1,2) by (simp add: shap_terms_def BASELINE_def FEATURE_NAMES_def)
  finally have "length (shap_values vec weights BASELINE) = 11" .
  moreover have "\<exists>txt. counterfactual vec weights e BASELINE None = Inr txt"
    using ne by (rule counterfactual_total) simp
  ultimately show ?thesis
    using shap_values_perm shap_values_sorted nn by blast
qed

theorem shap_values_explain_witness:
  "length (shap_values (replicate 11 (fl 1)) (replicate 11 (fl 0.5)) BASELINE) = 11"
  using shap_values_explain [of "replicate 11 (fl 1)" "replicate 11 (fl 0.5)"] by simp

end
