(* ===== verification/ServingModel.thy ===== *)
theory ServingModel
  imports Features
begin

text \<open>
  The serving model (\<^verbatim>\<open>ServingModel\<close> of \<^verbatim>\<open>backend/app/model_loader.py\<close>). The fitted scaler and model are
  scikit-learn objects (type \<open>'o\<close>) and numpy clips: \<open>num_lib\<close> holds what the code calls of those
  libraries and of the C library. \<open>num_laws\<close> is their documented behaviour.
\<close>

record 'o num_lib =
  nl_pow :: float_pow
  nl_clip :: "pyfloat \<Rightarrow> pyfloat \<Rightarrow> pyfloat \<Rightarrow> pyfloat"
  nl_clip_int :: "int \<Rightarrow> int \<Rightarrow> int \<Rightarrow> int"
  nl_ks :: "pyfloat list \<Rightarrow> pyfloat list \<Rightarrow> pyfloat option"
  nl_transform :: "'o \<Rightarrow> pyfloat list \<Rightarrow> py_exn + pyfloat list"
  nl_decision :: "'o \<Rightarrow> pyfloat list \<Rightarrow> py_exn + pyfloat"

text \<open>
  \<^verbatim>\<open>numpy.clip\<close>: the value cut to the interval, NaN kept. scikit-learn's \<^verbatim>\<open>decision_function\<close>
  raises on inputs that are not finite and otherwise returns a number.
\<close>

fun clip_spec :: "pyfloat \<Rightarrow> pyfloat \<Rightarrow> pyfloat \<Rightarrow> pyfloat" where
  "clip_spec NaN lo hi = NaN"
| "clip_spec x lo hi = (if x < lo then lo else if hi < x then hi else x)"

definition num_laws :: "'o num_lib \<Rightarrow> bool" where
  "num_laws lib \<longleftrightarrow>
     (\<forall>x a b. a \<le> b \<longrightarrow> nl_clip lib x (Fin a) (Fin b) = clip_spec x (Fin a) (Fin b)) \<and>
     (\<forall>x a b. a \<le> b \<longrightarrow> nl_clip_int lib x a b = max a (min x b)) \<and>
     (\<forall>m x r. nl_decision lib m x = Inr r \<longrightarrow> r \<noteq> NaN) \<and>
     pow_laws (nl_pow lib)"

record 'o serving_model =
  sm_model :: 'o
  sm_scaler :: 'o
  sm_feature_names :: "string list"
  sm_card :: "(string \<times> json) list"
  sm_provenance :: string

definition sm_is_synthetic :: "'o serving_model \<Rightarrow> bool" where
  "sm_is_synthetic m \<longleftrightarrow> sm_provenance m = ''DEMO_SYNTHETIC''"

definition model_risk :: "'o num_lib \<Rightarrow> 'o serving_model \<Rightarrow> pyfloat list \<Rightarrow> py_exn + pyfloat" where
  "model_risk lib m vec =
     sbind (nl_transform lib (sm_scaler m) vec) (\<lambda>x.
     sbind (nl_decision lib (sm_model m) x) (\<lambda>raw.
     Inr (nl_clip lib (fl 0.5 - raw * fl 2.5) (fl 0) (fl 1))))"

section \<open>Lemmas\<close>

lemma nl_clip_unit:
  assumes "num_laws lib"
  shows "nl_clip lib x (fl 0) (fl 1) = NaN \<or> fin_in 0 1 (nl_clip lib x (fl 0) (fl 1))"
  using assms by (cases x) (auto simp: num_laws_def)

lemma nl_clip_unit_NaN:
  "num_laws lib \<Longrightarrow> nl_clip lib x (fl 0) (fl 1) = NaN \<longleftrightarrow> x = NaN"
  by (cases x) (auto simp: num_laws_def)

lemma nl_clip_int_bounds:
  assumes "num_laws lib" "a \<le> b"
  shows "a \<le> nl_clip_int lib x a b \<and> nl_clip_int lib x a b \<le> b"
  using assms by (auto simp: num_laws_def)

lemma model_risk_range:
  assumes "num_laws lib" "model_risk lib m vec = Inr r"
  shows "fin_in 0 1 r"
proof -
  obtain x raw where raw: "nl_decision lib (sm_model m) x = Inr raw"
    and r: "r = nl_clip lib (fl 0.5 - raw * fl 2.5) (fl 0) (fl 1)"
    using assms(2) by (auto simp: model_risk_def sbind_eq_Inr)
  have "raw \<noteq> NaN" using assms(1) raw by (auto simp: num_laws_def)
  then have "raw * fl 2.5 \<noteq> NaN" by (cases raw) simp_all
  then have "fl 0.5 - raw * fl 2.5 \<noteq> NaN"
    by (cases "raw * fl 2.5") (auto simp: minus_pyfloat_def)
  then show ?thesis
    using nl_clip_unit [OF assms(1)] nl_clip_unit_NaN [OF assms(1)] r by blast
qed

end
