(* ===== verification/RiskEngine.thy ===== *)
theory RiskEngine
  imports Policy Drift Explain ServingModel
begin

text \<open>
  The identity trust engine: \<^verbatim>\<open>backend/app/risk_engine.py\<close>. \<open>assess_state\<close> is the body of the retry
  loop between the load and the commit, on the loaded state, in the stages of the code
  (\<open>score_vector\<close>, \<open>watch_drift\<close>, \<open>update_trust\<close>, \<open>settle\<close>); \<open>assess_attempt\<close> adds the store
  calls of one iteration; \<open>assess\<close> is the whole operation. An exception leaves the store as it is at
  that point (the device graph may already have grown). The store is any \<open>store_ops\<close>; the clocks, the
  identifiers and the behaviour resolver are inputs.
\<close>

section \<open>Constants\<close>

definition REASON_TEXT :: "(string \<times> string) list" where
  "REASON_TEXT =
     [(''new_device'', ''NEW_DEVICE: first time this device is used for this identity''),
      (''new_geo'', ''GEO_ANOMALY: activity from an unseen location bucket''),
      (''hour_deviation'', ''TIME_ANOMALY: activity far outside usual hours''),
      (''amount_zscore'', ''AMOUNT_ANOMALY: amount deviates strongly from history''),
      (''behavior_anomaly'',
        ''BEHAVIOUR_MISMATCH: typing/swipe pattern does not match owner''),
      (''event_criticality'', ''SENSITIVE_ACTION: inherently high-risk operation''),
      (''channel_risk'', ''CHANNEL_RISK: elevated-risk channel''),
      (''new_beneficiary'', ''NEW_BENEFICIARY: payment to a never-seen payee''),
      (''recovery_change'', ''RECOVERY_CHANGE: recovery contact being modified''),
      (''velocity'', ''VELOCITY: unusually rapid activity burst''),
      (''device_sharing'',
        ''DEVICE_SHARING: device linked to multiple identities (mule-farm pattern)'')]"

definition DRIFT_REASON :: string where
  "DRIFT_REASON = ''DRIFT_REVIEW: sustained low-and-slow risk increase - secondary review''"

definition IMPOSSIBLE_TRAVEL_REASON :: string where
  "IMPOSSIBLE_TRAVEL_REASON = ''IMPOSSIBLE_TRAVEL: geo changed faster than physically possible''"

definition NORMAL_REASON :: string where
  "NORMAL_REASON = ''NORMAL: behaviour consistent with identity baseline''"

definition WEIGHTS :: "pyfloat list" where
  "WEIGHTS = [fl 0.14, fl 0.10, fl 0.05, fl 0.11, fl 0.15, fl 0.07, fl 0.04, fl 0.08, fl 0.12,
              fl 0.04, fl 0.10]"

definition RECOVERY_CAP_PER_WINDOW :: int where "RECOVERY_CAP_PER_WINDOW = 120"
definition RECOVERY_WINDOW_SECONDS :: pyfloat where "RECOVERY_WINDOW_SECONDS = fl 3600"
definition RISK_WINDOW_MAX :: nat where "RISK_WINDOW_MAX = 16"
definition COLD_PRIOR_FACTOR :: pyfloat where "COLD_PRIOR_FACTOR = fl 0.5"
definition COLD_PRIOR_MAX_AMOUNT :: pyfloat where "COLD_PRIOR_MAX_AMOUNT = fl 25000"
definition IMPOSSIBLE_TRAVEL_SECONDS :: pyfloat where "IMPOSSIBLE_TRAVEL_SECONDS = fl 3600"
definition IMPOSSIBLE_TRAVEL_BOOST :: pyfloat where "IMPOSSIBLE_TRAVEL_BOOST = fl 0.5"
definition CAS_RETRIES :: nat where "CAS_RETRIES = 6"

text \<open>\<^verbatim>\<open>(geo or "").split("-")[0]\<close>.\<close>

definition country :: "string \<Rightarrow> string" where
  "country geo = takeWhile (\<lambda>c. c \<noteq> CHR ''-'') geo"

definition cold_prior_applies :: "identity_event \<Rightarrow> bool" where
  "cold_prior_applies e \<longleftrightarrow>
     (ev_event_type e = LOGIN \<or> ev_event_type e = TRANSACTION) \<and>
     (ev_channel e = MOBILE_APP \<or> ev_channel e = INTERNET_BANKING \<or> ev_channel e = BRANCH) \<and>
     \<not> ev_is_new_beneficiary e \<and>
     \<not> ev_recovery_contact_changed e \<and>
     (case ev_amount e of None \<Rightarrow> True | Some a \<Rightarrow> a < COLD_PRIOR_MAX_AMOUNT)"

section \<open>The engine\<close>

type_synonym 'n resolver = "'n \<Rightarrow> pyfloat \<Rightarrow> identity_event \<Rightarrow> 'n \<times> (py_exn + pyfloat option)"

record ('o, 'n) trust_engine =
  te_lib :: "'o num_lib"
  te_model :: "'o serving_model"
  te_drift :: drift_detector
  te_drift_enabled :: bool
  te_recovery_cap :: int
  te_cold_start_prior :: bool
  te_impossible_travel :: bool
  te_resolver :: "'n resolver option"

text \<open>The constructor with its defaults, and the \<^verbatim>\<open>legacy\<close> one.\<close>

definition engine_default ::
  "'o num_lib \<Rightarrow> 'o serving_model \<Rightarrow> 'n resolver option \<Rightarrow> ('o, 'n) trust_engine" where
  "engine_default lib m res =
     \<lparr> te_lib = lib, te_model = m, te_drift = drift_default, te_drift_enabled = True,
       te_recovery_cap = RECOVERY_CAP_PER_WINDOW, te_cold_start_prior = True,
       te_impossible_travel = True, te_resolver = res \<rparr>"

definition engine_legacy ::
  "'o num_lib \<Rightarrow> 'o serving_model \<Rightarrow> 'n resolver option \<Rightarrow> ('o, 'n) trust_engine" where
  "engine_legacy lib m res =
     \<lparr> te_lib = lib, te_model = m, te_drift = drift_default, te_drift_enabled = False,
       te_recovery_cap = 10 ^ 9, te_cold_start_prior = False,
       te_impossible_travel = False, te_resolver = res \<rparr>"

definition model_mode :: "('o, 'n) trust_engine \<Rightarrow> string" where
  "model_mode eng = (if sm_is_synthetic (te_model eng) then ''demo_synthetic'' else ''prod'')"

definition resolve_behavior ::
  "('o, 'n) trust_engine \<Rightarrow> 'n \<Rightarrow> pyfloat \<Rightarrow> identity_event \<Rightarrow> 'n \<times> pyfloat option" where
  "resolve_behavior eng n now e =
     (case te_resolver eng of
        None \<Rightarrow> (n, None)
      | Some res \<Rightarrow> (case res n now e of (n', Inr sim) \<Rightarrow> (n', sim) | (n', Inl _) \<Rightarrow> (n', None)))"

definition contribution_lt :: "pyfloat \<times> string \<Rightarrow> pyfloat \<times> string \<Rightarrow> bool" where
  "contribution_lt s t \<longleftrightarrow> fst s < fst t \<or> py_eq (fst s) (fst t) \<and> snd s < snd t"

definition explain :: "pyfloat list \<Rightarrow> string list \<times> (pyfloat \<times> string) list" where
  "explain vec =
     (let contributions = sort_desc contribution_lt
            (map (\<lambda>(w, f, name). (w * f, name)) (zip WEIGHTS (zip vec FEATURE_NAMES)));
          reasons = map (\<lambda>(c, name). the (map_of REASON_TEXT name))
            (filter (\<lambda>(c, name). fl 0.05 < c) (take 3 contributions))
      in (if reasons = [] then [NORMAL_REASON] else reasons, take 5 contributions))"

definition update_trust ::
  "('o, 'n) trust_engine \<Rightarrow> identity_state \<Rightarrow> pyfloat \<Rightarrow> pyfloat \<Rightarrow> py_exn + identity_state \<times> int" where
  "update_trust eng st event_risk now =
     (let prev = st_trust st in
      if fl 0.45 < event_risk then
        sbind (py_int ((event_risk - fl 0.45) * fl 900)) (\<lambda>d.
        Inr (st, nl_clip_int (te_lib eng) (prev - d) 0 1000))
      else
        sbind (py_int ((fl 0.45 - event_risk) * fl 60)) (\<lambda>gain.
        let st1 = (if RECOVERY_WINDOW_SECONDS < now - st_recovery_window_start st
                   then st\<lparr>st_recovery_window_start := now, st_recovered_in_window := 0\<rparr> else st);
            allowed = max 0 (te_recovery_cap eng - st_recovered_in_window st1);
            gain' = min gain allowed;
            st2 = st1\<lparr>st_recovered_in_window := st_recovered_in_window st1 + gain'\<rparr>
        in Inr (st2, nl_clip_int (te_lib eng) (prev + gain') 0 1000)))"

definition is_impossible_travel ::
  "('o, 'n) trust_engine \<Rightarrow> identity_state \<Rightarrow> identity_event \<Rightarrow> pyfloat \<Rightarrow> bool" where
  "is_impossible_travel eng st e now =
     (if \<not> te_impossible_travel eng \<or> st_last_geo st = [] then False
      else if country (ev_geo e) = country (st_last_geo st) then False
      else now - st_last_geo_ts st < IMPOSSIBLE_TRAVEL_SECONDS)"

section \<open>Assessment\<close>

text \<open>What an iteration of the retry loop leaves in the local variables.\<close>

record outcome =
  oc_decision :: decision
  oc_band :: band
  oc_step_up :: "step_up_method option"
  oc_trust :: int
  oc_ml_risk :: "pyfloat option"
  oc_det_risk :: pyfloat
  oc_event_risk :: pyfloat
  oc_degraded :: bool
  oc_reasons :: "string list"
  oc_contributions :: "(pyfloat \<times> string) list"
  oc_vec :: "pyfloat list"
  oc_amounts :: "pyfloat list"

text \<open>The cold-start prior on the first two features.\<close>

definition apply_cold_prior ::
  "('o, 'n) trust_engine \<Rightarrow> identity_event \<Rightarrow> identity_state \<Rightarrow> pyfloat list \<Rightarrow> pyfloat list" where
  "apply_cold_prior eng e st vec =
     (if st_event_count st = 0 \<and> te_cold_start_prior eng \<and> \<not> st_cold_prior_used st
         \<and> cold_prior_applies e
      then (vec[0 := vec ! 0 * COLD_PRIOR_FACTOR])[1 := vec ! 1 * COLD_PRIOR_FACTOR]
      else vec)"

definition det_risk_of :: "('o, 'n) trust_engine \<Rightarrow> pyfloat list \<Rightarrow> pyfloat" where
  "det_risk_of eng vec =
     nl_clip (te_lib eng) (py_sum (map2 (*) WEIGHTS vec)) (fl 0) (fl 1)"

definition blend_risk :: "pyfloat option \<Rightarrow> pyfloat \<Rightarrow> pyfloat" where
  "blend_risk ml_risk det_risk =
     (case ml_risk of None \<Rightarrow> det_risk | Some m \<Rightarrow> fl 0.55 * m + fl 0.45 * det_risk)"

text \<open>Model risk, deterministic risk, their blend, the reasons and the impossible-travel override.\<close>

record scoring =
  sc_vec :: "pyfloat list"
  sc_ml_risk :: "pyfloat option"
  sc_det_risk :: pyfloat
  sc_event_risk :: pyfloat
  sc_reasons :: "string list"
  sc_contributions :: "(pyfloat \<times> string) list"

definition score_vector ::
  "('o, 'n) trust_engine \<Rightarrow> identity_event \<Rightarrow> pyfloat \<Rightarrow> identity_state \<Rightarrow> pyfloat list \<Rightarrow> scoring" where
  "score_vector eng e now st vec =
     (let ml_risk = (case model_risk (te_lib eng) (te_model eng) vec of
                       Inr r \<Rightarrow> Some r | Inl _ \<Rightarrow> None);
          det_risk = det_risk_of eng vec;
          blended = blend_risk ml_risk det_risk;
          impossible = is_impossible_travel eng st e now
      in \<lparr> sc_vec = vec, sc_ml_risk = ml_risk, sc_det_risk = det_risk,
           sc_event_risk =
             (if impossible
              then nl_clip (te_lib eng) (blended + IMPOSSIBLE_TRAVEL_BOOST) (fl 0) (fl 1)
              else blended),
           sc_reasons = (if impossible then IMPOSSIBLE_TRAVEL_REASON # fst (explain vec)
                         else fst (explain vec)),
           sc_contributions = snd (explain vec) \<rparr>)"

text \<open>The risk window, the EWMA and the CUSUM; the flag is \<^verbatim>\<open>drifting\<close>.\<close>

definition watch_drift ::
  "('o, 'n) trust_engine \<Rightarrow> bool \<Rightarrow> pyfloat \<Rightarrow> identity_state \<Rightarrow> identity_state \<times> bool" where
  "watch_drift eng cold event_risk st =
     (let risk_window = last_n RISK_WINDOW_MAX (st_risk_window st @ [py_round 4 event_risk]);
          (ewma, cusum, cusum_fired) =
            drift_step (te_drift eng) (st_risk_ewma st) (st_cusum st) event_risk;
          window_fired = (\<not> cold \<and> detect (nl_ks (te_lib eng)) (te_drift eng) risk_window)
      in (st\<lparr>st_risk_window := risk_window, st_risk_ewma := ewma, st_cusum := cusum\<rparr>,
          te_drift_enabled eng \<and> (cusum_fired \<or> window_fired)))"

text \<open>
  The decision of the policy, the secondary review, the degradation policy, and what the state keeps
  of them.
\<close>

definition settle ::
  "identity_event \<Rightarrow> pyfloat \<Rightarrow> scoring \<Rightarrow> bool \<Rightarrow> identity_state \<Rightarrow> int \<Rightarrow> identity_state \<times> outcome" where
  "settle e now sc drifting st new_trust =
     (let d1 = decide new_trust (sc_event_risk sc) e;
          review = ((drifting \<or> st_under_review st) \<and> fst d1 = ALLOW);
          d2 = (if review then (STEP_UP, DRIFT_REVIEW, Some (cheapest_sufficient e True)) else d1);
          st1 = (if review then st\<lparr>st_under_review := True\<rparr> else st);
          degraded = (sc_ml_risk sc = None);
          d3 = (if degraded then resilience_apply (fst d2) (fst (snd d2)) (snd (snd d2)) e else d2);
          st2 = st1\<lparr>st_trust := new_trust\<rparr>;
          st3 = (if fst d3 = ALLOW
                 then (commit_features st2 e)\<lparr>st_last_geo := ev_geo e, st_last_geo_ts := now\<rparr>
                 else st2)
      in (st3,
          \<lparr> oc_decision = fst d3, oc_band = fst (snd d3), oc_step_up = snd (snd d3),
            oc_trust = new_trust, oc_ml_risk = sc_ml_risk sc, oc_det_risk = sc_det_risk sc,
            oc_event_risk = sc_event_risk sc, oc_degraded = degraded,
            oc_reasons = (if review then DRIFT_REASON # sc_reasons sc else sc_reasons sc),
            oc_contributions = sc_contributions sc, oc_vec = sc_vec sc,
            oc_amounts = st_amounts st3 \<rparr>))"

definition assess_state ::
  "('o, 'n) trust_engine \<Rightarrow> identity_event \<Rightarrow> pyfloat option \<Rightarrow> pyfloat \<Rightarrow> int \<Rightarrow> identity_state
     \<Rightarrow> py_exn + identity_state \<times> outcome" where
  "assess_state eng e behavior_anomaly now dev_count st0 =
     (let cold = (st_event_count st0 = 0) in
      sbind (compute_features (nl_pow (te_lib eng)) e st0 dev_count behavior_anomaly)
        (\<lambda>(st1, vec0).
      let vec = apply_cold_prior eng e st1 vec0;
          st2 = (if cold then st1\<lparr>st_cold_prior_used := True\<rparr> else st1);
          sc = score_vector eng e now st2 vec;
          (st3, drifting) = watch_drift eng cold (sc_event_risk sc) st2
      in sbind (update_trust eng st3 (sc_event_risk sc) now)
           (\<lambda>(st4, new_trust). Inr (settle e now sc drifting st4 new_trust))))"

text \<open>One iteration: lock, load, device graph, score, commit. The flag is the result of the commit.\<close>

definition assess_locked ::
  "('o, 'n) trust_engine \<Rightarrow> 's store_ops \<Rightarrow> identity_event \<Rightarrow> pyfloat option \<Rightarrow> pyfloat \<Rightarrow> 's
     \<Rightarrow> 's \<times> (py_exn + outcome \<times> bool)" where
  "assess_locked eng ops e behavior_anomaly now s =
     (case so_load ops s (ev_identity_id e) of
        Inl x \<Rightarrow> (s, Inl x)
      | Inr st \<Rightarrow>
        (case so_device_add ops s (ev_device_id e) (ev_identity_id e) of
           (s1, Inl x) \<Rightarrow> (s1, Inl x)
         | (s1, Inr n) \<Rightarrow>
           (case assess_state eng e behavior_anomaly now n st of
              Inl x \<Rightarrow> (s1, Inl x)
            | Inr (st', oc) \<Rightarrow>
                (case so_commit ops s1 (ev_identity_id e) st' (st_version st') of
                   (s2, ok) \<Rightarrow> (s2, Inr (oc, ok))))))"

definition assess_attempt ::
  "('o, 'n) trust_engine \<Rightarrow> 's store_ops \<Rightarrow> identity_event \<Rightarrow> pyfloat option \<Rightarrow> pyfloat \<Rightarrow> 's
     \<Rightarrow> 's \<times> (py_exn + outcome \<times> bool)" where
  "assess_attempt eng ops e behavior_anomaly now =
     with_lock ops (ev_identity_id e) (assess_locked eng ops e behavior_anomaly now)"

text \<open>\<^verbatim>\<open>for _ in range(_CAS_RETRIES)\<close>, leaving the loop after a successful commit.\<close>

fun assess_loop ::
  "('o, 'n) trust_engine \<Rightarrow> 's store_ops \<Rightarrow> identity_event \<Rightarrow> pyfloat option \<Rightarrow> pyfloat \<Rightarrow> nat
     \<Rightarrow> outcome option \<Rightarrow> 's \<Rightarrow> 's \<times> (py_exn + outcome option)" where
  "assess_loop eng ops e b now 0 oc s = (s, Inr oc)"
| "assess_loop eng ops e b now (Suc n) oc s =
     (case assess_attempt eng ops e b now s of
        (s1, Inl x) \<Rightarrow> (s1, Inl x)
      | (s1, Inr (oc', ok)) \<Rightarrow>
          if ok then (s1, Inr (Some oc')) else assess_loop eng ops e b now n (Some oc') s1)"

text \<open>
  The clocks and random identifiers a call reads: the wall clock of the resolver and of the engine,
  the latency already rounded, and the two identifiers (challenge, event).
\<close>

record call_inputs =
  ci_resolve_now :: pyfloat
  ci_now :: pyfloat
  ci_latency_ms :: pyfloat
  ci_challenge_uuid :: string
  ci_event_uuid :: string

definition amount_ref_of :: "pyfloat list \<Rightarrow> pyfloat option" where
  "amount_ref_of amounts =
     (if amounts = [] then None
      else Some (fdiv (py_sum amounts) (float_of_int (int (length amounts)))))"

definition soc_of_outcome ::
  "('o, 'n) trust_engine \<Rightarrow> call_inputs \<Rightarrow> identity_event \<Rightarrow> outcome \<Rightarrow> py_exn + soc_assessment" where
  "soc_of_outcome eng ci e oc =
     (let amount_ref = amount_ref_of (oc_amounts oc);
          shap = shap_values (oc_vec oc) WEIGHTS BASELINE
      in sbind (counterfactual (oc_vec oc) WEIGHTS e BASELINE amount_ref) (\<lambda>cf. Inr
        \<lparr> soc_event_id = ci_event_uuid ci,
          soc_identity_id = ev_identity_id e,
          soc_trust_score = oc_trust oc,
          soc_risk_band = band_str (oc_band oc),
          soc_decision = oc_decision oc,
          soc_step_up_method = oc_step_up oc,
          soc_challenge_id = (if oc_decision oc = STEP_UP then Some (ci_challenge_uuid ci) else None),
          soc_reason_codes = oc_reasons oc,
          soc_feature_contributions = oc_contributions oc,
          soc_shap_values = shap,
          soc_counterfactual = cf,
          soc_ml_risk = oc_ml_risk oc,
          soc_det_risk = oc_det_risk oc,
          soc_event_risk = oc_event_risk oc,
          soc_model_provenance = sm_provenance (te_model eng),
          soc_model_mode = model_mode eng,
          soc_degraded = oc_degraded oc,
          soc_latency_ms = ci_latency_ms ci \<rparr>))"

definition assess ::
  "('o, 'n) trust_engine \<Rightarrow> 's store_ops \<Rightarrow> call_inputs \<Rightarrow> identity_event \<Rightarrow> 's \<times> 'n
     \<Rightarrow> ('s \<times> 'n) \<times> (py_exn + soc_assessment)" where
  "assess eng ops ci e w =
     (let (n', sim) = resolve_behavior eng (snd w) (ci_resolve_now ci) e;
          behavior_anomaly = (case sim of None \<Rightarrow> None | Some x \<Rightarrow> Some (fl 1 - x))
      in case assess_loop eng ops e behavior_anomaly (ci_now ci) CAS_RETRIES None (fst w) of
           (s', Inl x) \<Rightarrow> ((s', n'), Inl x)
         | (s', Inr None) \<Rightarrow> ((s', n'), Inl TypeError)
         | (s', Inr (Some oc)) \<Rightarrow> ((s', n'), soc_of_outcome eng ci e oc))"

section \<open>Step-up outcomes and reads\<close>

definition step_up_state :: "bool \<Rightarrow> identity_state \<Rightarrow> identity_state" where
  "step_up_state passed st =
     (let prev = st_trust st;
          new = (if passed then min (prev + 250) 1000 else max (prev - 400) 0);
          st1 = st\<lparr>st_trust := new\<rparr>
      in if passed then st1\<lparr>st_under_review := False, st_risk_window := [], st_cusum := fl 0\<rparr>
         else st1)"

definition step_up_locked ::
  "'s store_ops \<Rightarrow> string \<Rightarrow> bool \<Rightarrow> 's \<Rightarrow> 's \<times> (py_exn + int \<times> bool)" where
  "step_up_locked ops i passed s =
     (case so_load ops s i of
        Inl x \<Rightarrow> (s, Inl x)
      | Inr st \<Rightarrow>
          let st' = step_up_state passed st in
          (case so_commit ops s i st' (st_version st') of
             (s1, ok) \<Rightarrow> (s1, Inr (st_trust st', ok))))"

fun step_up_loop ::
  "'s store_ops \<Rightarrow> string \<Rightarrow> bool \<Rightarrow> nat \<Rightarrow> int \<Rightarrow> 's \<Rightarrow> 's \<times> (py_exn + int)" where
  "step_up_loop ops i passed 0 new s = (s, Inr new)"
| "step_up_loop ops i passed (Suc n) new s =
     (case with_lock ops i (step_up_locked ops i passed) s of
        (s1, Inl x) \<Rightarrow> (s1, Inl x)
      | (s1, Inr (new', ok)) \<Rightarrow>
          if ok then (s1, Inr new') else step_up_loop ops i passed n new' s1)"

definition apply_verified_step_up ::
  "'s store_ops \<Rightarrow> string \<Rightarrow> bool \<Rightarrow> 's \<Rightarrow> 's \<times> (py_exn + int)" where
  "apply_verified_step_up ops i passed s = step_up_loop ops i passed CAS_RETRIES DEFAULT_TRUST s"

definition get_trust :: "'s store_ops \<Rightarrow> string \<Rightarrow> 's \<Rightarrow> py_exn + int" where
  "get_trust ops i s = sbind (so_load ops s i) (\<lambda>st. Inr (st_trust st))"

record snapshot =
  sn_trust_score :: int
  sn_known_devices :: int
  sn_events_seen :: int

definition identity_snapshot :: "'s store_ops \<Rightarrow> string \<Rightarrow> 's \<Rightarrow> py_exn + snapshot" where
  "identity_snapshot ops i s =
     sbind (so_load ops s i) (\<lambda>st. Inr
       \<lparr> sn_trust_score = st_trust st, sn_known_devices = int (fcard (st_devices st)),
         sn_events_seen = st_event_count st \<rparr>)"

end
