(* ===== verification/FeatureFacts.thy ===== *)
theory FeatureFacts
  imports Features
begin

text \<open>
  Bounds of the features. \<open>amounts_ok\<close>: every recorded amount has magnitude at most \<open>2^60\<close>. Under the
  invariants below every feature is a float of the unit interval, so no arithmetic of the scorer
  meets a NaN.
\<close>

definition amounts_ok :: "pyfloat list \<Rightarrow> bool" where
  "amounts_ok xs \<longleftrightarrow> (\<forall>x \<in> set xs. fin_in (- (2 ^ 60)) (2 ^ 60) x)"

definition amount_ok :: "pyfloat option \<Rightarrow> bool" where
  "amount_ok a \<longleftrightarrow> (case a of None \<Rightarrow> True | Some x \<Rightarrow> fin_in 0 (2 ^ 60) x)"

definition behavior_ok :: "pyfloat option \<Rightarrow> bool" where
  "behavior_ok b \<longleftrightarrow> (case b of None \<Rightarrow> True | Some x \<Rightarrow> fin_in 0 1 x)"

lemma hour_distance:
  assumes "0 \<le> h" "h \<le> 23" "0 \<le> g" "g \<le> (23::int)"
  shows "0 \<le> min \<bar>h - g\<bar> (24 - \<bar>h - g\<bar>)" "min \<bar>h - g\<bar> (24 - \<bar>h - g\<bar>) \<le> 12"
  using assms by linarith+

lemma hour_deviation_unit:
  assumes "\<forall>h \<in> set (st_hours st). 0 \<le> h \<and> h \<le> 23" "0 \<le> hour" "hour \<le> 23"
  shows "fin_in 0 1 (hour_deviation st hour)"
proof (cases "st_hours st = []")
  case True
  then show ?thesis by (simp add: hour_deviation_def)
next
  case False
  let ?f = "\<lambda>h. min \<bar>hour - h\<bar> (24 - \<bar>hour - h\<bar>)"
  let ?d = "map ?f (last_n 200 (st_hours st))"
  have ne: "?d \<noteq> []" using False by simp
  have "min_list ?d \<in> set ?d" using ne by (simp add: min_list_Min del: set_map)
  then obtain h where h: "h \<in> set (st_hours st)" "min_list ?d = ?f h"
    using set_last_n [of 200 "st_hours st"] by auto
  then have "0 \<le> min_list ?d"
    using hour_distance(1) [of hour h] assms by simp
  then have "Fin 0 \<le> float_of_int (min_list ?d)"
    by (simp add: float_of_int_def fl_nonneg)
  then show ?thesis
    using False by (simp add: hour_deviation_def Let_def fdiv_nonneg py_min_unit)
qed

lemma square_devs_ok:
  assumes pw: "pow_laws pw" and as: "\<forall>a \<in> set as. fin_in (- (2 ^ 60)) (2 ^ 60) a"
    and m: "fin_in (- (2 ^ 68)) (2 ^ 68) m"
  shows "\<exists>qs. square_devs pw m as = Inr qs \<and> length qs = length as \<and>
           (\<forall>q \<in> set qs. fin_in 0 (2 ^ 139) q)"
  using as
proof (induction as)
  case (Cons a as)
  then obtain qs where qs: "square_devs pw m as = Inr qs" "length qs = length as"
    "\<forall>q \<in> set qs. fin_in 0 (2 ^ 139) q"
    by auto
  have f: "f64 (2 ^ 69)" by (rule f64_pow2) simp
  have "fin_in (- (2 ^ 69)) (2 ^ 69) (a - m)"
    by (rule fin_in_diff [of "- (2 ^ 60)" "2 ^ 60" a "- (2 ^ 68)" "2 ^ 68" m])
      (use Cons.prems m f in auto)
  then obtain d where d: "a - m = Fin d" "\<bar>d\<bar> \<le> 2 ^ 69"
    by (auto elim!: fin_inE)
  then obtain q where "pw (Fin d) 2 = Inr (Fin q)" "0 \<le> q" "q \<le> 2 ^ (2 * 69 + 1)"
    using pw [unfolded pow_laws_def, THEN conjunct1, rule_format, of 69 d] by auto
  with d qs show ?case by simp
qed simp

lemma py_div_pos:
  assumes "Fin 0 \<le> x" "\<And>b. y = Fin b \<Longrightarrow> 0 < b" "y = PInf \<or> (\<exists>b. y = Fin b)" "x \<noteq> PInf"
  shows "\<exists>z. py_div x y = Inr z \<and> Fin 0 \<le> z"
  using assms by (cases x; cases y) (auto simp: py_div_def intro: fl_nonneg)

lemma three_std_pos:
  assumes "1 \<le> s"
  shows "fl 3 * Fin s = PInf \<or> (\<exists>b. fl 3 * Fin s = Fin b \<and> 0 < b)"
proof -
  have "1 \<le> f64_round (3 * s)"
    using f64_round_mono [of 1 "3 * s"] assms by simp
  then show ?thesis by (auto simp: fl_def Let_def)
qed

lemma py_mean_bounds:
  assumes "\<forall>x \<in> set xs. fin_in (- (2 ^ n)) (2 ^ n) x" "length xs \<le> 200" "n \<le> 900" "xs \<noteq> []"
  shows "fin_in (- (2 ^ (n + 8))) (2 ^ (n + 8)) (fdiv (py_sum xs) (float_of_int (int (length xs))))"
proof -
  obtain s where s: "py_sum xs = Fin s" "\<bar>s\<bar> \<le> 2 ^ (n + 8)"
    using fin_in_py_sum [OF assms(1-3)] by (auto elim!: fin_inE)
  have len: "1 \<le> (of_nat (length xs) :: rat)" using assms(4) by (simp add: Suc_le_eq)
  have "float_of_int (int (length xs)) = Fin (of_nat (length xs))"
    using f64_int_pow2 [of "int (length xs)" 0] assms(2) by (simp add: float_of_int_def fl_f64)
  moreover have "\<bar>s / of_nat (length xs)\<bar> \<le> \<bar>s\<bar> / 1"
    unfolding abs_divide by (rule divide_left_mono) (use len assms(4) in simp_all)
  then have "\<bar>s / of_nat (length xs)\<bar> \<le> 2 ^ (n + 8)" using s(2) by linarith
  then have "- (2 ^ (n + 8)) \<le> s / of_nat (length xs)" "s / of_nat (length xs) \<le> 2 ^ (n + 8)"
    by linarith+
  ultimately show ?thesis
    using s(1) f64_pow2 [of "n + 8"] assms(3) by (auto intro!: fl_bounds)
qed

lemma amount_zscore_unit:
  assumes "pow_laws pw" "amounts_ok (st_amounts st)" "amount_ok a"
  shows "\<exists>z. amount_zscore pw st a = Inr z \<and> fin_in 0 1 z"
proof (cases a)
  case None
  then show ?thesis by (simp add: amount_zscore_def)
next
  case (Some x)
  let ?h = "last_n 200 (st_amounts st)"
  have x: "fin_in 0 (2 ^ 60) x" using assms(3) Some by (simp add: amount_ok_def)
  show ?thesis
  proof (cases "length ?h < 5")
    case True
    then have "length (st_amounts st) < 5" by (simp add: min_def split: if_splits)
    then show ?thesis using Some x
      by (simp add: amount_zscore_def Let_def py_min_unit fdiv_nonneg fin_in_nonneg)
  next
    case False
    have h: "\<forall>y \<in> set ?h. fin_in (- (2 ^ 60)) (2 ^ 60) y" "length ?h \<le> 200" "?h \<noteq> []"
      using assms(2) set_last_n [of 200 "st_amounts st"] False by (auto simp: amounts_ok_def)
    let ?n = "float_of_int (int (length ?h))"
    define m where "m = fdiv (py_sum ?h) ?n"
    have m: "fin_in (- (2 ^ 68)) (2 ^ 68) m"
      using py_mean_bounds [OF h(1,2) _ h(3)] by (simp add: m_def)
    obtain qs where qs: "square_devs pw m ?h = Inr qs" "length qs = length ?h"
      "\<forall>q \<in> set qs. fin_in 0 (2 ^ 139) q"
      using square_devs_ok [OF assms(1) h(1) m] by blast
    have len: "?n = Fin (of_nat (length ?h))"
      using f64_int_pow2 [of "int (length ?h)" 0] h(2) by (simp add: float_of_int_def fl_f64)
    have "\<forall>q \<in> set qs. fin_in (- (2 ^ 139)) (2 ^ 139) q"
      using qs(3) by (auto elim!: fin_in_mono)
    moreover have "length qs \<le> 200" using qs(2) h(2) by simp
    ultimately have "fin_in (- (2 ^ 147)) (2 ^ 147) (py_sum qs)"
      using fin_in_py_sum [of qs 139] by simp
    moreover have "Fin 0 \<le> py_sum qs"
    proof -
      have "Fin 0 \<le> a \<Longrightarrow> (\<forall>q \<in> set ys. fin_in 0 (2 ^ 139) q) \<Longrightarrow> Fin 0 \<le> foldl (+) a ys" for a ys
      proof (induction ys arbitrary: a)
        case (Cons y ys)
        then have "Fin 0 \<le> a + y"
          by (cases a) (auto elim!: fin_inE intro!: fl_nonneg add_nonneg_nonneg)
        with Cons show ?case by simp
      qed simp
      then show ?thesis using qs(3) by (simp add: py_sum_def)
    qed
    moreover have "0 < (of_nat (length ?h) :: rat)" using h(3) by (simp del: length_last_n)
    ultimately have nn: "Fin 0 \<le> fdiv (py_sum qs) ?n"
      unfolding len by (intro fdiv_nonneg)
    have "qs \<noteq> []" using qs(2) h(3) by (auto simp del: length_last_n)
    then have "fin_in (- (2 ^ 147)) (2 ^ 147) (fdiv (py_sum qs) ?n)"
      using py_mean_bounds [of qs 139] qs(2) h(2) \<open>\<forall>q \<in> set qs. fin_in (- (2 ^ 139)) (2 ^ 139) q\<close>
      by (simp del: length_last_n)
    with nn obtain v where "fdiv (py_sum qs) ?n = Fin v" "0 \<le> v"
      by (auto elim!: fin_inE)
    then obtain v root where v: "fdiv (py_sum qs) ?n = Fin v" "0 \<le> v"
      and root: "pw (Fin v) (1/2) = Inr (Fin root)" "0 \<le> root"
      using assms(1) by (auto simp: pow_laws_def)
    define s where "s = max root 1"
    have std: "py_max (Fin root) (fl 1) = Fin s" "1 \<le> s"
      by (auto simp: py_max_def s_def)
    have "f64 (2 ^ 69)" by (rule f64_pow2) simp
    then have "fin_in (- (2 ^ 69)) (2 ^ 69) (x - m)"
      by (intro fin_in_diff [of 0 "2 ^ 60" x "- (2 ^ 68)" "2 ^ 68" m]) (use x m in auto)
    then obtain d where "\<bar>x - m\<bar> = Fin \<bar>d\<bar>" by (auto elim!: fin_inE)
    then obtain z where z: "py_div \<bar>x - m\<bar> (fl 3 * Fin s) = Inr z" "Fin 0 \<le> z"
      using py_div_pos [of "\<bar>x - m\<bar>" "fl 3 * Fin s"] three_std_pos [OF std(2)] by auto
    show ?thesis
      using Some False qs(1) v(1) root(1) std(1) z
      by (simp add: amount_zscore_def Let_def m_def [symmetric] py_min_unit
          del: fl_numeral fdiv.simps length_last_n)
  qed
qed

lemma EVENT_CRITICALITY_unit: "fin_in 0 1 (EVENT_CRITICALITY t)"
  by (cases t) simp_all

lemma CHANNEL_RISK_unit: "fin_in 0 1 (CHANNEL_RISK c)"
  by (cases c) simp_all

lemma burst_step: "fin_in 0 2 b \<Longrightarrow> fin_in 0 2 (b * fl 0.5 + fl 1)"
  by (rule fin_in_add [of 0 1 _ 1 1], rule fin_in_mult_nonneg [of 0 2 _ "1/2" "1/2"]) simp_all

lemma compute_features_unit:
  assumes "pow_laws pw" "amounts_ok (st_amounts st)" "amount_ok (ev_amount e)" "behavior_ok b"
    "\<forall>h \<in> set (st_hours st). 0 \<le> h \<and> h \<le> 23" "event_ok e" "fin_in 0 2 (st_burst st)" "1 \<le> n"
  shows "\<exists>st' vec. compute_features pw e st n b = Inr (st', vec) \<and> (\<forall>f \<in> set vec. fin_in 0 1 f)"
proof -
  let ?st = "st\<lparr>st_burst := st_burst st * fl 0.5 + fl 1\<rparr>"
  obtain z where z: "amount_zscore pw ?st (ev_amount e) = Inr z" "fin_in 0 1 z"
    using amount_zscore_unit [OF assms(1) _ assms(3), of ?st] assms(2) by auto
  have bu: "fin_in 0 2 (st_burst ?st)" using burst_step [OF assms(7)] by simp
  have h: "fin_in 0 1 (hour_deviation ?st (ev_hour_of_day e))"
    using assms(5,6) by (intro hour_deviation_unit) (simp_all add: event_ok_def)
  have v: "fin_in 0 1 (py_min (fdiv (st_burst ?st) (fl 15)) (fl 1))"
    using py_min_unit [OF fdiv_nonneg [OF fin_in_nonneg [OF bu], of 15]] by simp
  have s: "fin_in 0 1 (py_min (fdiv (float_of_int (n - 1)) (fl 3)) (fl 1))"
    using assms(8) py_min_unit [OF fdiv_nonneg [OF fl_nonneg, of "of_int (n - 1)" 3]]
    by (simp add: float_of_int_def)
  have b: "fin_in 0 1 (case b of None \<Rightarrow> NEUTRAL_BEHAVIOR_ANOMALY | Some x \<Rightarrow> x)"
    using assms(4) by (auto simp: behavior_ok_def NEUTRAL_BEHAVIOR_ANOMALY_def split: option.splits)
  show ?thesis
    using z h v s b
    by (simp add: compute_features_def Let_def EVENT_CRITICALITY_unit CHANNEL_RISK_unit
        del: fl_numeral fl_1 fl_0) (simp)
qed

text \<open>The amount influences one feature only.\<close>

lemma amount_zscore_None [simp]: "amount_zscore pw st None = Inr (Fin 0)"
  by (simp add: amount_zscore_def)

lemma compute_features_amount:
  assumes "compute_features pw e st n b = Inr (st1, vec)"
  shows "amount_zscore pw st1 (ev_amount e) = Inr (vec ! 3)"
    and "compute_features pw (e\<lparr>ev_amount := None\<rparr>) st n b = Inr (st1, vec[3 := Fin 0])"
proof -
  let ?st = "st\<lparr>st_burst := st_burst st * fl 0.5 + fl 1\<rparr>"
  obtain az where az: "amount_zscore pw ?st (ev_amount e) = Inr az"
    using assms by (cases "amount_zscore pw ?st (ev_amount e)") (simp_all add: compute_features_def Let_def)
  show "amount_zscore pw st1 (ev_amount e) = Inr (vec ! 3)"
    "compute_features pw (e\<lparr>ev_amount := None\<rparr>) st n b = Inr (st1, vec[3 := Fin 0])"
    using assms az by (auto simp: compute_features_def Let_def)
qed

end
