(* ===== verification/EngineFacts.thy ===== *)
theory EngineFacts
  imports RiskEngine FeatureFacts
begin

text \<open>
  What the lemmas about the engine share: \<open>assess_stateE\<close> takes one scoring apart into the stages of
  the code, \<open>update_trustE\<close> the trust update; the bounds of every feature and of the risk; the
  invariant \<open>state_ok\<close> of a stored state.
\<close>

section \<open>Taking an assessment apart\<close>

lemma assess_stateE:
  assumes "assess_state eng e b now n st0 = Inr (st', oc)"
  obtains st1 vec0 st2 sc st3 drifting st4 where
    "compute_features (nl_pow (te_lib eng)) e st0 n b = Inr (st1, vec0)"
    "st2 = (if st_event_count st0 = 0 then st1\<lparr>st_cold_prior_used := True\<rparr> else st1)"
    "sc = score_vector eng e now st2 (apply_cold_prior eng e st1 vec0)"
    "watch_drift eng (st_event_count st0 = 0) (sc_event_risk sc) st2 = (st3, drifting)"
    "update_trust eng st3 (sc_event_risk sc) now = Inr (st4, oc_trust oc)"
    "settle e now sc drifting st4 (oc_trust oc) = (st', oc)"
proof -
  obtain st1 vec0 where cf:
    "compute_features (nl_pow (te_lib eng)) e st0 n b = Inr (st1, vec0)"
    using assms
    by (cases "compute_features (nl_pow (te_lib eng)) e st0 n b") (auto simp: assess_state_def Let_def)
  define st2 where "st2 = (if st_event_count st0 = 0 then st1\<lparr>st_cold_prior_used := True\<rparr> else st1)"
  define sc where "sc = score_vector eng e now st2 (apply_cold_prior eng e st1 vec0)"
  obtain st3 drifting where wd:
    "watch_drift eng (st_event_count st0 = 0) (sc_event_risk sc) st2 = (st3, drifting)"
    by fastforce
  have "sbind (update_trust eng st3 (sc_event_risk sc) now)
      (\<lambda>(st4, t). Inr (settle e now sc drifting st4 t)) = Inr (st', oc)"
    using assms by (simp add: assess_state_def Let_def cf wd flip: st2_def sc_def)
  then obtain st4 t where ut: "update_trust eng st3 (sc_event_risk sc) now = Inr (st4, t)"
    and se: "settle e now sc drifting st4 t = (st', oc)"
    by (auto simp: sbind_eq_Inr)
  from se have "t = oc_trust oc" by (auto simp: settle_def Let_def)
  with ut se show thesis by (auto intro: that [OF cf st2_def sc_def wd])
qed

section \<open>What a stage leaves alone\<close>

text \<open>
  \<open>context_of\<close> is the part of the state no stage before \<open>settle\<close> changes: the profile, the geo
  reference, the trust, the review flag and the version.
\<close>

definition context_of where
  "context_of st = (profile st, st_last_geo st, st_last_geo_ts st, st_trust st, st_under_review st,
                    st_version st)"

lemma watch_drift_frame:
  "watch_drift eng cold r st = (st', d) \<Longrightarrow>
     context_of st' = context_of st \<and> st_burst st' = st_burst st \<and>
     st_cold_prior_used st' = st_cold_prior_used st \<and>
     st_recovered_in_window st' = st_recovered_in_window st \<and>
     st_recovery_window_start st' = st_recovery_window_start st"
  by (auto simp: watch_drift_def Let_def context_of_def profile_def split: prod.splits)

lemma update_trust_cases:
  assumes "update_trust eng st r now = Inr (st', t)"
  obtains (decay) d where "fl 0.45 < r" "py_int ((r - fl 0.45) * fl 900) = Inr d" "st' = st"
      "t = nl_clip_int (te_lib eng) (st_trust st - d) 0 1000"
    | (recover) g where "\<not> fl 0.45 < r" "py_int ((fl 0.45 - r) * fl 60) = Inr g"
      "t = nl_clip_int (te_lib eng) (st_trust st + min g (max 0 (te_recovery_cap eng -
             (if RECOVERY_WINDOW_SECONDS < now - st_recovery_window_start st then 0
              else st_recovered_in_window st)))) 0 1000"
      "st' = st\<lparr>st_recovery_window_start :=
                 (if RECOVERY_WINDOW_SECONDS < now - st_recovery_window_start st then now
                  else st_recovery_window_start st),
               st_recovered_in_window :=
                 (if RECOVERY_WINDOW_SECONDS < now - st_recovery_window_start st then 0
                  else st_recovered_in_window st)
                 + min g (max 0 (te_recovery_cap eng -
                     (if RECOVERY_WINDOW_SECONDS < now - st_recovery_window_start st then 0
                      else st_recovered_in_window st)))\<rparr>"
proof (cases "fl 0.45 < r")
  case True
  with assms show thesis
    by (auto simp: update_trust_def Let_def sbind_eq_Inr simp del: fl_literals intro: decay)
next
  case False
  then obtain g where g: "py_int ((fl 0.45 - r) * fl 60) = Inr g"
    using assms by (cases "py_int ((fl 0.45 - r) * fl 60)")
      (auto simp: update_trust_def Let_def simp del: fl_literals)
  show thesis
    by (rule recover [OF False g])
      (use assms False g in \<open>auto simp: update_trust_def Let_def simp del: fl_literals\<close>)
qed

lemma update_trust_frame:
  "update_trust eng st r now = Inr (st', t) \<Longrightarrow>
     context_of st' = context_of st \<and> st_burst st' = st_burst st \<and>
     st_cold_prior_used st' = st_cold_prior_used st \<and>
     st_risk_window st' = st_risk_window st \<and> st_risk_ewma st' = st_risk_ewma st \<and>
     st_cusum st' = st_cusum st"
  by (erule update_trust_cases) (simp_all add: context_of_def profile_def)

text \<open>The state the trust update hands to \<open>settle\<close>, against the one that was loaded.\<close>

lemma assess_state_frame:
  assumes "compute_features pw e st0 n b = Inr (st1, vec0)"
    "st2 = (if st_event_count st0 = 0 then st1\<lparr>st_cold_prior_used := True\<rparr> else st1)"
    "watch_drift eng cold r st2 = (st3, drifting)"
    "update_trust eng st3 r now = Inr (st4, t)"
  shows "context_of st2 = context_of st0" "context_of st3 = context_of st0"
    "context_of st4 = context_of st0"
    "st_cold_prior_used st4 = (st_event_count st0 = 0 \<or> st_cold_prior_used st0)"
    "st_burst st4 = st_burst st0 * fl 0.5 + fl 1"
proof -
  have s1: "st1 = st0\<lparr>st_burst := st_burst st0 * fl 0.5 + fl 1\<rparr>"
    using compute_features_state [OF assms(1)] by simp
  show c2: "context_of st2 = context_of st0"
    by (simp add: assms(2) s1 context_of_def profile_def)
  show c3: "context_of st3 = context_of st0"
    using watch_drift_frame [OF assms(3)] c2 by simp
  show "context_of st4 = context_of st0"
    using update_trust_frame [OF assms(4)] c3 by simp
  show "st_cold_prior_used st4 = (st_event_count st0 = 0 \<or> st_cold_prior_used st0)"
    "st_burst st4 = st_burst st0 * fl 0.5 + fl 1"
    using update_trust_frame [OF assms(4)] watch_drift_frame [OF assms(3)]
    by (auto simp: assms(2) s1)
qed

lemmas context_simps = context_of_def profile_def

section \<open>What settle decides\<close>

lemma settle_simps:
  assumes "settle e now sc drifting st t = (st', oc)"
  shows "oc_event_risk oc = sc_event_risk sc" "oc_ml_risk oc = sc_ml_risk sc"
    "oc_degraded oc \<longleftrightarrow> sc_ml_risk sc = None" "oc_trust oc = t" "st_trust st' = t"
    "oc_vec oc = sc_vec sc" "oc_det_risk oc = sc_det_risk sc"
    "st_version st' = st_version st" "oc_amounts oc = st_amounts st'"
    "oc_contributions oc = sc_contributions sc"
  using assms by (auto simp: settle_def Let_def commit_features_def)

lemma settle_state:
  assumes "settle e now sc drifting st t = (st', oc)"
  shows "st_burst st' = st_burst st" "st_cold_prior_used st' = st_cold_prior_used st"
    "st_risk_window st' = st_risk_window st" "st_risk_ewma st' = st_risk_ewma st"
    "st_cusum st' = st_cusum st" "st_recovered_in_window st' = st_recovered_in_window st"
    "st_recovery_window_start st' = st_recovery_window_start st"
  using assms by (auto simp: settle_def Let_def commit_features_def split: if_splits)

lemma settle_review:
  "settle e now sc drifting st t = (st', oc) \<Longrightarrow> st_under_review st \<Longrightarrow> st_under_review st'"
  by (auto simp: settle_def Let_def commit_features_def split: if_splits)

lemma settle_allow:
  assumes "settle e now sc drifting st t = (st', oc)" "oc_decision oc = ALLOW"
  shows "650 \<le> t" "sc_event_risk sc < fl 0.45" "\<not> drifting" "\<not> st_under_review st"
    "oc_step_up oc = None"
    "oc_band oc = (if oc_degraded oc then DEGRADED_FAILOPEN else LOW)"
    "oc_degraded oc \<Longrightarrow> ev_event_type e \<notin> fail_closed_events"
    "st' = (commit_features (st\<lparr>st_trust := t\<rparr>) e)\<lparr>st_last_geo := ev_geo e, st_last_geo_ts := now\<rparr>"
proof -
  let ?d = "decide t (sc_event_risk sc) e"
  have d: "fst ?d = ALLOW" and nr: "\<not> (drifting \<or> st_under_review st)"
    using assms by (auto simp: settle_def Let_def resilience_allow split: if_splits)
  show "650 \<le> t" "sc_event_risk sc < fl 0.45"
    using d unfolding decide_simps by simp_all
  show "\<not> drifting" "\<not> st_under_review st" using nr by simp_all
  have dd: "?d = (ALLOW, LOW, None)" using decide_allow [OF d] .
  show "oc_step_up oc = None" "oc_band oc = (if oc_degraded oc then DEGRADED_FAILOPEN else LOW)"
    "oc_degraded oc \<Longrightarrow> ev_event_type e \<notin> fail_closed_events"
    "st' = (commit_features (st\<lparr>st_trust := t\<rparr>) e)\<lparr>st_last_geo := ev_geo e, st_last_geo_ts := now\<rparr>"
    using assms nr dd
    by (auto simp: settle_def Let_def resilience_apply_def split: if_splits)
qed

lemma settle_drift:
  assumes "settle e now sc drifting st t = (st', oc)" drifting
  shows "650 \<le> t \<Longrightarrow> sc_event_risk sc < fl 0.45 \<Longrightarrow> oc_decision oc = STEP_UP \<and> st_under_review st'"
proof -
  assume h: "650 \<le> t" "sc_event_risk sc < fl 0.45"
  have al: "fst (decide t (sc_event_risk sc) e) = ALLOW" using h decide_simps(1) by blast
  have r: "fst (resilience_apply STEP_UP b m e) = STEP_UP" for b m
    by (simp add: resilience_apply_def)
  have "oc_decision (snd (settle e now sc drifting st t)) = STEP_UP \<and>
      st_under_review (fst (settle e now sc drifting st t))"
    using assms(2) al r by (auto simp: settle_def Let_def)
  then show ?thesis using assms(1) by simp
qed

lemma settle_degraded_band:
  assumes "settle e now sc drifting st t = (st', oc)" "sc_ml_risk sc = None"
  shows "oc_band oc =
    (if ev_event_type e \<in> fail_closed_events then DEGRADED_FAILCLOSED else DEGRADED_FAILOPEN)"
proof -
  have "oc_band (snd (settle e now sc drifting st t)) =
      (if ev_event_type e \<in> fail_closed_events then DEGRADED_FAILCLOSED else DEGRADED_FAILOPEN)"
    using assms(2) by (simp add: settle_def Let_def resilience_band)
  then show ?thesis using assms(1) by simp
qed

lemma settle_not_allow:
  assumes "settle e now sc drifting st t = (st', oc)" "oc_decision oc \<noteq> ALLOW"
  shows "profile st' = profile st" "st_last_geo st' = st_last_geo st"
    "st_last_geo_ts st' = st_last_geo_ts st"
  using assms by (auto simp: settle_def Let_def profile_def split: if_splits)

section \<open>The range of the risk\<close>

lemma WEIGHTS_unit: "w \<in> set WEIGHTS \<Longrightarrow> fin_in 0 1 w"
  by (auto simp: WEIGHTS_def)

lemma det_risk_unit:
  assumes "num_laws (te_lib eng)" "\<forall>f \<in> set vec. fin_in 0 1 f"
  shows "fin_in 0 1 (det_risk_of eng vec)"
proof -
  have "\<forall>x \<in> set (map2 (*) WEIGHTS vec). fin_in (- (2 ^ 0)) (2 ^ 0) x"
  proof
    fix x assume "x \<in> set (map2 (*) WEIGHTS vec)"
    then obtain w f where wf: "(w, f) \<in> set (zip WEIGHTS vec)" "x = w * f" by auto
    then have "fin_in 0 1 w" "fin_in 0 1 f"
      using WEIGHTS_unit assms(2) by (auto dest: set_zip_leftD set_zip_rightD)
    then have "fin_in 0 1 (w * f)" by (rule fin_in_mult_nonneg) simp_all
    then show "fin_in (- (2 ^ 0)) (2 ^ 0) x" using wf(2) by (auto elim: fin_in_mono)
  qed
  moreover have "length (map2 (*) WEIGHTS vec) \<le> 200" by (simp add: WEIGHTS_def)
  ultimately have "fin_in (- (2 ^ (0 + 8))) (2 ^ (0 + 8)) (py_sum (map2 (*) WEIGHTS vec))"
    by (rule fin_in_py_sum) simp
  then have "py_sum (map2 (*) WEIGHTS vec) \<noteq> NaN" by (auto elim!: fin_inE)
  then show ?thesis
    using nl_clip_unit [OF assms(1)] nl_clip_unit_NaN [OF assms(1)]
    unfolding det_risk_of_def by blast
qed

lemma blend_risk_unit:
  assumes "fin_in 0 1 d" "\<And>m. ml = Some m \<Longrightarrow> fin_in 0 1 m"
  shows "fin_in 0 1 (blend_risk ml d)"
proof (cases ml)
  case None
  then show ?thesis using assms(1) by (simp add: blend_risk_def)
next
  case (Some m)
  obtain a b where ab: "m = Fin a" "0 \<le> a" "a \<le> 1" "d = Fin b" "0 \<le> b" "b \<le> 1"
    using assms(1) assms(2) [OF Some] by (auto elim!: fin_inE)
  have c1: "fl (2476979795053773 / 4503599627370496) = Fin (2476979795053773 / 4503599627370496)"
    and c2: "fl (8106479329266893 / 18014398509481984) = Fin (8106479329266893 / 18014398509481984)"
    by (simp_all add: fl_eval)
  have "fin_in 0 (2476979795053773 / 4503599627370496) (fl 0.55 * m)"
    using ab by (simp add: fl_bounds_round [OF _ _ fl_0 c1])
  moreover have "fin_in 0 (8106479329266893 / 18014398509481984) (fl 0.45 * d)"
    using ab by (simp add: fl_bounds_round [OF _ _ fl_0 c2])
  ultimately obtain p q where pq: "fl 0.55 * m = Fin p" "fl 0.45 * d = Fin q" "0 \<le> p" "0 \<le> q"
    "p + q \<le> 18014398509481985 / 18014398509481984"
    by (auto elim!: fin_inE)
  have c3: "fl (18014398509481985 / 18014398509481984) = Fin 1" by (simp add: fl_eval)
  have "fin_in 0 1 (Fin p + Fin q)" using pq(3-5) by (simp add: fl_bounds_round [OF _ _ fl_0 c3])
  with pq Some show ?thesis by (simp add: blend_risk_def del: pyfloat_arith)
qed

lemma apply_cold_prior_unit:
  assumes "\<forall>f \<in> set vec. fin_in 0 1 f" "length vec = 11"
  shows "\<forall>f \<in> set (apply_cold_prior eng e st vec). fin_in 0 1 f"
proof -
  have half: "fin_in 0 1 (f * COLD_PRIOR_FACTOR)" if "fin_in 0 1 f" for f
    unfolding COLD_PRIOR_FACTOR_def
    by (rule fin_in_mult_nonneg [OF that, of "1/2" "1/2"]) simp_all
  have "fin_in 0 1 (vec ! 0)" "fin_in 0 1 (vec ! 1)"
    using assms by (auto simp: all_set_conv_all_nth)
  then have "fin_in 0 1 (vec ! 0 * COLD_PRIOR_FACTOR)" "fin_in 0 1 (vec ! 1 * COLD_PRIOR_FACTOR)"
    by (simp_all add: half)
  then show ?thesis
    using assms(1) by (auto simp: apply_cold_prior_def dest!: set_update_subset_insert [THEN subsetD])
qed

lemma boosted_unit:
  assumes "num_laws (te_lib eng)" "fin_in 0 1 r"
  shows "fin_in (1/2) 1 (nl_clip (te_lib eng) (r + IMPOSSIBLE_TRAVEL_BOOST) (fl 0) (fl 1))"
proof -
  have "f64 (3 / 2)"
  proof -
    have "(3 / 2 :: rat) < 2 ^ 1024" by simp
    then show ?thesis using f64_round_dyadic [of 3 "- 1"] by (simp add: f64_def power_int_minus)
  qed
  then have "fin_in (1/2) (3/2) (r + IMPOSSIBLE_TRAVEL_BOOST)"
    unfolding IMPOSSIBLE_TRAVEL_BOOST_def
    by (intro fin_in_add [OF assms(2), of "1/2" "1/2"]) simp_all
  then obtain q where "r + IMPOSSIBLE_TRAVEL_BOOST = Fin q" "1/2 \<le> q" by (auto elim!: fin_inE)
  then show ?thesis using assms(1) by (auto simp: num_laws_def)
qed

lemma score_vector_unit:
  assumes "num_laws (te_lib eng)" "\<forall>f \<in> set vec. fin_in 0 1 f"
  shows "fin_in 0 1 (sc_event_risk (score_vector eng e now st vec))"
proof -
  let ?ml = "case model_risk (te_lib eng) (te_model eng) vec of Inr r \<Rightarrow> Some r | Inl _ \<Rightarrow> None"
  have "fin_in 0 1 m" if "?ml = Some m" for m
    using that model_risk_range [OF assms(1)] by (auto split: sum.splits)
  then have "fin_in 0 1 (blend_risk ?ml (det_risk_of eng vec))"
    by (intro blend_risk_unit det_risk_unit assms)
  then show ?thesis
    using boosted_unit [OF assms(1), THEN fin_in_mono, of _ 0 1]
    by (simp add: score_vector_def Let_def del: fl_0 fl_1)
qed

section \<open>The trust update on a risk of the unit interval\<close>

lemma decay_range:
  assumes "fin_in 0 1 r" "fl 0.45 < r"
  shows "\<exists>d. py_int ((r - fl 0.45) * fl 900) = Inr d \<and> 0 \<le> d \<and> d \<le> 495"
proof -
  obtain a where a: "r = Fin a" "8106479329266893 / 18014398509481984 < a" "a \<le> 1"
    using assms by (auto elim!: fin_inE)
  have c1: "fl (9907919180215091 / 18014398509481984) = Fin (2476979795053773 / 4503599627370496)"
    by (simp add: fl_eval)
  have "fin_in 0 (2476979795053773 / 4503599627370496) (r - fl 0.45)"
    using a by (simp add: fl_bounds_round [OF _ _ fl_0 c1])
  then obtain q where q: "r - fl 0.45 = Fin q" "0 \<le> q" "q \<le> 2476979795053773 / 4503599627370496"
    by (auto elim!: fin_inE)
  have c2: "fl (2476979795053773 / 4503599627370496 * 900) = Fin (8708132091985921 / 17592186044416)"
    by (simp add: fl_eval)
  have "fin_in 0 (8708132091985921 / 17592186044416) (Fin q * fl 900)"
    using q(2,3) by (simp add: fl_bounds_round [OF _ _ fl_0 c2])
  from py_int_range [OF this, of 495] show ?thesis by (simp only: q(1))
qed

lemma gain_range:
  assumes "fin_in 0 1 r" "\<not> fl 0.45 < r"
  shows "\<exists>g. py_int ((fl 0.45 - r) * fl 60) = Inr g \<and> 0 \<le> g \<and> g \<le> 27"
proof -
  obtain a where a: "r = Fin a" "0 \<le> a" "a \<le> 8106479329266893 / 18014398509481984"
    using assms by (auto elim!: fin_inE)
  have c1: "fl (8106479329266893 / 18014398509481984) = Fin (8106479329266893 / 18014398509481984)"
    by (simp add: fl_eval)
  have "fin_in 0 (8106479329266893 / 18014398509481984) (fl 0.45 - r)"
    using a by (simp add: fl_bounds_round [OF _ _ fl_0 c1])
  then obtain q where q: "fl 0.45 - r = Fin q" "0 \<le> q" "q \<le> 8106479329266893 / 18014398509481984"
    by (auto elim!: fin_inE)
  have c2: "fl (8106479329266893 / 18014398509481984 * 60) = Fin 27" by (simp add: fl_eval)
  have "fin_in 0 27 (Fin q * fl 60)"
    using q(2,3) by (simp add: fl_bounds_round [OF _ _ fl_0 c2])
  from py_int_range [OF this, of 27] show ?thesis by (simp only: q(1))
qed

lemma py_int_nonneg: "Fin 0 \<le> x \<Longrightarrow> py_int x = Inr d \<Longrightarrow> 0 \<le> d"
  by (cases x) auto

lemma times_nonneg: "Fin 0 \<le> x \<Longrightarrow> 0 < k \<Longrightarrow> Fin 0 \<le> x * Fin k"
  by (cases x) (auto intro: fl_nonneg)

lemma py_int_decay_nonneg:
  assumes "fl 0.45 < r" "py_int ((r - fl 0.45) * fl 900) = Inr d"
  shows "0 \<le> d"
proof (rule py_int_nonneg [OF _ assms(2)])
  have "Fin 0 \<le> r - fl 0.45"
    using assms(1) by (cases r) (auto intro: fl_nonneg simp: minus_pyfloat_def)
  then show "Fin 0 \<le> (r - fl 0.45) * fl 900"
    using times_nonneg [of "r - fl 0.45" 900] by simp
qed

lemma py_int_gain_nonneg:
  assumes "\<not> fl 0.45 < r" "py_int ((fl 0.45 - r) * fl 60) = Inr g"
  shows "0 \<le> g"
proof (rule py_int_nonneg [OF _ assms(2)])
  have "r \<noteq> NaN" using assms(2) by auto
  then have "Fin 0 \<le> fl 0.45 - r"
    using assms(1) by (cases r) (auto intro: fl_nonneg simp: minus_pyfloat_def)
  then show "Fin 0 \<le> (fl 0.45 - r) * fl 60"
    using times_nonneg [of "fl 0.45 - r" 60] by simp
qed

lemma update_trust_total:
  assumes "fin_in 0 1 r"
  shows "\<exists>st' t. update_trust eng st r now = Inr (st', t)"
proof (cases "fl 0.45 < r")
  case True
  with decay_range [OF assms True] show ?thesis
    by (auto simp: update_trust_def simp del: fl_literals fl_numeral)
next
  case False
  with gain_range [OF assms False] show ?thesis
    by (auto simp: update_trust_def Let_def simp del: fl_literals fl_numeral)
qed

section \<open>The invariant of a stored state\<close>

definition state_ok :: "identity_state \<Rightarrow> bool" where
  "state_ok st \<longleftrightarrow>
     0 \<le> st_trust st \<and> st_trust st \<le> 1000 \<and>
     (\<forall>h \<in> set (st_hours st). 0 \<le> h \<and> h \<le> 23) \<and>
     amounts_ok (st_amounts st) \<and> int (length (st_amounts st)) \<le> st_event_count st \<and>
     fin_in 0 2 (st_burst st) \<and> 0 \<le> st_recovered_in_window st \<and>
     length (st_risk_window st) \<le> RISK_WINDOW_MAX \<and>
     (\<forall>r \<in> set (st_risk_window st). fin_in 0 1 r) \<and> 0 \<le> st_cusum st"

lemma initial_state_ok: "state_ok initial_state"
  by (simp add: state_ok_def initial_state_def DEFAULT_TRUST_def amounts_ok_def zero_pyfloat_def)

lemma state_ok_version [simp]: "state_ok (st\<lparr>st_version := v\<rparr>) = state_ok st"
  by (simp add: state_ok_def)

lemma py_round_unit:
  assumes "fin_in 0 1 r" shows "fin_in 0 1 (py_round k r)"
proof -
  obtain a where a: "r = Fin a" "0 \<le> a" "a \<le> 1" using assms by (auto elim!: fin_inE)
  have "of_int 0 \<le> a * 10 ^ k" "a * 10 ^ k \<le> of_int (10 ^ k)"
    using a(2,3) by (simp_all add: mult_left_le_one_le)
  then have "0 \<le> round_half_even (a * 10 ^ k)" "round_half_even (a * 10 ^ k) \<le> 10 ^ k"
    using round_half_even_mono [of "of_int 0" "a * 10 ^ k"]
      round_half_even_mono [of "a * 10 ^ k" "of_int (10 ^ k)"]
    by (simp_all only: round_half_even_of_int)
  then have "(0::rat) \<le> of_int (round_half_even (a * 10 ^ k))"
    "(of_int (round_half_even (a * 10 ^ k)) :: rat) \<le> of_int (10 ^ k)"
    by (simp_all only: of_int_le_iff of_int_0_le_iff)
  then show ?thesis using a(1) by (auto intro!: fl_bounds)
qed

lemma watch_drift_ok:
  assumes "watch_drift eng cold r st = (st', d)" "state_ok st" "fin_in 0 1 r"
  shows "state_ok st'"
proof -
  have "\<forall>x \<in> set (last_n RISK_WINDOW_MAX (st_risk_window st @ [py_round 4 r])). fin_in 0 1 x"
    using set_last_n [of RISK_WINDOW_MAX "st_risk_window st @ [py_round 4 r]"] assms(2)
      py_round_unit [OF assms(3)] by (auto simp: state_ok_def)
  with assms(1,2) show ?thesis
    by (auto simp: watch_drift_def Let_def state_ok_def cusum_nonneg split: prod.splits)
qed

lemma update_trust_ok:
  assumes "update_trust eng st r now = Inr (st', t)" "state_ok st" "fin_in 0 1 r"
    "num_laws (te_lib eng)"
  shows "state_ok st'" "0 \<le> t" "t \<le> 1000"
    "fl 0.45 < r \<Longrightarrow> t \<le> st_trust st" "\<not> fl 0.45 < r \<Longrightarrow> st_trust st \<le> t \<and> t \<le> st_trust st + 27"
proof -
  note clip = nl_clip_int_bounds [OF assms(4), of 0 1000]
  have cl: "nl_clip_int (te_lib eng) x 0 1000 = max 0 (min x 1000)" for x
    using assms(4) by (simp add: num_laws_def)
  have tr: "0 \<le> st_trust st" "st_trust st \<le> 1000" using assms(2) by (simp_all add: state_ok_def)
  have "state_ok st' \<and> 0 \<le> t \<and> t \<le> 1000 \<and> (fl 0.45 < r \<longrightarrow> t \<le> st_trust st) \<and>
    (\<not> fl 0.45 < r \<longrightarrow> st_trust st \<le> t \<and> t \<le> st_trust st + 27)"
    using assms(1)
  proof (cases rule: update_trust_cases)
    case (decay d)
    then obtain d' where "py_int ((r - fl 0.45) * fl 900) = Inr d'" "0 \<le> d'"
      using decay_range [OF assms(3)] by blast
    with decay tr assms(2) show ?thesis by (auto simp: cl)
  next
    case (recover g)
    then obtain g' where g: "py_int ((fl 0.45 - r) * fl 60) = Inr g'" "0 \<le> g'" "g' \<le> 27"
      using gain_range [OF assms(3)] by blast
    then have "g = g'" using recover(2) by simp
    with recover g tr assms(2) show ?thesis
      by (auto simp: cl state_ok_def simp del: fl_literals)
  qed
  then show "state_ok st'" "0 \<le> t" "t \<le> 1000"
    "fl 0.45 < r \<Longrightarrow> t \<le> st_trust st" "\<not> fl 0.45 < r \<Longrightarrow> st_trust st \<le> t \<and> t \<le> st_trust st + 27"
    by blast+
qed

text \<open>The direction of the trust update, needing only the trust of the state to be in range.\<close>

lemma update_trust_moves:
  assumes "update_trust eng st r now = Inr (st', t)" "fin_in 0 1 r" "num_laws (te_lib eng)"
  shows "0 \<le> st_trust st \<Longrightarrow> fl 0.45 < r \<Longrightarrow> t \<le> st_trust st"
    and "st_trust st \<le> 1000 \<Longrightarrow> 0 \<le> st_trust st \<Longrightarrow> \<not> fl 0.45 < r \<Longrightarrow>
      st_trust st \<le> t \<and> t \<le> st_trust st + 27"
proof -
  have cl: "nl_clip_int (te_lib eng) x 0 1000 = max 0 (min x 1000)" for x
    using assms(3) by (simp add: num_laws_def)
  show "t \<le> st_trust st" if h: "0 \<le> st_trust st" "fl 0.45 < r"
    using assms(1)
  proof (cases rule: update_trust_cases)
    case (decay d)
    then show ?thesis using h py_int_decay_nonneg [OF decay(1,2)] by (simp add: cl)
  qed (use h in simp)
  show "st_trust st \<le> t \<and> t \<le> st_trust st + 27"
    if h: "st_trust st \<le> 1000" "0 \<le> st_trust st" "\<not> fl 0.45 < r"
    using assms(1)
  proof (cases rule: update_trust_cases)
    case (recover g)
    obtain g' where "py_int ((fl 0.45 - r) * fl 60) = Inr g'" "0 \<le> g'" "g' \<le> 27"
      using gain_range [OF assms(2) h(3)] by blast
    then have "0 \<le> g" "g \<le> 27" using recover(2) by simp_all
    then show ?thesis using recover(3) h by (auto simp: cl)
  qed (use h in simp)
qed

lemma commit_features_ok:
  assumes "state_ok st" "event_ok e" "amount_ok (ev_amount e)"
  shows "state_ok (commit_features st e)"
proof -
  have "fin_in (- (2 ^ 60)) (2 ^ 60) x" if "ev_amount e = Some x" for x
    using assms(3) that by (auto simp: amount_ok_def elim: fin_in_mono)
  with assms(1,2) show ?thesis
    by (auto simp: state_ok_def commit_features_def event_ok_def amounts_ok_def split: option.splits)
qed

lemma settle_ok:
  assumes "settle e now sc drifting st t = (st', oc)" "state_ok st" "0 \<le> t" "t \<le> 1000"
    "event_ok e" "amount_ok (ev_amount e)"
  shows "state_ok st'"
proof (cases "oc_decision oc = ALLOW")
  case True
  have "state_ok (st\<lparr>st_trust := t\<rparr>)" using assms(2-4) by (simp add: state_ok_def)
  from commit_features_ok [OF this assms(5,6)] show ?thesis
    using settle_allow(8) [OF assms(1) True] by (simp add: state_ok_def)
next
  case False
  have "profile st' = profile st" using settle_not_allow(1) [OF assms(1) False] .
  then show ?thesis
    using assms(2-4) settle_simps [OF assms(1)] settle_state [OF assms(1)]
    by (simp add: state_ok_def profile_def)
qed

text \<open>
  Scoring a well-formed event against a stored state that is well formed always succeeds, with a
  risk of the unit interval and a well-formed new state.
\<close>

definition request_ok :: "identity_event \<Rightarrow> pyfloat option \<Rightarrow> bool" where
  "request_ok e b \<longleftrightarrow> event_ok e \<and> amount_ok (ev_amount e) \<and> behavior_ok b"

lemma assess_state_total:
  assumes laws: "num_laws (te_lib eng)" and ok: "state_ok st" "request_ok e b" "1 \<le> n"
  obtains st' oc where "assess_state eng e b now n st = Inr (st', oc)" "state_ok st'"
    "fin_in 0 1 (oc_event_risk oc)" "0 \<le> oc_trust oc" "oc_trust oc \<le> 1000"
    "\<forall>f \<in> set (oc_vec oc). fin_in 0 1 f" "length (oc_vec oc) = 11"
proof -
  have pw: "pow_laws (nl_pow (te_lib eng))" using laws by (simp add: num_laws_def)
  obtain st1 vec0 where cf: "compute_features (nl_pow (te_lib eng)) e st n b = Inr (st1, vec0)"
    and v0: "\<forall>f \<in> set vec0. fin_in 0 1 f"
    using compute_features_unit [OF pw, of st e b n] ok
    by (auto simp: state_ok_def request_ok_def)
  have st1: "st1 = st\<lparr>st_burst := st_burst st * fl 0.5 + fl 1\<rparr>" and len: "length vec0 = 11"
    using compute_features_state [OF cf] by simp_all
  define st2 where "st2 = (if st_event_count st = 0 then st1\<lparr>st_cold_prior_used := True\<rparr> else st1)"
  have "state_ok st1"
    using ok(1) burst_step [of "st_burst st"] by (simp add: state_ok_def st1)
  then have ok2: "state_ok st2" by (simp add: st2_def state_ok_def)
  define vec where "vec = apply_cold_prior eng e st1 vec0"
  have v: "\<forall>f \<in> set vec. fin_in 0 1 f"
    unfolding vec_def by (rule apply_cold_prior_unit [OF v0 len])
  have vlen: "length vec = 11" using len by (simp add: vec_def apply_cold_prior_def)
  define sc where "sc = score_vector eng e now st2 vec"
  have r: "fin_in 0 1 (sc_event_risk sc)" "sc_vec sc = vec"
    unfolding sc_def using score_vector_unit [OF laws v]
    by (simp_all add: score_vector_def Let_def)
  obtain st3 d where wd: "watch_drift eng (st_event_count st = 0) (sc_event_risk sc) st2 = (st3, d)"
    by fastforce
  have ok3: "state_ok st3" using watch_drift_ok [OF wd ok2 r(1)] .
  obtain st4 t where ut: "update_trust eng st3 (sc_event_risk sc) now = Inr (st4, t)"
    using update_trust_total [OF r(1)] by blast
  have ok4: "state_ok st4" "0 \<le> t" "t \<le> 1000"
    using update_trust_ok [OF ut ok3 r(1) laws] by simp_all
  obtain st' oc where se: "settle e now sc d st4 t = (st', oc)" by fastforce
  have "assess_state eng e b now n st = Inr (st', oc)"
    using cf wd ut se by (simp add: assess_state_def Let_def st2_def sc_def vec_def)
  moreover have "state_ok st'"
    using settle_ok [OF se ok4] ok(2) by (simp add: request_ok_def)
  ultimately show thesis
    using that settle_simps [OF se] r v vlen ok4 by simp
qed

lemma step_up_state_ok: "state_ok st \<Longrightarrow> state_ok (step_up_state passed st)"
  by (auto simp: state_ok_def step_up_state_def Let_def zero_pyfloat_def)

end
