(* ===== verification/EngineStore.thy ===== *)
theory EngineStore
  imports EngineFacts
begin

text \<open>
  The engine over a store. Inside the locale \<open>state_store\<close>, for every store that keeps the contract: what an
  assessment and a step-up outcome do to the states held, and that a predicate every scoring keeps
  holds for all identities afterwards. For the in-memory store, which never refuses the commit of a
  state just loaded, the retry loop is one iteration.
\<close>

context state_store
begin

lemma with_lock_view:
  assumes "inv s" "with_lock ops i body s = (s', r)"
  obtains (nolock) "inv s'" "view s' = view s" "dview s' = dview s" "\<exists>x. r = Inl x"
    | (body) s1 s2 r2 where "inv s1" "view s1 = view s" "dview s1 = dview s" "body s1 = (s2, r2)"
      "inv s2 \<Longrightarrow> inv s'" "inv s2 \<Longrightarrow> view s' = view s2" "inv s2 \<Longrightarrow> dview s' = dview s2"
      "r = r2 \<or> (\<exists>x. r = Inl x)"
proof -
  obtain s1 l where l: "so_lock ops s i = (s1, l)" by fastforce
  then have s1: "inv s1" "view s1 = view s" "dview s1 = dview s"
    using lock_view [OF assms(1) l] by simp_all
  show thesis
  proof (cases l)
    case (Inl x)
    then show thesis using assms(2) l s1 by (intro nolock) (auto simp: with_lock_def)
  next
    case (Inr u)
    obtain s2 r2 where b: "body s1 = (s2, r2)" by fastforce
    obtain s3 u3 where un: "so_unlock ops s2 i = (s3, u3)" by fastforce
    have eq: "s' = s3" "r = (case u3 of Inl x \<Rightarrow> Inl x | Inr _ \<Rightarrow> r2)"
      using assms(2) l Inr b un by (auto simp: with_lock_def split: sum.splits)
    show thesis
      by (rule body [OF s1 b])
        (use unlock_view [OF _ un] eq in \<open>auto split: sum.splits\<close>)
  qed
qed

text \<open>
  One iteration either leaves every state alone, or writes for the event's identity exactly the state
  that scoring the loaded one gives.
\<close>

lemma attempt_view:
  assumes s: "inv s" and att: "assess_attempt eng ops e b now s = (s', r)"
  obtains (same) "inv s'" "view s' = view s" "\<And>oc. r \<noteq> Inr (oc, True)"
    | (written) dc st' oc where "inv s'" "1 \<le> dc"
      "assess_state eng e b now dc (view s (ev_identity_id e)) = Inr (st', oc)"
      "view s' = (view s)(ev_identity_id e := st'\<lparr>st_version := st_version st' + 1\<rparr>)"
      "r = Inr (oc, True) \<or> (\<exists>x. r = Inl x)"
  using s att [unfolded assess_attempt_def]
proof (cases rule: with_lock_view)
  case nolock
  then show thesis by (intro same) auto
next
  case (body s1 s2 r2)
  let ?i = "ev_identity_id e"
  from body(4) consider
      (load) x where "s2 = s1" "r2 = Inl x"
    | (dev) x s3 where "so_device_add ops s1 (ev_device_id e) ?i = (s3, Inl x)" "s2 = s3" "r2 = Inl x"
    | (score) x s3 n where "so_device_add ops s1 (ev_device_id e) ?i = (s3, Inr n)" "s2 = s3" "r2 = Inl x"
    | (commit) st s3 n st' oc ok where "so_load ops s1 ?i = Inr st"
        "so_device_add ops s1 (ev_device_id e) ?i = (s3, Inr n)"
        "assess_state eng e b now n st = Inr (st', oc)"
        "so_commit ops s3 ?i st' (st_version st') = (s2, ok)" "r2 = Inr (oc, ok)"
    by (auto simp: assess_locked_def split: sum.splits prod.splits)
  then show thesis
  proof cases
    case load
    then show thesis using body by (intro same) auto
  next
    case dev
    with device_add_inv [OF body(1) dev(1)] body show thesis by (intro same) auto
  next
    case score
    with device_add_inv [OF body(1) score(1)] body show thesis by (intro same) auto
  next
    case commit
    have s3: "inv s3" "view s3 = view s"
      using device_add_inv [OF body(1) commit(2)] body(2) by auto
    have st: "st = view s ?i" using load_view [OF body(1) commit(1)] body(2) by simp
    have n: "1 \<le> n" using device_add_positive [OF body(1) commit(2)] .
    show thesis
    proof (cases ok)
      case True
      have "inv s2" "view s2 = (view s)(?i := st'\<lparr>st_version := st_version st' + 1\<rparr>)"
        using commit_true [of s3 ?i st' "st_version st'" s2] s3 commit(4) True by simp_all
      then show thesis
        using body commit(3,5) True st n by (intro written) auto
    next
      case False
      have "inv s2" "view s2 = view s"
        using commit_false [of s3 ?i st' "st_version st'" s2] s3 commit(4) False by simp_all
      then show thesis using body commit(5) False by (intro same) auto
    qed
  qed
qed

text \<open>
  The whole retry loop: the state of the event's identity is scored at most once, and an
  outcome is either the one that was written, or (after every retry failed) one that was not.
\<close>

lemma loop_view:
  assumes "inv s" "assess_loop eng ops e b now k oc0 s = (s', r)"
  obtains (same) "inv s'" "view s' = view s"
    | (written) dc st' oc where "inv s'" "1 \<le> dc"
      "assess_state eng e b now dc (view s (ev_identity_id e)) = Inr (st', oc)"
      "view s' = (view s)(ev_identity_id e := st'\<lparr>st_version := st_version st' + 1\<rparr>)"
      "r = Inr (Some oc) \<or> (\<exists>x. r = Inl x)"
  using assms
proof (induction k arbitrary: s oc0 thesis)
  case 0
  then show ?case by auto
next
  case (Suc k)
  obtain s1 r1 where att: "assess_attempt eng ops e b now s = (s1, r1)" by fastforce
  show ?case
    using Suc.prems(3) att
  proof (cases rule: attempt_view)
    case same
    show ?thesis
    proof (cases r1)
      case (Inl x)
      then show ?thesis using Suc.prems att same by auto
    next
      case (Inr p)
      then obtain oc where "p = (oc, False)" using same(3) by (cases p) (metis (full_types))
      then have "assess_loop eng ops e b now k (Some oc) s1 = (s', r)"
        using Suc.prems(4) att Inr by simp
      from Suc.IH [OF _ _ same(1) this] show ?thesis
        using Suc.prems(1,2) same(2) by auto
    qed
  next
    case (written dc st' oc)
    then show ?thesis using Suc.prems att by (intro Suc.prems(2) [of dc st' oc]) auto
  qed
qed

lemma loop_preserves:
  assumes "inv s" "assess_loop eng ops e b now k oc0 s = (s', r)" "\<And>i. P i (view s i)"
    and step: "\<And>dc st st' oc. 1 \<le> dc \<Longrightarrow> P (ev_identity_id e) st \<Longrightarrow>
      assess_state eng e b now dc st = Inr (st', oc) \<Longrightarrow>
      P (ev_identity_id e) (st'\<lparr>st_version := st_version st' + 1\<rparr>)"
  shows "inv s' \<and> (\<forall>i. P i (view s' i))"
  using assms(1,2)
proof (cases rule: loop_view)
  case same
  then show ?thesis using assms(3) by simp
next
  case (written dc st' oc)
  then show ?thesis using assms(3) step [OF written(2) assms(3) written(3)] by simp
qed

lemma assess_preserves:
  assumes "inv s" "assess eng ops ci e (s, n) = ((s', n'), r)" "\<And>i. P i (view s i)"
    and step: "\<And>b dc st st' oc.
      b = map_option (\<lambda>x. fl 1 - x) (snd (resolve_behavior eng n (ci_resolve_now ci) e)) \<Longrightarrow>
      1 \<le> dc \<Longrightarrow> P (ev_identity_id e) st \<Longrightarrow>
      assess_state eng e b (ci_now ci) dc st = Inr (st', oc) \<Longrightarrow>
      P (ev_identity_id e) (st'\<lparr>st_version := st_version st' + 1\<rparr>)"
  shows "inv s' \<and> (\<forall>i. P i (view s' i))"
proof -
  let ?b = "map_option (\<lambda>x. fl 1 - x) (snd (resolve_behavior eng n (ci_resolve_now ci) e))"
  obtain s1 r1 where lp: "assess_loop eng ops e ?b (ci_now ci) CAS_RETRIES None s = (s1, r1)"
    by fastforce
  have "s1 = s'"
    using assms(2) lp
    by (auto simp: assess_def Let_def map_option_case simp del: fl_1
        split: prod.splits sum.splits option.splits)
  then show ?thesis
    using loop_preserves [OF assms(1) lp, of P] assms(3) step by blast
qed

text \<open>A step-up outcome changes the trust, review and drift fields of one identity, at most once.\<close>

lemma step_up_attempt_view:
  assumes s: "inv s" and att: "with_lock ops i (step_up_locked ops i passed) s = (s', r)"
  obtains (same) "inv s'" "view s' = view s" "\<And>t. r \<noteq> Inr (t, True)"
    | (written) "inv s'"
      "view s' = (view s)(i := (step_up_state passed (view s i))\<lparr>st_version := st_version (view s i) + 1\<rparr>)"
      "r = Inr (st_trust (step_up_state passed (view s i)), True) \<or> (\<exists>x. r = Inl x)"
  using s att
proof (cases rule: with_lock_view)
  case nolock
  then show thesis by (intro same) auto
next
  case (body s1 s2 r2)
  have ver: "st_version (step_up_state passed st) = st_version st" for st
    by (simp add: step_up_state_def Let_def)
  from body(4) consider
      (load) x where "s2 = s1" "r2 = Inl x"
    | (commit) st ok where "so_load ops s1 i = Inr st"
        "so_commit ops s1 i (step_up_state passed st) (st_version st) = (s2, ok)"
        "r2 = Inr (st_trust (step_up_state passed st), ok)"
    by (auto simp: step_up_locked_def Let_def ver split: sum.splits prod.splits)
  then show thesis
  proof cases
    case load
    then show thesis using body by (intro same) auto
  next
    case commit
    have st: "st = view s i" using load_view [OF body(1) commit(1)] body(2) by simp
    show thesis
    proof (cases ok)
      case True
      then show thesis
        using commit_true [of s1 i "step_up_state passed st" "st_version st" s2] body commit st
        by (intro written) auto
    next
      case False
      then show thesis
        using commit_false [of s1 i "step_up_state passed st" "st_version st" s2] body commit
        by (intro same) auto
    qed
  qed
qed

lemma step_up_loop_view:
  assumes "inv s" "step_up_loop ops i passed k t0 s = (s', r)"
  obtains (same) "inv s'" "view s' = view s"
    | (written) "inv s'"
      "view s' = (view s)(i := (step_up_state passed (view s i))\<lparr>st_version := st_version (view s i) + 1\<rparr>)"
      "r = Inr (st_trust (step_up_state passed (view s i))) \<or> (\<exists>x. r = Inl x)"
  using assms
proof (induction k arbitrary: s t0 thesis)
  case 0
  have "s' = s" using 0(4) by simp
  then show ?case using 0(1,3) by simp
next
  case (Suc k)
  obtain s1 r1 where att: "with_lock ops i (step_up_locked ops i passed) s = (s1, r1)" by fastforce
  show ?case
    using Suc.prems(3) att
  proof (cases rule: step_up_attempt_view)
    case same
    show ?thesis
    proof (cases r1)
      case (Inl x)
      then have "s' = s1" using Suc.prems(4) att by simp
      then show ?thesis using Suc.prems(1) same by simp
    next
      case (Inr p)
      then obtain t where "p = (t, False)" using same(3) by (cases p) (metis (full_types))
      then have "step_up_loop ops i passed k t s1 = (s', r)"
        using Suc.prems(4) att Inr by simp
      from Suc.IH [OF _ _ same(1) this] show ?thesis
        using Suc.prems(1,2) unfolding same(2) by blast
    qed
  next
    case written
    have "s' = s1" "r = Inr (st_trust (step_up_state passed (view s i))) \<or> (\<exists>x. r = Inl x)"
      using Suc.prems(4) att written(3) by auto
    with written(1,2) show ?thesis by (intro Suc.prems(2)) simp_all
  qed
qed

lemma step_up_preserves:
  assumes "inv s" "apply_verified_step_up ops i passed s = (s', r)" "\<And>j. P j (view s j)"
    and "\<And>st v. P i st \<Longrightarrow> P i ((step_up_state passed st)\<lparr>st_version := v\<rparr>)"
  shows "inv s' \<and> (\<forall>j. P j (view s' j))"
  using assms(1) assms(2) [unfolded apply_verified_step_up_def]
proof (cases rule: step_up_loop_view)
  case same
  then show ?thesis using assms(3) by simp
next
  case written
  then show ?thesis using assms(3) assms(4) [OF assms(3)] by simp
qed

end

section \<open>The in-memory store\<close>

lemma assess_state_version:
  "assess_state eng e b now n st = Inr (st', oc) \<Longrightarrow> st_version st' = st_version st"
proof (erule assess_stateE)
  fix st1 st2 st3 st4 :: identity_state and vec0 and sc :: scoring and drifting
  assume a: "compute_features (nl_pow (te_lib eng)) e st n b = Inr (st1, vec0)"
    "st2 = (if st_event_count st = 0 then st1\<lparr>st_cold_prior_used := True\<rparr> else st1)"
    "watch_drift eng (st_event_count st = 0) (sc_event_risk sc) st2 = (st3, drifting)"
    "update_trust eng st3 (sc_event_risk sc) now = Inr (st4, oc_trust oc)"
  assume se: "settle e now sc drifting st4 (oc_trust oc) = (st', oc)"
  show "st_version st' = st_version st"
    using assess_state_frame(3) [OF a] settle_simps(8) [OF se] by (simp add: context_of_def)
qed

lemma mem_load_key_lock [simp]: "mem_load (fst (mem_key_lock s i)) = mem_load s"
  by (auto simp: mem_key_lock_def mem_load_def fun_eq_iff split: option.splits)

lemma mem_load_device_add [simp]: "mem_load (fst (mem_device_add s d i)) = mem_load s"
  by (auto simp: mem_device_add_def mem_load_def fun_eq_iff Let_def)

lemma mem_commit_same:
  assumes "v = st_version (mem_load s i)"
  obtains s' where "mem_commit s i st v = (s', True)"
    "mem_load s' = (mem_load s)(i := st\<lparr>st_version := v + 1\<rparr>)" "mem_dview s' = mem_dview s"
proof -
  obtain s' where s': "mem_commit s i st v = (s', True)"
    using mem_commit_iff [of s i st v] assms by (cases "mem_commit s i st v") auto
  with mem.commit_true [of s i st v s'] that show thesis by simp
qed

text \<open>
  An assessment over the in-memory store: it scores the stored state once and, unless scoring
  raises, stores the result with the next version.
\<close>

lemma assess_mem:
  fixes eng :: "('o, 'n) trust_engine"
  defines "b \<equiv> \<lambda>n ci e. map_option (\<lambda>x. fl 1 - x) (snd (resolve_behavior eng n (ci_resolve_now ci) e))"
  assumes "assess eng mem_ops ci e (s, n) = ((s', n'), r)"
  obtains (raised) dc x where "1 \<le> dc"
      "assess_state eng e (b n ci e) (ci_now ci) dc (mem_load s (ev_identity_id e)) = Inl x"
      "mem_load s' = mem_load s" "r = Inl x"
      "dc = snd (mem_device_add s (ev_device_id e) (ev_identity_id e))"
    | (stored) dc st' oc where "1 \<le> dc"
      "assess_state eng e (b n ci e) (ci_now ci) dc (mem_load s (ev_identity_id e)) = Inr (st', oc)"
      "mem_load s' = (mem_load s)(ev_identity_id e :=
         st'\<lparr>st_version := st_version (mem_load s (ev_identity_id e)) + 1\<rparr>)"
      "r = soc_of_outcome eng ci e oc"
      "dc = snd (mem_device_add s (ev_device_id e) (ev_identity_id e))"
proof -
  let ?i = "ev_identity_id e" and ?b = "b n ci e"
  let ?s1 = "fst (mem_key_lock s ?i)"
  let ?s2 = "fst (mem_device_add ?s1 (ev_device_id e) ?i)"
  let ?dc = "snd (mem_device_add ?s1 (ev_device_id e) ?i)"
  have dc: "1 \<le> ?dc"
    using mem.device_add_positive [of ?s1 "ev_device_id e" ?i ?s2 ?dc] by simp
  have dcs: "?dc = snd (mem_device_add s (ev_device_id e) ?i)"
    by (auto simp: mem_device_add_def mem_key_lock_def Let_def split: option.splits)
  have bb: "(case sim of None \<Rightarrow> None | Some x \<Rightarrow> Some (fl 1 - x)) = map_option (\<lambda>x. fl 1 - x) sim" for sim
    by (cases sim) simp_all
  show thesis
  proof (cases "assess_state eng e ?b (ci_now ci) ?dc (mem_load s ?i)")
    case (Inl x)
    have "assess_loop eng mem_ops e ?b (ci_now ci) CAS_RETRIES None s = (?s2, Inl x)"
      using Inl by (simp add: CAS_RETRIES_def eval_nat_numeral assess_attempt_def assess_locked_def
          with_lock_def)
    then have "s' = ?s2" "r = Inl x"
      using assms(2) by (auto simp: assess_def Let_def bb b_def simp del: fl_1 split: prod.splits)
    then show thesis using dc Inl by (intro raised [of ?dc x]) (simp_all add: dcs)
  next
    case (Inr p)
    obtain st' oc where p: "p = (st', oc)" by fastforce
    have ver: "st_version st' = st_version (mem_load ?s2 ?i)"
      using assess_state_version Inr p by fastforce
    obtain s3 where s3: "mem_commit ?s2 ?i st' (st_version st') = (s3, True)"
      "mem_load s3 = (mem_load ?s2)(?i := st'\<lparr>st_version := st_version st' + 1\<rparr>)"
      using mem_commit_same [OF ver] .
    have "assess_loop eng mem_ops e ?b (ci_now ci) CAS_RETRIES None s = (s3, Inr (Some oc))"
      using Inr p s3(1)
      by (simp add: CAS_RETRIES_def eval_nat_numeral assess_attempt_def assess_locked_def with_lock_def)
    then have "s' = s3" "r = soc_of_outcome eng ci e oc"
      using assms(2) by (auto simp: assess_def Let_def bb b_def simp del: fl_1 split: prod.splits)
    then show thesis using dc Inr p s3(2) ver by (intro stored [of ?dc st' oc]) (simp_all add: dcs)
  qed
qed

lemma soc_of_outcome_simps:
  assumes "soc_of_outcome eng ci e oc = Inr soc"
  shows "soc_decision soc = oc_decision oc" "soc_trust_score soc = oc_trust oc"
    "soc_event_risk soc = oc_event_risk oc" "soc_risk_band soc = band_str (oc_band oc)"
    "soc_degraded soc = oc_degraded oc" "soc_step_up_method soc = oc_step_up oc"
    "soc_identity_id soc = ev_identity_id e" "soc_ml_risk soc = oc_ml_risk oc"
    "soc_challenge_id soc = (if oc_decision oc = STEP_UP then Some (ci_challenge_uuid ci) else None)"
    "soc_shap_values soc = shap_values (oc_vec oc) WEIGHTS BASELINE"
    "soc_model_provenance soc = sm_provenance (te_model eng)"
  using assms by (auto simp: soc_of_outcome_def Let_def sbind_eq_Inr)

text \<open>A completed assessment taken apart, with what every stage keeps of the loaded state.\<close>

lemma assess_stagesE:
  assumes "assess eng mem_ops ci e (s, n) = ((s', n'), Inr soc)"
  obtains b dc st' oc st1 vec0 st2 sc st3 drifting st4 where
    "1 \<le> dc"
    "assess_state eng e b (ci_now ci) dc (mem_load s (ev_identity_id e)) = Inr (st', oc)"
    "mem_load s' = (mem_load s)(ev_identity_id e :=
       st'\<lparr>st_version := st_version (mem_load s (ev_identity_id e)) + 1\<rparr>)"
    "soc_of_outcome eng ci e oc = Inr soc"
    "compute_features (nl_pow (te_lib eng)) e (mem_load s (ev_identity_id e)) dc b = Inr (st1, vec0)"
    "sc = score_vector eng e (ci_now ci) st2 (apply_cold_prior eng e st1 vec0)"
    "context_of st2 = context_of (mem_load s (ev_identity_id e))"
    "update_trust eng st3 (sc_event_risk sc) (ci_now ci) = Inr (st4, oc_trust oc)"
    "context_of st3 = context_of (mem_load s (ev_identity_id e))"
    "context_of st4 = context_of (mem_load s (ev_identity_id e))"
    "settle e (ci_now ci) sc drifting st4 (oc_trust oc) = (st', oc)"
    "b = map_option (\<lambda>x. fl 1 - x) (snd (resolve_behavior eng n (ci_resolve_now ci) e))"
  using assms
proof (cases rule: assess_mem)
  case (stored dc st' oc)
  from stored(2) show thesis
  proof (rule assess_stateE)
    fix st1 st2 st3 st4 :: identity_state and vec0 and sc :: scoring and drifting
    assume a: "compute_features (nl_pow (te_lib eng)) e (mem_load s (ev_identity_id e)) dc
        (map_option (\<lambda>x. fl 1 - x) (snd (resolve_behavior eng n (ci_resolve_now ci) e)))
        = Inr (st1, vec0)"
      "st2 = (if st_event_count (mem_load s (ev_identity_id e)) = 0
              then st1\<lparr>st_cold_prior_used := True\<rparr> else st1)"
      "watch_drift eng (st_event_count (mem_load s (ev_identity_id e)) = 0) (sc_event_risk sc) st2
         = (st3, drifting)"
      "update_trust eng st3 (sc_event_risk sc) (ci_now ci) = Inr (st4, oc_trust oc)"
      and sc: "sc = score_vector eng e (ci_now ci) st2 (apply_cold_prior eng e st1 vec0)"
      and se: "settle e (ci_now ci) sc drifting st4 (oc_trust oc) = (st', oc)"
    show thesis
      using that [OF stored(1,2,3) stored(4) [symmetric] a(1) sc assess_state_frame(1) [OF a] a(4)
        assess_state_frame(2,3) [OF a] se refl] .
  qed
qed simp

text \<open>A step-up outcome over the in-memory store always applies, exactly once.\<close>

lemma step_up_mem:
  assumes "apply_verified_step_up mem_ops i passed s = (s', r)"
  shows "r = Inr (st_trust (step_up_state passed (mem_load s i)))"
    "mem_load s' = (mem_load s)(i := (step_up_state passed (mem_load s i))
       \<lparr>st_version := st_version (mem_load s i) + 1\<rparr>)"
proof -
  let ?s1 = "fst (mem_key_lock s i)"
  let ?st = "step_up_state passed (mem_load s i)"
  have ver: "st_version ?st = st_version (mem_load ?s1 i)"
    by (simp add: step_up_state_def Let_def)
  obtain s2 where s2: "mem_commit ?s1 i ?st (st_version ?st) = (s2, True)"
    "mem_load s2 = (mem_load ?s1)(i := ?st\<lparr>st_version := st_version ?st + 1\<rparr>)"
    using mem_commit_same [OF ver] .
  have "apply_verified_step_up mem_ops i passed s = (s2, Inr (st_trust ?st))"
    using s2(1) by (simp add: apply_verified_step_up_def CAS_RETRIES_def eval_nat_numeral
        with_lock_def step_up_locked_def Let_def)
  with assms s2(2) ver show "r = Inr (st_trust ?st)"
    "mem_load s' = (mem_load s)(i := ?st\<lparr>st_version := st_version (mem_load s i) + 1\<rparr>)"
    by simp_all
qed

end
