(* ===== verification/EngineProps.thy ===== *)
theory EngineProps
  imports EngineStore
begin

text \<open>
  The properties of the trust engine, with a concrete engine and requests to instantiate them:
  ranges, anti-poisoning, the conditions of an \<open>ALLOW\<close>, sticky review, fail-closed degradation, the
  recovery budget, impossible travel, the cold-start prior, and what happens when commits keep
  failing.
\<close>

section \<open>A concrete engine\<close>

definition wit_lib :: "unit num_lib" where
  "wit_lib =
     \<lparr> nl_pow = (\<lambda>x p. case x of Fin a \<Rightarrow> Inr (Fin (if p = 2 then a * a else 1)) | _ \<Rightarrow> Inr NaN),
       nl_clip = clip_spec,
       nl_clip_int = (\<lambda>x a b. max a (min x b)),
       nl_ks = (\<lambda>_ _. None),
       nl_transform = (\<lambda>_ v. Inr v),
       nl_decision = (\<lambda>_ _. Inr (Fin (1/5))) \<rparr>"

definition wit_model :: "unit serving_model" where
  "wit_model =
     \<lparr> sm_model = (), sm_scaler = (), sm_feature_names = FEATURE_NAMES, sm_card = [],
       sm_provenance = ''rba-serving-v1'' \<rparr>"

definition wit_engine :: "(unit, unit) trust_engine" where
  "wit_engine = engine_default wit_lib wit_model None"

text \<open>The same engine with a model that cannot score.\<close>

definition broken_engine :: "(unit, unit) trust_engine" where
  "broken_engine =
     engine_default (wit_lib\<lparr>nl_decision := (\<lambda>_ _. Inl ExternalError)\<rparr>) wit_model None"

definition wit_event :: identity_event where
  "wit_event =
     \<lparr> ev_identity_id = ''id1'', ev_event_type = LOGIN, ev_channel = MOBILE_APP,
       ev_device_id = ''dev1'', ev_geo = ''IN-GJ'', ev_hour_of_day = 10, ev_amount = None,
       ev_is_new_beneficiary = False, ev_recovery_contact_changed = False,
       ev_privileged_scope = None, ev_device_attestation = None, ev_behavior_assertion = None,
       ev_idempotency_key = None \<rparr>"

definition wit_inputs :: call_inputs where
  "wit_inputs =
     \<lparr> ci_resolve_now = fl 1000, ci_now = fl 1000, ci_latency_ms = fl 1,
       ci_challenge_uuid = ''c0ffee'', ci_event_uuid = ''e0e0e0'' \<rparr>"

lemma wit_laws: "num_laws (te_lib wit_engine)" "num_laws (te_lib broken_engine)"
proof -
  have sq: "\<bar>a\<bar> \<le> 2 ^ n \<Longrightarrow> a * a \<le> 2 ^ (2 * n + 1)" for a :: rat and n :: nat
  proof -
    assume "\<bar>a\<bar> \<le> 2 ^ n"
    then have "\<bar>a\<bar> * \<bar>a\<bar> \<le> 2 ^ n * 2 ^ n" by (intro mult_mono) simp_all
    also have "(2::rat) ^ n * 2 ^ n = 2 ^ (2 * n)" by (simp only: mult_2 power_add)
    also have "(2::rat) ^ (2 * n) \<le> 2 ^ (2 * n + 1)" by (rule power_increasing) simp_all
    finally show ?thesis by (simp only: abs_mult_self_eq)
  qed
  have "num_laws (wit_lib\<lparr>nl_decision := f\<rparr>)" if "\<And>m x r. f m x = Inr r \<Longrightarrow> r \<noteq> NaN" for f
    using that sq by (auto simp: num_laws_def pow_laws_def wit_lib_def)
  from this [of "nl_decision wit_lib"] this [of "\<lambda>_ _. Inl ExternalError"]
  show "num_laws (te_lib wit_engine)" "num_laws (te_lib broken_engine)"
    by (simp_all add: wit_engine_def broken_engine_def engine_default_def)
      (simp add: wit_lib_def)
qed

text \<open>
  \<open>resolver_ok\<close>: a behaviour similarity the engine is given lies in the unit interval (the
  attestation component proves this of its resolver).
\<close>

definition resolver_ok :: "('o, 'n) trust_engine \<Rightarrow> bool" where
  "resolver_ok eng \<longleftrightarrow>
     (\<forall>n now e sim. snd (resolve_behavior eng n now e) = Some sim \<longrightarrow> fin_in 0 1 sim)"

definition anomaly_of :: "('o, 'n) trust_engine \<Rightarrow> 'n \<Rightarrow> call_inputs \<Rightarrow> identity_event \<Rightarrow> pyfloat option" where
  "anomaly_of eng n ci e =
     map_option (\<lambda>x. fl 1 - x) (snd (resolve_behavior eng n (ci_resolve_now ci) e))"

lemma anomaly_ok: "resolver_ok eng \<Longrightarrow> behavior_ok (anomaly_of eng n ci e)"
proof (cases "snd (resolve_behavior eng n (ci_resolve_now ci) e)")
  case (Some sim)
  assume "resolver_ok eng"
  with Some have "fin_in 0 1 sim" unfolding resolver_ok_def by blast
  then have "fin_in 0 1 (Fin 1 - sim)"
    by (intro fin_in_diff [of 1 1 "Fin 1" 0 1 sim]) simp_all
  with Some show ?thesis by (simp add: anomaly_of_def behavior_ok_def)
qed (simp add: anomaly_of_def behavior_ok_def)

lemma wit_resolver_ok: "resolver_ok wit_engine" "resolver_ok broken_engine"
  by (simp_all add: resolver_ok_def resolve_behavior_def wit_engine_def broken_engine_def
      engine_default_def)

lemma wit_event_ok: "event_ok wit_event" "amount_ok (ev_amount wit_event)"
  by (simp_all add: event_ok_def amount_ok_def wit_event_def)

definition store_ok :: "mem_store \<Rightarrow> bool" where
  "store_ok s \<longleftrightarrow> (\<forall>i. state_ok (mem_load s i) \<and> st_event_count (mem_load s i) < 2 ^ 52)"

lemma mem_empty_load [simp]: "mem_load mem_empty i = initial_state"
  by (simp add: mem_load_def mem_empty_def)

lemma mem_empty_ok: "store_ok mem_empty"
  using initial_state_ok by (simp add: store_ok_def) (simp add: initial_state_def)

section \<open>Assessment of a well-formed request\<close>

lemma amount_ref_finite:
  assumes "amounts_ok xs" "length xs \<le> 2 ^ 53" "amount_ref_of xs = Some r"
  shows "is_finite r"
proof -
  have ne: "xs \<noteq> []" using assms(3) by (auto simp: amount_ref_of_def)
  have k: "\<bar>int j\<bar> \<le> 2 ^ 53" if "j \<le> length xs" for j
    using that assms(2) by (metis (mono_tags) abs_of_nat of_nat_le_iff of_nat_numeral of_nat_power order_trans)
  have f: "f64 (of_nat j * - (2 ^ 60)) \<and> f64 (of_nat j * 2 ^ 60)" if "j \<le> length xs" for j
    using f64_int_pow2 [OF k [OF that], of 60] by simp
  have sum: "fin_in (0 + of_nat (length xs) * - (2 ^ 60)) (0 + of_nat (length xs) * 2 ^ 60) (py_sum xs)"
    unfolding py_sum_def
    by (rule fin_in_foldl_add) (use assms(1) f in \<open>auto simp: amounts_ok_def\<close>)
  then obtain s where s: "py_sum xs = Fin s" "\<bar>s\<bar> \<le> of_nat (length xs) * 2 ^ 60"
    by (auto elim!: fin_inE)
  have len: "float_of_int (int (length xs)) = Fin (of_nat (length xs))"
    using f64_int_pow2 [OF k [of "length xs"], of 0] by (simp add: float_of_int_def fl_f64)
  have pos: "0 < (of_nat (length xs) :: rat)" using ne by simp
  have "\<bar>s / of_nat (length xs)\<bar> \<le> 2 ^ 60"
    using s(2) pos by (simp add: abs_divide pos_divide_le_eq mult.commute)
  then have "- (2 ^ 60) \<le> s / of_nat (length xs)" "s / of_nat (length xs) \<le> 2 ^ 60"
    by linarith+
  moreover have "f64 (2 ^ 60)" by (rule f64_pow2) simp
  ultimately have "fin_in (- (2 ^ 60)) (2 ^ 60) (fl (s / of_nat (length xs)))"
    by (intro fl_bounds) simp_all
  then have "is_finite (fl (s / of_nat (length xs)))" by (rule fin_in_is_finite)
  moreover have "r = fl (s / of_nat (length xs))"
    using assms(3) ne s(1) len by (simp add: amount_ref_of_def)
  ultimately show ?thesis by simp
qed

lemma settle_amounts:
  assumes "settle e now sc drifting st t = (st', oc)"
  shows "length (st_amounts st') \<le> Suc (length (st_amounts st))"
proof (cases "oc_decision oc = ALLOW")
  case True
  show ?thesis
    unfolding settle_allow(8) [OF assms True] by (simp add: commit_features_def split: option.splits)
next
  case False
  then show ?thesis using settle_not_allow(1) [OF assms False] by (simp add: profile_def)
qed

lemma assess_state_amounts:
  assumes "assess_state eng e b now n st = Inr (st', oc)"
  shows "oc_amounts oc = st_amounts st'" "length (st_amounts st') \<le> Suc (length (st_amounts st))"
proof -
  from assms obtain st1 vec0 st2 sc st3 drifting st4 where
    a: "compute_features (nl_pow (te_lib eng)) e st n b = Inr (st1, vec0)"
    "st2 = (if st_event_count st = 0 then st1\<lparr>st_cold_prior_used := True\<rparr> else st1)"
    "watch_drift eng (st_event_count st = 0) (sc_event_risk sc) st2 = (st3, drifting)"
    "update_trust eng st3 (sc_event_risk sc) now = Inr (st4, oc_trust oc)"
    and se: "settle e now sc drifting st4 (oc_trust oc) = (st', oc)"
    by (rule assess_stateE)
  have "st_amounts st4 = st_amounts st"
    using assess_state_frame(3) [OF a] by (simp add: context_simps)
  then show "oc_amounts oc = st_amounts st'"
    "length (st_amounts st') \<le> Suc (length (st_amounts st))"
    using settle_simps(9) [OF se] settle_amounts [OF se] by simp_all
qed

lemma assess_total_mem:
  assumes laws: "num_laws (te_lib eng)" "resolver_ok eng"
    and ok: "store_ok s" "event_ok e" "amount_ok (ev_amount e)"
  obtains s' n' soc st' oc dc where "assess eng mem_ops ci e (s, n) = ((s', n'), Inr soc)"
    "1 \<le> dc" "assess_state eng e (anomaly_of eng n ci e) (ci_now ci) dc (mem_load s (ev_identity_id e))
       = Inr (st', oc)" "state_ok st'"
    "mem_load s' = (mem_load s)(ev_identity_id e :=
       st'\<lparr>st_version := st_version (mem_load s (ev_identity_id e)) + 1\<rparr>)"
    "soc_of_outcome eng ci e oc = Inr soc" "fin_in 0 1 (oc_event_risk oc)"
    "0 \<le> oc_trust oc" "oc_trust oc \<le> 1000"
    "dc = snd (mem_device_add s (ev_device_id e) (ev_identity_id e))"
proof -
  let ?st = "mem_load s (ev_identity_id e)" and ?b = "anomaly_of eng n ci e"
  have st: "state_ok ?st" "st_event_count ?st < 2 ^ 52" using ok(1) by (simp_all add: store_ok_def)
  have rq: "request_ok e ?b" using ok(2,3) anomaly_ok [OF laws(2)] by (simp add: request_ok_def)
  obtain s' n' r where as: "assess eng mem_ops ci e (s, n) = ((s', n'), r)" by (metis prod.exhaust)
  from as show thesis
  proof (cases rule: assess_mem)
    case (raised dc x)
    then show thesis
      using assess_state_total [OF laws(1) st(1) rq raised(1), of "ci_now ci"]
      unfolding anomaly_of_def by (metis Inl_Inr_False)
  next
    case (stored dc st' oc)
    obtain st2 oc2 where t: "assess_state eng e ?b (ci_now ci) dc ?st = Inr (st2, oc2)" "state_ok st2"
      "fin_in 0 1 (oc_event_risk oc2)" "0 \<le> oc_trust oc2" "oc_trust oc2 \<le> 1000"
      "length (oc_vec oc2) = 11"
      using assess_state_total [OF laws(1) st(1) rq stored(1), of "ci_now ci"] by metis
    then have eq: "st2 = st'" "oc2 = oc" using stored(2) by (simp_all add: anomaly_of_def)
    have am: "oc_amounts oc = st_amounts st'" "length (st_amounts st') \<le> Suc (length (st_amounts ?st))"
      using assess_state_amounts [OF t(1)] eq by simp_all
    have "int (length (st_amounts ?st)) < 2 ^ 52" using st by (simp add: state_ok_def)
    then have "length (st_amounts ?st) < 2 ^ 52" by simp
    then have "length (oc_amounts oc) \<le> 2 ^ 53" using am by simp
    then have "\<And>r. amount_ref_of (oc_amounts oc) = Some r \<Longrightarrow> is_finite r"
      using amount_ref_finite [of "oc_amounts oc"] t(2) eq am(1) by (simp add: state_ok_def)
    moreover have "oc_vec oc \<noteq> []" using t(6) eq by auto
    ultimately obtain cf where
      "counterfactual (oc_vec oc) WEIGHTS e BASELINE (amount_ref_of (oc_amounts oc)) = Inr cf"
      using counterfactual_total [of "oc_vec oc" WEIGHTS] by (fastforce simp: WEIGHTS_def)
    then obtain soc where soc: "soc_of_outcome eng ci e oc = Inr soc"
      by (simp add: soc_of_outcome_def Let_def)
    show thesis
      using that [OF _ stored(1) _ _ stored(3) soc] as stored(2,4,5) soc t eq
      by (simp add: anomaly_of_def)
  qed
qed

section \<open>One assessment evaluated\<close>

text \<open>
  The concrete login against an empty store, in binary64: the dampened vector, its risk
  (0.0817...), the allowed decision.
\<close>

definition wit_vec :: "pyfloat list" where
  "wit_vec =
     [Fin (3602879701896397 / 18014398509481984), Fin (1 / 4), Fin (1 / 2), Fin 0, Fin (1 / 2),
      Fin (3602879701896397 / 18014398509481984), Fin (5404319552844595 / 18014398509481984), Fin 0,
      Fin 0, Fin (4803839602528529 / 72057594037927936), Fin 0]"

lemma wit_features:
  "compute_features (nl_pow (te_lib wit_engine)) wit_event initial_state 1 None =
     Inr (initial_state\<lparr>st_burst := Fin 1\<rparr>,
          [fl 0.4, fl 0.5] @ drop 2 wit_vec)"
  by (simp add: compute_features_def wit_event_def initial_state_def amount_zscore_def
      hour_deviation_def zero_pyfloat_def NEUTRAL_BEHAVIOR_ANOMALY_def float_of_int_def wit_vec_def)
    (simp add: fl_eval py_min_def)

lemma wit_prior:
  "apply_cold_prior wit_engine wit_event (initial_state\<lparr>st_burst := Fin 1\<rparr>)
     ([fl 0.4, fl 0.5] @ drop 2 wit_vec) = wit_vec"
  by (simp add: apply_cold_prior_def wit_engine_def engine_default_def cold_prior_applies_def
      wit_event_def initial_state_def COLD_PRIOR_FACTOR_def wit_vec_def)
    (simp add: fl_eval)

lemma wit_score:
  "sc_event_risk (score_vector wit_engine wit_event now
     (initial_state\<lparr>st_burst := Fin 1, st_cold_prior_used := True\<rparr>) wit_vec)
     = Fin (5890708312600611/72057594037927936)"
proof -
  have d: "det_risk_of wit_engine wit_vec = Fin (6545231458445123/36028797018963968)"
    by (simp add: det_risk_of_def wit_engine_def engine_default_def wit_lib_def py_sum_def
        WEIGHTS_def wit_vec_def) (simp add: fl_eval)
  have m: "model_risk (te_lib wit_engine) (te_model wit_engine) wit_vec = Inr (Fin 0)"
    by (simp add: model_risk_def wit_engine_def engine_default_def wit_lib_def)
  show ?thesis
    by (simp add: score_vector_def Let_def d m is_impossible_travel_def initial_state_def
        blend_risk_def) (simp add: fl_eval)
qed

lemma wit_assess_state:
  "\<exists>st' oc. assess_state wit_engine wit_event None (fl 1000) 1 initial_state = Inr (st', oc) \<and>
     oc_decision oc = ALLOW \<and> oc_trust oc = 722 \<and> \<not> oc_degraded oc"
proof -
  let ?st1 = "initial_state\<lparr>st_burst := Fin 1\<rparr>"
  let ?st2 = "?st1\<lparr>st_cold_prior_used := True\<rparr>"
  let ?r = "Fin (5890708312600611 / 72057594037927936)"
  define sc where "sc = score_vector wit_engine wit_event (fl 1000) ?st2 wit_vec"
  have r: "sc_event_risk sc = ?r" unfolding sc_def by (rule wit_score)
  have sc: "score_vector wit_engine wit_event (Fin 1000) ?st2 wit_vec = sc"
    by (simp add: sc_def)
  have cold: "st_event_count initial_state = 0" by (simp add: initial_state_def)
  have ml: "sc_ml_risk sc \<noteq> None"
    by (simp add: sc_def score_vector_def Let_def model_risk_def wit_engine_def engine_default_def
        wit_lib_def)
  obtain st3 d where wd: "watch_drift wit_engine True ?r ?st2 = (st3, d)" by fastforce
  have d: "\<not> d"
    using wd by (auto simp: watch_drift_def Let_def drift_step_def wit_engine_def engine_default_def
        drift_default_def initial_state_def zero_pyfloat_def py_max_def split: prod.splits)
      (simp add: fl_eval)+
  have fr: "st_trust st3 = 700" "st_recovered_in_window st3 = 0" "st_recovery_window_start st3 = Fin 0"
    "st_under_review st3 = False"
    using watch_drift_frame [OF wd]
    by (simp_all add: context_simps initial_state_def DEFAULT_TRUST_def zero_pyfloat_def)
  have g: "py_int ((fl 0.45 - ?r) * fl 60) = Inr 22"
    by (simp add: fl_eval)
  obtain st4 where ut: "update_trust wit_engine st3 ?r (fl 1000) = Inr (st4, 722)"
    "st_under_review st4 = False"
    using g fr by (auto simp: update_trust_def Let_def wit_engine_def engine_default_def wit_lib_def
        RECOVERY_CAP_PER_WINDOW_def RECOVERY_WINDOW_SECONDS_def simp del: py_int.simps)
  obtain st' oc where se: "settle wit_event (fl 1000) sc d st4 722 = (st', oc)" by fastforce
  have "oc_decision oc = ALLOW" "\<not> oc_degraded oc"
    using se d ut(2) ml
    by (auto simp: settle_def Let_def decide_def risk_banding_def r wit_event_def)
  moreover have "oc_trust oc = 722" using settle_simps(4) [OF se] .
  moreover have "assess_state wit_engine wit_event None (fl 1000) 1 initial_state = Inr (st', oc)"
    using wit_features wit_prior wd ut(1) se r cold
    by (simp add: assess_state_def Let_def sc)
  ultimately show ?thesis by blast
qed

section \<open>Runs of the service\<close>

text \<open>
  Any sequence of assessments (of any event, well formed or not) and of validated step-up outcomes
  over one in-memory store.
\<close>

inductive engine_run ::
  "('o, 'n) trust_engine \<Rightarrow> mem_store \<times> 'n \<Rightarrow> mem_store \<times> 'n \<Rightarrow> bool" for eng w0 where
  start: "engine_run eng w0 w0"
| assessed: "engine_run eng w0 w \<Longrightarrow> assess eng mem_ops ci e w = (w', r) \<Longrightarrow> engine_run eng w0 w'"
| stepped_up: "engine_run eng w0 (s, n) \<Longrightarrow> apply_verified_step_up mem_ops i passed s = (s', r) \<Longrightarrow>
    engine_run eng w0 (s', n)"

lemma update_trust_clipped:
  assumes "update_trust eng st r now = Inr (st', t)" "num_laws (te_lib eng)"
  shows "0 \<le> t \<and> t \<le> 1000"
  using assms(1) nl_clip_int_bounds [OF assms(2), of 0 1000]
  by (auto elim!: update_trust_cases)

lemma assess_state_trust:
  assumes "assess_state eng e b now n st = Inr (st', oc)" "num_laws (te_lib eng)"
  shows "st_trust st' = oc_trust oc" "0 \<le> oc_trust oc" "oc_trust oc \<le> 1000"
  using assms(1)
  by (auto elim!: assess_stateE dest: update_trust_clipped [OF _ assms(2)] settle_simps(5))

lemma engine_run_trust:
  assumes laws: "num_laws (te_lib eng)" and run: "engine_run eng (mem_empty, n0) (s, n)"
  shows "0 \<le> st_trust (mem_load s i) \<and> st_trust (mem_load s i) \<le> 1000"
proof -
  have "\<forall>i. 0 \<le> st_trust (mem_load (fst w) i) \<and> st_trust (mem_load (fst w) i) \<le> 1000"
    if "engine_run eng (mem_empty, n0) w" for w
    using that
  proof (induction rule: engine_run.induct)
    case start
    show ?case by (simp add: initial_state_def DEFAULT_TRUST_def)
  next
    case (assessed w ci e w' r)
    obtain s1 n1 s2 n2 where w: "w = (s1, n1)" "w' = (s2, n2)" by fastforce
    from assessed(2) [unfolded w] show ?case
    proof (cases rule: assess_mem)
      case (raised dc x)
      then show ?thesis using assessed(3) w by simp
    next
      case (stored dc st' oc)
      then show ?thesis using assessed(3) w assess_state_trust [OF stored(2) laws] by simp
    qed
  next
    case (stepped_up s1 n1 i1 passed s2 r)
    have "0 \<le> st_trust (step_up_state passed st) \<and> st_trust (step_up_state passed st) \<le> 1000"
      if "0 \<le> st_trust st \<and> st_trust st \<le> 1000" for st
      using that by (simp add: step_up_state_def Let_def)
    then show ?case
      using step_up_mem(2) [OF stepped_up(2)] stepped_up(3) by simp
  qed
  from this [OF run] show ?thesis by simp
qed

text \<open>
  C1: whatever events and step-up outcomes the service handles, in whatever order, every identity's
  trust score stays between 0 and 1000.
\<close>

theorem trust_always_in_range:
  assumes laws: "num_laws (te_lib eng)" and run: "engine_run eng (mem_empty, n0) (s, n)"
  shows "0 \<le> st_trust (mem_load s i) \<and> st_trust (mem_load s i) \<le> 1000"
  using assms by (rule engine_run_trust)

theorem trust_always_in_range_witness:
  "\<exists>s n. engine_run wit_engine (mem_empty, ()) (s, n) \<and> 0 \<le> st_trust (mem_load s ''id1'')
     \<and> st_trust (mem_load s ''id1'') \<le> 1000"
proof -
  obtain s' n' r where "assess wit_engine mem_ops wit_inputs wit_event (mem_empty, ()) = ((s', n'), r)"
    by (metis prod.exhaust)
  then have run: "engine_run wit_engine (mem_empty, ()) (s', n')"
    by (rule engine_run.assessed [OF engine_run.start])
  with trust_always_in_range [OF wit_laws(1) run, of "''id1''"] show ?thesis by blast
qed

text \<open>
  C3: scoring a well-formed event (an hour of the day, an amount that is absent or between 0 and
  2^60) over well-formed states never raises: the call returns an assessment whose risk lies in
  [0, 1], whose trust score is the one stored for the identity, and the store stays well formed
  with exactly one new version of that identity.
\<close>

theorem assess_total:
  assumes "num_laws (te_lib eng)" "resolver_ok eng" "store_ok s" "event_ok e"
    "amount_ok (ev_amount e)"
  shows "\<exists>s' n' soc. assess eng mem_ops ci e (s, n) = ((s', n'), Inr soc) \<and>
     fin_in 0 1 (soc_event_risk soc) \<and> 0 \<le> soc_trust_score soc \<and> soc_trust_score soc \<le> 1000 \<and>
     st_trust (mem_load s' (ev_identity_id e)) = soc_trust_score soc \<and>
     st_version (mem_load s' (ev_identity_id e)) = st_version (mem_load s (ev_identity_id e)) + 1 \<and>
     (\<forall>i. state_ok (mem_load s' i)) \<and>
     (\<forall>i. i \<noteq> ev_identity_id e \<longrightarrow> mem_load s' i = mem_load s i)"
proof -
  obtain s' n' soc st' oc dc where a: "assess eng mem_ops ci e (s, n) = ((s', n'), Inr soc)"
    "assess_state eng e (anomaly_of eng n ci e) (ci_now ci) dc (mem_load s (ev_identity_id e))
       = Inr (st', oc)" "state_ok st'"
    "mem_load s' = (mem_load s)(ev_identity_id e :=
       st'\<lparr>st_version := st_version (mem_load s (ev_identity_id e)) + 1\<rparr>)"
    "soc_of_outcome eng ci e oc = Inr soc" "fin_in 0 1 (oc_event_risk oc)"
    "0 \<le> oc_trust oc" "oc_trust oc \<le> 1000"
    by (rule assess_total_mem [OF assms, of ci n])
  have t: "st_trust st' = oc_trust oc" by (rule assess_state_trust(1) [OF a(2) assms(1)])
  have so: "soc_trust_score soc = oc_trust oc" "soc_event_risk soc = oc_event_risk oc"
    by (rule soc_of_outcome_simps [OF a(5)])+
  have "\<forall>i. state_ok (mem_load s' i)" using assms(3) a(3) by (simp add: store_ok_def a(4))
  moreover have "st_trust (mem_load s' (ev_identity_id e)) = soc_trust_score soc"
    "st_version (mem_load s' (ev_identity_id e)) = st_version (mem_load s (ev_identity_id e)) + 1"
    "\<forall>i. i \<noteq> ev_identity_id e \<longrightarrow> mem_load s' i = mem_load s i"
    by (simp_all add: a(4) t so)
  ultimately show ?thesis using a(1,6-8) so by metis
qed

theorem assess_total_witness:
  "\<exists>s' n' soc. assess wit_engine mem_ops wit_inputs wit_event (mem_empty, ()) = ((s', n'), Inr soc)
     \<and> fin_in 0 1 (soc_event_risk soc) \<and> st_version (mem_load s' ''id1'') = 1"
  using assess_total [OF wit_laws(1) wit_resolver_ok(1) mem_empty_ok wit_event_ok, of wit_inputs "()"]
  by (auto simp: wit_event_def initial_state_def)

text \<open>What an attacker who poisons a profile wants to move: the profile and the travel reference.\<close>

definition reference_of :: "identity_state \<Rightarrow> (string fset \<times> string fset \<times> int list \<times> pyfloat list \<times> int)
    \<times> string \<times> pyfloat" where
  "reference_of st = (profile st, st_last_geo st, st_last_geo_ts st)"

lemma assess_state_reference:
  assumes "assess_state eng e b now n st = Inr (st', oc)"
  shows "oc_decision oc \<noteq> ALLOW \<Longrightarrow> reference_of st' = reference_of st"
    and "oc_decision oc = ALLOW \<Longrightarrow>
      reference_of st' = (profile (commit_features st e), ev_geo e, now)"
proof -
  from assms obtain st1 vec0 st2 sc st3 drifting st4 where
    a: "compute_features (nl_pow (te_lib eng)) e st n b = Inr (st1, vec0)"
    "st2 = (if st_event_count st = 0 then st1\<lparr>st_cold_prior_used := True\<rparr> else st1)"
    "watch_drift eng (st_event_count st = 0) (sc_event_risk sc) st2 = (st3, drifting)"
    "update_trust eng st3 (sc_event_risk sc) now = Inr (st4, oc_trust oc)"
    and se: "settle e now sc drifting st4 (oc_trust oc) = (st', oc)"
    by (rule assess_stateE)
  have c: "context_of st4 = context_of st" by (rule assess_state_frame(3) [OF a])
  show "oc_decision oc \<noteq> ALLOW \<Longrightarrow> reference_of st' = reference_of st"
    using settle_not_allow [OF se] c by (simp add: reference_of_def context_simps)
  show "reference_of st' = (profile (commit_features st e), ev_geo e, now)"
    if "oc_decision oc = ALLOW"
    unfolding settle_allow(8) [OF se that] using c
    by (simp add: reference_of_def context_simps commit_features_def split: option.splits)
qed

text \<open>
  C5: anti-poisoning. An event that is not allowed leaves every profile (known devices, known
  places, hours, amounts, event count) and every travel reference as they were; only an allowed
  one adds to the profile, and only to the profile of its own identity.
\<close>

theorem anti_poisoning:
  assumes "assess eng mem_ops ci e (s, n) = ((s', n'), Inr soc)"
  shows "reference_of (mem_load s' i) =
    (if soc_decision soc = ALLOW \<and> i = ev_identity_id e
     then (profile (commit_features (mem_load s i) e), ev_geo e, ci_now ci)
     else reference_of (mem_load s i))"
  using assms
proof (cases rule: assess_mem)
  case (stored dc st' oc)
  have d: "soc_decision soc = oc_decision oc"
    using soc_of_outcome_simps(1) stored(4) by metis
  have v: "reference_of (st'\<lparr>st_version := k\<rparr>) = reference_of st'" for k
    by (simp add: reference_of_def profile_def)
  show ?thesis
    using assess_state_reference [OF stored(2)] by (auto simp: stored(3) d v)
qed simp

theorem anti_poisoning_witness:
  "\<exists>s' n' soc. assess wit_engine mem_ops wit_inputs wit_event (mem_empty, ()) = ((s', n'), Inr soc)
     \<and> reference_of (mem_load s' ''id2'') = reference_of initial_state"
proof -
  obtain s' n' soc where a:
    "assess wit_engine mem_ops wit_inputs wit_event (mem_empty, ()) = ((s', n'), Inr soc)"
    using assess_total_mem [OF wit_laws(1) wit_resolver_ok(1) mem_empty_ok wit_event_ok] by metis
  with anti_poisoning [OF a, of "''id2''"] show ?thesis by (auto simp: wit_event_def)
qed

text \<open>
  C7: an event is allowed only with trust of at least 650 after the update, risk below 0.45, no
  pending review, and either a working model or an event type that may fail open; the answer then
  carries no step-up method and no challenge.
\<close>

theorem allow_conditions:
  assumes "assess eng mem_ops ci e (s, n) = ((s', n'), Inr soc)" "soc_decision soc = ALLOW"
  shows "650 \<le> soc_trust_score soc \<and> soc_event_risk soc < fl 0.45 \<and>
    \<not> st_under_review (mem_load s (ev_identity_id e)) \<and>
    (soc_degraded soc \<longrightarrow> ev_event_type e \<notin> fail_closed_events) \<and>
    soc_step_up_method soc = None \<and> soc_challenge_id soc = None \<and>
    soc_risk_band soc = (if soc_degraded soc then ''DEGRADED_FAILOPEN'' else ''LOW'')"
  using assms(1)
proof (rule assess_stagesE)
  fix b dc st' oc st1 vec0 st2 sc st3 drifting st4
  assume so: "soc_of_outcome eng ci e oc = Inr soc"
    and c4: "context_of st4 = context_of (mem_load s (ev_identity_id e))"
    and se: "settle e (ci_now ci) sc drifting st4 (oc_trust oc) = (st', oc)"
  have d: "oc_decision oc = ALLOW" using assms(2) soc_of_outcome_simps(1) [OF so] by simp
  show ?thesis
    using settle_allow [OF se d] soc_of_outcome_simps [OF so] settle_simps [OF se] c4 d
    by (auto simp: context_of_def simp del: fl_literals)
qed

lemma wit_allow:
  obtains s' n' soc where
    "assess wit_engine mem_ops wit_inputs wit_event (mem_empty, ()) = ((s', n'), Inr soc)"
    "soc_decision soc = ALLOW" "soc_trust_score soc = 722" "\<not> soc_degraded soc"
proof (rule assess_total_mem [OF wit_laws(1) wit_resolver_ok(1) mem_empty_ok wit_event_ok,
      of wit_inputs "()"])
  fix s' n' soc st' oc dc
  assume a: "assess wit_engine mem_ops wit_inputs wit_event (mem_empty, ()) = ((s', n'), Inr soc)"
    "assess_state wit_engine wit_event (anomaly_of wit_engine () wit_inputs wit_event)
       (ci_now wit_inputs) dc (mem_load mem_empty (ev_identity_id wit_event)) = Inr (st', oc)"
    "soc_of_outcome wit_engine wit_inputs wit_event oc = Inr soc"
    "dc = snd (mem_device_add mem_empty (ev_device_id wit_event) (ev_identity_id wit_event))"
  have "dc = 1" using a(4) 
    by (simp add: mem_device_add_def mem_empty_def Let_def fcard.rep_eq)
  moreover have "anomaly_of wit_engine () wit_inputs wit_event = None"
    by (simp add: anomaly_of_def resolve_behavior_def wit_engine_def engine_default_def)
  ultimately have "assess_state wit_engine wit_event None (fl 1000) 1 initial_state = Inr (st', oc)"
    using a(2) by (simp add: wit_inputs_def)
  then have "oc_decision oc = ALLOW \<and> oc_trust oc = 722 \<and> \<not> oc_degraded oc"
    using wit_assess_state by auto
  then show thesis
    using that [OF a(1)] soc_of_outcome_simps [OF a(3)] by simp
qed

theorem allow_conditions_witness:
  "\<exists>s' n' soc. assess wit_engine mem_ops wit_inputs wit_event (mem_empty, ()) = ((s', n'), Inr soc)
     \<and> soc_decision soc = ALLOW \<and> soc_trust_score soc = 722 \<and> soc_risk_band soc = ''LOW''"
proof (rule wit_allow)
  fix s' n' soc
  assume a: "assess wit_engine mem_ops wit_inputs wit_event (mem_empty, ()) = ((s', n'), Inr soc)"
    "soc_decision soc = ALLOW" "soc_trust_score soc = 722" "\<not> soc_degraded soc"
  show ?thesis using allow_conditions [OF a(1,2)] a by auto
qed

text \<open>
  C10: a pending review is sticky. While an identity is under review no event of it is allowed and
  the flag stays set; a failed step-up leaves it set too, and a passed step-up clears it together
  with the drift window and the CUSUM.
\<close>

theorem review_sticky:
  assumes "st_under_review (mem_load s (ev_identity_id e))"
    "assess eng mem_ops ci e (s, n) = ((s', n'), Inr soc)"
    "apply_verified_step_up mem_ops (ev_identity_id e) passed s' = (s2, r)"
  shows "soc_decision soc \<noteq> ALLOW \<and> st_under_review (mem_load s' (ev_identity_id e)) \<and>
    st_under_review (mem_load s2 (ev_identity_id e)) = (\<not> passed) \<and>
    (passed \<longrightarrow> st_risk_window (mem_load s2 (ev_identity_id e)) = [] \<and>
       st_cusum (mem_load s2 (ev_identity_id e)) = fl 0)"
  using assms(2)
proof (rule assess_stagesE)
  fix b dc st' oc st1 vec0 st2 sc st3 drifting st4
  assume ld: "mem_load s' = (mem_load s)(ev_identity_id e :=
       st'\<lparr>st_version := st_version (mem_load s (ev_identity_id e)) + 1\<rparr>)"
    and so: "soc_of_outcome eng ci e oc = Inr soc"
    and c4: "context_of st4 = context_of (mem_load s (ev_identity_id e))"
    and se: "settle e (ci_now ci) sc drifting st4 (oc_trust oc) = (st', oc)"
  have rv: "st_under_review st4" using c4 assms(1) by (simp add: context_of_def)
  have "soc_decision soc \<noteq> ALLOW"
    using settle_allow(4) [OF se] rv soc_of_outcome_simps(1) [OF so] by auto
  moreover have "st_under_review (mem_load s' (ev_identity_id e))"
    using settle_review [OF se rv] by (simp add: ld)
  ultimately show ?thesis
    using step_up_mem(2) [OF assms(3)] by (simp add: step_up_state_def Let_def)
qed

theorem review_sticky_witness:
  "\<exists>s s' n' soc s2 r. st_under_review (mem_load s ''id1'') \<and>
     assess wit_engine mem_ops wit_inputs wit_event (s, ()) = ((s', n'), Inr soc) \<and>
     apply_verified_step_up mem_ops ''id1'' True s' = (s2, r) \<and>
     soc_decision soc \<noteq> ALLOW \<and> \<not> st_under_review (mem_load s2 ''id1'')"
proof -
  define s where "s = mem_empty\<lparr>mem_data := [''id1'' \<mapsto> initial_state\<lparr>st_under_review := True\<rparr>]\<rparr>"
  have ld: "mem_load s i = (if i = ''id1'' then initial_state\<lparr>st_under_review := True\<rparr>
      else initial_state)" for i
    by (simp add: s_def mem_load_def mem_empty_def)
  have "state_ok (initial_state\<lparr>st_under_review := True\<rparr>)"
    using initial_state_ok by (simp add: state_ok_def)
  then have ok: "store_ok s"
    using initial_state_ok by (simp add: store_ok_def ld) (simp add: initial_state_def)
  have rv: "st_under_review (mem_load s (ev_identity_id wit_event))"
    by (simp add: ld wit_event_def)
  have id: "ev_identity_id wit_event = ''id1''" by (simp add: wit_event_def)
  show ?thesis
  proof (rule assess_total_mem [OF wit_laws(1) wit_resolver_ok(1) ok wit_event_ok, of wit_inputs "()"])
    fix s' n' soc
    assume a: "assess wit_engine mem_ops wit_inputs wit_event (s, ()) = ((s', n'), Inr soc)"
    obtain s2 r where st: "apply_verified_step_up mem_ops (ev_identity_id wit_event) True s' = (s2, r)"
      by fastforce
    show ?thesis using review_sticky [OF rv a st] rv a st by (auto simp: id)
  qed
qed

text \<open>
  C22: without a working model a privileged access, an account recovery or an onboarding is never
  allowed, and the band shows the degradation of every decision.
\<close>

theorem degraded_fails_closed:
  assumes "\<And>vec. \<exists>x. model_risk (te_lib eng) (te_model eng) vec = Inl x"
    "assess eng mem_ops ci e (s, n) = ((s', n'), Inr soc)"
  shows "soc_degraded soc \<and> soc_ml_risk soc = None \<and>
    (ev_event_type e \<in> fail_closed_events \<longrightarrow>
       soc_decision soc \<noteq> ALLOW \<and> soc_risk_band soc = ''DEGRADED_FAILCLOSED'') \<and>
    (ev_event_type e \<notin> fail_closed_events \<longrightarrow> soc_risk_band soc = ''DEGRADED_FAILOPEN'')"
  using assms(2)
proof (rule assess_stagesE)
  fix b dc st' oc st1 vec0 st2 sc st3 drifting st4
  assume so: "soc_of_outcome eng ci e oc = Inr soc"
    and sc: "sc = score_vector eng e (ci_now ci) st2 (apply_cold_prior eng e st1 vec0)"
    and se: "settle e (ci_now ci) sc drifting st4 (oc_trust oc) = (st', oc)"
  have ml: "sc_ml_risk sc = None"
    using assms(1) [of "apply_cold_prior eng e st1 vec0"]
    by (auto simp: sc score_vector_def Let_def)
  have "oc_degraded oc" "oc_ml_risk oc = None" using settle_simps [OF se] ml by simp_all
  moreover have "ev_event_type e \<in> fail_closed_events \<Longrightarrow> oc_decision oc \<noteq> ALLOW"
    using settle_allow(7) [OF se] \<open>oc_degraded oc\<close> by auto
  moreover have "oc_band oc =
      (if ev_event_type e \<in> fail_closed_events then DEGRADED_FAILCLOSED else DEGRADED_FAILOPEN)"
    by (rule settle_degraded_band [OF se ml])
  ultimately show ?thesis using soc_of_outcome_simps [OF so] by simp
qed

theorem degraded_fails_closed_witness:
  "\<exists>s' n' soc. assess broken_engine mem_ops wit_inputs
       (wit_event\<lparr>ev_event_type := PRIVILEGED_ACCESS\<rparr>) (mem_empty, ()) = ((s', n'), Inr soc) \<and>
     soc_decision soc \<noteq> ALLOW \<and> soc_risk_band soc = ''DEGRADED_FAILCLOSED''"
proof -
  let ?e = "wit_event\<lparr>ev_event_type := PRIVILEGED_ACCESS\<rparr>"
  have br: "\<exists>x. model_risk (te_lib broken_engine) (te_model broken_engine) vec = Inl x" for vec
    by (simp add: model_risk_def broken_engine_def engine_default_def wit_lib_def)
  have ok: "event_ok ?e" "amount_ok (ev_amount ?e)"
    using wit_event_ok by (simp_all add: event_ok_def)
  show ?thesis
  proof (rule assess_total_mem [OF wit_laws(2) wit_resolver_ok(2) mem_empty_ok ok, of wit_inputs "()"])
    fix s' n' soc
    assume a: "assess broken_engine mem_ops wit_inputs ?e (mem_empty, ()) = ((s', n'), Inr soc)"
    from degraded_fails_closed [OF br a] a show ?thesis by (auto simp: fail_closed_events_def)
  qed
qed

section \<open>Trust moves\<close>

text \<open>
  Trust falls faster than it recovers. A risk above 0.45 never raises trust; a risk of at most
  0.45 never lowers it, and raises it by at most 27 points an event.
\<close>

theorem trust_moves_with_risk:
  assumes "num_laws (te_lib eng)" "resolver_ok eng" "store_ok s" "event_ok e"
    "amount_ok (ev_amount e)" "assess eng mem_ops ci e (s, n) = ((s', n'), Inr soc)"
  shows "(fl 0.45 < soc_event_risk soc \<longrightarrow>
            soc_trust_score soc \<le> st_trust (mem_load s (ev_identity_id e))) \<and>
         (\<not> fl 0.45 < soc_event_risk soc \<longrightarrow>
            st_trust (mem_load s (ev_identity_id e)) \<le> soc_trust_score soc \<and>
            soc_trust_score soc \<le> st_trust (mem_load s (ev_identity_id e)) + 27)"
  using assms(6)
proof (rule assess_stagesE)
  fix b dc st' oc st1 vec0 st2 sc st3 drifting st4
  let ?st = "mem_load s (ev_identity_id e)"
  assume so: "soc_of_outcome eng ci e oc = Inr soc"
    and dc: "1 \<le> dc"
    and as: "assess_state eng e b (ci_now ci) dc ?st = Inr (st', oc)"
    and ut: "update_trust eng st3 (sc_event_risk sc) (ci_now ci) = Inr (st4, oc_trust oc)"
    and c3: "context_of st3 = context_of ?st"
    and se: "settle e (ci_now ci) sc drifting st4 (oc_trust oc) = (st', oc)"
    and b: "b = map_option (\<lambda>x. fl 1 - x) (snd (resolve_behavior eng n (ci_resolve_now ci) e))"
  have st: "state_ok ?st" using assms(3) by (simp add: store_ok_def)
  have rq: "request_ok e b"
    using assms(4,5) anomaly_ok [OF assms(2), of n ci e] b by (simp add: request_ok_def anomaly_of_def)
  have "fin_in 0 1 (oc_event_risk oc)"
    by (rule assess_state_total [OF assms(1) st rq dc, of "ci_now ci"]) (use as in simp)
  then have r: "fin_in 0 1 (sc_event_risk sc)" using settle_simps(1) [OF se] by simp
  have tr: "st_trust st3 = st_trust ?st" using c3 by (simp add: context_of_def)
  note mv = update_trust_moves [OF ut r assms(1)]
  show ?thesis
    using mv tr st soc_of_outcome_simps(2,3) [OF so] settle_simps(1) [OF se]
    by (simp add: state_ok_def del: fl_literals)
qed

theorem trust_moves_with_risk_witness:
  "\<exists>s' n' soc. assess wit_engine mem_ops wit_inputs wit_event (mem_empty, ()) = ((s', n'), Inr soc)
     \<and> soc_trust_score soc = 722 \<and>
     (fl 0.45 < soc_event_risk soc \<longrightarrow> soc_trust_score soc \<le> st_trust initial_state)"
proof (rule wit_allow)
  fix s' n' soc
  assume a: "assess wit_engine mem_ops wit_inputs wit_event (mem_empty, ()) = ((s', n'), Inr soc)"
    "soc_trust_score soc = 722"
  show ?thesis
    using trust_moves_with_risk [OF wit_laws(1) wit_resolver_ok(1) mem_empty_ok wit_event_ok a(1)] a
    by auto
qed

text \<open>
  Scoring a list of requests against one state, one after the other; an exception stops it.
\<close>

fun score_seq ::
  "('o, 'n) trust_engine \<Rightarrow> (identity_event \<times> pyfloat option \<times> pyfloat \<times> int) list \<Rightarrow> identity_state
     \<Rightarrow> py_exn + identity_state" where
  "score_seq eng [] st = Inr st"
| "score_seq eng ((e, b, now, n) # rqs) st =
     sbind (assess_state eng e b now n st) (\<lambda>(st', oc). score_seq eng rqs st')"

lemma score_step_budget:
  assumes "assess_state eng e b now n st = Inr (st', oc)" "num_laws (te_lib eng)"
    "0 \<le> st_trust st" "\<not> RECOVERY_WINDOW_SECONDS < now - st_recovery_window_start st"
  shows "st_recovery_window_start st' = st_recovery_window_start st"
    "0 \<le> st_trust st'"
    "st_trust st' + max 0 (te_recovery_cap eng - st_recovered_in_window st')
       \<le> st_trust st + max 0 (te_recovery_cap eng - st_recovered_in_window st)"
proof -
  from assms(1) obtain st1 vec0 st2 sc st3 drifting st4 where
    a: "compute_features (nl_pow (te_lib eng)) e st n b = Inr (st1, vec0)"
    "st2 = (if st_event_count st = 0 then st1\<lparr>st_cold_prior_used := True\<rparr> else st1)"
    "watch_drift eng (st_event_count st = 0) (sc_event_risk sc) st2 = (st3, drifting)"
    and ut: "update_trust eng st3 (sc_event_risk sc) now = Inr (st4, oc_trust oc)"
    and se: "settle e now sc drifting st4 (oc_trust oc) = (st', oc)"
    by (rule assess_stateE)
  have s1: "st1 = st\<lparr>st_burst := st_burst st * fl 0.5 + fl 1\<rparr>"
    using compute_features_state [OF a(1)] by simp
  have s3: "st_recovery_window_start st3 = st_recovery_window_start st"
    "st_recovered_in_window st3 = st_recovered_in_window st" "st_trust st3 = st_trust st"
    using watch_drift_frame [OF a(3)] by (auto simp: a(2) s1 context_simps)
  have cl: "nl_clip_int (te_lib eng) x 0 1000 = max 0 (min x 1000)" for x
    using assms(2) by (simp add: num_laws_def)
  have s4: "st_recovery_window_start st4 = st_recovery_window_start st \<and>
    oc_trust oc + max 0 (te_recovery_cap eng - st_recovered_in_window st4)
       \<le> st_trust st + max 0 (te_recovery_cap eng - st_recovered_in_window st)"
    using ut
  proof (cases rule: update_trust_cases)
    case (decay d)
    have "0 \<le> d" using decay(1,2) by (rule py_int_decay_nonneg)
    then show ?thesis using decay s3 assms(3) by (simp add: cl)
  next
    case (recover g)
    have "0 \<le> g" using recover(1,2) by (rule py_int_gain_nonneg)
    then show ?thesis using recover(3,4) s3 assms(3,4) by (simp add: cl) linarith
  qed
  show "st_recovery_window_start st' = st_recovery_window_start st"
    using s4 settle_state(7) [OF se] by simp
  show "0 \<le> st_trust st'"
    using assess_state_trust [OF assms(1,2)] by simp
  show "st_trust st' + max 0 (te_recovery_cap eng - st_recovered_in_window st')
       \<le> st_trust st + max 0 (te_recovery_cap eng - st_recovered_in_window st)"
    using s4 settle_state(6) [OF se] settle_simps(5) [OF se] by simp
qed

text \<open>
  C18: rate-limited recovery. However many events are scored within one recovery window, trust ends
  at most the rest of the window's budget (120 points at the start of a window) above where it was.
\<close>

theorem recovery_is_rate_limited:
  assumes "score_seq eng rqs st = Inr st'" "num_laws (te_lib eng)" "0 \<le> st_trust st"
    "\<forall>(e, b, now, n) \<in> set rqs. \<not> RECOVERY_WINDOW_SECONDS < now - st_recovery_window_start st"
  shows "st_trust st' \<le> st_trust st + max 0 (te_recovery_cap eng - st_recovered_in_window st)"
proof -
  have "st_trust st' + max 0 (te_recovery_cap eng - st_recovered_in_window st')
       \<le> st_trust st + max 0 (te_recovery_cap eng - st_recovered_in_window st)"
    using assms(1,3,4)
  proof (induction rqs arbitrary: st)
    case (Cons rq rqs)
    obtain e b now n where rq: "rq = (e, b, now, n)" by (metis prod_cases4)
    with Cons.prems(1) obtain st1 oc where
      a: "assess_state eng e b now n st = Inr (st1, oc)" "score_seq eng rqs st1 = Inr st'"
      by (auto simp: sbind_eq_Inr)
    note step = score_step_budget [OF a(1) assms(2) Cons.prems(2)]
    have now: "\<not> RECOVERY_WINDOW_SECONDS < now - st_recovery_window_start st"
      using Cons.prems(3) rq by simp
    have "st_trust st' + max 0 (te_recovery_cap eng - st_recovered_in_window st')
       \<le> st_trust st1 + max 0 (te_recovery_cap eng - st_recovered_in_window st1)"
      using Cons.prems(3) step(1) [OF now] by (intro Cons.IH [OF a(2) step(2) [OF now]]) auto
    with step(3) [OF now] show ?case by linarith
  qed simp
  then show ?thesis by linarith
qed

theorem recovery_is_rate_limited_witness:
  "\<exists>st'. score_seq wit_engine [(wit_event, None, fl 1000, 1)] initial_state = Inr st' \<and>
     st_trust st' \<le> 700 + 120"
proof -
  obtain st' oc where a: "assess_state wit_engine wit_event None (fl 1000) 1 initial_state = Inr (st', oc)"
    using wit_assess_state by blast
  then have sq: "score_seq wit_engine [(wit_event, None, fl 1000, 1)] initial_state = Inr st'"
    by simp
  show ?thesis
    using recovery_is_rate_limited [OF sq wit_laws(1)] sq
    by (simp add: initial_state_def DEFAULT_TRUST_def RECOVERY_WINDOW_SECONDS_def wit_engine_def
        engine_default_def RECOVERY_CAP_PER_WINDOW_def zero_pyfloat_def)
qed

section \<open>Impossible travel and the cold-start prior\<close>

lemma settle_reasons:
  "settle e now sc drifting st t = (st', oc) \<Longrightarrow> set (sc_reasons sc) \<subseteq> set (oc_reasons oc)"
  by (auto simp: settle_def Let_def)

text \<open>
  C23: impossible travel. An event from another country than the last allowed one, less than an hour
  after it, is never allowed and never raises trust, and the audit names the reason.
\<close>

theorem impossible_travel_blocks:
  assumes "num_laws (te_lib eng)" "resolver_ok eng" "store_ok s" "event_ok e"
    "amount_ok (ev_amount e)" "te_impossible_travel eng"
    "st_last_geo (mem_load s (ev_identity_id e)) \<noteq> []"
    "country (ev_geo e) \<noteq> country (st_last_geo (mem_load s (ev_identity_id e)))"
    "ci_now ci - st_last_geo_ts (mem_load s (ev_identity_id e)) < IMPOSSIBLE_TRAVEL_SECONDS"
    "assess eng mem_ops ci e (s, n) = ((s', n'), Inr soc)"
  shows "soc_decision soc \<noteq> ALLOW \<and> Fin (1/2) \<le> soc_event_risk soc \<and>
    soc_trust_score soc \<le> st_trust (mem_load s (ev_identity_id e)) \<and>
    IMPOSSIBLE_TRAVEL_REASON \<in> set (soc_reason_codes soc)"
  using assms(10)
proof (rule assess_stagesE)
  fix b dc st' oc st1 vec0 st2 sc st3 drifting st4
  let ?st = "mem_load s (ev_identity_id e)"
  assume so: "soc_of_outcome eng ci e oc = Inr soc"
    and dc: "1 \<le> dc"
    and cf: "compute_features (nl_pow (te_lib eng)) e ?st dc b = Inr (st1, vec0)"
    and sc: "sc = score_vector eng e (ci_now ci) st2 (apply_cold_prior eng e st1 vec0)"
    and c2: "context_of st2 = context_of ?st"
    and ut: "update_trust eng st3 (sc_event_risk sc) (ci_now ci) = Inr (st4, oc_trust oc)"
    and c3: "context_of st3 = context_of ?st"
    and se: "settle e (ci_now ci) sc drifting st4 (oc_trust oc) = (st', oc)"
    and b: "b = map_option (\<lambda>x. fl 1 - x) (snd (resolve_behavior eng n (ci_resolve_now ci) e))"
  have st: "state_ok ?st" using assms(3) by (simp add: store_ok_def)
  have bo: "behavior_ok b" using anomaly_ok [OF assms(2), of n ci e] b by (simp add: anomaly_of_def)
  have pw: "pow_laws (nl_pow (te_lib eng))" using assms(1) by (simp add: num_laws_def)
  have "\<forall>f \<in> set vec0. fin_in 0 1 f"
    using compute_features_unit [OF pw, of ?st e b dc] st assms(4,5) bo dc cf
    by (auto simp: state_ok_def)
  moreover have "length vec0 = 11" using compute_features_state [OF cf] by simp
  ultimately have v: "\<forall>f \<in> set (apply_cold_prior eng e st1 vec0). fin_in 0 1 f"
    by (rule apply_cold_prior_unit)
  let ?v = "apply_cold_prior eng e st1 vec0"
  let ?ml = "case model_risk (te_lib eng) (te_model eng) ?v of Inr r \<Rightarrow> Some r | Inl _ \<Rightarrow> None"
  have it: "is_impossible_travel eng st2 e (ci_now ci)"
    using assms(6-9) c2 by (simp add: is_impossible_travel_def context_of_def)
  have "fin_in 0 1 m" if "?ml = Some m" for m
    using that model_risk_range [OF assms(1)] by (auto split: sum.splits)
  then have "fin_in 0 1 (blend_risk ?ml (det_risk_of eng ?v))"
    by (intro blend_risk_unit det_risk_unit assms(1) v)
  then have r: "fin_in (1/2) 1 (sc_event_risk sc)"
    using boosted_unit [OF assms(1)] it by (simp add: sc score_vector_def Let_def del: fl_0 fl_1)
  have hi: "fl 0.45 < sc_event_risk sc" "fin_in 0 1 (sc_event_risk sc)" "Fin (1/2) \<le> sc_event_risk sc"
    using r by (auto elim!: fin_inE)
  have tr: "st_trust st3 = st_trust ?st" using c3 by (simp add: context_of_def)
  have "oc_trust oc \<le> st_trust ?st"
    using update_trust_moves(1) [OF ut hi(2) assms(1) _ hi(1)] tr st by (simp add: state_ok_def)
  moreover have "oc_decision oc \<noteq> ALLOW"
    using settle_allow(2) [OF se] r by (auto elim!: fin_inE)
  moreover have "IMPOSSIBLE_TRAVEL_REASON \<in> set (oc_reasons oc)"
    using settle_reasons [OF se] it by (auto simp: sc score_vector_def Let_def)
  moreover have "soc_reason_codes soc = oc_reasons oc"
    using so by (auto simp: soc_of_outcome_def Let_def sbind_eq_Inr)
  ultimately show ?thesis
    using soc_of_outcome_simps(1-3) [OF so] settle_simps(1) [OF se] hi(3) by simp
qed

theorem impossible_travel_blocks_witness:
  "\<exists>s s' n' soc. assess wit_engine mem_ops wit_inputs wit_event (s, ()) = ((s', n'), Inr soc) \<and>
     st_last_geo (mem_load s ''id1'') = ''US-CA'' \<and> soc_decision soc \<noteq> ALLOW"
proof -
  let ?g = "initial_state\<lparr>st_last_geo := ''US-CA'', st_last_geo_ts := fl 900\<rparr>"
  define s where "s = mem_empty\<lparr>mem_data := [''id1'' \<mapsto> ?g]\<rparr>"
  have ld: "mem_load s i = (if i = ''id1'' then ?g else initial_state)" for i
    by (simp add: s_def mem_load_def mem_empty_def)
  have "state_ok ?g" using initial_state_ok by (simp add: state_ok_def)
  then have ok: "store_ok s"
    using initial_state_ok by (simp add: store_ok_def ld) (simp add: initial_state_def)
  show ?thesis
  proof (rule assess_total_mem [OF wit_laws(1) wit_resolver_ok(1) ok wit_event_ok, of wit_inputs "()"])
    fix s' n' soc
    assume a: "assess wit_engine mem_ops wit_inputs wit_event (s, ()) = ((s', n'), Inr soc)"
    have "soc_decision soc \<noteq> ALLOW"
      using impossible_travel_blocks [OF wit_laws(1) wit_resolver_ok(1) ok wit_event_ok _ _ _ _ a]
      by (simp add: ld wit_event_def country_def wit_inputs_def IMPOSSIBLE_TRAVEL_SECONDS_def
          wit_engine_def engine_default_def fl_f64)
    with a show ?thesis
      by (intro exI [of _ s] exI [of _ s'] exI [of _ n'] exI [of _ soc]) (simp add: ld)
  qed
qed

text \<open>
  The cold-start prior is one-shot. The first assessment of an identity consumes it, whatever
  it decides; from then on the vector that is explained is the undampened feature vector.
\<close>

theorem cold_prior_one_shot:
  assumes "assess eng mem_ops ci e (s, n) = ((s', n'), Inr soc)"
    "assess eng mem_ops ci2 e2 (s', n') = ((s2, n2), Inr soc2)"
    "ev_identity_id e2 = ev_identity_id e"
    "st_event_count (mem_load s (ev_identity_id e)) = 0"
  shows "st_cold_prior_used (mem_load s' (ev_identity_id e)) \<and>
    (\<exists>dc b st1 vec. compute_features (nl_pow (te_lib eng)) e2 (mem_load s' (ev_identity_id e)) dc b
        = Inr (st1, vec) \<and> soc_shap_values soc2 = shap_values vec WEIGHTS BASELINE)"
proof -
  have used: "st_cold_prior_used (mem_load s' (ev_identity_id e))"
    using assms(1)
  proof (cases rule: assess_mem)
    case (stored dc st' oc)
    from stored(2) show ?thesis
    proof (rule assess_stateE)
      fix st1 st2 st3 st4 :: identity_state and vec0 and sc :: scoring and drifting
      assume a: "compute_features (nl_pow (te_lib eng)) e (mem_load s (ev_identity_id e)) dc
          (map_option (\<lambda>x. fl 1 - x) (snd (resolve_behavior eng n (ci_resolve_now ci) e)))
          = Inr (st1, vec0)"
        "st2 = (if st_event_count (mem_load s (ev_identity_id e)) = 0
                then st1\<lparr>st_cold_prior_used := True\<rparr> else st1)"
        "watch_drift eng (st_event_count (mem_load s (ev_identity_id e)) = 0) (sc_event_risk sc) st2
           = (st3, drifting)"
        "update_trust eng st3 (sc_event_risk sc) (ci_now ci) = Inr (st4, oc_trust oc)"
      assume se: "settle e (ci_now ci) sc drifting st4 (oc_trust oc) = (st', oc)"
      show ?thesis
        using assess_state_frame(4) [OF a] settle_state(2) [OF se] assms(4) stored(3) by simp
    qed
  qed simp
  show ?thesis
    using assms(2)
  proof (rule assess_stagesE)
    fix b dc st' oc st1 vec0 st2 sc st3 drifting st4
    assume so: "soc_of_outcome eng ci2 e2 oc = Inr soc2"
      and cf: "compute_features (nl_pow (te_lib eng)) e2 (mem_load s' (ev_identity_id e2)) dc b
        = Inr (st1, vec0)"
      and sc: "sc = score_vector eng e2 (ci_now ci2) st2 (apply_cold_prior eng e2 st1 vec0)"
      and se: "settle e2 (ci_now ci2) sc drifting st4 (oc_trust oc) = (st', oc)"
    have "st_cold_prior_used st1" using compute_features_state [OF cf] used assms(3) by simp
    then have "oc_vec oc = vec0"
      using settle_simps(6) [OF se] by (simp add: sc score_vector_def Let_def apply_cold_prior_def)
    then show ?thesis using used cf soc_of_outcome_simps(10) [OF so] assms(3) by auto
  qed
qed

theorem cold_prior_one_shot_witness:
  "\<exists>s' n' soc s2 n2 soc2.
     assess wit_engine mem_ops wit_inputs wit_event (mem_empty, ()) = ((s', n'), Inr soc) \<and>
     assess wit_engine mem_ops wit_inputs wit_event (s', n') = ((s2, n2), Inr soc2) \<and>
     st_cold_prior_used (mem_load s' ''id1'')"
proof (rule assess_total_mem [OF wit_laws(1) wit_resolver_ok(1) mem_empty_ok wit_event_ok,
      of wit_inputs "()"])
  fix s' n' soc st' oc dc
  assume a: "assess wit_engine mem_ops wit_inputs wit_event (mem_empty, ()) = ((s', n'), Inr soc)"
    "assess_state wit_engine wit_event (anomaly_of wit_engine () wit_inputs wit_event)
       (ci_now wit_inputs) dc (mem_load mem_empty (ev_identity_id wit_event)) = Inr (st', oc)"
    "state_ok st'"
    "mem_load s' = (mem_load mem_empty)(ev_identity_id wit_event :=
       st'\<lparr>st_version := st_version (mem_load mem_empty (ev_identity_id wit_event)) + 1\<rparr>)"
  have "st_event_count st' \<le> 1"
    using assess_state_reference [OF a(2)]
    by (cases "oc_decision oc = ALLOW")
      (simp_all add: reference_of_def profile_def commit_features_def initial_state_def)
  then have "st_event_count st' < 2 ^ 52" by simp
  then have ok: "store_ok s'"
    using mem_empty_ok a(3) by (simp add: store_ok_def a(4))
  have cnt: "st_event_count (mem_load mem_empty (ev_identity_id wit_event)) = 0"
    by (simp add: initial_state_def)
  show ?thesis
  proof (rule assess_total_mem [OF wit_laws(1) wit_resolver_ok(1) ok wit_event_ok, of wit_inputs n'])
    fix s2 n2 soc2
    assume b: "assess wit_engine mem_ops wit_inputs wit_event (s', n') = ((s2, n2), Inr soc2)"
    show ?thesis
      using cold_prior_one_shot [OF a(1) b refl cnt] a(1) b
      by (auto simp: wit_event_def)
  qed
qed

end
