(* ===== verification/EngineLimits.thy ===== *)
theory EngineLimits
  imports EngineProps
begin

text \<open>
  The engine at its limits: over any store that keeps the contract (the Redis store among them), when
  commits keep failing, on an amount that is NaN or negative, and when the drift detector fires.
\<close>

section \<open>Any store\<close>

text \<open>
  Over any store that keeps the contract of \<open>StateStore\<close>, in-memory or not, an assessment of a
  well-formed event keeps every held state well formed, even when the store raises or refuses
  commits, and no version ever goes back.
\<close>

theorem any_store_stays_ok:
  assumes "state_store ops view dview sok" "sok s" "num_laws (te_lib eng)" "resolver_ok eng"
    "event_ok e" "amount_ok (ev_amount e)" "\<forall>i. state_ok (view s i)"
    "assess eng ops ci e (s, n) = ((s', n'), r)"
  shows "sok s' \<and> (\<forall>i. state_ok (view s' i)) \<and>
    (\<forall>i. st_version (view s i) \<le> st_version (view s' i))"
proof -
  let ?P = "\<lambda>i st. state_ok st \<and> st_version (view s i) \<le> st_version st"
  have "sok s' \<and> (\<forall>i. ?P i (view s' i))"
  proof (rule state_store.assess_preserves [OF assms(1,2,8)])
    show "?P i (view s i)" for i using assms(7) by simp
    fix b dc st st' oc
    assume b: "b = map_option (\<lambda>x. fl 1 - x) (snd (resolve_behavior eng n (ci_resolve_now ci) e))"
      and dc: "1 \<le> dc" and P: "?P (ev_identity_id e) st"
      and as: "assess_state eng e b (ci_now ci) dc st = Inr (st', oc)"
    have "request_ok e b"
      using assms(5,6) anomaly_ok [OF assms(4), of n ci e]
      by (simp add: request_ok_def b anomaly_of_def)
    from assess_state_total [OF assms(3) _ this dc, of st "ci_now ci"] P as
    have "state_ok st'" by auto
    then show "?P (ev_identity_id e) (st'\<lparr>st_version := st_version st' + 1\<rparr>)"
      using P assess_state_version [OF as] by simp
  qed
  then show ?thesis by blast
qed

text \<open>A Redis server and client that behave as documented, values kept as their JSON value.\<close>

record wit_server =
  ws_kv :: "string \<Rightarrow> json option"
  ws_sets :: "string \<Rightarrow> string fset"

definition wit_redis :: "(wit_server, json) redis_client" where
  "wit_redis =
     \<lparr> rc_lock = (\<lambda>s _. (s, Inr ())), rc_release = (\<lambda>s _. (s, Inr ())),
       rc_get = (\<lambda>s k. Inr (ws_kv s k)), rc_watch = (\<lambda>s _. (s, Inr ())),
       rc_unwatch = (\<lambda>s. (s, Inr ())),
       rc_exec_set = (\<lambda>s k b. (s\<lparr>ws_kv := (ws_kv s)(k \<mapsto> b)\<rparr>, Inr ())),
       rc_sadd = (\<lambda>s k m. (s\<lparr>ws_sets := (ws_sets s)(k := finsert m (ws_sets s k))\<rparr>, Inr ())),
       rc_scard = (\<lambda>s k. Inr (int (fcard (ws_sets s k)))),
       rc_dumps = (\<lambda>j. j), rc_loads = Inr, rc_empty = JNull \<rparr>"

text \<open>The same server once it refuses writes (out of memory, or a read-only replica).\<close>

definition readonly_redis :: "(wit_server, json) redis_client" where
  "readonly_redis = wit_redis\<lparr>rc_exec_set := (\<lambda>s k b. (s, Inl ExternalError))\<rparr>"

definition empty_server :: wit_server where
  "empty_server = \<lparr> ws_kv = Map.empty, ws_sets = (\<lambda>_. {||}) \<rparr>"

lemma state_to_json_not_null [simp]: "state_to_json st \<noteq> JNull"
  by (simp add: state_to_json_def)

lemma wit_redis_laws: "redis_laws wit_redis ws_kv ws_sets" "redis_laws readonly_redis ws_kv ws_sets"
  by (simp_all add: redis_laws_def readonly_redis_def wit_redis_def)

lemma empty_server_view: "redis_view c ws_kv ns empty_server i = initial_state"
  by (simp add: redis_view_def empty_server_def redis_decode_def)

theorem any_store_stays_ok_witness:
  "\<exists>s' n' r. assess wit_engine (redis_ops wit_redis ''pramaan'') wit_inputs wit_event (empty_server, ())
       = ((s', n'), r) \<and> (\<forall>i. state_ok (redis_view wit_redis ws_kv ''pramaan'' s' i))"
proof -
  obtain s' n' r where a: "assess wit_engine (redis_ops wit_redis ''pramaan'') wit_inputs wit_event
      (empty_server, ()) = ((s', n'), r)" by (metis prod.exhaust)
  have "\<forall>i. state_ok (redis_view wit_redis ws_kv ''pramaan'' empty_server i)"
    using initial_state_ok by (simp add: empty_server_view)
  from any_store_stays_ok [OF redis_state_store [OF wit_redis_laws(1)] _ wit_laws(1)
      wit_resolver_ok(1) wit_event_ok this a] a
  show ?thesis by blast
qed



text \<open>
  No lost update. After one writer's commit has succeeded, another writer that loaded the same
  version cannot commit, whatever else was read in between.
\<close>

theorem no_lost_update:
  assumes "state_store ops view dview sok" "sok s" "so_load ops s i = Inr st1"
    "so_commit ops s i stA (st_version st1) = (s', True)" "so_load ops s i = Inr st2"
    "so_commit ops s' i stB (st_version st2) = (s'', ok)"
  shows "\<not> ok \<and> view s'' i = stA\<lparr>st_version := st_version st1 + 1\<rparr>"
proof -
  have inv': "sok s'"
    using state_store.commit_true [OF assms(1,2,4)] by simp
  have eq: "st2 = st1" using assms(3,5) by simp
  have "\<not> ok"
    using state_store.stale_commit_fails [OF assms(1,2,4) inv' refl] assms(6) eq by simp
  then show ?thesis
    using state_store.commit_true [OF assms(1,2,4)] inv'
      state_store.commit_false [OF assms(1) inv', of i stB "st_version st2" s''] assms(6) by simp
qed

theorem no_lost_update_witness:
  "\<exists>s'. mem_commit mem_empty ''id1'' initial_state 0 = (s', True) \<and>
     snd (mem_commit s' ''id1'' (initial_state\<lparr>st_trust := 1\<rparr>) 0) = False"
proof -
  obtain s' where s': "mem_commit mem_empty ''id1'' initial_state 0 = (s', True)"
    by (simp add: mem_commit_def mem_empty_def)
  obtain s2 ok where s2: "mem_commit s' ''id1'' (initial_state\<lparr>st_trust := 1\<rparr>) 0 = (s2, ok)" by fastforce
  have v: "st_version initial_state = 0" by (simp add: initial_state_def)
  have "\<not> ok"
    using no_lost_update [OF mem.state_store_axioms, of mem_empty "''id1''" initial_state initial_state
        s' initial_state "initial_state\<lparr>st_trust := 1\<rparr>" s2 ok] s' s2
    by (simp add: v)
  with s' s2 show ?thesis by simp
qed

section \<open>When commits keep failing\<close>

lemma step_up_loop_refused:
  assumes "state_store ops view dview sok" "\<And>s st v. snd (so_commit ops s i st v) = False"
  shows "sok s \<Longrightarrow> step_up_loop ops i passed k t0 s = (s', Inr t) \<Longrightarrow>
    view s' = view s \<and> t = (if k = 0 then t0 else st_trust (step_up_state passed (view s i)))"
proof (induction k arbitrary: s t0)
  case (Suc k)
  obtain s1 r1 where att:
    "with_lock ops i (step_up_locked ops i passed) s = (s1, r1)" by fastforce
  with Suc.prems(2) obtain t1 ok where r1: "r1 = Inr (t1, ok)"
    by (auto split: sum.splits prod.splits)
  have nok: "\<not> ok" and t1: "t1 = st_trust (step_up_state passed (view s i))"
  proof -
    obtain s0 u s2 where l: "so_lock ops s i = (s0, Inr u)"
      "step_up_locked ops i passed s0 = (s2, Inr (t1, ok))"
      using att r1 by (auto simp: with_lock_def split: sum.splits prod.splits)
    have s0: "sok s0" "view s0 = view s"
      using state_store.lock_view [OF assms(1) Suc.prems(1) l(1)] by simp_all
    obtain st where st: "so_load ops s0 i = Inr st"
      using l(2) by (auto simp: step_up_locked_def split: sum.splits)
    have "st = view s i" using state_store.load_view [OF assms(1) s0(1) st] s0(2) by simp
    then show "t1 = st_trust (step_up_state passed (view s i))"
      using l(2) st by (auto simp: step_up_locked_def Let_def split: prod.splits)
    show "\<not> ok"
      using l(2) st assms(2) [of s0 "step_up_state passed st" "st_version (step_up_state passed st)"]
      by (auto simp: step_up_locked_def Let_def split: prod.splits)
  qed
  have s1: "sok s1" "view s1 = view s"
    using state_store.step_up_attempt_view [OF assms(1) Suc.prems(1) att] nok r1 by blast+
  have "step_up_loop ops i passed k t1 s1 = (s', Inr t)"
    using Suc.prems(2) att r1 nok by simp
  from Suc.IH [OF s1(1) this] show ?case using s1(2) t1 by (auto split: if_splits)
qed simp


lemma readonly_refuses: "snd (so_commit (redis_ops readonly_redis ns) s i st v) = False"
  by (auto simp: redis_ops_def redis_commit_def readonly_redis_def wit_redis_def Let_def
      split: sum.splits prod.splits option.splits)


section \<open>Amounts out of the ordinary\<close>

lemma foldl_add_NaN: "foldl (+) NaN xs = NaN"
  by (induction xs) simp_all

lemma py_sum_NaN: "NaN \<in> set xs \<Longrightarrow> py_sum xs = NaN"
proof -
  assume "NaN \<in> set xs"
  then obtain ys zs where "xs = ys @ NaN # zs" by (meson split_list)
  then show ?thesis by (simp add: py_sum_def foldl_add_NaN)
qed

lemma update_trust_NaN: "update_trust eng st NaN now = Inl ValueError"
  by (simp add: update_trust_def)

text \<open>
  A NaN amount (which JSON as Python reads it can carry) is not handled: for a new identity the
  call raises \<open>ValueError\<close> out of the engine. No state is stored, but the device graph already counts
  the identity on the device.
\<close>

theorem nan_amount_raises:
  assumes "num_laws (te_lib eng)" "mem_load s (ev_identity_id e) = initial_state"
    "ev_amount e = Some NaN"
  shows "\<exists>s' n'. assess eng mem_ops ci e (s, n) = ((s', n'), Inl ValueError) \<and>
    mem_load s' = mem_load s \<and> ev_identity_id e |\<in>| mem_dview s' (ev_device_id e)"
proof -
  let ?i = "ev_identity_id e"
  let ?b = "map_option (\<lambda>x. fl 1 - x) (snd (resolve_behavior eng n (ci_resolve_now ci) e))"
  have raise: "assess_state eng e b now dc initial_state = Inl ValueError" for b now dc
  proof -
    obtain f0 f1 f2 rest where cf: "compute_features (nl_pow (te_lib eng)) e initial_state dc b =
        Inr (initial_state\<lparr>st_burst := 0 * fl 0.5 + fl 1\<rparr>, [f0, f1, f2, NaN] @ rest)"
      "length rest = 7"
      by (simp add: compute_features_def Let_def amount_zscore_def assms(3) py_min_def
          initial_state_def)
    have nocp: "apply_cold_prior eng e st v = v" for st v
      by (simp add: apply_cold_prior_def cold_prior_applies_def assms(3))
    have "NaN \<in> set (map2 (*) WEIGHTS ([f0, f1, f2, NaN] @ rest))"
      by (simp add: WEIGHTS_def)
    then have det: "det_risk_of eng ([f0, f1, f2, NaN] @ rest) = NaN"
      using nl_clip_unit_NaN [OF assms(1), of NaN] by (simp add: det_risk_of_def py_sum_NaN del: fl_0 fl_1)
    have bl: "blend_risk ml NaN = NaN" for ml
      by (cases ml) (simp_all add: blend_risk_def)
    have risk: "sc_event_risk (score_vector eng e now st ([f0, f1, f2, NaN] @ rest)) = NaN"
      if "st_last_geo st = []" for st
      using that det bl by (simp add: score_vector_def Let_def is_impossible_travel_def)
    show ?thesis
      using cf(1) risk
      by (simp add: assess_state_def Let_def nocp update_trust_NaN initial_state_def
          split: prod.splits)
  qed
  let ?s1 = "fst (mem_key_lock s ?i)"
  let ?s2 = "fst (mem_device_add ?s1 (ev_device_id e) ?i)"
  have bb: "(case sim of None \<Rightarrow> None | Some x \<Rightarrow> Some (fl 1 - x)) = map_option (\<lambda>x. fl 1 - x) sim" for sim
    by (cases sim) simp_all
  have "assess_loop eng mem_ops e ?b (ci_now ci) CAS_RETRIES None s = (?s2, Inl ValueError)"
    using raise assms(2)
    by (simp add: CAS_RETRIES_def eval_nat_numeral assess_attempt_def assess_locked_def with_lock_def)
  then have "assess eng mem_ops ci e (s, n) =
      ((?s2, fst (resolve_behavior eng n (ci_resolve_now ci) e)), Inl ValueError)"
    by (cases "resolve_behavior eng n (ci_resolve_now ci) e") (simp add: assess_def Let_def bb del: fl_1)
  moreover have "?i |\<in>| mem_dview ?s2 (ev_device_id e)"
    by (simp add: mem_device_add_def mem_dview_def Let_def)
  ultimately show ?thesis by auto
qed

theorem nan_amount_raises_witness:
  "\<exists>s' n'. assess wit_engine mem_ops wit_inputs (wit_event\<lparr>ev_amount := Some NaN\<rparr>) (mem_empty, ())
     = ((s', n'), Inl ValueError)"
  using nan_amount_raises [OF wit_laws(1), of mem_empty "wit_event\<lparr>ev_amount := Some NaN\<rparr>" wit_inputs "()"]
  by auto

text \<open>
  A negative amount switches the deterministic scorer off. The cold-start amount feature is not
  bounded below, so for a new identity an amount of at most minus ten million makes the
  deterministic risk exactly zero, whatever else is suspicious about the event.
\<close>

theorem negative_amount_hides_risk:
  assumes "num_laws (te_lib eng)" "length (st_amounts st) < 5" "state_ok st" "event_ok e"
    "behavior_ok b" "1 \<le> n" "ev_amount e = Some (Fin a)" "a \<le> - 10000000" "- (2 ^ 60) \<le> a"
    "compute_features (nl_pow (te_lib eng)) e st n b = Inr (st1, vec)"
  shows "det_risk_of eng vec = fl 0"
proof -
  let ?e = "e\<lparr>ev_amount := None\<rparr>"
  have pw: "pow_laws (nl_pow (te_lib eng))" using assms(1) by (simp add: num_laws_def)
  define az where "az = py_min (fdiv (Fin a) (fl 100000)) (fl 1)"
  have "st_amounts st1 = st_amounts st" "length vec = 11"
    using compute_features_state [OF assms(10)] by simp_all
  then have "length (last_n 200 (st_amounts st1)) < 5" using assms(2) by simp
  then have "vec ! 3 = az"
    using compute_features_amount(1) [OF assms(10)]
    by (simp add: assms(7) amount_zscore_def az_def Let_def del: length_last_n)
  moreover obtain f0 f1 f2 f3 r0 r1 r2 r3 r4 r5 r6 where
    "vec = [f0, f1, f2, f3, r0, r1, r2, r3, r4, r5, r6]"
    using \<open>length vec = 11\<close> by (auto simp: numeral_eq_Suc length_Suc_conv)
  ultimately have vec: "vec = [f0, f1, f2, az, r0, r1, r2, r3, r4, r5, r6]"
    by simp
  have unit: "\<forall>f \<in> set (vec[3 := Fin 0]). fin_in 0 1 f"
    using compute_features_unit [OF pw, of st ?e b n] assms(3-6) compute_features_amount(2) [OF assms(10)]
    by (auto simp: state_ok_def event_ok_def amount_ok_def)
  have "fin_in (- (2 ^ 60)) (- 100) (fl (a / 100000))"
    using assms(8,9) by (intro fl_bounds f64_pow2 [THEN f64_uminus [THEN iffD2]]) simp_all
  then obtain z where z: "az = Fin z" "- (2 ^ 60) \<le> z" "z \<le> - 100"
    by (auto elim!: fin_inE simp: az_def py_min_def)
  have f60: "f64 (2 ^ 60)" "f64 (2 ^ 61)" by (rule f64_pow2, simp)+
  have t3: "fin_in (- (2 ^ 60)) (- 10) (fl 0.11 * az)"
    using z f60(1) by (auto intro!: fl_bounds)
  have w: "fin_in 0 1 (w * f)" if "fin_in 0 1 f" "w \<in> set WEIGHTS" for w f
    using fin_in_mult_nonneg [OF WEIGHTS_unit [OF that(2)] that(1)] by simp
  have t: "fin_in 0 1 (fl 0.14 * f0)" "fin_in 0 1 (fl 0.1 * f1)" "fin_in 0 1 (fl 0.05 * f2)"
    "fin_in 0 1 (fl 0.15 * r0)" "fin_in 0 1 (fl 0.07 * r1)" "fin_in 0 1 (fl 0.04 * r2)"
    "fin_in 0 1 (fl 0.08 * r3)" "fin_in 0 1 (fl 0.12 * r4)" "fin_in 0 1 (fl 0.04 * r5)"
    "fin_in 0 1 (fl 0.1 * r6)"
    using unit unfolding vec by (auto intro!: w simp: WEIGHTS_def simp del: fl_literals)
  note add = fin_in_add
  have "fin_in 0 1 (Fin 0 + fl 0.14 * f0)" by (rule add [of 0 0, OF _ t(1)]) simp_all
  then have "fin_in 0 2 (Fin 0 + fl 0.14 * f0 + fl 0.1 * f1)" by (rule add [OF _ t(2)]) simp_all
  then have "fin_in 0 3 (Fin 0 + fl 0.14 * f0 + fl 0.1 * f1 + fl 0.05 * f2)"
    by (rule add [OF _ t(3)]) simp_all
  then have "fin_in (- (2 ^ 61)) (- 7) (Fin 0 + fl 0.14 * f0 + fl 0.1 * f1 + fl 0.05 * f2 + fl 0.11 * az)"
    by (rule add [OF _ t3]) (use f60 in simp_all)
  then have "fin_in (- (2 ^ 61)) (- 6) (Fin 0 + fl 0.14 * f0 + fl 0.1 * f1 + fl 0.05 * f2 + fl 0.11 * az
      + fl 0.15 * r0)"
    by (rule add [OF _ t(4)]) (use f60 in simp_all)
  then have "fin_in (- (2 ^ 61)) (- 5) (Fin 0 + fl 0.14 * f0 + fl 0.1 * f1 + fl 0.05 * f2 + fl 0.11 * az
      + fl 0.15 * r0 + fl 0.07 * r1)"
    by (rule add [OF _ t(5)]) (use f60 in simp_all)
  then have "fin_in (- (2 ^ 61)) (- 4) (Fin 0 + fl 0.14 * f0 + fl 0.1 * f1 + fl 0.05 * f2 + fl 0.11 * az
      + fl 0.15 * r0 + fl 0.07 * r1 + fl 0.04 * r2)"
    by (rule add [OF _ t(6)]) (use f60 in simp_all)
  then have "fin_in (- (2 ^ 61)) (- 3) (Fin 0 + fl 0.14 * f0 + fl 0.1 * f1 + fl 0.05 * f2 + fl 0.11 * az
      + fl 0.15 * r0 + fl 0.07 * r1 + fl 0.04 * r2 + fl 0.08 * r3)"
    by (rule add [OF _ t(7)]) (use f60 in simp_all)
  then have "fin_in (- (2 ^ 61)) (- 2) (Fin 0 + fl 0.14 * f0 + fl 0.1 * f1 + fl 0.05 * f2 + fl 0.11 * az
      + fl 0.15 * r0 + fl 0.07 * r1 + fl 0.04 * r2 + fl 0.08 * r3
      + fl 0.12 * r4)"
    by (rule add [OF _ t(8)]) (use f60 in simp_all)
  then have "fin_in (- (2 ^ 61)) (- 1) (Fin 0 + fl 0.14 * f0 + fl 0.1 * f1 + fl 0.05 * f2 + fl 0.11 * az
      + fl 0.15 * r0 + fl 0.07 * r1 + fl 0.04 * r2 + fl 0.08 * r3
      + fl 0.12 * r4 + fl 0.04 * r5)"
    by (rule add [OF _ t(9)]) (use f60 in simp_all)
  then have "fin_in (- (2 ^ 61)) (0) (Fin 0 + fl 0.14 * f0 + fl 0.1 * f1 + fl 0.05 * f2 + fl 0.11 * az
      + fl 0.15 * r0 + fl 0.07 * r1 + fl 0.04 * r2 + fl 0.08 * r3
      + fl 0.12 * r4 + fl 0.04 * r5 + fl 0.1 * r6)"
    by (rule add [OF _ t(10)]) (use f60 in simp_all)
  then have "fin_in (- (2 ^ 61)) 0 (py_sum (map2 (*) WEIGHTS vec))"
    by (simp add: py_sum_def WEIGHTS_def vec del: fl_literals)
  then show ?thesis
    using assms(1) by (auto elim!: fin_inE simp: det_risk_of_def num_laws_def)
qed

theorem negative_amount_hides_risk_witness:
  "\<exists>st1 vec. compute_features (nl_pow (te_lib wit_engine))
     (wit_event\<lparr>ev_event_type := ACCOUNT_RECOVERY, ev_recovery_contact_changed := True,
        ev_amount := Some (Fin (- 10000000))\<rparr>) initial_state 1 None = Inr (st1, vec) \<and>
     det_risk_of wit_engine vec = fl 0"
proof -
  let ?e = "wit_event\<lparr>ev_event_type := ACCOUNT_RECOVERY, ev_recovery_contact_changed := True,
        ev_amount := Some (Fin (- 10000000))\<rparr>"
  obtain st1 vec where cf:
    "compute_features (nl_pow (te_lib wit_engine)) ?e initial_state 1 None = Inr (st1, vec)"
    by (simp add: compute_features_def amount_zscore_def initial_state_def Let_def)
  have "event_ok ?e" using wit_event_ok(1) by (simp add: event_ok_def)
  then have "det_risk_of wit_engine vec = fl 0"
    using negative_amount_hides_risk [OF wit_laws(1) _ initial_state_ok _ _ _ _ _ _ cf, of "- 10000000"]
    by (simp add: initial_state_def behavior_ok_def)
  with cf show ?thesis by blast
qed

section \<open>Drift\<close>

text \<open>
  A fired drift detector halts an identity. When the CUSUM after an event is above its
  threshold, the event is not allowed; and if the policy alone would have allowed it, the identity
  is put under review with a step-up.
\<close>

theorem drift_halts:
  assumes "assess eng mem_ops ci e (s, n) = ((s', n'), Inr soc)" "te_drift_enabled eng"
    "dd_cusum_threshold (te_drift eng) < st_cusum (mem_load s' (ev_identity_id e))"
  shows "soc_decision soc \<noteq> ALLOW \<and>
    (650 \<le> soc_trust_score soc \<and> soc_event_risk soc < fl 0.45 \<longrightarrow>
       soc_decision soc = STEP_UP \<and> st_under_review (mem_load s' (ev_identity_id e)))"
proof -
  from assms(1) obtain dc st' oc b where
    as: "assess_state eng e b (ci_now ci) dc (mem_load s (ev_identity_id e)) = Inr (st', oc)"
    and ld: "mem_load s' = (mem_load s)(ev_identity_id e :=
         st'\<lparr>st_version := st_version (mem_load s (ev_identity_id e)) + 1\<rparr>)"
    and so: "soc_of_outcome eng ci e oc = Inr soc"
    by (cases rule: assess_mem) auto
  from as show ?thesis
  proof (rule assess_stateE)
    fix st1 st2 st3 st4 :: identity_state and vec0 and sc :: scoring and drifting
    assume wd: "watch_drift eng (st_event_count (mem_load s (ev_identity_id e)) = 0)
        (sc_event_risk sc) st2 = (st3, drifting)"
      and ut: "update_trust eng st3 (sc_event_risk sc) (ci_now ci) = Inr (st4, oc_trust oc)"
      and se: "settle e (ci_now ci) sc drifting st4 (oc_trust oc) = (st', oc)"
    have "st_cusum st' = st_cusum st3"
      using update_trust_frame [OF ut] settle_state(5) [OF se] by simp
    then have "dd_cusum_threshold (te_drift eng) < st_cusum st3"
      using assms(3) ld by simp
    then have dr: drifting
      using wd assms(2) drift_fires_iff
      by (auto simp: watch_drift_def Let_def split: prod.splits)
    have "oc_decision oc \<noteq> ALLOW" using settle_allow(3) [OF se] dr by blast
    moreover have "oc_decision oc = STEP_UP \<and> st_under_review st'"
      if "650 \<le> oc_trust oc" "sc_event_risk sc < fl 0.45"
      using settle_drift [OF se dr] that by blast
    ultimately show ?thesis
      using soc_of_outcome_simps(1-3) [OF so] settle_simps(1) [OF se] ld by simp
  qed
qed

lemma assess_state_cusum:
  assumes "assess_state eng e b now n st = Inr (st', oc)"
  shows "st_cusum st' =
    fst (snd (drift_step (te_drift eng) (st_risk_ewma st) (st_cusum st) (oc_event_risk oc)))"
  using assms
proof (rule assess_stateE)
  fix st1 st2 st3 st4 :: identity_state and vec0 and sc :: scoring and drifting
  assume cf: "compute_features (nl_pow (te_lib eng)) e st n b = Inr (st1, vec0)"
    and s2: "st2 = (if st_event_count st = 0 then st1\<lparr>st_cold_prior_used := True\<rparr> else st1)"
    and wd: "watch_drift eng (st_event_count st = 0) (sc_event_risk sc) st2 = (st3, drifting)"
    and ut: "update_trust eng st3 (sc_event_risk sc) now = Inr (st4, oc_trust oc)"
    and se: "settle e now sc drifting st4 (oc_trust oc) = (st', oc)"
  have "st_risk_ewma st2 = st_risk_ewma st" "st_cusum st2 = st_cusum st"
    using compute_features_state [OF cf] by (simp_all add: s2)
  then show ?thesis
    using wd update_trust_frame [OF ut] settle_state(5) [OF se] settle_simps(1) [OF se]
    by (auto simp: watch_drift_def Let_def split: prod.splits)
qed

theorem drift_halts_witness:
  "\<exists>s s' n' soc. assess wit_engine mem_ops wit_inputs wit_event (s, ()) = ((s', n'), Inr soc) \<and>
     dd_cusum_threshold drift_default < st_cusum (mem_load s' ''id1'') \<and> soc_decision soc \<noteq> ALLOW"
proof -
  let ?g = "initial_state\<lparr>st_cusum := Fin 10\<rparr>"
  define s where "s = mem_empty\<lparr>mem_data := [''id1'' \<mapsto> ?g]\<rparr>"
  have ld: "mem_load s i = (if i = ''id1'' then ?g else initial_state)" for i
    by (simp add: s_def mem_load_def mem_empty_def)
  have "state_ok ?g" using initial_state_ok by (simp add: state_ok_def zero_pyfloat_def)
  then have ok: "store_ok s"
    using initial_state_ok by (simp add: store_ok_def ld) (simp add: initial_state_def)
  have id: "ev_identity_id wit_event = ''id1''" by (simp add: wit_event_def)
  have dr: "te_drift wit_engine = drift_default" "te_drift_enabled wit_engine"
    by (simp_all add: wit_engine_def engine_default_def)
  show ?thesis
  proof (rule assess_total_mem [OF wit_laws(1) wit_resolver_ok(1) ok wit_event_ok, of wit_inputs "()"])
    fix s' n' soc st' oc dc
    assume a: "assess wit_engine mem_ops wit_inputs wit_event (s, ()) = ((s', n'), Inr soc)"
      and as: "assess_state wit_engine wit_event (anomaly_of wit_engine () wit_inputs wit_event)
         (ci_now wit_inputs) dc (mem_load s (ev_identity_id wit_event)) = Inr (st', oc)"
      and ld': "mem_load s' = (mem_load s)(ev_identity_id wit_event :=
         st'\<lparr>st_version := st_version (mem_load s (ev_identity_id wit_event)) + 1\<rparr>)"
      and r: "fin_in 0 1 (oc_event_risk oc)"
    obtain x where x: "oc_event_risk oc = Fin x" using r by (auto elim!: fin_inE)
    have ten: "Fin 10 + fl (- (1080863910568919 / 72057594037927936)) = Fin (702631910613975 / 70368744177664)"
      by (simp add: fl_eval)
    have "st_cusum st' = Fin (702631910613975 / 70368744177664)"
      using assess_state_cusum [OF as]
      by (auto simp: id ld dr x drift_step_def Let_def initial_state_def zero_pyfloat_def
          drift_default_def py_max_def ten)
    then have hi: "dd_cusum_threshold (te_drift wit_engine) < st_cusum (mem_load s' (ev_identity_id wit_event))"
      by (auto simp: ld' dr drift_default_def)
    from drift_halts [OF a dr(2) hi] a hi show ?thesis
      by (intro exI [of _ s] exI [of _ s'] exI [of _ n'] exI [of _ soc]) (simp add: dr id)
  qed
qed

end
