(* ===== verification/Base64.thy ===== *)
theory Base64
  imports Prelude
begin

text \<open>
  The token text layer of \<^verbatim>\<open>backend/app/verifier.py\<close>: base64url without padding (\<^verbatim>\<open>_b64e\<close>, \<^verbatim>\<open>_b64d\<close>)
  with the standard library's \<^verbatim>\<open>base64\<close> and \<^verbatim>\<open>binascii\<close> underneath, and \<^verbatim>\<open>str.split\<close> on a
  separator. Byte strings are lists of characters. The decoder is the lenient one of \<^verbatim>\<open>binascii\<close>: it skips
  characters outside the alphabet and stops at a complete padding, so several texts decode to the
  same bytes; the encoder's own output decodes to what was encoded.
\<close>

section \<open>Splitting\<close>

text \<open>\<^verbatim>\<open>s.split(c)\<close> for a one-character separator: never empty.\<close>

fun py_split :: "char \<Rightarrow> string \<Rightarrow> string list" where
  "py_split c [] = [[]]"
| "py_split c (x # xs) =
     (if x = c then [] # py_split c xs
      else case py_split c xs of [] \<Rightarrow> [[x]] | w # ws \<Rightarrow> (x # w) # ws)"

lemma py_split_no_sep: "c \<notin> set s \<Longrightarrow> py_split c s = [s]"
  by (induction s) auto

lemma py_split_append: "c \<notin> set s \<Longrightarrow> py_split c (s @ c # t) = s # py_split c t"
  by (induction s) auto

lemma py_split_no_sep_parts: "w \<in> set (py_split c s) \<Longrightarrow> c \<notin> set w"
  by (induction s arbitrary: w) (auto split: if_splits list.splits)

lemma py_split_not_Nil [simp]: "py_split c s \<noteq> []"
  by (induction s) (auto split: list.splits)

lemma py_split_single: "py_split c s = [b] \<Longrightarrow> s = b"
  by (induction s arbitrary: b) (auto split: if_splits list.splits)

lemma py_split_join:
  "py_split c s = [a, b] \<Longrightarrow> s = a @ c # b"
proof (induction s arbitrary: a)
  case (Cons x s)
  show ?case
  proof (cases "x = c")
    case True
    with Cons.prems have "a = []" "py_split c s = [b]" by auto
    then show ?thesis using True py_split_single by simp
  next
    case False
    with Cons.prems obtain w where "py_split c s = [w, b]" "a = x # w"
      by (auto split: list.splits)
    with Cons.IH show ?thesis by simp
  qed
qed simp

section \<open>Encoding\<close>

definition b64_alphabet :: string where
  "b64_alphabet = ''ABCDEFGHIJKLMNOPQRSTUVWXYZabcdefghijklmnopqrstuvwxyz0123456789-_''"

definition b64_char :: "nat \<Rightarrow> char" where
  "b64_char n = b64_alphabet ! n"

definition byte :: "char \<Rightarrow> nat" where
  "byte c = of_char c"

text \<open>\<^verbatim>\<open>base64.urlsafe_b64encode\<close>: three bytes to four characters, the last group padded.\<close>

fun urlsafe_b64encode :: "string \<Rightarrow> string" where
  "urlsafe_b64encode [] = []"
| "urlsafe_b64encode [a] =
     [b64_char (byte a div 4), b64_char (byte a mod 4 * 16), CHR ''='', CHR ''='']"
| "urlsafe_b64encode [a, b] =
     [b64_char (byte a div 4), b64_char (byte a mod 4 * 16 + byte b div 16),
      b64_char (byte b mod 16 * 4), CHR ''='']"
| "urlsafe_b64encode (a # b # c # rest) =
     b64_char (byte a div 4) # b64_char (byte a mod 4 * 16 + byte b div 16) #
     b64_char (byte b mod 16 * 4 + byte c div 64) # b64_char (byte c mod 64) #
     urlsafe_b64encode rest"

text \<open>\<^verbatim>\<open>rstrip(b"=")\<close>.\<close>

definition rstrip_eq :: "string \<Rightarrow> string" where
  "rstrip_eq s = rev (dropWhile (\<lambda>c. c = CHR ''='') (rev s))"

definition b64e :: "string \<Rightarrow> string" where
  "b64e raw = rstrip_eq (urlsafe_b64encode raw)"

section \<open>Decoding\<close>

text \<open>
  The table of \<^verbatim>\<open>binascii.a2b_base64\<close> after \<^verbatim>\<open>urlsafe_b64decode\<close> has translated \<^verbatim>\<open>-\<close> and \<^verbatim>\<open>_\<close>
  to \<^verbatim>\<open>+\<close> and \<^verbatim>\<open>/\<close>, so that either spelling is read.
\<close>

definition b64_val :: "char \<Rightarrow> nat option" where
  "b64_val c =
     (let n = byte c in
      if 65 \<le> n \<and> n \<le> 90 then Some (n - 65)
      else if 97 \<le> n \<and> n \<le> 122 then Some (n - 71)
      else if 48 \<le> n \<and> n \<le> 57 then Some (n + 4)
      else if n = 45 \<or> n = 43 then Some 62
      else if n = 95 \<or> n = 47 then Some 63
      else None)"

text \<open>
  The loop of \<^verbatim>\<open>a2b_base64\<close> (not strict): \<open>q\<close> characters of the current group are read, \<open>left\<close>
  holds the bits not yet emitted, \<open>pads\<close> counts the padding characters met in a row.
\<close>

fun a2b :: "string \<Rightarrow> nat \<Rightarrow> nat \<Rightarrow> nat \<Rightarrow> string \<Rightarrow> py_exn + string" where
  "a2b [] q left pads out = (if q = 0 then Inr out else Inl ValueError)"
| "a2b (c # cs) q left pads out =
     (if c = CHR ''='' then
        (if 2 \<le> q then (if 4 \<le> q + (pads + 1) then Inr out else a2b cs q left (pads + 1) out)
         else a2b cs q left pads out)
      else case b64_val c of
        None \<Rightarrow> a2b cs q left pads out
      | Some v \<Rightarrow>
          if q = 0 then a2b cs 1 v 0 out
          else if q = 1 then a2b cs 2 (v mod 16) 0 (out @ [char_of (left * 4 + v div 16)])
          else if q = 2 then a2b cs 3 (v mod 4) 0 (out @ [char_of (left * 16 + v div 4)])
          else a2b cs 0 0 0 (out @ [char_of (left * 64 + v)]))"

definition urlsafe_b64decode :: "string \<Rightarrow> py_exn + string" where
  "urlsafe_b64decode s = (if list_ex (\<lambda>c. 128 \<le> byte c) s then Inl ValueError else a2b s 0 0 0 [])"

text \<open>\<^verbatim>\<open>"=" * (-len(seg) % 4)\<close>.\<close>

definition b64_padding :: "string \<Rightarrow> string" where
  "b64_padding seg = replicate (nat (- int (length seg) mod 4)) (CHR ''='')"

definition b64d :: "string \<Rightarrow> py_exn + string" where
  "b64d seg = urlsafe_b64decode (seg @ b64_padding seg)"

section \<open>The round trip\<close>

lemma byte_less [simp]: "byte c < 256"
  unfolding byte_def using of_char_mod_256 [of c, where ?'a = nat] by (metis mod_less_divisor zero_less_numeral)

lemma char_of_byte [simp]: "char_of (byte c) = c"
  by (simp add: byte_def)

lemma b64_alphabet_length: "length b64_alphabet = 64"
  by (simp add: b64_alphabet_def)

lemma b64_alphabet_vals: "map b64_val b64_alphabet = map Some [0..<64]"
  by (simp add: b64_alphabet_def b64_val_def byte_def upt_conv_Cons)

lemma b64_alphabet_plain:
  "list_all (\<lambda>c. c \<noteq> CHR ''='' \<and> c \<noteq> CHR ''.'' \<and> byte c < 128) b64_alphabet"
  by (simp add: b64_alphabet_def byte_def)

lemma b64_val_char [simp]: "n < 64 \<Longrightarrow> b64_val (b64_char n) = Some n"
  using arg_cong [OF b64_alphabet_vals, of "\<lambda>xs. xs ! n"]
  by (simp add: b64_char_def b64_alphabet_length)

lemma b64_char_plain:
  assumes "n < 64"
  shows "b64_char n \<noteq> CHR ''=''" "b64_char n \<noteq> CHR ''.''" "byte (b64_char n) < 128"
proof -
  have "b64_char n \<in> set b64_alphabet"
    using assms b64_alphabet_length by (simp add: b64_char_def)
  with b64_alphabet_plain
  show "b64_char n \<noteq> CHR ''=''" "b64_char n \<noteq> CHR ''.''" "byte (b64_char n) < 128"
    by (auto simp: list_all_iff)
qed

lemma byte_div [simp]: "byte a div 4 < 64" "byte b div 16 < 16" "byte c div 64 < 4"
  by (rule less_mult_imp_div_less, simp)+

lemma byte_parts [simp]:
  "byte a mod 4 * 16 < 64" "byte a mod 4 * 16 + byte b div 16 < 64" "byte b mod 16 * 4 < 64"
  "byte b mod 16 * 4 + byte c div 64 < 64" "byte c mod 64 < 64"
proof -
  have "byte a mod 4 < 4" "byte b mod 16 < 16" "byte b div 16 < 16" "byte c div 64 < 4"
    by simp_all
  then show "byte a mod 4 * 16 < 64"
    "byte a mod 4 * 16 + byte b div 16 < 64" "byte b mod 16 * 4 < 64"
    "byte b mod 16 * 4 + byte c div 64 < 64" by linarith+
qed simp

lemma six_bits [simp]:
  "byte b div 16 div 16 = 0" "byte b div 16 mod 16 = byte b div 16"
  "byte c div 64 div 4 = 0" "byte c div 64 mod 4 = byte c div 64"
  by (rule div_less mod_less, simp)+

lemma a2b_char:
  "n < 64 \<Longrightarrow> a2b (b64_char n # cs) q left pads out =
     (if q = 0 then a2b cs 1 n 0 out
      else if q = 1 then a2b cs 2 (n mod 16) 0 (out @ [char_of (left * 4 + n div 16)])
      else if q = 2 then a2b cs 3 (n mod 4) 0 (out @ [char_of (left * 16 + n div 4)])
      else a2b cs 0 0 0 (out @ [char_of (left * 64 + n)]))"
  by (simp add: b64_char_plain)

lemma a2b_pad:
  "a2b (CHR ''='' # cs) q left pads out =
     (if 2 \<le> q then (if 4 \<le> q + (pads + 1) then Inr out else a2b cs q left (pads + 1) out)
      else a2b cs q left pads out)"
  by simp

lemma a2b_encode:
  "a2b (urlsafe_b64encode raw) 0 0 0 out = Inr (out @ raw)"
  by (induction raw arbitrary: out rule: urlsafe_b64encode.induct)
    (simp_all add: a2b_char a2b_pad del: a2b.simps(2))

text \<open>The encoder's output without its padding, and how many padding characters were removed.\<close>

fun b64_body :: "string \<Rightarrow> string" where
  "b64_body [] = []"
| "b64_body [a] = [b64_char (byte a div 4), b64_char (byte a mod 4 * 16)]"
| "b64_body [a, b] =
     [b64_char (byte a div 4), b64_char (byte a mod 4 * 16 + byte b div 16),
      b64_char (byte b mod 16 * 4)]"
| "b64_body (a # b # c # rest) =
     b64_char (byte a div 4) # b64_char (byte a mod 4 * 16 + byte b div 16) #
     b64_char (byte b mod 16 * 4 + byte c div 64) # b64_char (byte c mod 64) # b64_body rest"

lemma b64_body_plain: "c \<in> set (b64_body raw) \<Longrightarrow> c \<noteq> CHR ''='' \<and> c \<noteq> CHR ''.'' \<and> byte c < 128"
  by (induction raw rule: b64_body.induct) (auto simp: b64_char_plain)

lemma b64_padding_short:
  "length s = 2 \<Longrightarrow> b64_padding s = ''==''" "length s = 3 \<Longrightarrow> b64_padding s = ''=''"
  by (simp_all add: b64_padding_def numeral_2_eq_2)

lemma b64_padding_add4: "length s = length t + 4 \<Longrightarrow> b64_padding s = b64_padding t"
proof -
  assume "length s = length t + 4"
  then have "- int (length s) mod 4 = - int (length t) mod 4"
    by (simp add: mod_eq_dvd_iff)
  then show ?thesis by (simp add: b64_padding_def)
qed

lemma urlsafe_b64encode_body: "urlsafe_b64encode raw = b64_body raw @ b64_padding (b64_body raw)"
proof (induction raw rule: b64_body.induct)
  case 1
  then show ?case by (simp add: b64_padding_def)
next
  case (2 a)
  then show ?case by (simp add: b64_padding_short)
next
  case (3 a b)
  then show ?case by (simp add: b64_padding_short)
next
  case (4 a b c rest)
  then show ?case by (simp add: b64_padding_add4 [where t = "b64_body rest"])
qed

lemma rstrip_eq_append:
  assumes "\<And>c. c \<in> set s \<Longrightarrow> c \<noteq> CHR ''=''"
  shows "rstrip_eq (s @ replicate n (CHR ''='')) = s"
proof -
  have "dropWhile (\<lambda>c. c = CHR ''='') (rev s) = rev s"
  proof (cases "rev s")
    case (Cons c cs)
    then have "c \<in> set s" by (metis list.set_intros(1) set_rev)
    with assms [of c] Cons show ?thesis by simp
  qed simp
  moreover have "dropWhile (\<lambda>c. c = CHR ''='') (replicate n (CHR ''='') @ xs)
      = dropWhile (\<lambda>c. c = CHR ''='') xs" for xs
    by (induction n) auto
  ultimately show ?thesis by (simp add: rstrip_eq_def)
qed

lemma b64e_body: "b64e raw = b64_body raw"
proof -
  obtain n where "b64_padding (b64_body raw) = replicate n (CHR ''='')"
    by (simp add: b64_padding_def)
  with rstrip_eq_append [of "b64_body raw" n] show ?thesis
    by (simp add: b64e_def urlsafe_b64encode_body b64_body_plain)
qed

lemma b64e_plain: "c \<in> set (b64e raw) \<Longrightarrow> c \<noteq> CHR ''='' \<and> c \<noteq> CHR ''.'' \<and> byte c < 128"
  by (simp add: b64e_body b64_body_plain)

lemma b64e_no_dot [simp]: "CHR ''.'' \<notin> set (b64e raw)"
  using b64e_plain by blast

lemma b64d_b64e [simp]: "b64d (b64e raw) = Inr raw"
proof -
  have "\<not> list_ex (\<lambda>c. 128 \<le> byte c) (b64_body raw @ b64_padding (b64_body raw))"
    using b64_body_plain [of _ raw]
    by (fastforce simp: list_ex_iff b64_padding_def byte_def)
  with a2b_encode [of raw "[]"] show ?thesis
    by (simp add: b64d_def urlsafe_b64decode_def b64e_body urlsafe_b64encode_body)
qed

lemma b64e_inj: "b64e a = b64e b \<longleftrightarrow> a = b"
  by (metis b64d_b64e sum.inject(2))

text \<open>
  \<^verbatim>\<open>_b64d(_b64e(raw)) == raw\<close> for every byte string: stripping the padding and restoring it from the
  length loses nothing, through the lenient decoder of the standard library.
\<close>
theorem b64_roundtrip: "b64d (b64e raw) = Inr raw"
  by (rule b64d_b64e)

end
