(* ===== verification/Verifier.thy ===== *)
theory Verifier
  imports Base64 Schemas "HOL-Library.Sublist"
begin

text \<open>
  Signed step-up assertions: \<^verbatim>\<open>backend/app/verifier.py\<close>. Signers and verifiers are the two backends of
  the source over a record \<open>crypto\<close> of the primitives outside the repository (Ed25519 of the
  \<^verbatim>\<open>cryptography\<close> package, HMAC-SHA256); \<open>json_lib\<close> is the standard library's text codec. \<open>sign_token\<close> and
  \<open>open_token\<close> are the token layer, \<open>nonce_ops\<close> is what the validator calls of its nonce cache
  (\<open>mem_nonce\<close> is \<^verbatim>\<open>InMemoryNonceCache\<close>), \<open>issue\<close> is \<^verbatim>\<open>TrustedVerifier.issue\<close> and \<open>validate\<close> is
  \<^verbatim>\<open>AssertionValidator.validate\<close>. Clock readings are arguments, one per call of \<^verbatim>\<open>time.time()\<close>.
\<close>

section \<open>Rejections\<close>

datatype rejection =
  MalformedAssertion | BadSignature | ExpiredAssertion | ReplayedNonce | IdentityMismatch

text \<open>An exception leaving the validator: one of its own, or one of the runtime.\<close>

datatype verr = Rejected rejection | Raised py_exn

definition raising :: "py_exn + 'a \<Rightarrow> verr + 'a" where
  "raising m = (case m of Inl e \<Rightarrow> Inl (Raised e) | Inr x \<Rightarrow> Inr x)"

lemma raising_simps [simp]: "raising (Inl e) = Inl (Raised e)" "raising (Inr x) = Inr x"
  by (simp_all add: raising_def)

lemma raising_eq_Inr: "raising m = Inr x \<longleftrightarrow> m = Inr x"
  by (cases m) simp_all

section \<open>Primitives outside the repository\<close>

record ('priv, 'pub) crypto =
  cr_ed_sign :: "'priv \<Rightarrow> string \<Rightarrow> string"
  cr_ed_verify :: "'pub \<Rightarrow> string \<Rightarrow> string \<Rightarrow> bool"
  cr_ed_public :: "'priv \<Rightarrow> 'pub"
  cr_ed_private_bytes :: "'priv \<Rightarrow> string"
  cr_ed_public_bytes :: "'pub \<Rightarrow> string"
  cr_ed_from_private :: "string \<Rightarrow> py_exn + 'priv"
  cr_ed_from_public :: "string \<Rightarrow> py_exn + 'pub"
  cr_hmac :: "string \<Rightarrow> string \<Rightarrow> string"

record json_lib =
  js_dumps :: "json \<Rightarrow> string"
  js_loads :: "string \<Rightarrow> py_exn + json"
  js_float :: "string \<Rightarrow> pyfloat option"
  js_str :: "json \<Rightarrow> string"

text \<open>The documented behaviour of \<^verbatim>\<open>json\<close> on one dictionary: reading back what was written gives a dictionary
  with the same entries (\<^verbatim>\<open>sort_keys\<close> reorders them).\<close>

definition json_reads_back :: "json_lib \<Rightarrow> (string \<times> json) list \<Rightarrow> bool" where
  "json_reads_back J d \<longleftrightarrow>
     (case js_loads J (js_dumps J (JObj d)) of Inr (JObj d') \<Rightarrow> map_of d' = map_of d | _ \<Rightarrow> False)"

text \<open>
  \<^verbatim>\<open>float(v)\<close> and \<^verbatim>\<open>f"{v}"\<close> on a JSON value (\<open>js_float\<close> and \<open>js_str\<close> are the runtime's number parsing and
  its printing of values that are not strings), and its truth value.
\<close>

definition json_str :: "json_lib \<Rightarrow> json \<Rightarrow> string" where
  "json_str J v = (case v of JStr s \<Rightarrow> s | _ \<Rightarrow> js_str J v)"

fun json_truthy :: "json \<Rightarrow> bool" where
  "json_truthy JNull = False"
| "json_truthy (JBool b) = b"
| "json_truthy (JInt n) = (n \<noteq> 0)"
| "json_truthy (JFloat f) = (f \<noteq> Fin 0)"
| "json_truthy (JStr s) = (s \<noteq> [])"
| "json_truthy (JList xs) = (xs \<noteq> [])"
| "json_truthy (JObj d) = (d \<noteq> [])"

definition py_float :: "json_lib \<Rightarrow> json \<Rightarrow> py_exn + pyfloat" where
  "py_float J v = (case v of
       JFloat f \<Rightarrow> Inr f
     | JInt n \<Rightarrow> (if is_finite (fl (of_int n)) then Inr (fl (of_int n)) else Inl OverflowError)
     | JBool b \<Rightarrow> Inr (if b then 1 else 0)
     | JStr s \<Rightarrow> (case js_float J s of None \<Rightarrow> Inl ValueError | Some f \<Rightarrow> Inr f)
     | _ \<Rightarrow> Inl TypeError)"

section \<open>Signing backends\<close>

datatype 'priv signer = Ed25519Signer 'priv | HmacSigner string

datatype 'pub verifier = Ed25519Verifier 'pub | HmacVerifier string

fun signer_alg :: "'priv signer \<Rightarrow> string" where
  "signer_alg (Ed25519Signer k) = ''ed25519''"
| "signer_alg (HmacSigner k) = ''hmac-sha256''"

fun signer_sign :: "('priv, 'pub) crypto \<Rightarrow> 'priv signer \<Rightarrow> string \<Rightarrow> string" where
  "signer_sign C (Ed25519Signer k) data = cr_ed_sign C k data"
| "signer_sign C (HmacSigner k) data = cr_hmac C k data"

fun public_key_b64 :: "('priv, 'pub) crypto \<Rightarrow> 'priv signer \<Rightarrow> string" where
  "public_key_b64 C (Ed25519Signer k) = b64e (cr_ed_public_bytes C (cr_ed_public C k))"
| "public_key_b64 C (HmacSigner k) = b64e k"

definition private_key_b64 :: "('priv, 'pub) crypto \<Rightarrow> 'priv \<Rightarrow> string" where
  "private_key_b64 C k = b64e (cr_ed_private_bytes C k)"

definition from_private_b64 :: "('priv, 'pub) crypto \<Rightarrow> string \<Rightarrow> py_exn + 'priv signer" where
  "from_private_b64 C b =
     sbind (b64d b) (\<lambda>raw. sbind (cr_ed_from_private C raw) (\<lambda>k. Inr (Ed25519Signer k)))"

text \<open>\<^verbatim>\<open>verify(data, sig)\<close>; the digest comparison is equality of byte strings.\<close>

fun verifier_verify :: "('priv, 'pub) crypto \<Rightarrow> 'pub verifier \<Rightarrow> string \<Rightarrow> string \<Rightarrow> bool" where
  "verifier_verify C (Ed25519Verifier k) data sig = cr_ed_verify C k sig data"
| "verifier_verify C (HmacVerifier k) data sig = (cr_hmac C k data = sig)"

definition ed25519_from_b64 :: "('priv, 'pub) crypto \<Rightarrow> string \<Rightarrow> py_exn + 'pub verifier" where
  "ed25519_from_b64 C b =
     sbind (b64d b) (\<lambda>raw. sbind (cr_ed_from_public C raw) (\<lambda>k. Inr (Ed25519Verifier k)))"

definition hmac_from_b64 :: "string \<Rightarrow> py_exn + 'pub verifier" where
  "hmac_from_b64 b = sbind (b64d b) (\<lambda>k. Inr (HmacVerifier k))"

definition build_verifier ::
  "('priv, 'pub) crypto \<Rightarrow> bool \<Rightarrow> string \<Rightarrow> py_exn + 'pub verifier" where
  "build_verifier C has_ed25519 b =
     (if has_ed25519 then
        (case ed25519_from_b64 C b of Inr v \<Rightarrow> Inr v | Inl _ \<Rightarrow> hmac_from_b64 b)
      else hmac_from_b64 b)"

text \<open>
  The documented behaviour of the Ed25519 primitives: signatures of a key verify under its public
  key, and the raw encodings of keys are read back.
\<close>

definition ed25519_laws :: "('priv, 'pub) crypto \<Rightarrow> bool" where
  "ed25519_laws C \<longleftrightarrow>
     (\<forall>k m. cr_ed_verify C (cr_ed_public C k) (cr_ed_sign C k m) m) \<and>
     (\<forall>k. cr_ed_from_public C (cr_ed_public_bytes C (cr_ed_public C k)) = Inr (cr_ed_public C k)) \<and>
     (\<forall>k. cr_ed_from_private C (cr_ed_private_bytes C k) = Inr k)"

section \<open>Tokens\<close>

definition token_segment :: "json_lib \<Rightarrow> (string \<times> json) list \<Rightarrow> string" where
  "token_segment J payload = b64e (js_dumps J (JObj payload))"

definition sign_token ::
  "('priv, 'pub) crypto \<Rightarrow> json_lib \<Rightarrow> 'priv signer \<Rightarrow> (string \<times> json) list \<Rightarrow> string" where
  "sign_token C J signer payload =
     (let seg = token_segment J payload in seg @ ''.'' @ b64e (signer_sign C signer seg))"

text \<open>The \<^verbatim>\<open>try\<close> block of \<^verbatim>\<open>open_token\<close>: whatever it raises is \<^verbatim>\<open>MalformedAssertion\<close>.\<close>

definition parse_token :: "json_lib \<Rightarrow> string \<Rightarrow> py_exn + string \<times> string \<times> json" where
  "parse_token J token =
     (case py_split (CHR ''.'') token of
        [seg, sig_b64] \<Rightarrow>
          sbind (b64d sig_b64) (\<lambda>sig.
          sbind (b64d seg) (\<lambda>raw.
          sbind (js_loads J raw) (\<lambda>payload. Inr (seg, sig, payload))))
      | _ \<Rightarrow> Inl ValueError)"

definition open_token ::
  "('priv, 'pub) crypto \<Rightarrow> json_lib \<Rightarrow> 'pub verifier \<Rightarrow> string \<Rightarrow> rejection + json" where
  "open_token C J verifier token =
     (case parse_token J token of
        Inl _ \<Rightarrow> Inl MalformedAssertion
      | Inr (seg, sig, payload) \<Rightarrow>
          if verifier_verify C verifier seg sig then Inr payload else Inl BadSignature)"

section \<open>Nonce caches\<close>

text \<open>What the validator calls of its cache; \<^verbatim>\<open>seen\<close> takes the clock reading it prunes with.\<close>

record 'c nonce_ops =
  no_seen :: "'c \<Rightarrow> pyfloat \<Rightarrow> string \<Rightarrow> 'c \<times> bool"
  no_add :: "'c \<Rightarrow> string \<Rightarrow> pyfloat \<Rightarrow> 'c"

type_synonym mem_nonce = "(string \<times> pyfloat) list"

definition mem_prune :: "mem_nonce \<Rightarrow> pyfloat \<Rightarrow> mem_nonce" where
  "mem_prune c now = filter (\<lambda>(n, expiry). \<not> expiry < now) c"

definition mem_seen :: "mem_nonce \<Rightarrow> pyfloat \<Rightarrow> string \<Rightarrow> mem_nonce \<times> bool" where
  "mem_seen c now nonce = (let c' = mem_prune c now in (c', map_of c' nonce \<noteq> None))"

definition mem_add :: "mem_nonce \<Rightarrow> string \<Rightarrow> pyfloat \<Rightarrow> mem_nonce" where
  "mem_add c nonce expiry = dict_set nonce expiry c"

definition mem_nonce_ops :: "mem_nonce nonce_ops" where
  "mem_nonce_ops = \<lparr> no_seen = mem_seen, no_add = mem_add \<rparr>"

section \<open>Issuing and validating\<close>

definition FIELDS :: "string list" where
  "FIELDS = [''challenge_id'', ''identity_id'', ''method'', ''result'', ''issued_at'', ''nonce'', ''exp'']"

text \<open>The dataclass does not check the types of its fields: they are the JSON values of the payload.\<close>

record assertion =
  as_challenge_id :: json
  as_identity_id :: json
  as_method :: json
  as_result :: json
  as_issued_at :: json
  as_nonce :: json
  as_exp :: json

definition passed :: "assertion \<Rightarrow> bool" where
  "passed a \<longleftrightarrow> as_result a = JStr ''pass''"

definition issue_payload ::
  "'priv signer \<Rightarrow> pyfloat \<Rightarrow> string \<Rightarrow> string \<Rightarrow> string \<Rightarrow> string \<Rightarrow> string \<Rightarrow> pyfloat \<Rightarrow>
   string option \<Rightarrow> pyfloat option \<Rightarrow> (string \<times> json) list" where
  "issue_payload signer clock urandom_hex challenge identity meth result ttl nonce issued_at =
     (let now = (case issued_at of None \<Rightarrow> clock | Some t \<Rightarrow> t) in
      [(''challenge_id'', JStr challenge),
       (''identity_id'', JStr identity),
       (''method'', JStr meth),
       (''result'', JStr result),
       (''issued_at'', JFloat now),
       (''nonce'', JStr (case nonce of None \<Rightarrow> urandom_hex
                         | Some n \<Rightarrow> if n = [] then urandom_hex else n)),
       (''exp'', JFloat (now + ttl)),
       (''alg'', JStr (signer_alg signer))])"

definition issue ::
  "('priv, 'pub) crypto \<Rightarrow> json_lib \<Rightarrow> 'priv signer \<Rightarrow> pyfloat \<Rightarrow> string \<Rightarrow> string \<Rightarrow> string \<Rightarrow> string \<Rightarrow>
   string \<Rightarrow> pyfloat \<Rightarrow> string option \<Rightarrow> pyfloat option \<Rightarrow> string" where
  "issue C J signer clock urandom_hex challenge identity meth result ttl nonce issued_at =
     sign_token C J signer
       (issue_payload signer clock urandom_hex challenge identity meth result ttl nonce issued_at)"

text \<open>
  Step 3 on a payload of any JSON type: \<^verbatim>\<open>f not in payload\<close> tests keys of a dictionary, members of a
  list and substrings of a string, and raises on the rest; a list or string that passes fails at the
  first subscript. The result is the dictionary.
\<close>

definition require_fields :: "json \<Rightarrow> verr + (string \<times> json) list" where
  "require_fields payload = (case payload of
       JObj d \<Rightarrow> if list_ex (\<lambda>f. map_of d f = None) FIELDS
                 then Inl (Rejected MalformedAssertion) else Inr d
     | JList xs \<Rightarrow> if list_ex (\<lambda>f. JStr f \<notin> set xs) FIELDS
                   then Inl (Rejected MalformedAssertion) else Inl (Raised TypeError)
     | JStr s \<Rightarrow> if list_ex (\<lambda>f. \<not> sublist f s) FIELDS
                 then Inl (Rejected MalformedAssertion) else Inl (Raised TypeError)
     | _ \<Rightarrow> Inl (Raised TypeError))"

definition field :: "(string \<times> json) list \<Rightarrow> string \<Rightarrow> json" where
  "field d k = the (map_of d k)"

definition build_assertion :: "(string \<times> json) list \<Rightarrow> assertion" where
  "build_assertion d =
     \<lparr> as_challenge_id = field d ''challenge_id'', as_identity_id = field d ''identity_id'',
       as_method = field d ''method'', as_result = field d ''result'',
       as_issued_at = field d ''issued_at'', as_nonce = field d ''nonce'', as_exp = field d ''exp'' \<rparr>"

text \<open>Steps 4 and 5: identity binding and freshness; the value is the expiry as a float.\<close>

definition check_bound_fresh ::
  "json_lib \<Rightarrow> pyfloat \<Rightarrow> string \<Rightarrow> pyfloat \<Rightarrow> (string \<times> json) list \<Rightarrow> verr + pyfloat" where
  "check_bound_fresh J max_skew expected now d =
     (if field d ''identity_id'' \<noteq> JStr expected then Inl (Rejected IdentityMismatch)
      else sbind (raising (py_float J (field d ''exp''))) (\<lambda>expiry.
        if expiry < now then Inl (Rejected ExpiredAssertion)
        else sbind (raising (py_float J (field d ''issued_at''))) (\<lambda>issued_at.
          if now + max_skew < issued_at then Inl (Rejected ExpiredAssertion) else Inr expiry)))"

text \<open>
  Step 6. A nonce that is a list or a dictionary cannot be looked up (the cache has been pruned by then); one that is a number, a
  Boolean or \<^verbatim>\<open>None\<close> is not followed (the model stops at \<open>Unmodelled\<close>).
\<close>

definition consume_nonce ::
  "'c nonce_ops \<Rightarrow> 'c \<Rightarrow> pyfloat \<Rightarrow> json \<Rightarrow> pyfloat \<Rightarrow> 'c \<times> (verr + unit)" where
  "consume_nonce N c wall nonce expiry = (case nonce of
       JStr n \<Rightarrow> (let (c1, seen) = no_seen N c wall n in
                  if seen then (c1, Inl (Rejected ReplayedNonce))
                  else (no_add N c1 n expiry, Inr ()))
     | JList _ \<Rightarrow> (fst (no_seen N c wall ''''), Inl (Raised TypeError))
     | JObj _ \<Rightarrow> (fst (no_seen N c wall ''''), Inl (Raised TypeError))
     | _ \<Rightarrow> (c, Inl (Raised Unmodelled)))"

text \<open>
  \<open>now\<close> is the clock reading at the start of \<^verbatim>\<open>validate\<close> (or its argument), \<open>wall\<close> the later one inside
  the nonce cache.
\<close>

definition validate ::
  "('priv, 'pub) crypto \<Rightarrow> json_lib \<Rightarrow> 'pub verifier \<Rightarrow> 'c nonce_ops \<Rightarrow> pyfloat \<Rightarrow>
   'c \<Rightarrow> string \<Rightarrow> string \<Rightarrow> pyfloat \<Rightarrow> pyfloat \<Rightarrow> 'c \<times> (verr + assertion)" where
  "validate C J verifier N max_skew c token expected now wall =
     (case open_token C J verifier token of
        Inl r \<Rightarrow> (c, Inl (Rejected r))
      | Inr payload \<Rightarrow>
        (case require_fields payload of
           Inl e \<Rightarrow> (c, Inl e)
         | Inr d \<Rightarrow>
           (case check_bound_fresh J max_skew expected now d of
              Inl e \<Rightarrow> (c, Inl e)
            | Inr expiry \<Rightarrow>
              (case consume_nonce N c wall (field d ''nonce'') expiry of
                 (c', Inl e) \<Rightarrow> (c', Inl e)
               | (c', Inr _) \<Rightarrow> (c', Inr (build_assertion d))))))"

end
