(* ===== verification/VerifierFacts.thy ===== *)
theory VerifierFacts
  imports Verifier
begin

text \<open>
  What the step-up trust boundary guarantees. The locale \<open>nonce_store\<close> is what the validator (and the
  behaviour resolver) rely on in a nonce cache; \<open>mem_nonce_ops\<close> is interpreted in it. The lemmas
  on tokens say that an accepted token was signed over the exact segment it carries, the lemmas on
  \<open>validate\<close> give its outcome on issued assertions, its effect on the cache, and single use.
\<close>

section \<open>Tokens\<close>

lemma parse_token_Inr:
  "parse_token J token = Inr (seg, sig, p) \<Longrightarrow>
   \<exists>sig_b64 raw. token = seg @ ''.'' @ sig_b64 \<and> b64d sig_b64 = Inr sig \<and> b64d seg = Inr raw \<and>
     js_loads J raw = Inr p"
  by (auto simp: parse_token_def sbind_eq_Inr split: list.splits dest!: py_split_join)

lemma open_token_Inr:
  assumes "open_token C J v token = Inr p"
  obtains seg sig_b64 sig raw where
    "token = seg @ ''.'' @ sig_b64" "b64d sig_b64 = Inr sig" "b64d seg = Inr raw"
    "js_loads J raw = Inr p" "verifier_verify C v seg sig"
  using assms by (auto simp: open_token_def split: sum.splits if_splits dest!: parse_token_Inr)

lemma parse_token_sign:
  assumes "json_reads_back J p"
  obtains p' where
    "parse_token J (sign_token C J s p) =
       Inr (token_segment J p, signer_sign C s (token_segment J p), JObj p')"
    "map_of p' = map_of p"
proof -
  from assms obtain p' where p': "js_loads J (js_dumps J (JObj p)) = Inr (JObj p')" "map_of p' = map_of p"
    by (auto simp: json_reads_back_def split: sum.splits json.splits)
  have "py_split (CHR ''.'') (sign_token C J s p) =
      [token_segment J p, b64e (signer_sign C s (token_segment J p))]"
    by (simp add: sign_token_def Let_def py_split_append py_split_no_sep token_segment_def)
  with p' have "parse_token J (sign_token C J s p) =
      Inr (token_segment J p, signer_sign C s (token_segment J p), JObj p')"
    by (simp add: parse_token_def) (simp add: token_segment_def)
  with p' that show ?thesis by blast
qed

lemma open_sign_token:
  assumes "json_reads_back J p" and "\<And>m. verifier_verify C v m (signer_sign C s m)"
  obtains p' where "open_token C J v (sign_token C J s p) = Inr (JObj p')" "map_of p' = map_of p"
proof -
  obtain p' where "parse_token J (sign_token C J s p) =
       Inr (token_segment J p, signer_sign C s (token_segment J p), JObj p')" "map_of p' = map_of p"
    by (rule parse_token_sign [OF assms(1)])
  with assms(2) show ?thesis by (intro that [of p']) (simp_all add: open_token_def)
qed

text \<open>Matching keys: the verifier built from a signer's published key accepts its signatures.\<close>

lemma ed25519_key_pair:
  assumes "ed25519_laws C"
  shows "build_verifier C True (public_key_b64 C (Ed25519Signer k)) =
           Inr (Ed25519Verifier (cr_ed_public C k))"
    and "verifier_verify C (Ed25519Verifier (cr_ed_public C k)) m (signer_sign C (Ed25519Signer k) m)"
  using assms by (simp_all add: build_verifier_def ed25519_from_b64_def ed25519_laws_def)

lemma hmac_key_pair:
  "build_verifier C False (public_key_b64 C (HmacSigner k)) = Inr (HmacVerifier k)"
  "verifier_verify C (HmacVerifier k) m (signer_sign C (HmacSigner k) m)"
  by (simp_all add: build_verifier_def hmac_from_b64_def)

lemma signer_seed_roundtrip:
  "ed25519_laws C \<Longrightarrow> from_private_b64 C (private_key_b64 C k) = Inr (Ed25519Signer k)"
  by (simp add: from_private_b64_def private_key_b64_def ed25519_laws_def)

section \<open>The nonce cache as an interface\<close>

locale nonce_store =
  fixes N :: "'c nonce_ops" and nok :: "'c \<Rightarrow> bool" and live :: "'c \<Rightarrow> string \<Rightarrow> pyfloat option"
  assumes seen_ok: "nok c \<Longrightarrow> nok (fst (no_seen N c t n))"
    and add_ok: "nok c \<Longrightarrow> nok (no_add N c n e)"
    and seen_iff: "nok c \<Longrightarrow> snd (no_seen N c t n) \<longleftrightarrow> (\<exists>e. live c n = Some e \<and> \<not> e < t)"
    and seen_live: "nok c \<Longrightarrow> live (fst (no_seen N c t n)) m =
      (case live c m of None \<Rightarrow> None | Some e \<Rightarrow> if e < t then None else Some e)"
    and add_live: "nok c \<Longrightarrow> live (no_add N c n e) = (live c)(n \<mapsto> e)"
begin

lemma seen_keeps: "nok c \<Longrightarrow> live c m = Some e \<Longrightarrow> \<not> e < t \<Longrightarrow>
    live (fst (no_seen N c t n)) m = Some e"
  by (simp add: seen_live)

lemma consume_ok: "nok c \<Longrightarrow> nok (fst (consume_nonce N c wall x e))"
  by (auto simp: consume_nonce_def Let_def seen_ok add_ok split: json.splits prod.splits)
    (metis fst_conv seen_ok add_ok)+

lemma consume_Inr:
  assumes "nok c" "consume_nonce N c wall x e = (c', Inr ())"
  obtains n where "x = JStr n" "\<not> snd (no_seen N c wall n)" "live c' n = Some e"
    "c' = no_add N (fst (no_seen N c wall n)) n e"
  using assms by (auto simp: consume_nonce_def Let_def add_live seen_ok split: json.splits prod.splits if_splits)

lemma consume_keeps:
  assumes "nok c" "live c m = Some d" "\<not> d < wall" "consume_nonce N c wall x e = (c', r)"
  shows "live c' m = Some d \<and> (r = Inr () \<longrightarrow> x \<noteq> JStr m)"
proof (cases x)
  case (JStr n)
  let ?s = "no_seen N c wall n"
  have live1: "live (fst ?s) m = Some d" using assms by (simp add: seen_keeps)
  show ?thesis
  proof (cases "snd ?s")
    case True
    with assms JStr live1 show ?thesis
      by (auto simp: consume_nonce_def Let_def split: prod.splits)
  next
    case False
    then have "n \<noteq> m" using seen_iff [OF assms(1)] assms by blast
    moreover have "c' = no_add N (fst ?s) n e" using assms JStr False
      by (auto simp: consume_nonce_def Let_def split: prod.splits)
    ultimately show ?thesis using live1 JStr by (simp add: add_live seen_ok assms(1))
  qed
qed (use assms in \<open>auto simp: consume_nonce_def Let_def seen_keeps\<close>)

end

lemma map_of_filter_expiry:
  "distinct (map fst c) \<Longrightarrow>
   map_of (filter (\<lambda>(n, e). P e) c) m = (case map_of c m of None \<Rightarrow> None | Some e \<Rightarrow> if P e then Some e else None)"
  by (induction c) (auto split: option.splits simp: map_of_eq_None_iff image_iff)

lemma mem_prune_map:
  "distinct (map fst c) \<Longrightarrow> map_of (mem_prune c t) m =
     (case map_of c m of None \<Rightarrow> None | Some e \<Rightarrow> if e < t then None else Some e)"
  by (simp add: mem_prune_def map_of_filter_expiry split: option.splits)

lemma mem_prune_distinct: "distinct (map fst c) \<Longrightarrow> distinct (map fst (mem_prune c t))"
  by (simp add: mem_prune_def distinct_map_filter)

interpretation mem_nonce: nonce_store mem_nonce_ops "\<lambda>c. distinct (map fst c)" map_of
proof unfold_locales
  fix c :: mem_nonce and t n e
  assume c: "distinct (map fst c)"
  show "snd (no_seen mem_nonce_ops c t n) \<longleftrightarrow> (\<exists>e. map_of c n = Some e \<and> \<not> e < t)"
    by (cases "map_of c n") (simp_all add: mem_nonce_ops_def mem_seen_def Let_def mem_prune_map [OF c])
qed (simp_all add: mem_nonce_ops_def mem_seen_def mem_add_def Let_def mem_prune_map mem_prune_distinct)

section \<open>Validation\<close>

lemma require_fields_Inr:
  "require_fields p = Inr d \<longleftrightarrow> p = JObj d \<and> (\<forall>f\<in>set FIELDS. map_of d f \<noteq> None)"
  by (auto simp: require_fields_def list_ex_iff split: json.splits)

lemma check_bound_fresh_Inr:
  assumes "check_bound_fresh J skew expected now d = Inr e"
  obtains t where "field d ''identity_id'' = JStr expected" "py_float J (field d ''exp'') = Inr e"
    "\<not> e < now" "py_float J (field d ''issued_at'') = Inr t" "\<not> now + skew < t"
  using assms by (auto simp: check_bound_fresh_def sbind_eq_Inr raising_eq_Inr split: if_splits)

lemma validate_Inr:
  assumes "validate C J v N skew c token expected now wall = (c', Inr a)"
  obtains d e where
    "open_token C J v token = Inr (JObj d)" "\<forall>f\<in>set FIELDS. map_of d f \<noteq> None"
    "check_bound_fresh J skew expected now d = Inr e"
    "consume_nonce N c wall (field d ''nonce'') e = (c', Inr ())" "a = build_assertion d"
proof -
  from assms obtain p where p: "open_token C J v token = Inr p"
    by (auto simp: validate_def split: sum.splits)
  with assms obtain d where d: "require_fields p = Inr d"
    by (auto simp: validate_def split: sum.splits)
  with assms p obtain e where e: "check_bound_fresh J skew expected now d = Inr e"
    by (auto simp: validate_def split: sum.splits)
  with assms p d obtain c1 where "consume_nonce N c wall (field d ''nonce'') e = (c1, Inr ())"
    "c1 = c'" "a = build_assertion d"
    by (auto simp: validate_def split: sum.splits prod.splits)
  with p d e that show ?thesis by (auto simp: require_fields_Inr)
qed

lemma validate_rejects_before_cache:
  "open_token C J v token = Inl r \<Longrightarrow>
   validate C J v N skew c token expected now wall = (c, Inl (Rejected r))"
  by (simp add: validate_def)

text \<open>What an assertion record of a payload says, independent of the order of its entries.\<close>

lemma field_cong: "map_of d = map_of d' \<Longrightarrow> field d = field d'"
  by (simp add: field_def fun_eq_iff)

lemma build_assertion_cong: "map_of d = map_of d' \<Longrightarrow> build_assertion d = build_assertion d'"
  by (drule field_cong) (simp add: build_assertion_def)

lemma check_bound_fresh_cong:
  "map_of d = map_of d' \<Longrightarrow> check_bound_fresh J skew expected now d = check_bound_fresh J skew expected now d'"
  by (drule field_cong) (simp add: check_bound_fresh_def cong: if_cong)

text \<open>The fields of an issued payload.\<close>

definition issued_nonce :: "string \<Rightarrow> string option \<Rightarrow> string" where
  "issued_nonce urandom_hex nonce =
     (case nonce of None \<Rightarrow> urandom_hex | Some n \<Rightarrow> if n = [] then urandom_hex else n)"

definition issued_time :: "pyfloat \<Rightarrow> pyfloat option \<Rightarrow> pyfloat" where
  "issued_time clock issued_at = (case issued_at of None \<Rightarrow> clock | Some t \<Rightarrow> t)"

lemma issued_fields:
  fixes s ch i m r ttl clock rnd nonce issued_at
  defines "d \<equiv> issue_payload s clock rnd ch i m r ttl nonce issued_at"
  shows "field d ''challenge_id'' = JStr ch" "field d ''identity_id'' = JStr i" "field d ''method'' = JStr m"
    "field d ''result'' = JStr r" "field d ''issued_at'' = JFloat (issued_time clock issued_at)"
    "field d ''nonce'' = JStr (issued_nonce rnd nonce)"
    "field d ''exp'' = JFloat (issued_time clock issued_at + ttl)"
    "\<forall>f\<in>set FIELDS. map_of d f \<noteq> None"
  by (simp_all add: d_def issue_payload_def Let_def field_def issued_time_def issued_nonce_def FIELDS_def)

lemma validate_issued:
  assumes json: "json_reads_back J (issue_payload s clock rnd ch i m r ttl nonce issued_at)"
    and keys: "\<And>x. verifier_verify C v x (signer_sign C s x)"
    and fresh: "\<not> issued_time clock issued_at + ttl < now" "\<not> now + skew < issued_time clock issued_at"
    and unused: "\<not> snd (no_seen N c wall (issued_nonce rnd nonce))"
  shows "validate C J v N skew c (issue C J s clock rnd ch i m r ttl nonce issued_at) i now wall =
    (no_add N (fst (no_seen N c wall (issued_nonce rnd nonce))) (issued_nonce rnd nonce)
       (issued_time clock issued_at + ttl),
     Inr \<lparr> as_challenge_id = JStr ch, as_identity_id = JStr i, as_method = JStr m, as_result = JStr r,
           as_issued_at = JFloat (issued_time clock issued_at),
           as_nonce = JStr (issued_nonce rnd nonce),
           as_exp = JFloat (issued_time clock issued_at + ttl) \<rparr>)"
proof -
  let ?d = "issue_payload s clock rnd ch i m r ttl nonce issued_at"
  obtain d' where d': "open_token C J v (sign_token C J s ?d) = Inr (JObj d')" "map_of d' = map_of ?d"
    using open_sign_token [OF json keys] by metis
  have fields: "require_fields (JObj d') = Inr d'"
    using issued_fields(8) by (simp add: require_fields_Inr d'(2))
  have bound: "check_bound_fresh J skew i now d' = Inr (issued_time clock issued_at + ttl)"
    unfolding check_bound_fresh_cong [OF d'(2)]
    using fresh by (simp add: check_bound_fresh_def issued_fields py_float_def)
  have consume: "consume_nonce N c wall (field d' ''nonce'') (issued_time clock issued_at + ttl) =
      (no_add N (fst (no_seen N c wall (issued_nonce rnd nonce))) (issued_nonce rnd nonce)
        (issued_time clock issued_at + ttl), Inr ())"
    using unused
    by (cases "no_seen N c wall (issued_nonce rnd nonce)")
      (simp add: field_cong [OF d'(2)] issued_fields consume_nonce_def)
  show ?thesis
    by (simp add: validate_def issue_def d'(1) fields bound consume build_assertion_cong [OF d'(2)])
      (simp add: build_assertion_def issued_fields)
qed

text \<open>A sequence of validations against one cache: token, expected identity and the two clock readings.\<close>

record validation =
  vl_token :: string
  vl_expected :: string
  vl_now :: pyfloat
  vl_wall :: pyfloat

fun validate_all ::
  "('priv, 'pub) crypto \<Rightarrow> json_lib \<Rightarrow> 'pub verifier \<Rightarrow> 'c nonce_ops \<Rightarrow> pyfloat \<Rightarrow>
   'c \<Rightarrow> validation list \<Rightarrow> 'c \<times> (verr + assertion) list" where
  "validate_all C J v N skew c [] = (c, [])"
| "validate_all C J v N skew c (q # qs) =
     (let (c1, r) = validate C J v N skew c (vl_token q) (vl_expected q) (vl_now q) (vl_wall q);
          (c2, rs) = validate_all C J v N skew c1 qs
      in (c2, r # rs))"

lemma validate_all_append:
  "validate_all C J v N skew c (xs @ ys) =
     (let (c1, rs) = validate_all C J v N skew c xs; (c2, ss) = validate_all C J v N skew c1 ys
      in (c2, rs @ ss))"
  by (induction xs arbitrary: c) (auto simp: Let_def split: prod.splits)

lemma length_validate_all: "length (snd (validate_all C J v N skew c qs)) = length qs"
  by (induction qs arbitrary: c) (simp_all add: Let_def split_def)

context nonce_store
begin

lemma validate_ok: "nok c \<Longrightarrow> nok (fst (validate C J v N skew c token expected now wall))"
  by (auto simp: validate_def split: sum.splits prod.splits) (metis consume_ok fst_conv)+

lemma validate_all_ok: "nok c \<Longrightarrow> nok (fst (validate_all C J v N skew c qs))"
proof (induction qs arbitrary: c)
  case (Cons q qs)
  have "nok (fst (validate C J v N skew c (vl_token q) (vl_expected q) (vl_now q) (vl_wall q)))"
    by (rule validate_ok [OF Cons.prems])
  from Cons.IH [OF this] show ?case by (simp add: Let_def split_def)
qed simp

lemma validate_keeps:
  assumes "nok c" "live c m = Some d" "\<not> d < wall"
    and v: "validate C J v N skew c token expected now wall = (c', r)"
  shows "live c' m = Some d \<and> (\<forall>a. r = Inr a \<longrightarrow> as_nonce a \<noteq> JStr m)"
proof (cases r)
  case (Inr a)
  with v obtain f e where "consume_nonce N c wall (field f ''nonce'') e = (c', Inr ())"
    "a = build_assertion f"
    by (metis validate_Inr)
  with consume_keeps [OF assms(1-3)] Inr show ?thesis by (fastforce simp: build_assertion_def)
next
  case (Inl x)
  with v consume_keeps [OF assms(1-3)] assms(2) show ?thesis
    by (auto simp: validate_def split: sum.splits prod.splits)
qed

lemma validate_all_blocks:
  assumes "nok c" "live c m = Some d" "\<forall>q\<in>set qs. \<not> d < vl_wall q"
    "Inr b \<in> set (snd (validate_all C J v N skew c qs))"
  shows "as_nonce b \<noteq> JStr m"
  using assms
proof (induction qs arbitrary: c)
  case (Cons q qs)
  obtain c1 r where r: "validate C J v N skew c (vl_token q) (vl_expected q) (vl_now q) (vl_wall q) = (c1, r)"
    by fastforce
  have "live c1 m = Some d \<and> (\<forall>a. r = Inr a \<longrightarrow> as_nonce a \<noteq> JStr m)"
    using Cons.prems by (intro validate_keeps [OF _ _ _ r]) auto
  moreover have "nok c1" using validate_ok [OF Cons.prems(1)] r by (metis fst_conv)
  ultimately show ?case using Cons.IH [of c1] Cons.prems r by (auto simp: Let_def split: prod.splits)
qed simp

lemma accepted_recorded:
  assumes "nok c" "validate C J v N skew c token expected now wall = (c', Inr a)"
  obtains n e where "as_nonce a = JStr n" "py_float J (as_exp a) = Inr e" "\<not> e < now"
    "live c' n = Some e" "\<not> snd (no_seen N c wall n)"
proof -
  obtain d e where d: "check_bound_fresh J skew expected now d = Inr e"
    "consume_nonce N c wall (field d ''nonce'') e = (c', Inr ())" "a = build_assertion d"
    using assms(2) by (rule validate_Inr)
  obtain n where "field d ''nonce'' = JStr n" "\<not> snd (no_seen N c wall n)" "live c' n = Some e"
    using consume_Inr [OF assms(1) d(2)] by metis
  moreover have "py_float J (field d ''exp'') = Inr e" "\<not> e < now"
    using d(1) by (auto elim: check_bound_fresh_Inr)
  ultimately show ?thesis using that d(3) by (simp add: build_assertion_def)
qed

lemma single_use:
  assumes ok: "nok c"
    and run: "validate_all C J v N skew c (before @ q # later) = (c', rs)"
    and first: "rs ! length before = Inr a"
    and alive: "py_float J (as_exp a) = Inr e" "\<forall>q\<in>set later. \<not> e < vl_wall q"
    and second: "Inr b \<in> set (drop (Suc (length before)) rs)"
  shows "as_nonce b \<noteq> as_nonce a"
proof -
  obtain c1 rs1 where 1: "validate_all C J v N skew c before = (c1, rs1)" by fastforce
  obtain c2 r where 2: "validate C J v N skew c1 (vl_token q) (vl_expected q) (vl_now q) (vl_wall q) = (c2, r)"
    by fastforce
  obtain c3 rs3 where 3: "validate_all C J v N skew c2 later = (c3, rs3)" by fastforce
  have rs: "rs = rs1 @ r # rs3" using run by (simp add: validate_all_append 1 2 3)
  have len: "length rs1 = length before" using length_validate_all 1 by (metis snd_conv)
  have ok1: "nok c1" using validate_all_ok [OF ok] 1 by (metis fst_conv)
  have "r = Inr a" using first rs len by (simp add: nth_append)
  then obtain n where n: "as_nonce a = JStr n" "live c2 n = Some e"
    using accepted_recorded [OF ok1] 2 alive(1) by (metis sum.inject(2))
  have "nok c2" using validate_ok [OF ok1] 2 by (metis fst_conv)
  moreover have "Inr b \<in> set (snd (validate_all C J v N skew c2 later))"
    using second rs len 3 by simp
  ultimately have "as_nonce b \<noteq> JStr n"
    by (rule validate_all_blocks [OF _ n(2) alive(2)])
  with n show ?thesis by simp
qed

end

end
