(* ===== verification/Attestation.thy ===== *)
theory Attestation
  imports VerifierFacts RiskEngine
begin

text \<open>
  Device attestation and signed behavioural assertions: \<^verbatim>\<open>backend/app/attestation.py\<close>.
  \<open>attest_issue\<close> and \<open>behavior_issue\<close> are the two providers, \<open>fresh\<close> and \<open>resolve\<close> the engine-side
  \<^verbatim>\<open>BehaviorResolver\<close> over the nonce-cache interface, \<open>recompute_behavior\<close> the server-side scorer, and
  \<open>build_resolver\<close> (\<^verbatim>\<open>risk_engine.py\<close>) plugs the resolver into the engine.
\<close>

definition INTEGRITY_PASS :: string where
  "INTEGRITY_PASS = ''MEETS_DEVICE_INTEGRITY''"

section \<open>Providers\<close>

definition attest_payload ::
  "pyfloat \<Rightarrow> string \<Rightarrow> string \<Rightarrow> string \<Rightarrow> pyfloat \<Rightarrow> string option \<Rightarrow> pyfloat option \<Rightarrow> (string \<times> json) list" where
  "attest_payload clock urandom_hex device verdict ttl nonce issued_at =
     (let now = issued_time clock issued_at in
      [(''kind'', JStr ''device_attestation''),
       (''device_id'', JStr device),
       (''verdict'', JStr verdict),
       (''issued_at'', JFloat now),
       (''nonce'', JStr (issued_nonce urandom_hex nonce)),
       (''exp'', JFloat (now + ttl))])"

definition attest_issue ::
  "('priv, 'pub) crypto \<Rightarrow> json_lib \<Rightarrow> 'priv signer \<Rightarrow> pyfloat \<Rightarrow> string \<Rightarrow> string \<Rightarrow> string \<Rightarrow> pyfloat \<Rightarrow>
   string option \<Rightarrow> pyfloat option \<Rightarrow> string" where
  "attest_issue C J s clock urandom_hex device verdict ttl nonce issued_at =
     sign_token C J s (attest_payload clock urandom_hex device verdict ttl nonce issued_at)"

definition behavior_payload ::
  "pyfloat \<Rightarrow> string \<Rightarrow> string \<Rightarrow> string \<Rightarrow> pyfloat \<Rightarrow> pyfloat \<Rightarrow> string option \<Rightarrow> pyfloat option \<Rightarrow>
   (string \<times> json) list" where
  "behavior_payload clock urandom_hex device identity similarity ttl nonce issued_at =
     (let now = issued_time clock issued_at in
      [(''kind'', JStr ''behavior_similarity''),
       (''device_id'', JStr device),
       (''identity_id'', JStr identity),
       (''similarity'', JFloat similarity),
       (''issued_at'', JFloat now),
       (''nonce'', JStr (issued_nonce urandom_hex nonce)),
       (''exp'', JFloat (now + ttl))])"

definition behavior_issue ::
  "('priv, 'pub) crypto \<Rightarrow> json_lib \<Rightarrow> 'priv signer \<Rightarrow> pyfloat \<Rightarrow> string \<Rightarrow> string \<Rightarrow> string \<Rightarrow> pyfloat \<Rightarrow> pyfloat \<Rightarrow>
   string option \<Rightarrow> pyfloat option \<Rightarrow> string" where
  "behavior_issue C J s clock urandom_hex device identity similarity ttl nonce issued_at =
     sign_token C J s (behavior_payload clock urandom_hex device identity similarity ttl nonce issued_at)"

section \<open>The resolver\<close>

text \<open>\<^verbatim>\<open>payload[k]\<close> and \<^verbatim>\<open>payload.get(k)\<close> on a payload of any JSON type.\<close>

definition json_item :: "json \<Rightarrow> string \<Rightarrow> py_exn + json" where
  "json_item p k = (case p of
       JObj d \<Rightarrow> ditem d k
     | _ \<Rightarrow> Inl TypeError)"

definition json_get :: "json \<Rightarrow> string \<Rightarrow> py_exn + json" where
  "json_get p k = (case p of
       JObj d \<Rightarrow> Inr (dget d k)
     | _ \<Rightarrow> Inl AttributeError)"

text \<open>\<^verbatim>\<open>_fresh\<close>: a missing or unreadable time is not fresh; an overflow is not caught.\<close>

definition fresh :: "json_lib \<Rightarrow> pyfloat \<Rightarrow> json \<Rightarrow> pyfloat \<Rightarrow> py_exn + bool" where
  "fresh J max_skew payload now =
     (case sbind (sbind (json_item payload ''exp'') (py_float J)) (\<lambda>expiry.
             if expiry < now then Inr False
             else sbind (sbind (json_item payload ''issued_at'') (py_float J)) (\<lambda>issued.
               Inr (\<not> now + max_skew < issued))) of
        Inr b \<Rightarrow> Inr b
      | Inl e \<Rightarrow> if e \<in> {KeyError, TypeError, ValueError} then Inr False else Inl e)"

text \<open>The checks of \<^verbatim>\<open>resolve\<close> up to the nonces, with their short circuits.\<close>

definition bound_tokens ::
  "json_lib \<Rightarrow> pyfloat \<Rightarrow> string \<Rightarrow> string \<Rightarrow> pyfloat \<Rightarrow> json \<Rightarrow> json \<Rightarrow> py_exn + bool" where
  "bound_tokens J max_skew identity device now att beh =
     sbind (json_get att ''kind'') (\<lambda>ak. if ak \<noteq> JStr ''device_attestation'' then Inr False else
     sbind (json_get beh ''kind'') (\<lambda>bk. if bk \<noteq> JStr ''behavior_similarity'' then Inr False else
     sbind (fresh J max_skew att now) (\<lambda>fa. if \<not> fa then Inr False else
     sbind (fresh J max_skew beh now) (\<lambda>fb. if \<not> fb then Inr False else
     sbind (json_get att ''verdict'') (\<lambda>v. if v \<noteq> JStr INTEGRITY_PASS then Inr False else
     sbind (json_get att ''device_id'') (\<lambda>ad. if ad \<noteq> JStr device then Inr False else
     sbind (json_get beh ''device_id'') (\<lambda>bd. if bd \<noteq> JStr device then Inr False else
     sbind (json_get beh ''identity_id'') (\<lambda>bi. Inr (bi = JStr identity)))))))))"

text \<open>The similarity as a trusted float: \<^verbatim>\<open>None\<close> for what is not a finite number.\<close>

definition read_similarity :: "json_lib \<Rightarrow> json \<Rightarrow> py_exn + pyfloat option" where
  "read_similarity J sim =
     (case py_float J sim of
        Inl e \<Rightarrow> if e \<in> {TypeError, ValueError} then Inr None else Inl e
      | Inr f \<Rightarrow> Inr (if is_finite f then Some f else None))"

text \<open>
  The rest of \<^verbatim>\<open>resolve\<close>: both nonces unused (the cache reads the clock at each lookup), the
  similarity readable, then both nonces consumed and the similarity clamped.
\<close>

definition consume_both ::
  "json_lib \<Rightarrow> 'c nonce_ops \<Rightarrow> 'c \<Rightarrow> pyfloat \<Rightarrow> pyfloat \<Rightarrow> json \<Rightarrow> json \<Rightarrow> 'c \<times> (py_exn + pyfloat option)" where
  "consume_both J N c wall1 wall2 att beh =
     (case (json_get att ''nonce'', json_get beh ''nonce'') of
        (Inl e, _) \<Rightarrow> (c, Inl e)
      | (Inr an, Inl e) \<Rightarrow> (c, Inl e)
      | (Inr an, Inr bn) \<Rightarrow>
        if \<not> json_truthy an \<or> \<not> json_truthy bn then (c, Inr None)
        else
          (let ka = ''att:'' @ json_str J an; kb = ''beh:'' @ json_str J bn;
               (c1, seen_a) = no_seen N c wall1 ka
           in if seen_a then (c1, Inr None)
              else
                (let (c2, seen_b) = no_seen N c1 wall2 kb
                 in if seen_b then (c2, Inr None)
                    else
                      (case sbind (json_get beh ''similarity'') (read_similarity J) of
                         Inl e \<Rightarrow> (c2, Inl e)
                       | Inr None \<Rightarrow> (c2, Inr None)
                       | Inr (Some sim) \<Rightarrow>
                         (case sbind (json_item att ''exp'') (py_float J) of
                            Inl e \<Rightarrow> (c2, Inl e)
                          | Inr ea \<Rightarrow>
                            (let c3 = no_add N c2 ka ea in
                             case sbind (json_item beh ''exp'') (py_float J) of
                               Inl e \<Rightarrow> (c3, Inl e)
                             | Inr eb \<Rightarrow> (no_add N c3 kb eb,
                                 Inr (Some (py_max (Fin 0) (py_min (Fin 1) sim))))))))))"

definition resolve ::
  "('priv, 'pub) crypto \<Rightarrow> json_lib \<Rightarrow> 'pub verifier \<Rightarrow> 'pub verifier \<Rightarrow> 'c nonce_ops \<Rightarrow> pyfloat \<Rightarrow>
   'c \<Rightarrow> string option \<Rightarrow> string option \<Rightarrow> string \<Rightarrow> string \<Rightarrow> pyfloat \<Rightarrow> pyfloat \<Rightarrow> pyfloat \<Rightarrow>
   'c \<times> (py_exn + pyfloat option)" where
  "resolve C J attest behavior N max_skew c attestation_token behavior_token identity device now wall1 wall2 =
     (case (attestation_token, behavior_token) of
        (Some ta, Some tb) \<Rightarrow>
          if ta = [] \<or> tb = [] then (c, Inr None)
          else
            (case (open_token C J attest ta, open_token C J behavior tb) of
               (Inr att, Inr beh) \<Rightarrow>
                 (case bound_tokens J max_skew identity device now att beh of
                    Inl e \<Rightarrow> (c, Inl e)
                  | Inr False \<Rightarrow> (c, Inr None)
                  | Inr True \<Rightarrow> consume_both J N c wall1 wall2 att beh)
             | _ \<Rightarrow> (c, Inr None))
      | _ \<Rightarrow> (c, Inr None))"

section \<open>Server-side scoring\<close>

definition recompute_behavior :: "pyfloat list \<Rightarrow> pyfloat list \<Rightarrow> pyfloat" where
  "recompute_behavior template observed =
     (if template = [] \<or> length template \<noteq> length observed then Fin 0
      else
        (let total = py_sum (map abs template);
             denom = (if total = Fin 0 then Fin 1 else total);
             dist = py_sum (map (\<lambda>(t, x). \<bar>t - x\<bar>) (zip template observed))
         in py_max (Fin 0) (Fin 1 - fdiv dist denom)))"

section \<open>The engine's resolver\<close>

text \<open>
  \<^verbatim>\<open>TrustEngine._build_resolver\<close>: keys that cannot be read leave the engine without a resolver. The
  resolver's state is its nonce cache and a counter of the clock readings \<open>clock\<close> its cache has made.
\<close>

definition event_resolver ::
  "('priv, 'pub) crypto \<Rightarrow> json_lib \<Rightarrow> (nat \<Rightarrow> pyfloat) \<Rightarrow> 'pub verifier \<Rightarrow> 'pub verifier \<Rightarrow>
   (mem_nonce \<times> nat) resolver" where
  "event_resolver C J clock attest behavior n now e =
     (let (c', r) = resolve C J attest behavior mem_nonce_ops (Fin 5) (fst n)
            (ev_device_attestation e) (ev_behavior_assertion e) (ev_identity_id e) (ev_device_id e)
            now (clock (snd n)) (clock (snd n + 1))
      in ((c', snd n + 2), r))"

definition build_resolver ::
  "('priv, 'pub) crypto \<Rightarrow> json_lib \<Rightarrow> bool \<Rightarrow> (nat \<Rightarrow> pyfloat) \<Rightarrow> string \<Rightarrow> string \<Rightarrow>
   (mem_nonce \<times> nat) resolver option" where
  "build_resolver C J has_ed25519 clock attest_pubkey behavior_pubkey =
     (case (build_verifier C has_ed25519 attest_pubkey, build_verifier C has_ed25519 behavior_pubkey) of
        (Inr va, Inr vb) \<Rightarrow> Some (event_resolver C J clock va vb)
      | _ \<Rightarrow> None)"

section \<open>Facts\<close>

lemma clamp_unit: "is_finite f \<Longrightarrow> fin_in 0 1 (py_max (Fin 0) (py_min (Fin 1) f))"
  by (cases f) (auto simp: is_finite_def py_max_def py_min_def)

lemma read_similarity_finite: "read_similarity J v = Inr (Some f) \<Longrightarrow> is_finite f"
  by (auto simp: read_similarity_def split: sum.splits if_splits)

lemma fresh_True:
  "fresh J skew p now = Inr True \<longleftrightarrow>
   (\<exists>d e t. p = JObj d \<and> (\<exists>v. map_of d ''exp'' = Some v \<and> py_float J v = Inr e) \<and>
      (\<exists>v. map_of d ''issued_at'' = Some v \<and> py_float J v = Inr t) \<and> \<not> e < now \<and> \<not> now + skew < t)"
  by (auto simp: fresh_def json_item_def ditem_def sbind_def split: sum.splits json.splits option.splits if_splits)

end
