(* ===== verification/VerifierProps.thy ===== *)
theory VerifierProps
  imports VerifierFacts
begin

text \<open>
  The properties of the step-up trust boundary (\<^verbatim>\<open>backend/app/verifier.py\<close>), each with a witness on a
  concrete key pair, payload and clock.
\<close>

section \<open>A concrete setting for the witnesses\<close>

definition wit_crypto :: "(unit, unit) crypto" where
  "wit_crypto = \<lparr> cr_ed_sign = (\<lambda>_ m. m), cr_ed_verify = (\<lambda>_ sig m. sig = m), cr_ed_public = id,
     cr_ed_private_bytes = (\<lambda>_. ''k''), cr_ed_public_bytes = (\<lambda>_. ''p''),
     cr_ed_from_private = (\<lambda>_. Inr ()), cr_ed_from_public = (\<lambda>_. Inr ()), cr_hmac = (\<lambda>k m. k @ m) \<rparr>"

definition wit_json :: "(string \<times> json) list \<Rightarrow> json_lib" where
  "wit_json p = \<lparr> js_dumps = (\<lambda>_. ''{}''),
     js_loads = (\<lambda>s. if s = ''{}'' then Inr (JObj p) else Inl ValueError), js_float = (\<lambda>_. None), js_str = (\<lambda>_. []) \<rparr>"

definition wit_payload :: "(string \<times> json) list" where
  "wit_payload = issue_payload (Ed25519Signer ()) 0 ''n1'' ''c1'' ''id1'' ''otp_sms'' ''pass'' (Fin 120) None None"

lemma wit_crypto_laws: "ed25519_laws wit_crypto"
  by (simp add: ed25519_laws_def wit_crypto_def)

lemma wit_json_reads_back: "json_reads_back (wit_json p) p"
  by (simp add: json_reads_back_def wit_json_def)

section \<open>Issued assertions are accepted once\<close>

lemma issue_accepted:
  assumes laws: "ed25519_laws C"
    and built: "build_verifier C True (public_key_b64 C (Ed25519Signer k)) = Inr v"
    and json: "json_reads_back J (issue_payload (Ed25519Signer k) clock rnd ch i m r ttl nonce issued_at)"
    and fresh: "\<not> issued_time clock issued_at + ttl < now" "\<not> now + skew < issued_time clock issued_at"
    and cache: "distinct (map fst c)" "map_of c (issued_nonce rnd nonce) = None"
  shows "\<exists>c' a.
    validate C J v mem_nonce_ops skew c
      (issue C J (Ed25519Signer k) clock rnd ch i m r ttl nonce issued_at) i now wall = (c', Inr a) \<and>
    as_challenge_id a = JStr ch \<and> as_identity_id a = JStr i \<and> as_method a = JStr m \<and>
    as_result a = JStr r \<and> as_nonce a = JStr (issued_nonce rnd nonce) \<and>
    (passed a \<longleftrightarrow> r = ''pass'') \<and>
    map_of c' (issued_nonce rnd nonce) = Some (issued_time clock issued_at + ttl)"
proof -
  have v: "v = Ed25519Verifier (cr_ed_public C k)"
    using built ed25519_key_pair(1) [OF laws] by simp
  have keys: "verifier_verify C v x (signer_sign C (Ed25519Signer k) x)" for x
    unfolding v by (rule ed25519_key_pair(2) [OF laws])
  have unused: "\<not> snd (no_seen mem_nonce_ops c wall (issued_nonce rnd nonce))"
    using cache by (simp add: mem_nonce.seen_iff)
  show ?thesis
    using cache(1) unfolding validate_issued [OF json keys fresh unused]
    by (simp add: passed_def mem_nonce.add_live mem_nonce.seen_ok)
qed



lemma validate_genuine:
  assumes unforgeable: "\<And>seg sig. verifier_verify C v seg sig \<Longrightarrow> \<exists>p\<in>signed. seg = token_segment J p"
    and json: "\<And>p. p \<in> signed \<Longrightarrow> json_reads_back J p"
    and accepted: "validate C J v N skew c token expected now wall = (c', Inr a)"
  shows "\<exists>p\<in>signed. a = build_assertion p \<and> map_of p ''identity_id'' = Some (JStr expected) \<and>
    (\<exists>e. py_float J (as_exp a) = Inr e \<and> \<not> e < now)"
proof -
  obtain d e where d: "open_token C J v token = Inr (JObj d)" "\<forall>f\<in>set FIELDS. map_of d f \<noteq> None"
    "check_bound_fresh J skew expected now d = Inr e" "a = build_assertion d"
    using accepted by (rule validate_Inr)
  obtain seg sig_b64 sig raw where t: "b64d seg = Inr raw" "js_loads J raw = Inr (JObj d)"
    "verifier_verify C v seg sig"
    using d(1) by (rule open_token_Inr)
  obtain p where p: "p \<in> signed" "seg = token_segment J p" using unforgeable [OF t(3)] by blast
  with t(1) have "raw = js_dumps J (JObj p)" by (simp add: token_segment_def)
  with json [OF p(1)] t(2) have same: "map_of d = map_of p" by (simp add: json_reads_back_def)
  have bound: "field d ''identity_id'' = JStr expected" "py_float J (field d ''exp'') = Inr e" "\<not> e < now"
    using d(3) by (auto elim: check_bound_fresh_Inr)
  have "map_of p ''identity_id'' = Some (JStr expected)"
    using bound(1) d(2) same by (auto simp: field_def FIELDS_def)
  moreover have "a = build_assertion p" unfolding d(4) using same by (rule build_assertion_cong)
  moreover have "py_float J (as_exp a) = Inr e" using bound(2) d(4) by (simp add: build_assertion_def)
  ultimately show ?thesis using p(1) bound(3) by blast
qed


definition wit_sealed :: "(unit, unit) crypto" where
  "wit_sealed = wit_crypto\<lparr> cr_ed_verify :=
     (\<lambda>_ sig m. sig = m \<and> m = token_segment (wit_json wit_payload) wit_payload) \<rparr>"

lemma wit_sealed_accepts:
  "\<exists>c' a. validate wit_sealed (wit_json wit_payload) (Ed25519Verifier ()) mem_nonce_ops (Fin 5) []
      (sign_token wit_sealed (wit_json wit_payload) (Ed25519Signer ()) wit_payload) ''id1'' (Fin 60) (Fin 60) = (c', Inr a)"
proof -
  let ?J = "wit_json wit_payload"
  obtain p' where p': "parse_token ?J (sign_token wit_sealed ?J (Ed25519Signer ()) wit_payload) =
       Inr (token_segment ?J wit_payload, token_segment ?J wit_payload, JObj p')" "map_of p' = map_of wit_payload"
    using parse_token_sign [OF wit_json_reads_back, where C = wit_sealed and s = "Ed25519Signer ()"]
    by (auto simp: wit_sealed_def wit_crypto_def)
  have opened: "open_token wit_sealed ?J (Ed25519Verifier ()) (sign_token wit_sealed ?J (Ed25519Signer ()) wit_payload)
      = Inr (JObj p')"
    by (simp add: open_token_def p') (simp add: wit_sealed_def)
  have "require_fields (JObj p') = Inr p'"
    unfolding require_fields_Inr p'(2) wit_payload_def using issued_fields(8) by blast
  moreover have "check_bound_fresh ?J (Fin 5) ''id1'' (Fin 60) p' = Inr (Fin 120)"
    unfolding check_bound_fresh_cong [OF p'(2)]
    by (simp add: check_bound_fresh_def wit_payload_def issued_fields py_float_def issued_time_def zero_pyfloat_def)
  moreover have "field p' ''nonce'' = JStr ''n1''"
    unfolding field_cong [OF p'(2)] by (simp add: wit_payload_def issued_fields issued_nonce_def)
  ultimately show ?thesis
    by (simp add: validate_def opened consume_nonce_def mem_nonce_ops_def mem_seen_def mem_prune_def)
qed


text \<open>
  C9: A nonce is accepted once while its assertion lives: in any sequence of validations against one
  cache, after an assertion has been accepted no later one with the same nonce is, as long as the
  cache's clock readings do not pass the expiry of the first.
\<close>
theorem nonce_single_use:
  assumes run: "validate_all C J v mem_nonce_ops skew [] (before @ q # later) = (c', rs)"
    and first: "rs ! length before = Inr a"
    and alive: "py_float J (as_exp a) = Inr e" "\<And>q'. q' \<in> set later \<Longrightarrow> \<not> e < vl_wall q'"
    and second: "Inr b \<in> set (drop (Suc (length before)) rs)"
  shows "as_nonce b \<noteq> as_nonce a"
proof (rule mem_nonce.single_use [OF _ run first alive(1) _ second])
  show "\<forall>q'\<in>set later. \<not> e < vl_wall q'" using alive(2) by blast
qed simp

text \<open>
  C26: The freshness check and the nonce cache read the clock separately. An assertion presented again
  when the first reading is still inside its window and the second is past it is accepted again: the
  cache prunes the nonce between the two checks, so it moves trust twice.
\<close>
theorem replay_across_expiry:
  assumes json: "json_reads_back J (issue_payload s clock rnd ch i m r ttl nonce issued_at)"
    and keys: "\<And>x. verifier_verify C v x (signer_sign C s x)"
    and first: "\<not> issued_time clock issued_at + ttl < now" "\<not> now + skew < issued_time clock issued_at"
    and second: "\<not> issued_time clock issued_at + ttl < now'" "\<not> now' + skew < issued_time clock issued_at"
    and straddle: "issued_time clock issued_at + ttl < wall'"
    and c: "distinct (map fst c)" "map_of c (issued_nonce rnd nonce) = None"
  shows "\<exists>c1 c2 a.
    validate C J v mem_nonce_ops skew c (issue C J s clock rnd ch i m r ttl nonce issued_at) i now wall
      = (c1, Inr a) \<and>
    validate C J v mem_nonce_ops skew c1 (issue C J s clock rnd ch i m r ttl nonce issued_at) i now' wall'
      = (c2, Inr a)"
proof -
  let ?n = "issued_nonce rnd nonce" and ?e = "issued_time clock issued_at + ttl"
  let ?c1 = "no_add mem_nonce_ops (fst (no_seen mem_nonce_ops c wall ?n)) ?n ?e"
  have 1: "\<not> snd (no_seen mem_nonce_ops c wall ?n)" using c by (simp add: mem_nonce.seen_iff)
  have "distinct (map fst ?c1)" using c(1) by (intro mem_nonce.add_ok mem_nonce.seen_ok)
  moreover have "map_of ?c1 ?n = Some ?e"
    using c(1) by (simp add: mem_nonce.add_live mem_nonce.seen_ok)
  ultimately have 2: "\<not> snd (no_seen mem_nonce_ops ?c1 wall' ?n)"
    using straddle by (simp add: mem_nonce.seen_iff)
  show ?thesis
    unfolding validate_issued [OF json keys first 1] using validate_issued [OF json keys second 2] by blast
qed

theorem replay_across_expiry_witness:
  "\<exists>c1 c2 a.
    validate wit_crypto (wit_json wit_payload) (Ed25519Verifier ()) mem_nonce_ops (Fin 5) []
      (issue wit_crypto (wit_json wit_payload) (Ed25519Signer ()) 0 ''n1'' ''c1'' ''id1'' ''otp_sms'' ''pass'' (Fin 120)
        None None) ''id1'' (Fin 60) (Fin 60) = (c1, Inr a) \<and>
    validate wit_crypto (wit_json wit_payload) (Ed25519Verifier ()) mem_nonce_ops (Fin 5) c1
      (issue wit_crypto (wit_json wit_payload) (Ed25519Signer ()) 0 ''n1'' ''c1'' ''id1'' ''otp_sms'' ''pass'' (Fin 120)
        None None) ''id1'' (Fin 120) (Fin 121) = (c2, Inr a)"
  by (rule replay_across_expiry
      [OF wit_json_reads_back [of wit_payload, unfolded wit_payload_def], folded wit_payload_def])
    (simp_all add: wit_crypto_def issued_time_def zero_pyfloat_def)

text \<open>A run of two validations with different nonces, both accepted.\<close>

definition wit_payload2 :: "(string \<times> json) list" where
  "wit_payload2 = issue_payload (Ed25519Signer ()) 0 ''n2'' ''c2'' ''id1'' ''otp_sms'' ''pass'' (Fin 120) None None"

definition wit_json2 :: json_lib where
  "wit_json2 = \<lparr> js_dumps = (\<lambda>j. if j = JObj wit_payload then ''a'' else ''b''),
     js_loads = (\<lambda>s. Inr (JObj (if s = ''a'' then wit_payload else wit_payload2))), js_float = (\<lambda>_. None), js_str = (\<lambda>_. []) \<rparr>"

lemma wit_payloads_differ: "wit_payload2 \<noteq> wit_payload"
  by (simp add: wit_payload_def wit_payload2_def issue_payload_def)

lemma wit_json2_reads_back:
  "json_reads_back wit_json2 wit_payload" "json_reads_back wit_json2 wit_payload2"
  by (simp_all add: json_reads_back_def wit_json2_def wit_payloads_differ)

definition wit_token :: "string \<Rightarrow> string \<Rightarrow> string" where
  "wit_token n ch = issue wit_crypto wit_json2 (Ed25519Signer ()) 0 n ch ''id1'' ''otp_sms'' ''pass'' (Fin 120)
     None None"

definition wit_validation :: "string \<Rightarrow> validation" where
  "wit_validation tok = \<lparr> vl_token = tok, vl_expected = ''id1'', vl_now = Fin 60, vl_wall = Fin 60 \<rparr>"

lemma wit_accepts:
  assumes "json_reads_back wit_json2 (issue_payload (Ed25519Signer ()) 0 n ch ''id1'' ''otp_sms'' ''pass'' (Fin 120) None None)"
    and "\<not> snd (no_seen mem_nonce_ops c (Fin 60) n)"
  shows "\<exists>a. validate wit_crypto wit_json2 (Ed25519Verifier ()) mem_nonce_ops (Fin 5) c (wit_token n ch) ''id1''
      (Fin 60) (Fin 60) = (no_add mem_nonce_ops (fst (no_seen mem_nonce_ops c (Fin 60) n)) n (Fin 120), Inr a) \<and>
    as_exp a = JFloat (Fin 120) \<and> as_nonce a = JStr n"
proof -
  have keys: "verifier_verify wit_crypto (Ed25519Verifier ()) x (signer_sign wit_crypto (Ed25519Signer ()) x)" for x
    by (simp add: wit_crypto_def)
  show ?thesis
    using validate_issued [OF assms(1) keys, where N = mem_nonce_ops and c = c and now = "Fin 60"
        and wall = "Fin 60" and skew = "Fin 5"] assms(2)
    by (simp add: wit_token_def issued_time_def issued_nonce_def zero_pyfloat_def)
qed

theorem nonce_single_use_witness:
  "\<exists>c' a b. validate_all wit_crypto wit_json2 (Ed25519Verifier ()) mem_nonce_ops (Fin 5) []
      [wit_validation (wit_token ''n1'' ''c1''), wit_validation (wit_token ''n2'' ''c2'')] = (c', [Inr a, Inr b]) \<and>
    as_nonce b \<noteq> as_nonce a"
proof -
  let ?c1 = "no_add mem_nonce_ops (fst (no_seen mem_nonce_ops [] (Fin 60) ''n1'')) ''n1'' (Fin 120)"
  obtain a where a: "validate wit_crypto wit_json2 (Ed25519Verifier ()) mem_nonce_ops (Fin 5) []
      (wit_token ''n1'' ''c1'') ''id1'' (Fin 60) (Fin 60) = (?c1, Inr a)" "as_exp a = JFloat (Fin 120)"
    using wit_accepts [OF wit_json2_reads_back(1) [unfolded wit_payload_def], of "[]"]
    by (auto simp: mem_nonce_ops_def mem_seen_def mem_prune_def)
  have "\<not> snd (no_seen mem_nonce_ops ?c1 (Fin 60) ''n2'')"
    by (simp add: mem_nonce_ops_def mem_seen_def mem_prune_def mem_add_def)
  then obtain c2 b where b: "validate wit_crypto wit_json2 (Ed25519Verifier ()) mem_nonce_ops (Fin 5) ?c1
      (wit_token ''n2'' ''c2'') ''id1'' (Fin 60) (Fin 60) = (c2, Inr b)"
    using wit_accepts [OF wit_json2_reads_back(2) [unfolded wit_payload2_def]] by blast
  have run: "validate_all wit_crypto wit_json2 (Ed25519Verifier ()) mem_nonce_ops (Fin 5) []
      ([] @ wit_validation (wit_token ''n1'' ''c1'') # [wit_validation (wit_token ''n2'' ''c2'')]) =
      (c2, [Inr a, Inr b])"
    using a(1) b by (simp add: wit_validation_def Let_def)
  have "as_nonce b \<noteq> as_nonce a"
    by (rule nonce_single_use [OF run, where e = "Fin 120"])
      (simp_all add: a(2) py_float_def wit_validation_def)
  with run show ?thesis by auto
qed

end
