(* ===== verification/AttestationProps.thy ===== *)
theory AttestationProps
  imports Attestation EngineProps VerifierProps
begin

text \<open>
  The properties of the behaviour trust boundary (\<^verbatim>\<open>backend/app/attestation.py\<close>): what a trusted
  similarity presupposes, single use, what genuine tokens give, what can be raised, and that the
  resolver the engine builds meets the engine's assumption \<open>resolver_ok\<close>.
\<close>

section \<open>Facts about the resolver\<close>

lemma bound_tokens_True:
  assumes "bound_tokens J skew identity device now att beh = Inr True"
  obtains d1 d2 where "att = JObj d1" "beh = JObj d2"
    "map_of d1 ''kind'' = Some (JStr ''device_attestation'')"
    "map_of d2 ''kind'' = Some (JStr ''behavior_similarity'')"
    "map_of d1 ''verdict'' = Some (JStr INTEGRITY_PASS)"
    "map_of d1 ''device_id'' = Some (JStr device)"
    "map_of d2 ''device_id'' = Some (JStr device)"
    "map_of d2 ''identity_id'' = Some (JStr identity)"
    "fresh J skew att now = Inr True" "fresh J skew beh now = Inr True"
proof -
  have f: "fresh J skew att now = Inr True" "fresh J skew beh now = Inr True"
    using assms by (auto simp: bound_tokens_def sbind_eq_Inr split: if_splits)
  then obtain d1 d2 where d: "att = JObj d1" "beh = JObj d2" by (auto simp: fresh_True)
  show ?thesis
    using assms by (intro that [OF d _ _ _ _ _ _ f])
      (auto simp: d bound_tokens_def sbind_eq_Inr json_get_def dget_def split: if_splits option.splits)
qed

lemma bound_tokens_cong:
  assumes "map_of d1 = map_of d1'" "map_of d2 = map_of d2'"
  shows "bound_tokens J skew i dv now (JObj d1) (JObj d2) = bound_tokens J skew i dv now (JObj d1') (JObj d2')"
  by (simp add: bound_tokens_def fresh_def json_item_def ditem_def json_get_def dget_def assms cong: if_cong)

lemma json_get_JObj [simp]: "json_get (JObj d) k = Inr (dget d k)"
  by (simp add: json_get_def)

lemma read_similarity_Some:
  "read_similarity J v = Inr (Some f) \<longleftrightarrow> py_float J v = Inr f \<and> is_finite f"
  by (auto simp: read_similarity_def split: sum.splits)

lemma consume_both_Some:
  assumes "consume_both J N c wall1 wall2 (JObj d1) (JObj d2) = (c', Inr (Some s))"
  obtains c1 c2 ea eb f where
    "json_truthy (dget d1 ''nonce'')" "json_truthy (dget d2 ''nonce'')"
    "no_seen N c wall1 (''att:'' @ json_str J (dget d1 ''nonce'')) = (c1, False)"
    "no_seen N c1 wall2 (''beh:'' @ json_str J (dget d2 ''nonce'')) = (c2, False)"
    "py_float J (dget d2 ''similarity'') = Inr f" "is_finite f"
    "s = py_max (Fin 0) (py_min (Fin 1) f)"
    "sbind (json_item (JObj d1) ''exp'') (py_float J) = Inr ea"
    "sbind (json_item (JObj d2) ''exp'') (py_float J) = Inr eb"
    "c' = no_add N (no_add N c2 (''att:'' @ json_str J (dget d1 ''nonce'')) ea)
            (''beh:'' @ json_str J (dget d2 ''nonce'')) eb"
proof -
  let ?ka = "''att:'' @ json_str J (dget d1 ''nonce'')" and ?kb = "''beh:'' @ json_str J (dget d2 ''nonce'')"
  obtain c1 a where 1: "no_seen N c wall1 ?ka = (c1, a)" by fastforce
  obtain c2 b where 2: "no_seen N c1 wall2 ?kb = (c2, b)" by fastforce
  have t: "json_truthy (dget d1 ''nonce'')" "json_truthy (dget d2 ''nonce'')" "\<not> a" "\<not> b"
    using assms 1 2 by (auto simp: consume_both_def Let_def split: if_splits)
  have r: "(case read_similarity J (dget d2 ''similarity'') of
       Inl e \<Rightarrow> (c2, Inl e) | Inr None \<Rightarrow> (c2, Inr None)
     | Inr (Some sim) \<Rightarrow> (case sbind (json_item (JObj d1) ''exp'') (py_float J) of
         Inl e \<Rightarrow> (c2, Inl e)
       | Inr ea \<Rightarrow> (case sbind (json_item (JObj d2) ''exp'') (py_float J) of
           Inl e \<Rightarrow> (no_add N c2 ?ka ea, Inl e)
         | Inr eb \<Rightarrow> (no_add N (no_add N c2 ?ka ea) ?kb eb,
                       Inr (Some (py_max (Fin 0) (py_min (Fin 1) sim))))))) = (c', Inr (Some s))"
    using assms t 1 2 unfolding consume_both_def Let_def by simp
  then obtain f where f: "read_similarity J (dget d2 ''similarity'') = Inr (Some f)"
    by (auto split: sum.splits option.splits)
  with r obtain ea where ea: "sbind (json_item (JObj d1) ''exp'') (py_float J) = Inr ea"
    by (auto split: sum.splits)
  with f r obtain eb where eb: "sbind (json_item (JObj d2) ''exp'') (py_float J) = Inr eb"
    by (auto split: sum.splits)
  have s: "s = py_max (Fin 0) (py_min (Fin 1) f)" "c' = no_add N (no_add N c2 ?ka ea) ?kb eb"
    using r f ea eb by simp_all
  show ?thesis
    using f t 1 2 by (intro that [OF _ _ _ _ _ _ s(1) ea eb s(2)]) (simp_all add: read_similarity_Some)
qed

lemma consume_both_seen:
  assumes "json_truthy (dget d1 ''nonce'')" "json_truthy (dget d2 ''nonce'')"
    "snd (no_seen N c wall1 (''att:'' @ json_str J (dget d1 ''nonce'')))"
  shows "snd (consume_both J N c wall1 wall2 (JObj d1) (JObj d2)) = Inr None"
  using assms unfolding consume_both_def Let_def
  by (cases "no_seen N c wall1 (''att:'' @ json_str J (dget d1 ''nonce''))") simp

text \<open>Which exceptions the parts can raise.\<close>

lemma py_float_Inl: "py_float J v = Inl e \<Longrightarrow> e \<in> {TypeError, ValueError, OverflowError}"
  by (auto simp: py_float_def split: json.splits option.splits if_splits)

lemma json_item_Inl: "json_item p k = Inl e \<Longrightarrow> e \<in> {KeyError, TypeError}"
  by (auto simp: json_item_def ditem_def split: json.splits option.splits)

lemma json_get_Inl: "json_get p k = Inl e \<Longrightarrow> e = AttributeError"
  by (auto simp: json_get_def split: json.splits)

lemma fresh_Inl: "fresh J skew p now = Inl e \<Longrightarrow> e = OverflowError"
  by (auto simp: fresh_def sbind_eq_Inl split: sum.splits if_splits
      dest!: py_float_Inl json_item_Inl)

lemma bound_tokens_Inl:
  "bound_tokens J skew i dv now att beh = Inl e \<Longrightarrow> e \<in> {AttributeError, OverflowError}"
  by (auto simp: bound_tokens_def sbind_eq_Inl split: if_splits dest!: json_get_Inl fresh_Inl)

lemma read_similarity_Inl: "read_similarity J v = Inl e \<Longrightarrow> e = OverflowError"
  by (auto simp: read_similarity_def split: sum.splits if_splits dest!: py_float_Inl)

lemma fresh_exp: "fresh J skew (JObj d) now = Inr True \<Longrightarrow>
    \<exists>x. sbind (json_item (JObj d) ''exp'') (py_float J) = Inr x"
  by (auto simp: fresh_True json_item_def ditem_def)

lemma consume_both_Inl:
  assumes "fresh J skew (JObj d1) now = Inr True" "fresh J skew (JObj d2) now = Inr True"
    and "snd (consume_both J N c wall1 wall2 (JObj d1) (JObj d2)) = Inl e"
  shows "e = OverflowError"
  using fresh_exp [OF assms(1)] fresh_exp [OF assms(2)] assms(3)
  unfolding consume_both_def Let_def
  by (auto split: if_splits sum.splits option.splits prod.splits dest!: read_similarity_Inl)

lemma resolve_Some:
  assumes "resolve C J va vb N skew c t1 t2 i dv now wall1 wall2 = (c', Inr (Some s))"
  obtains ta tb att beh where
    "t1 = Some ta" "t2 = Some tb" "ta \<noteq> []" "tb \<noteq> []"
    "open_token C J va ta = Inr att" "open_token C J vb tb = Inr beh"
    "bound_tokens J skew i dv now att beh = Inr True"
    "consume_both J N c wall1 wall2 att beh = (c', Inr (Some s))"
proof -
  obtain ta tb where t: "t1 = Some ta" "t2 = Some tb" "ta \<noteq> []" "tb \<noteq> []"
    using assms by (auto simp: resolve_def split: option.splits if_splits)
  with assms obtain att beh where o: "open_token C J va ta = Inr att" "open_token C J vb tb = Inr beh"
    by (auto simp: resolve_def split: sum.splits)
  with assms t have b: "bound_tokens J skew i dv now att beh = Inr True"
    by (auto simp: resolve_def split: sum.splits bool.splits)
  with assms t o show ?thesis by (intro that [OF t o b]) (simp add: resolve_def)
qed

lemma resolve_unit:
  assumes "resolve C J va vb N skew c t1 t2 i dv now wall1 wall2 = (c', Inr (Some s))"
  shows "fin_in 0 1 s"
proof -
  obtain att beh where b: "bound_tokens J skew i dv now att beh = Inr True"
    "consume_both J N c wall1 wall2 att beh = (c', Inr (Some s))"
    using assms by (rule resolve_Some)
  obtain d1 d2 where d: "att = JObj d1" "beh = JObj d2" using b(1) by (rule bound_tokens_True)
  obtain f where "is_finite f" "s = py_max (Fin 0) (py_min (Fin 1) f)"
    using b(2) unfolding d by (rule consume_both_Some)
  then show ?thesis by (simp add: clamp_unit)
qed

lemma resolve_open:
  assumes "open_token C J va ta = Inr att" "open_token C J vb tb = Inr beh" "ta \<noteq> []" "tb \<noteq> []"
    "bound_tokens J skew i dv now att beh = Inr True"
  shows "resolve C J va vb N skew c (Some ta) (Some tb) i dv now wall1 wall2 = consume_both J N c wall1 wall2 att beh"
  using assms by (simp add: resolve_def)

text \<open>The scorer's quotient: neither negative nor above one after clamping.\<close>

definition nonneg_or_nan :: "pyfloat \<Rightarrow> bool" where
  "nonneg_or_nan x \<longleftrightarrow> x = NaN \<or> Fin 0 \<le> x"

lemma nonneg_or_nan_add: "nonneg_or_nan a \<Longrightarrow> nonneg_or_nan b \<Longrightarrow> nonneg_or_nan (a + b)"
  by (cases a; cases b) (auto simp: nonneg_or_nan_def intro: fl_nonneg)

lemma nonneg_or_nan_foldl:
  "nonneg_or_nan a \<Longrightarrow> \<forall>x\<in>set xs. nonneg_or_nan x \<Longrightarrow> nonneg_or_nan (foldl (+) a xs)"
  by (induction xs arbitrary: a) (auto simp: nonneg_or_nan_add)

lemma nonneg_or_nan_abs [simp]: "nonneg_or_nan \<bar>x\<bar>"
  by (cases x) (auto simp: nonneg_or_nan_def)

lemma nonneg_or_nan_py_sum: "\<forall>x\<in>set xs. nonneg_or_nan x \<Longrightarrow> nonneg_or_nan (py_sum xs)"
  unfolding py_sum_def by (rule nonneg_or_nan_foldl) (simp_all add: nonneg_or_nan_def [of "Fin 0"])

lemma nonneg_or_nan_fdiv:
  "nonneg_or_nan a \<Longrightarrow> nonneg_or_nan b \<Longrightarrow> b \<noteq> Fin 0 \<Longrightarrow> nonneg_or_nan (fdiv a b)"
  by (cases a; cases b) (auto simp: nonneg_or_nan_def intro: fl_nonneg)

lemma one_minus_clamped:
  assumes "nonneg_or_nan q"
  shows "fin_in 0 1 (py_max (Fin 0) (Fin 1 - q))"
proof (cases q)
  case (Fin r)
  then have r: "0 \<le> r" using assms by (simp add: nonneg_or_nan_def)
  show ?thesis
  proof (cases "r \<le> 1")
    case True
    with r have "fin_in 0 1 (fl (1 - r))" by (intro fl_bounds) simp_all
    with Fin show ?thesis by (auto simp: py_max_def elim!: fin_inE)
  next
    case False
    then have "f64_round (1 - r) \<le> 0" using f64_round_mono [of "1 - r" 0] by simp
    then have "\<not> Fin 0 < fl (1 - r)" by (auto simp: fl_def Let_def)
    with Fin show ?thesis by (simp add: py_max_def)
  qed
qed (use assms in \<open>auto simp: py_max_def nonneg_or_nan_def minus_pyfloat_def\<close>)

text \<open>Genuine tokens.\<close>

lemma consume_both_cong:
  assumes "map_of d1 = map_of d1'" "map_of d2 = map_of d2'"
  shows "consume_both J N c w1 w2 (JObj d1) (JObj d2) = consume_both J N c w1 w2 (JObj d1') (JObj d2')"
proof -
  have same: "json_get (JObj d1) = json_get (JObj d1')" "json_get (JObj d2) = json_get (JObj d2')"
    "json_item (JObj d1) = json_item (JObj d1')" "json_item (JObj d2) = json_item (JObj d2')"
    by (simp_all add: fun_eq_iff json_item_def ditem_def dget_def assms)
  show ?thesis unfolding consume_both_def same ..
qed

lemma payload_fields:
  "map_of (attest_payload k r dv v ttl n t) ''kind'' = Some (JStr ''device_attestation'')"
  "map_of (attest_payload k r dv v ttl n t) ''device_id'' = Some (JStr dv)"
  "map_of (attest_payload k r dv v ttl n t) ''verdict'' = Some (JStr v)"
  "map_of (attest_payload k r dv v ttl n t) ''issued_at'' = Some (JFloat (issued_time k t))"
  "map_of (attest_payload k r dv v ttl n t) ''nonce'' = Some (JStr (issued_nonce r n))"
  "map_of (attest_payload k r dv v ttl n t) ''exp'' = Some (JFloat (issued_time k t + ttl))"
  "map_of (behavior_payload k r dv i sim ttl n t) ''kind'' = Some (JStr ''behavior_similarity'')"
  "map_of (behavior_payload k r dv i sim ttl n t) ''device_id'' = Some (JStr dv)"
  "map_of (behavior_payload k r dv i sim ttl n t) ''identity_id'' = Some (JStr i)"
  "map_of (behavior_payload k r dv i sim ttl n t) ''similarity'' = Some (JFloat sim)"
  "map_of (behavior_payload k r dv i sim ttl n t) ''issued_at'' = Some (JFloat (issued_time k t))"
  "map_of (behavior_payload k r dv i sim ttl n t) ''nonce'' = Some (JStr (issued_nonce r n))"
  "map_of (behavior_payload k r dv i sim ttl n t) ''exp'' = Some (JFloat (issued_time k t + ttl))"
  by (simp_all add: attest_payload_def behavior_payload_def Let_def)

lemma sign_token_not_Nil [simp]: "sign_token C J s p \<noteq> []"
  by (simp add: sign_token_def Let_def)

lemma resolve_issued:
  fixes k1 r1 dv ttl1 n1 t1 k2 r2 i sim ttl2 n2 t2
  defines "d1 \<equiv> attest_payload k1 r1 dv INTEGRITY_PASS ttl1 n1 t1"
    and "d2 \<equiv> behavior_payload k2 r2 dv i sim ttl2 n2 t2"
    and "ka \<equiv> ''att:'' @ issued_nonce r1 n1" and "kb \<equiv> ''beh:'' @ issued_nonce r2 n2"
    and "e1 \<equiv> issued_time k1 t1 + ttl1" and "e2 \<equiv> issued_time k2 t2 + ttl2"
  assumes json: "json_reads_back J d1" "json_reads_back J d2"
    and keys: "\<And>x. verifier_verify C va x (signer_sign C sa x)" "\<And>x. verifier_verify C vb x (signer_sign C sb x)"
    and fresh: "\<not> e1 < now" "\<not> e2 < now" "\<not> now + skew < issued_time k1 t1" "\<not> now + skew < issued_time k2 t2"
    and nonces: "issued_nonce r1 n1 \<noteq> []" "issued_nonce r2 n2 \<noteq> []"
      "no_seen N c wall1 ka = (c1, False)" "no_seen N c1 wall2 kb = (c2, False)"
    and sim: "is_finite sim"
  shows "resolve C J va vb N skew c
      (Some (attest_issue C J sa k1 r1 dv INTEGRITY_PASS ttl1 n1 t1))
      (Some (behavior_issue C J sb k2 r2 dv i sim ttl2 n2 t2)) i dv now wall1 wall2 =
    (no_add N (no_add N c2 ka e1) kb e2, Inr (Some (py_max (Fin 0) (py_min (Fin 1) sim))))"
proof -
  obtain d1' where o1: "open_token C J va (sign_token C J sa d1) = Inr (JObj d1')" "map_of d1' = map_of d1"
    using open_sign_token [OF json(1) keys(1)] by metis
  obtain d2' where o2: "open_token C J vb (sign_token C J sb d2) = Inr (JObj d2')" "map_of d2' = map_of d2"
    using open_sign_token [OF json(2) keys(2)] by metis
  have "fresh J skew (JObj d1) now = Inr True" "fresh J skew (JObj d2) now = Inr True"
    using fresh by (simp_all add: fresh_True d1_def d2_def payload_fields py_float_def e1_def e2_def)
  then have "bound_tokens J skew i dv now (JObj d1) (JObj d2) = Inr True"
    by (simp add: bound_tokens_def dget_def d1_def d2_def payload_fields)
  then have b: "bound_tokens J skew i dv now (JObj d1') (JObj d2') = Inr True"
    by (simp add: bound_tokens_cong [OF o1(2) o2(2)])
  have sim': "read_similarity J (JFloat sim) = Inr (Some sim)"
    using sim by (simp add: read_similarity_Some py_float_def)
  have "consume_both J N c wall1 wall2 (JObj d1') (JObj d2') =
      (no_add N (no_add N c2 ka e1) kb e2, Inr (Some (py_max (Fin 0) (py_min (Fin 1) sim))))"
    unfolding consume_both_cong [OF o1(2) o2(2)]
    unfolding consume_both_def Let_def
    using nonces
    by (simp add: dget_def d1_def d2_def payload_fields json_str_def ka_def kb_def sim' json_item_def ditem_def
        py_float_def e1_def e2_def)
  then show ?thesis
    by (simp add: attest_issue_def behavior_issue_def resolve_open [OF o1(1) o2(1) _ _ b] flip: d1_def d2_def)
qed

section \<open>A concrete setting for the witnesses\<close>

definition wit_att :: "(string \<times> json) list" where
  "wit_att = attest_payload 0 ''n1'' ''dev1'' INTEGRITY_PASS (Fin 300) None None"

definition wit_beh :: "(string \<times> json) list" where
  "wit_beh = behavior_payload 0 ''n2'' ''dev1'' ''id1'' (Fin 2) (Fin 120) None None"

definition wit_pair :: "(string \<times> json) list \<Rightarrow> (string \<times> json) list \<Rightarrow> json_lib" where
  "wit_pair p q = \<lparr> js_dumps = (\<lambda>j. if j = JObj p then ''a'' else ''b''),
     js_loads = (\<lambda>s. Inr (JObj (if s = ''a'' then p else q))), js_float = (\<lambda>_. None), js_str = (\<lambda>_. []) \<rparr>"

lemma wit_pair_reads_back:
  "q \<noteq> p \<Longrightarrow> json_reads_back (wit_pair p q) p" "q \<noteq> p \<Longrightarrow> json_reads_back (wit_pair p q) q"
  by (simp_all add: json_reads_back_def wit_pair_def)

definition wit_json3 :: json_lib where "wit_json3 = wit_pair wit_att wit_beh"

lemma wit_json3_reads_back: "json_reads_back wit_json3 wit_att" "json_reads_back wit_json3 wit_beh"
  unfolding wit_json3_def
  by (rule wit_pair_reads_back,
      simp add: wit_att_def wit_beh_def attest_payload_def behavior_payload_def Let_def)+

definition wit_att_token :: string where
  "wit_att_token = attest_issue wit_crypto wit_json3 (Ed25519Signer ()) 0 ''n1'' ''dev1'' INTEGRITY_PASS (Fin 300) None None"

definition wit_beh_token :: string where
  "wit_beh_token = behavior_issue wit_crypto wit_json3 (Ed25519Signer ()) 0 ''n2'' ''dev1'' ''id1'' (Fin 2) (Fin 120) None None"

definition wit_resolve ::
  "mem_nonce \<Rightarrow> pyfloat \<Rightarrow> mem_nonce \<times> (py_exn + pyfloat option)" where
  "wit_resolve c t = resolve wit_crypto wit_json3 (Ed25519Verifier ()) (Ed25519Verifier ()) mem_nonce_ops (Fin 5) c
     (Some wit_att_token) (Some wit_beh_token) ''id1'' ''dev1'' t t t"

lemma wit_resolve_accepts:
  "wit_resolve [] (Fin 60) = ([(''att:n1'', Fin 300), (''beh:n2'', Fin 120)], Inr (Some (Fin 1)))"
  using resolve_issued [OF wit_json3_reads_back [unfolded wit_att_def wit_beh_def], where C = wit_crypto
      and N = mem_nonce_ops and c = "[]" and now = "Fin 60" and ?wall1.0 = "Fin 60" and ?wall2.0 = "Fin 60"
      and va = "Ed25519Verifier ()" and sa = "Ed25519Signer ()" and vb = "Ed25519Verifier ()"
      and sb = "Ed25519Signer ()" and skew = "Fin 5" and ?c1.0 = "[]" and ?c2.0 = "[]"]
  by (simp add: wit_resolve_def wit_att_token_def wit_beh_token_def wit_crypto_def mem_nonce_ops_def
      mem_seen_def mem_prune_def mem_add_def issued_time_def issued_nonce_def zero_pyfloat_def is_finite_def
      py_max_def py_min_def)

text \<open>A signed attestation whose expiry is an integer beyond the float range.\<close>

definition wit_big_att :: "(string \<times> json) list" where
  "wit_big_att = [(''kind'', JStr ''device_attestation''), (''exp'', JInt (2 ^ 1024))]"

lemma big_int_not_finite: "\<not> is_finite (fl (of_int (2 ^ 1024)))"
proof -
  have "f64_round (2 ^ 1024) = 2 ^ 1024" using f64_round_dyadic [of 1 "int 1024"] by simp
  then show ?thesis by (simp add: fl_def Let_def is_finite_def)
qed

lemma wit_opens:
  assumes "json_reads_back J p"
  obtains d where "open_token wit_crypto J (Ed25519Verifier ()) (sign_token wit_crypto J (Ed25519Signer ()) p)
      = Inr (JObj d)" "map_of d = map_of p"
proof -
  have keys: "verifier_verify wit_crypto (Ed25519Verifier ()) x (signer_sign wit_crypto (Ed25519Signer ()) x)" for x
    by (simp add: wit_crypto_def)
  show ?thesis by (rule open_sign_token [OF assms keys that])
qed

lemma wit_big_reads_back:
  "json_reads_back (wit_pair wit_big_att wit_beh) wit_big_att" "json_reads_back (wit_pair wit_big_att wit_beh) wit_beh"
  by (rule wit_pair_reads_back, simp add: wit_beh_def behavior_payload_def wit_big_att_def Let_def)+

lemma resolve_overflow:
  assumes "open_token C J va ta = Inr (JObj d1)" "open_token C J vb tb = Inr (JObj d2)" "ta \<noteq> []" "tb \<noteq> []"
    and "map_of d1 ''kind'' = Some (JStr ''device_attestation'')"
    and "map_of d2 ''kind'' = Some (JStr ''behavior_similarity'')"
    and "map_of d1 ''exp'' = Some (JInt n)" "\<not> is_finite (fl (of_int n))"
  shows "resolve C J va vb N skew c (Some ta) (Some tb) identity device now wall1 wall2 = (c, Inl OverflowError)"
  using assms
  by (simp add: resolve_def bound_tokens_def dget_def fresh_def json_item_def ditem_def py_float_def)

definition wit_big_resolve :: "mem_nonce \<times> (py_exn + pyfloat option)" where
  "wit_big_resolve =
   resolve wit_crypto (wit_pair wit_big_att wit_beh) (Ed25519Verifier ()) (Ed25519Verifier ()) mem_nonce_ops (Fin 5) []
     (Some (sign_token wit_crypto (wit_pair wit_big_att wit_beh) (Ed25519Signer ()) wit_big_att))
     (Some (sign_token wit_crypto (wit_pair wit_big_att wit_beh) (Ed25519Signer ()) wit_beh))
     ''id1'' ''dev1'' (Fin 60) (Fin 60) (Fin 60)"

lemma wit_big_raises: "snd wit_big_resolve = Inl OverflowError"
proof -
  obtain d1 where d1: "open_token wit_crypto (wit_pair wit_big_att wit_beh) (Ed25519Verifier ())
     (sign_token wit_crypto (wit_pair wit_big_att wit_beh) (Ed25519Signer ()) wit_big_att) = Inr (JObj d1)"
    "map_of d1 = map_of wit_big_att"
    using wit_big_reads_back(1) by (rule wit_opens)
  obtain d2 where d2: "open_token wit_crypto (wit_pair wit_big_att wit_beh) (Ed25519Verifier ())
     (sign_token wit_crypto (wit_pair wit_big_att wit_beh) (Ed25519Signer ()) wit_beh) = Inr (JObj d2)"
    "map_of d2 = map_of wit_beh"
    using wit_big_reads_back(2) by (rule wit_opens)
  have f: "map_of d1 ''kind'' = Some (JStr ''device_attestation'')" "map_of d1 ''exp'' = Some (JInt (2 ^ 1024))"
    "map_of d2 ''kind'' = Some (JStr ''behavior_similarity'')"
    unfolding d1(2) d2(2) wit_big_att_def wit_beh_def by (simp_all only: payload_fields) simp_all
  show ?thesis unfolding wit_big_resolve_def
    by (subst resolve_overflow [OF d1(1) d2(1) _ _ f(1,3,2) big_int_not_finite]) simp_all
qed

section \<open>Properties\<close>




text \<open>
  The same pair of tokens is trusted once: presented again while the attestation's nonce is remembered
  (the cache's reading not past the attestation's expiry), the behaviour signal is treated as missing.
\<close>
theorem behavior_single_use:
  assumes first: "resolve C J va vb mem_nonce_ops skew c (Some ta) (Some tb) identity device now wall1 wall2
      = (c', Inr (Some s))"
    and c: "distinct (map fst c)"
    and again: "open_token C J va ta = Inr (JObj d1)" "map_of d1 ''exp'' = Some v" "py_float J v = Inr e"
      "\<not> e < wall3" "bound_tokens J skew identity device now' (JObj d1) beh = Inr b"
      "open_token C J vb tb = Inr beh"
  shows "snd (resolve C J va vb mem_nonce_ops skew c' (Some ta) (Some tb) identity device now' wall3 wall4)
      = Inr None"
proof -
  let ?N = mem_nonce_ops
  have tok: "ta \<noteq> []" "tb \<noteq> []"
    and con: "consume_both J ?N c wall1 wall2 (JObj d1) beh = (c', Inr (Some s))"
    and bt: "bound_tokens J skew identity device now (JObj d1) beh = Inr True"
    using first again(1,6) by (auto elim!: resolve_Some)
  obtain d2 where d2: "beh = JObj d2" using bt by (rule bound_tokens_True) simp
  obtain c1 c2 ea eb where n: "json_truthy (dget d1 ''nonce'')" "json_truthy (dget d2 ''nonce'')"
    "no_seen ?N c wall1 (''att:'' @ json_str J (dget d1 ''nonce'')) = (c1, False)"
    "no_seen ?N c1 wall2 (''beh:'' @ json_str J (dget d2 ''nonce'')) = (c2, False)"
    "sbind (json_item (JObj d1) ''exp'') (py_float J) = Inr ea"
    "c' = no_add ?N (no_add ?N c2 (''att:'' @ json_str J (dget d1 ''nonce'')) ea)
            (''beh:'' @ json_str J (dget d2 ''nonce'')) eb"
    using con unfolding d2 by (rule consume_both_Some)
  have ea: "ea = e" using n(5) again(2,3) by (simp add: json_item_def ditem_def)
  have k1: "distinct (map fst c1)" using mem_nonce.seen_ok [OF c] n(3) by (metis fst_conv)
  have k2: "distinct (map fst c2)" using mem_nonce.seen_ok [OF k1] n(4) by (metis fst_conv)
  have "map_of c' (''att:'' @ json_str J (dget d1 ''nonce'')) = Some e"
    using k2 by (simp add: n(6) ea mem_nonce.add_live mem_nonce.add_ok del: map_of_dict_set)
  moreover have "distinct (map fst c')" using k2 by (simp add: n(6) mem_nonce.add_ok)
  ultimately have seen: "snd (no_seen ?N c' wall3 (''att:'' @ json_str J (dget d1 ''nonce'')))"
    using again(4) by (simp add: mem_nonce.seen_iff)
  show ?thesis
  proof (cases b)
    case True
    with again tok consume_both_seen [OF n(1,2) seen] show ?thesis by (simp add: resolve_def d2)
  next
    case False
    with again tok show ?thesis by (simp add: resolve_def)
  qed
qed

theorem behavior_single_use_witness:
  "snd (wit_resolve [] (Fin 60)) = Inr (Some (Fin 1)) \<and>
   snd (wit_resolve (fst (wit_resolve [] (Fin 60))) (Fin 61)) = Inr None"
proof -
  let ?v = "Ed25519Verifier () :: unit verifier"
  obtain d1 where d1: "open_token wit_crypto wit_json3 ?v wit_att_token = Inr (JObj d1)" "map_of d1 = map_of wit_att"
    using wit_json3_reads_back(1)
    unfolding wit_att_token_def attest_issue_def wit_att_def [symmetric] by (rule wit_opens)
  obtain d2 where d2: "open_token wit_crypto wit_json3 ?v wit_beh_token = Inr (JObj d2)" "map_of d2 = map_of wit_beh"
    using wit_json3_reads_back(2)
    unfolding wit_beh_token_def behavior_issue_def wit_beh_def [symmetric] by (rule wit_opens)
  have "fresh wit_json3 (Fin 5) (JObj wit_att) (Fin 61) = Inr True"
    "fresh wit_json3 (Fin 5) (JObj wit_beh) (Fin 61) = Inr True"
    by (simp_all add: fresh_True wit_att_def wit_beh_def payload_fields py_float_def issued_time_def zero_pyfloat_def)
  then have "bound_tokens wit_json3 (Fin 5) ''id1'' ''dev1'' (Fin 61) (JObj wit_att) (JObj wit_beh) = Inr True"
    by (simp add: bound_tokens_def dget_def wit_att_def wit_beh_def payload_fields)
  then have b: "bound_tokens wit_json3 (Fin 5) ''id1'' ''dev1'' (Fin 61) (JObj d1) (JObj d2) = Inr True"
    by (simp add: bound_tokens_cong [OF d1(2) d2(2)])
  have e: "map_of d1 ''exp'' = Some (JFloat (Fin 300))"
    by (simp add: d1(2) wit_att_def payload_fields issued_time_def zero_pyfloat_def)
  have "snd (wit_resolve (fst (wit_resolve [] (Fin 60))) (Fin 61)) = Inr None"
    unfolding wit_resolve_accepts fst_conv unfolding wit_resolve_def
    by (rule behavior_single_use [OF wit_resolve_accepts [unfolded wit_resolve_def] _ d1(1) e _ _ b d2(1),
          where e = "Fin 300"]) (simp_all add: py_float_def)
  then show ?thesis by (simp add: wit_resolve_accepts)
qed


text \<open>
  What the resolver may raise: only for two tokens that both verify, and then only because a signed
  payload is not a dictionary or holds an integer too large for a float.
\<close>
theorem resolver_raises_only_on_signed:
  assumes "snd (resolve C J va vb N skew c t1 t2 identity device now wall1 wall2) = Inl e"
  shows "e \<in> {AttributeError, OverflowError} \<and>
    (\<exists>ta tb att beh. t1 = Some ta \<and> t2 = Some tb \<and>
       open_token C J va ta = Inr att \<and> open_token C J vb tb = Inr beh)"
proof -
  obtain ta tb where t: "t1 = Some ta" "t2 = Some tb" "ta \<noteq> []" "tb \<noteq> []"
    using assms by (auto simp: resolve_def split: option.splits if_splits)
  with assms obtain att beh where o: "open_token C J va ta = Inr att" "open_token C J vb tb = Inr beh"
    by (auto simp: resolve_def split: sum.splits)
  have "e \<in> {AttributeError, OverflowError}"
  proof (cases "bound_tokens J skew identity device now att beh")
    case (Inl x)
    with assms t o bound_tokens_Inl [OF Inl] show ?thesis by (simp add: resolve_def)
  next
    case (Inr b)
    with assms t o have yes: "bound_tokens J skew identity device now att beh = Inr True"
      by (cases b) (simp_all add: resolve_def)
    obtain d1 d2 where d: "att = JObj d1" "beh = JObj d2"
      "fresh J skew att now = Inr True" "fresh J skew beh now = Inr True"
      using yes by (rule bound_tokens_True)
    have "snd (consume_both J N c wall1 wall2 att beh) = Inl e"
      using assms by (simp add: t(1,2) resolve_open [OF o t(3,4) yes])
    then have "e = OverflowError"
      unfolding d(1,2) by (rule consume_both_Inl [OF d(3,4) [unfolded d(1,2)]])
    then show ?thesis by simp
  qed
  with t o show ?thesis by blast
qed

theorem resolver_raises_only_on_signed_witness:
  "\<exists>e att. snd (wit_big_resolve) = Inl e \<and> e \<in> {AttributeError, OverflowError} \<and>
     open_token wit_crypto (wit_pair wit_big_att wit_beh) (Ed25519Verifier ())
       (sign_token wit_crypto (wit_pair wit_big_att wit_beh) (Ed25519Signer ()) wit_big_att) = Inr att"
  using resolver_raises_only_on_signed [OF wit_big_raises [unfolded wit_big_resolve_def]] wit_big_raises by blast


text \<open>
  The documented promise that the resolver never raises does not hold for signed payloads: an expiry
  that is an integer beyond the float range leaves it as an uncaught \<^verbatim>\<open>OverflowError\<close>.
\<close>
theorem resolver_overflows:
  assumes "open_token C J va ta = Inr (JObj d1)" "open_token C J vb tb = Inr (JObj d2)" "ta \<noteq> []" "tb \<noteq> []"
    and "map_of d1 ''kind'' = Some (JStr ''device_attestation'')"
    and "map_of d2 ''kind'' = Some (JStr ''behavior_similarity'')"
    and "map_of d1 ''exp'' = Some (JInt n)" "\<not> is_finite (fl (of_int n))"
  shows "resolve C J va vb N skew c (Some ta) (Some tb) identity device now wall1 wall2 = (c, Inl OverflowError)"
  using assms by (rule resolve_overflow)

theorem resolver_overflows_witness: "snd wit_big_resolve = Inl OverflowError"
proof -
  obtain d1 where d1: "open_token wit_crypto (wit_pair wit_big_att wit_beh) (Ed25519Verifier ())
     (sign_token wit_crypto (wit_pair wit_big_att wit_beh) (Ed25519Signer ()) wit_big_att) = Inr (JObj d1)"
    "map_of d1 = map_of wit_big_att"
    using wit_big_reads_back(1) by (rule wit_opens)
  obtain d2 where d2: "open_token wit_crypto (wit_pair wit_big_att wit_beh) (Ed25519Verifier ())
     (sign_token wit_crypto (wit_pair wit_big_att wit_beh) (Ed25519Signer ()) wit_beh) = Inr (JObj d2)"
    "map_of d2 = map_of wit_beh"
    using wit_big_reads_back(2) by (rule wit_opens)
  have f: "map_of d1 ''kind'' = Some (JStr ''device_attestation'')" "map_of d1 ''exp'' = Some (JInt (2 ^ 1024))"
    "map_of d2 ''kind'' = Some (JStr ''behavior_similarity'')"
    unfolding d1(2) d2(2) wit_big_att_def wit_beh_def by (simp_all only: payload_fields) simp_all
  show ?thesis unfolding wit_big_resolve_def
    by (subst resolver_overflows [OF d1(1) d2(1) _ _ f(1,3,2) big_int_not_finite]) simp_all
qed

text \<open>
  The server-side score is in [0, 1] whatever the template and the observation are: empty, of
  different lengths, all zero, or with infinities and NaNs.
\<close>
theorem recompute_in_unit: "fin_in 0 1 (recompute_behavior template observed)"
proof (cases "template = [] \<or> length template \<noteq> length observed")
  case True
  then show ?thesis by (simp add: recompute_behavior_def)
next
  case False
  let ?total = "py_sum (map abs template)"
  let ?dist = "py_sum (map (\<lambda>(t, x). \<bar>t - x\<bar>) (zip template observed))"
  have "nonneg_or_nan ?total" "nonneg_or_nan ?dist"
    by (auto intro!: nonneg_or_nan_py_sum)
  then have "nonneg_or_nan (fdiv ?dist (if ?total = Fin 0 then Fin 1 else ?total))"
    by (intro nonneg_or_nan_fdiv) (simp_all add: nonneg_or_nan_def [of "Fin 1"])
  then have "fin_in 0 1 (py_max (Fin 0) (Fin 1 - fdiv ?dist (if ?total = Fin 0 then Fin 1 else ?total)))"
    by (rule one_minus_clamped)
  with False show ?thesis by (simp add: recompute_behavior_def Let_def)
qed

text \<open>
  The resolver the engine builds from its two public keys only ever yields similarities in [0, 1]: this
  is the assumption the engine's own theorems make of its behaviour signal, whatever the clock does.
\<close>
theorem built_resolver_ok:
  assumes "te_resolver eng = build_resolver C J has_ed25519 clock attest_pubkey behavior_pubkey"
  shows "resolver_ok eng"
  unfolding resolver_ok_def
proof (intro allI impI)
  fix n now e sim
  assume r: "snd (resolve_behavior eng n now e) = Some sim"
  then obtain va vb where "te_resolver eng = Some (event_resolver C J clock va vb)"
    by (auto simp: resolve_behavior_def assms build_resolver_def split: sum.splits)
  with r obtain n' where "event_resolver C J clock va vb n now e = (n', Inr (Some sim))"
    by (auto simp: resolve_behavior_def split: prod.splits sum.splits)
  then show "fin_in 0 1 sim"
    by (auto simp: event_resolver_def Let_def split: prod.splits intro: resolve_unit)
qed

definition wit_resolver_engine :: "(unit, mem_nonce \<times> nat) trust_engine" where
  "wit_resolver_engine = engine_default wit_lib (te_model wit_engine)
     (build_resolver wit_crypto wit_json3 True (\<lambda>_. Fin 60) (b64e ''p'') (b64e ''p''))"

theorem built_resolver_ok_witness:
  "te_resolver wit_resolver_engine \<noteq> None \<and> resolver_ok wit_resolver_engine"
proof
  show "resolver_ok wit_resolver_engine"
    by (rule built_resolver_ok) (simp add: wit_resolver_engine_def engine_default_def)
  show "te_resolver wit_resolver_engine \<noteq> None"
    by (simp add: wit_resolver_engine_def engine_default_def build_resolver_def build_verifier_def
        ed25519_from_b64_def wit_crypto_def)
qed

end
