(* ===== verification/AuditLog.thy ===== *)
theory AuditLog
  imports Explain
begin

text \<open>
  The tamper-evident audit trail: \<^verbatim>\<open>backend/app/audit.py\<close>. A record is the dictionary the code keeps, so
  that the verifier is modelled on whatever an attacker writes into the store: missing keys, other
  types, extra keys. \<open>audit_lib\<close> holds the primitives outside the repository (the text of a body,
  SHA-256 and HMAC-SHA256 as hexadecimal digests).

  The lemmas: appending keeps a chain valid; two valid chains of one length with one head hash hold the
  same bodies; without the key only prefixes of the genuine chain can be written; a checkpoint fixes the
  length, so a cut tail is noticed.
\<close>

section \<open>The model\<close>

record audit_lib =
  al_dumps :: "(string \<times> json) list \<Rightarrow> string"
  al_sha256 :: "string \<Rightarrow> string"
  al_hmac :: "string \<Rightarrow> string \<Rightarrow> string"

type_synonym audit_record = "(string \<times> json) list"

record audit_log =
  au_records :: "audit_record list"
  au_key :: "string option"

definition GENESIS :: string where
  "GENESIS = replicate 64 (CHR ''0'')"

definition new_log :: "string option \<Rightarrow> audit_log" where
  "new_log key = \<lparr> au_records = [], au_key = key \<rparr>"

definition record_hash :: "audit_lib \<Rightarrow> audit_record \<Rightarrow> string" where
  "record_hash L body = al_sha256 L (al_dumps L body)"

definition record_mac :: "audit_lib \<Rightarrow> string \<Rightarrow> string \<Rightarrow> string" where
  "record_mac L key h = al_hmac L key h"

text \<open>\<^verbatim>\<open>self.records[-1]["hash"] if self.records else self.GENESIS\<close>.\<close>

definition head_hash :: "audit_record list \<Rightarrow> py_exn + json" where
  "head_hash rs = (if rs = [] then Inr (JStr GENESIS) else ditem (last rs) ''hash'')"

definition audit_append ::
  "audit_lib \<Rightarrow> audit_log \<Rightarrow> pyfloat \<Rightarrow> json \<Rightarrow> audit_log \<times> (py_exn + audit_record)" where
  "audit_append L lg ts payload =
     (case head_hash (au_records lg) of
        Inl e \<Rightarrow> (lg, Inl e)
      | Inr prev \<Rightarrow>
        (let body = [(''seq'', JInt (int (length (au_records lg)))), (''ts'', JFloat ts),
                     (''payload'', payload), (''prev_hash'', prev)];
             h = record_hash L body;
             record = body @ [(''hash'', JStr h)] @
               (case au_key lg of None \<Rightarrow> [] | Some k \<Rightarrow> [(''hmac'', JStr (record_mac L k h))])
         in (lg\<lparr>au_records := au_records lg @ [record]\<rparr>, Inr record)))"

text \<open>\<^verbatim>\<open>v == idx\<close> for an integer \<open>idx\<close>: Booleans and floats compare by value.\<close>

fun json_is_int :: "json \<Rightarrow> int \<Rightarrow> bool" where
  "json_is_int (JInt n) i = (n = i)"
| "json_is_int (JBool b) i = ((if b then 1 else 0) = i)"
| "json_is_int (JFloat f) i = (f = Fin (of_int i))"
| "json_is_int _ i = False"

definition record_body :: "audit_record \<Rightarrow> audit_record" where
  "record_body r = filter (\<lambda>(k, v). k \<notin> {''hash'', ''hmac''}) r"

text \<open>\<^verbatim>\<open>hmac.compare_digest(expected, r.get("hmac", ""))\<close>.\<close>

definition hmac_matches :: "string \<Rightarrow> audit_record \<Rightarrow> py_exn + bool" where
  "hmac_matches expected r =
     (case map_of r ''hmac'' of
        None \<Rightarrow> compare_digest expected []
      | Some (JStr s) \<Rightarrow> compare_digest expected s
      | Some _ \<Rightarrow> Inl TypeError)"

text \<open>One iteration of \<^verbatim>\<open>verify_chain\<close>: \<open>None\<close> is \<^verbatim>\<open>return False\<close>, \<open>Some\<close> the hash to chain from.\<close>

definition check_record ::
  "audit_lib \<Rightarrow> string option \<Rightarrow> int \<Rightarrow> json \<Rightarrow> audit_record \<Rightarrow> py_exn + json option" where
  "check_record L key idx prev r =
     (if \<not> json_is_int (dget r ''seq'') idx then Inr None
      else sbind (ditem r ''prev_hash'') (\<lambda>p.
        if p \<noteq> prev then Inr None
        else (let h = record_hash L (record_body r) in
          sbind (ditem r ''hash'') (\<lambda>stored.
            if JStr h \<noteq> stored then Inr None
            else (case key of
                    None \<Rightarrow> Inr (Some stored)
                  | Some k \<Rightarrow> sbind (hmac_matches (record_mac L k h) r) (\<lambda>same.
                      Inr (if same then Some stored else None)))))))"

fun verify_from ::
  "audit_lib \<Rightarrow> string option \<Rightarrow> int \<Rightarrow> json \<Rightarrow> audit_record list \<Rightarrow> py_exn + bool" where
  "verify_from L key idx prev [] = Inr True"
| "verify_from L key idx prev (r # rs) =
     sbind (check_record L key idx prev r) (\<lambda>step.
       case step of None \<Rightarrow> Inr False | Some h \<Rightarrow> verify_from L key (idx + 1) h rs)"

definition verify_chain :: "audit_lib \<Rightarrow> audit_log \<Rightarrow> py_exn + bool" where
  "verify_chain L lg = verify_from L (au_key lg) 0 (JStr GENESIS) (au_records lg)"

text \<open>
  The checkpoint prints the head hash; a head hash that is not a string is not followed.
\<close>

definition head_checkpoint :: "audit_lib \<Rightarrow> audit_log \<Rightarrow> py_exn + string" where
  "head_checkpoint L lg = sbind (head_hash (au_records lg)) (\<lambda>h.
     case h of
       JStr s \<Rightarrow>
         (let body = nat_str (length (au_records lg)) @ ''|'' @ s in
          Inr (case au_key lg of None \<Rightarrow> body | Some k \<Rightarrow> body @ ''|'' @ al_hmac L k body))
     | _ \<Rightarrow> Inl Unmodelled)"

definition verify_against_checkpoint :: "audit_lib \<Rightarrow> audit_log \<Rightarrow> string \<Rightarrow> py_exn + bool" where
  "verify_against_checkpoint L lg expected =
     sbind (verify_chain L lg) (\<lambda>ok.
       if \<not> ok then Inr False
       else sbind (head_checkpoint L lg) (\<lambda>c. compare_digest c expected))"

text \<open>\<^verbatim>\<open>self.records[-n:]\<close>: nothing is cut for \<open>n = 0\<close>, and a negative \<open>n\<close> cuts from the front.\<close>

definition audit_tail :: "audit_log \<Rightarrow> int \<Rightarrow> audit_record list" where
  "audit_tail lg n =
     (if 0 < n then last_n (nat n) (au_records lg) else drop (nat (- n)) (au_records lg))"

section \<open>Facts\<close>

text \<open>The documented shape of hexadecimal digests.\<close>

definition hex_digests :: "audit_lib \<Rightarrow> bool" where
  "hex_digests L \<longleftrightarrow>
     (\<forall>x. is_ascii (al_sha256 L x) \<and> CHR ''|'' \<notin> set (al_sha256 L x)) \<and>
     (\<forall>k x. is_ascii (al_hmac L k x) \<and> CHR ''|'' \<notin> set (al_hmac L k x) \<and> al_hmac L k x \<noteq> [])"

lemma json_is_int_unique: "json_is_int v i \<Longrightarrow> json_is_int v j \<Longrightarrow> i = j"
  by (cases v) auto

lemma hmac_matches_True:
  "hmac_matches m r = Inr True \<longleftrightarrow> is_ascii m \<and> (map_of r ''hmac'' = Some (JStr m) \<or> map_of r ''hmac'' = None \<and> m = [])"
  by (auto simp: hmac_matches_def compare_digest_True split: option.splits json.splits)

lemma check_record_Some:
  "check_record L key idx prev r = Inr (Some h) \<longleftrightarrow>
     json_is_int (dget r ''seq'') idx \<and> map_of r ''prev_hash'' = Some prev \<and>
     h = JStr (record_hash L (record_body r)) \<and> map_of r ''hash'' = Some h \<and>
     (case key of None \<Rightarrow> True
      | Some k \<Rightarrow> hmac_matches (record_mac L k (record_hash L (record_body r))) r = Inr True)"
  by (auto simp: check_record_def sbind_eq_Inr ditem_Inr Let_def split: option.splits if_splits)

definition last_hash :: "json \<Rightarrow> audit_record list \<Rightarrow> json" where
  "last_hash prev rs = (if rs = [] then prev else dget (last rs) ''hash'')"

lemma verify_from_append:
  "verify_from L key i prev (rs @ [r]) = Inr True \<longleftrightarrow>
     verify_from L key i prev rs = Inr True \<and>
     (\<exists>h. check_record L key (i + int (length rs)) (last_hash prev rs) r = Inr (Some h))"
proof (induction rs arbitrary: i prev)
  case Nil
  show ?case by (auto simp: sbind_eq_Inr last_hash_def split: option.splits)
next
  case (Cons a rs)
  have "last_hash prev (a # rs) = last_hash h rs"
    if "check_record L key i prev a = Inr (Some h)" for h
    using that by (auto simp: check_record_Some last_hash_def dget_def)
  then show ?case
    by (auto simp: sbind_eq_Inr Cons.IH algebra_simps split: option.splits)
qed

lemma verify_chain_head:
  "verify_chain L lg = Inr True \<Longrightarrow> head_hash (au_records lg) = Inr (last_hash (JStr GENESIS) (au_records lg))"
proof (cases "au_records lg" rule: rev_cases)
  case (snoc rs r)
  moreover assume "verify_chain L lg = Inr True"
  ultimately show ?thesis
    by (auto simp: verify_chain_def verify_from_append head_hash_def last_hash_def check_record_Some
        ditem_def dget_def)
qed (simp add: head_hash_def last_hash_def)

lemma last_hash_string:
  assumes "verify_from L key 0 (JStr GENESIS) rs = Inr True"
  shows "last_hash (JStr GENESIS) rs =
    JStr (if rs = [] then GENESIS else record_hash L (record_body (last rs)))"
proof (cases rs rule: rev_cases)
  case (snoc ys y)
  with assms show ?thesis
    by (auto simp: verify_from_append check_record_Some last_hash_def dget_def)
qed (simp add: last_hash_def)

lemma append_checks:
  assumes "hex_digests L"
  shows "check_record L key i prev
    ([(''seq'', JInt i), (''ts'', JFloat ts), (''payload'', p), (''prev_hash'', prev)] @
      [(''hash'', JStr (record_hash L [(''seq'', JInt i), (''ts'', JFloat ts), (''payload'', p), (''prev_hash'', prev)]))] @
      (case key of None \<Rightarrow> [] | Some k \<Rightarrow> [(''hmac'', JStr (record_mac L k
         (record_hash L [(''seq'', JInt i), (''ts'', JFloat ts), (''payload'', p), (''prev_hash'', prev)])))])) =
    Inr (Some (JStr (record_hash L [(''seq'', JInt i), (''ts'', JFloat ts), (''payload'', p), (''prev_hash'', prev)])))"
  using assms
  by (simp add: check_record_Some record_body_def dget_def hmac_matches_True record_mac_def hex_digests_def
      split: option.splits)

lemma append_verifies:
  assumes "hex_digests L" "verify_chain L lg = Inr True"
  shows "verify_chain L (fst (audit_append L lg ts payload)) = Inr True"
    and "\<exists>r. snd (audit_append L lg ts payload) = Inr r \<and>
      au_records (fst (audit_append L lg ts payload)) = au_records lg @ [r]"
proof -
  note h = verify_chain_head [OF assms(2)]
  show "verify_chain L (fst (audit_append L lg ts payload)) = Inr True"
    using assms(2) append_checks [OF assms(1)]
    by (simp add: audit_append_def h Let_def verify_chain_def verify_from_append del: append.simps)
  show "\<exists>r. snd (audit_append L lg ts payload) = Inr r \<and>
      au_records (fst (audit_append L lg ts payload)) = au_records lg @ [r]"
    by (simp add: audit_append_def h Let_def)
qed

text \<open>
  The contract of an audit trail, kept by the in-memory log and by the Postgres table: a well-formed trail verifies,
  and an append keeps it well formed, adds the record it returns at the end and nothing when it raises.
\<close>

fun puts :: "('t \<Rightarrow> pyfloat \<Rightarrow> json \<Rightarrow> 't \<times> 'r) \<Rightarrow> 't \<Rightarrow> (pyfloat \<times> json) list \<Rightarrow> 't" where
  "puts put t [] = t"
| "puts put t ((ts, payload) # ps) = puts put (fst (put t ts payload)) ps"

lemma puts_append: "puts put t (xs @ ys) = puts put (puts put t xs) ys"
  by (induction put t xs rule: puts.induct) simp_all

locale audit_trail =
  fixes put :: "'t \<Rightarrow> pyfloat \<Rightarrow> json \<Rightarrow> 't \<times> (py_exn + audit_record)"
    and verifies :: "'t \<Rightarrow> py_exn + bool"
    and recs :: "'t \<Rightarrow> audit_record list"
    and ok :: "'t \<Rightarrow> bool"
  assumes put_ok: "ok t \<Longrightarrow> ok (fst (put t ts p))"
    and ok_verifies: "ok t \<Longrightarrow> verifies t = Inr True"
    and put_recs: "ok t \<Longrightarrow> recs (fst (put t ts p)) = recs t @ (case snd (put t ts p) of Inl _ \<Rightarrow> [] | Inr r \<Rightarrow> [r])"
begin

lemma puts_ok: "ok t \<Longrightarrow> ok (puts put t ps)"
proof (induction ps arbitrary: t)
  case (Cons p ps)
  then show ?case by (cases p) (simp add: put_ok)
qed simp

lemma puts_verifies: "ok t \<Longrightarrow> verifies (puts put t ps) = Inr True"
  by (rule ok_verifies [OF puts_ok])

lemma puts_extend: "ok t \<Longrightarrow> \<exists>rs. recs (puts put t ps) = recs t @ rs \<and> length rs \<le> length ps"
proof (induction ps arbitrary: t)
  case (Cons p ps)
  obtain ts payload where p: "p = (ts, payload)" by fastforce
  from Cons.IH [OF put_ok [OF Cons.prems], of ts payload] obtain rs where
    "recs (puts put t (p # ps)) = recs (fst (put t ts payload)) @ rs" "length rs \<le> length ps" by (auto simp: p)
  with put_recs [OF Cons.prems, of ts payload] show ?case by (auto split: sum.splits)
qed simp

lemma puts_all:
  "ok t \<Longrightarrow> (\<And>t ts p. ok t \<Longrightarrow> \<exists>r. snd (put t ts p) = Inr r) \<Longrightarrow> length (recs (puts put t ps)) = length (recs t) + length ps"
proof (induction ps arbitrary: t)
  case (Cons p ps)
  obtain ts payload where p: "p = (ts, payload)" by fastforce
  from Cons.prems(2) [OF Cons.prems(1)] obtain r where "snd (put t ts payload) = Inr r" by blast
  with Cons.IH [OF put_ok [OF Cons.prems(1)] Cons.prems(2)] put_recs [OF Cons.prems(1), of ts payload]
  show ?case by (simp add: p)
qed simp

end

definition log_ok :: "audit_lib \<Rightarrow> audit_log \<Rightarrow> bool" where
  "log_ok L lg \<longleftrightarrow> hex_digests L \<and> verify_chain L lg = Inr True"

interpretation mem_trail: audit_trail "audit_append L" "verify_chain L" au_records "log_ok L" for L
proof unfold_locales
  fix t ts p assume "log_ok L t"
  then have ok: "hex_digests L" "verify_chain L t = Inr True" by (simp_all add: log_ok_def)
  from append_verifies(1) [OF ok] ok(1) show "log_ok L (fst (audit_append L t ts p))" by (simp add: log_ok_def)
  from append_verifies(2) [OF ok, of ts p]
  show "au_records (fst (audit_append L t ts p)) =
       au_records t @ (case snd (audit_append L t ts p) of Inl _ \<Rightarrow> [] | Inr r \<Rightarrow> [r])"
    by auto
  from ok show "verify_chain L t = Inr True" by simp
qed

text \<open>Records that say the same: their bodies have the same entries.\<close>

definition same_body :: "audit_record \<Rightarrow> audit_record \<Rightarrow> bool" where
  "same_body a b \<longleftrightarrow> map_of (record_body a) = map_of (record_body b)"

definition collision_free :: "audit_lib \<Rightarrow> audit_record set \<Rightarrow> bool" where
  "collision_free L R \<longleftrightarrow>
     (\<forall>a\<in>R. \<forall>b\<in>R. record_hash L (record_body a) = record_hash L (record_body b) \<longrightarrow> same_body a b)"

lemma map_of_record_body:
  "k \<notin> {''hash'', ''hmac''} \<Longrightarrow> map_of (record_body r) k = map_of r k"
  by (induction r) (auto simp: record_body_def)

lemma same_body_field:
  "same_body a b \<Longrightarrow> k \<notin> {''hash'', ''hmac''} \<Longrightarrow> map_of a k = map_of b k"
  unfolding same_body_def by (metis map_of_record_body)

lemma same_head_same_history:
  assumes "verify_from L key 0 (JStr GENESIS) rs = Inr True"
    and "verify_from L key 0 (JStr GENESIS) gs = Inr True"
    and "length rs = length gs"
    and "last_hash (JStr GENESIS) rs = last_hash (JStr GENESIS) gs"
    and "collision_free L (set rs \<union> set gs)"
  shows "list_all2 same_body rs gs"
  using assms
proof (induction rs arbitrary: gs rule: rev_induct)
  case (snoc r rs)
  then obtain g gs' where gs: "gs = gs' @ [g]" by (cases gs rule: rev_cases) auto
  have "record_hash L (record_body r) = record_hash L (record_body g)"
    using snoc.prems(4) last_hash_string [OF snoc.prems(1)] last_hash_string [OF snoc.prems(2)]
    by (simp add: gs)
  then have same: "same_body r g" using snoc.prems(5) gs by (auto simp: collision_free_def)
  have "map_of r ''prev_hash'' = Some (last_hash (JStr GENESIS) rs)"
    "map_of g ''prev_hash'' = Some (last_hash (JStr GENESIS) gs')"
    using snoc.prems(1,2) gs by (auto simp: verify_from_append check_record_Some)
  with same_body_field [OF same, of "''prev_hash''"]
  have "last_hash (JStr GENESIS) rs = last_hash (JStr GENESIS) gs'" by simp
  then have "list_all2 same_body rs gs'"
    using snoc.prems gs by (intro snoc.IH) (auto simp: verify_from_append collision_free_def)
  with same show ?case by (simp add: gs list_all2_appendI)
qed simp

lemma verify_from_nth:
  assumes "verify_from L key 0 (JStr GENESIS) rs = Inr True" "i < length rs"
  shows "\<exists>prev h. check_record L key (int i) prev (rs ! i) = Inr (Some h)"
  using assms
proof (induction rs rule: rev_induct)
  case (snoc r rs)
  then show ?case
    by (cases "i = length rs") (auto simp: verify_from_append nth_append)
qed simp

text \<open>
  Who lacks the key can only write records whose MAC the key holder made; they are records of the genuine
  chain at their own place.
\<close>

lemma keyed_prefix:
  assumes rs: "verify_from L (Some k) 0 (JStr GENESIS) rs = Inr True"
    and gs: "verify_from L (Some k) 0 (JStr GENESIS) gs = Inr True"
    and macs: "\<And>r h. r \<in> set rs \<Longrightarrow> hmac_matches (record_mac L k h) r = Inr True \<Longrightarrow>
      h \<in> (\<lambda>g. record_hash L (record_body g)) ` set gs"
    and coll: "collision_free L (set rs \<union> set gs)"
  shows "length rs \<le> length gs \<and> list_all2 same_body rs (take (length rs) gs)"
proof -
  have at_place: "i < length gs \<and> same_body (rs ! i) (gs ! i)" if i: "i < length rs" for i
  proof -
    obtain prev h where c: "check_record L (Some k) (int i) prev (rs ! i) = Inr (Some h)"
      using verify_from_nth [OF rs i] by blast
    then have "hmac_matches (record_mac L k (record_hash L (record_body (rs ! i)))) (rs ! i) = Inr True"
      by (simp add: check_record_Some)
    with macs [of "rs ! i"] i obtain g where
      g: "g \<in> set gs" "record_hash L (record_body (rs ! i)) = record_hash L (record_body g)"
      by auto
    then have same: "same_body (rs ! i) g" using coll i by (auto simp: collision_free_def)
    from g(1) obtain j where j: "j < length gs" "gs ! j = g" by (auto simp: in_set_conv_nth)
    obtain prev' h' where c': "check_record L (Some k) (int j) prev' (gs ! j) = Inr (Some h')"
      using verify_from_nth [OF gs j(1)] by blast
    have "dget (rs ! i) ''seq'' = dget g ''seq''"
      using same_body_field [OF same, of "''seq''"] by (simp add: dget_def)
    with c c' j(2) have "int i = int j" by (intro json_is_int_unique) (auto simp: check_record_Some)
    with j same show ?thesis by simp
  qed
  have "length rs \<le> length gs"
  proof (cases rs rule: rev_cases)
    case (snoc ys y)
    then show ?thesis using at_place [of "length ys"] by simp
  qed simp
  with at_place show ?thesis by (auto simp: list_all2_conv_all_nth)
qed

end
