(* ===== verification/AuditProps.thy ===== *)
theory AuditProps
  imports AuditLog
begin

text \<open>
  The properties of the audit trail (\<^verbatim>\<open>backend/app/audit.py\<close>), each with a witness on a log of two records.
\<close>

section \<open>Decimal lengths\<close>

lemma nat_str_digits: "c \<in> set (nat_str n) \<Longrightarrow> \<exists>d < 10. c = char_of (48 + d :: nat)"
proof (induction n rule: nat_str.induct)
  case (1 n)
  show ?case
  proof (cases "n < 10")
    case True
    with "1.prems" have "c = char_of (48 + n)" by (simp add: nat_str.simps [of n])
    with True show ?thesis by blast
  next
    case False
    with "1.prems" have "c \<in> set (nat_str (n div 10)) \<or> c = char_of (48 + n mod 10)"
      by (auto simp: nat_str.simps [of n])
    moreover have "n mod 10 < 10" by simp
    ultimately show ?thesis using "1.IH" [OF False] by blast
  qed
qed

lemma nat_str_no_bar: "CHR ''|'' \<notin> set (nat_str n)"
proof
  assume "CHR ''|'' \<in> set (nat_str n)"
  then obtain d :: nat where "d < 10" "CHR ''|'' = char_of (48 + d)" using nat_str_digits by blast
  then have "of_char (CHR ''|'') = 48 + d" "d < 10" by (simp_all add: of_char_of)
  then show False by simp
qed

lemma nat_str_not_Nil [simp]: "nat_str n \<noteq> []"
  by (subst nat_str.simps) simp

lemma Nil_not_nat_str [simp]: "[] \<noteq> nat_str n"
  using nat_str_not_Nil [of n] by metis

lemma digit_char_inj: "a < 10 \<Longrightarrow> b < 10 \<Longrightarrow> char_of (48 + a :: nat) = char_of (48 + b) \<Longrightarrow> a = b"
  by (drule arg_cong [where f = "of_char :: char \<Rightarrow> nat"]) (simp add: of_char_of)

lemma nat_str_inj: "nat_str m = nat_str n \<Longrightarrow> m = n"
proof (induction m arbitrary: n rule: nat_str.induct)
  case (1 m)
  have e: "(if m < 10 then [char_of (48 + m)] else nat_str (m div 10) @ [char_of (48 + m mod 10)]) =
      (if n < 10 then [char_of (48 + n)] else nat_str (n div 10) @ [char_of (48 + n mod 10)])"
    using "1.prems" by (metis nat_str.simps)
  show ?case
  proof (cases "m < 10 \<or> n < 10")
    case True
    with e show ?thesis by (auto split: if_splits dest: digit_char_inj)
  next
    case False
    with e have "nat_str (m div 10) = nat_str (n div 10)" "m mod 10 = n mod 10"
      by (auto dest: digit_char_inj [rotated 2])
    with False "1.IH" [of "n div 10"] have "m div 10 = n div 10" "m mod 10 = n mod 10" by simp_all
    then show ?thesis by (metis div_mult_mod_eq)
  qed
qed

lemma split_at_bar:
  assumes "a @ CHR ''|'' # x = b @ CHR ''|'' # y" "CHR ''|'' \<notin> set a" "CHR ''|'' \<notin> set b"
  shows "a = b \<and> x = y"
  using assms
proof (induction a arbitrary: b)
  case Nil
  then show ?case by (cases b) auto
next
  case (Cons c a)
  then show ?case by (cases b) auto
qed

section \<open>Prefixes and checkpoints\<close>

lemma verify_from_take:
  "verify_from L key i prev rs = Inr True \<Longrightarrow> verify_from L key i prev (take n rs) = Inr True"
proof (induction rs arbitrary: i prev n)
  case (Cons r rs)
  then show ?case
    by (cases n) (auto simp: sbind_eq_Inr split: option.splits)
qed simp

lemma head_checkpoint_Inr:
  assumes "head_checkpoint L \<lparr> au_records = rs, au_key = key \<rparr> = Inr cp"
  obtains s where "head_hash rs = Inr (JStr s)"
    "cp = nat_str (length rs) @ CHR ''|'' # s @ (case key of None \<Rightarrow> []
       | Some k \<Rightarrow> CHR ''|'' # al_hmac L k (nat_str (length rs) @ CHR ''|'' # s))"
proof -
  obtain h where h: "head_hash rs = Inr h" using assms by (auto simp: head_checkpoint_def sbind_eq_Inr)
  with assms obtain s where "h = JStr s" by (cases h) (auto simp: head_checkpoint_def)
  with assms h show ?thesis
    by (intro that [of s]) (auto simp: head_checkpoint_def Let_def split: option.splits)
qed

lemma checkpoint_length:
  assumes "head_checkpoint L \<lparr> au_records = rs, au_key = key \<rparr> = Inr cp"
    and "head_checkpoint L \<lparr> au_records = gs, au_key = key \<rparr> = Inr cp"
  shows "length rs = length gs"
proof -
  obtain s where s: "cp = nat_str (length rs) @ CHR ''|'' # s @ (case key of None \<Rightarrow> []
       | Some k \<Rightarrow> CHR ''|'' # al_hmac L k (nat_str (length rs) @ CHR ''|'' # s))"
    using assms(1) by (rule head_checkpoint_Inr)
  obtain t where t: "cp = nat_str (length gs) @ CHR ''|'' # t @ (case key of None \<Rightarrow> []
       | Some k \<Rightarrow> CHR ''|'' # al_hmac L k (nat_str (length gs) @ CHR ''|'' # t))"
    using assms(2) by (rule head_checkpoint_Inr)
  have "nat_str (length rs) = nat_str (length gs)"
    using split_at_bar [OF trans [OF s [symmetric] t] nat_str_no_bar nat_str_no_bar] by blast
  then show ?thesis by (rule nat_str_inj)
qed

lemma genesis_no_bar: "CHR ''|'' \<notin> set GENESIS"
  by (simp add: GENESIS_def)

lemma head_no_bar:
  assumes "hex_digests L" "verify_chain L \<lparr> au_records = rs, au_key = key \<rparr> = Inr True" "head_hash rs = Inr (JStr s)"
  shows "CHR ''|'' \<notin> set s"
  using assms verify_chain_head [OF assms(2)] last_hash_string [of L key rs] genesis_no_bar
  by (auto simp: verify_chain_def record_hash_def hex_digests_def split: if_splits)

lemma checkpoint_head:
  assumes hex: "hex_digests L"
    and v: "verify_chain L \<lparr> au_records = rs, au_key = key \<rparr> = Inr True"
      "verify_chain L \<lparr> au_records = gs, au_key = key \<rparr> = Inr True"
    and c: "head_checkpoint L \<lparr> au_records = rs, au_key = key \<rparr> = Inr cp"
      "head_checkpoint L \<lparr> au_records = gs, au_key = key \<rparr> = Inr cp"
  shows "last_hash (JStr GENESIS) rs = last_hash (JStr GENESIS) gs"
proof -
  obtain s where s: "head_hash rs = Inr (JStr s)" "cp = nat_str (length rs) @ CHR ''|'' # s @ (case key of None \<Rightarrow> []
       | Some k \<Rightarrow> CHR ''|'' # al_hmac L k (nat_str (length rs) @ CHR ''|'' # s))"
    using c(1) by (rule head_checkpoint_Inr)
  obtain t where t: "head_hash gs = Inr (JStr t)" "cp = nat_str (length gs) @ CHR ''|'' # t @ (case key of None \<Rightarrow> []
       | Some k \<Rightarrow> CHR ''|'' # al_hmac L k (nat_str (length gs) @ CHR ''|'' # t))"
    using c(2) by (rule head_checkpoint_Inr)
  have "s = t"
  proof (cases key)
    case None
    with s(2) t(2) checkpoint_length [OF c] show ?thesis by simp
  next
    case (Some k)
    with s(2) t(2) checkpoint_length [OF c]
    have "s @ CHR ''|'' # al_hmac L k (nat_str (length gs) @ CHR ''|'' # s) =
        t @ CHR ''|'' # al_hmac L k (nat_str (length gs) @ CHR ''|'' # t)" by simp
    from split_at_bar [OF this head_no_bar [OF hex v(1) s(1)] head_no_bar [OF hex v(2) t(1)]]
    show ?thesis ..
  qed
  with s(1) t(1) verify_chain_head [OF v(1)] verify_chain_head [OF v(2)] show ?thesis by simp
qed

section \<open>A concrete log for the witnesses\<close>

definition wit_audit :: audit_lib where
  "wit_audit = \<lparr> al_dumps = (\<lambda>b. if dget b ''seq'' = JInt 0 then ''a'' else ''b''),
     al_sha256 = (\<lambda>x. if x = ''a'' then ''a'' else ''b''),
     al_hmac = (\<lambda>k x. if x = ''a'' then ''1'' else ''2'') \<rparr>"

lemma wit_audit_hex: "hex_digests wit_audit"
  by (simp add: hex_digests_def wit_audit_def is_ascii_def)

definition wit_r0 :: audit_record where
  "wit_r0 = [(''seq'', JInt 0), (''ts'', JFloat 1), (''payload'', JNull), (''prev_hash'', JStr GENESIS),
     (''hash'', JStr ''a''), (''hmac'', JStr ''1'')]"

definition wit_r1 :: audit_record where
  "wit_r1 = [(''seq'', JInt 1), (''ts'', JFloat 1), (''payload'', JNull), (''prev_hash'', JStr ''a''),
     (''hash'', JStr ''b''), (''hmac'', JStr ''2'')]"

lemma wit_bodies: "record_hash wit_audit (record_body wit_r0) = ''a''" "record_hash wit_audit (record_body wit_r1) = ''b''"
  by (simp_all add: record_hash_def record_body_def wit_audit_def wit_r0_def wit_r1_def dget_def)

lemma wit_checks:
  "check_record wit_audit (Some k) 0 (JStr GENESIS) wit_r0 = Inr (Some (JStr ''a''))"
  "check_record wit_audit (Some k) 1 (JStr ''a'') wit_r1 = Inr (Some (JStr ''b''))"
  by (simp_all add: check_record_Some wit_bodies)
    (simp_all add: wit_r0_def wit_r1_def dget_def hmac_matches_True record_mac_def wit_audit_def is_ascii_def)

lemma wit_verifies: "verify_chain wit_audit \<lparr> au_records = [wit_r0, wit_r1], au_key = Some k \<rparr> = Inr True"
  by (simp add: verify_chain_def wit_checks)

lemma wit_prefix_verifies: "verify_chain wit_audit \<lparr> au_records = [wit_r0], au_key = Some k \<rparr> = Inr True"
  by (simp add: verify_chain_def wit_checks)

lemma wit_collision_free: "collision_free wit_audit {wit_r0, wit_r1}"
  by (simp add: collision_free_def wit_bodies) (simp add: same_body_def)

definition wit_checkpoint :: string where
  "wit_checkpoint = nat_str 2 @ ''|b|2''"

lemma wit_has_checkpoint:
  "head_checkpoint wit_audit \<lparr> au_records = [wit_r0, wit_r1], au_key = Some k \<rparr> = Inr wit_checkpoint"
proof -
  have "nat_str 2 @ ''|b'' \<noteq> ''a''" by (simp add: nat_str.simps [of 2])
  then show ?thesis
    by (simp add: head_checkpoint_def head_hash_def wit_r1_def ditem_def Let_def wit_checkpoint_def
        numeral_2_eq_2 wit_audit_def)
qed

section \<open>Properties\<close>

lemma new_log_verifies: "verify_chain L (new_log key) = Inr True"
  by (simp add: verify_chain_def new_log_def)

text \<open>
  The log the service writes verifies after any sequence of appends, keyed or not, and holds one record
  per append.
\<close>
theorem audit_log_verifies:
  assumes "hex_digests L"
  shows "verify_chain L (puts (audit_append L) (new_log key) ps) = Inr True \<and>
    length (au_records (puts (audit_append L) (new_log key) ps)) = length ps"
proof -
  have ok: "log_ok L (new_log key)" by (simp add: log_ok_def assms new_log_verifies)
  have "\<exists>r. snd (audit_append L lg ts p) = Inr r" if "log_ok L lg" for lg ts p
    using append_verifies(2) [of L lg ts p] that by (auto simp: log_ok_def)
  from mem_trail.puts_verifies [OF ok] mem_trail.puts_all [OF ok this] show ?thesis by (simp add: new_log_def)
qed

theorem audit_log_verifies_witness:
  "verify_chain wit_audit (puts (audit_append wit_audit) (new_log (Some ''k'')) [(1, JNull), (1, JBool True)]) = Inr True"
  using audit_log_verifies [OF wit_audit_hex] by blast


text \<open>
  C6: Without the signing key, a store that still verifies is a prefix of the genuine chain: if every MAC
  in the attacker's records is one the key holder made for the genuine chain, and the bodies involved have
  no hash collision, then every record says what the genuine record at its place says. Edits, insertions,
  reorderings and recomputed chains are all refused; only cutting the tail is not.
\<close>
theorem forged_chain_is_prefix:
  assumes forged: "verify_chain L \<lparr> au_records = rs, au_key = Some k \<rparr> = Inr True"
    and genuine: "verify_chain L \<lparr> au_records = gs, au_key = Some k \<rparr> = Inr True"
    and macs: "\<And>r h. r \<in> set rs \<Longrightarrow> hmac_matches (record_mac L k h) r = Inr True \<Longrightarrow>
      h \<in> (\<lambda>g. record_hash L (record_body g)) ` set gs"
    and coll: "collision_free L (set rs \<union> set gs)"
  shows "length rs \<le> length gs \<and> list_all2 same_body rs (take (length rs) gs)"
  using keyed_prefix [OF _ _ macs coll] forged genuine by (simp add: verify_chain_def)

theorem forged_chain_is_prefix_witness:
  "verify_chain wit_audit \<lparr> au_records = [wit_r0], au_key = Some ''k'' \<rparr> = Inr True \<and>
   list_all2 same_body [wit_r0] (take 1 [wit_r0, wit_r1])"
proof -
  have "length [wit_r0] \<le> length [wit_r0, wit_r1] \<and>
      list_all2 same_body [wit_r0] (take (length [wit_r0]) [wit_r0, wit_r1])"
  proof (rule forged_chain_is_prefix [OF wit_prefix_verifies wit_verifies])
    fix r h
    assume "r \<in> set [wit_r0]" "hmac_matches (record_mac wit_audit ''k'' h) r = Inr True"
    then have "h = ''a''"
      by (auto simp: hmac_matches_True wit_r0_def record_mac_def wit_audit_def split: if_splits)
    then show "h \<in> (\<lambda>g. record_hash wit_audit (record_body g)) ` set [wit_r0, wit_r1]"
      by (simp add: wit_bodies)
  qed (use wit_collision_free in \<open>simp add: insert_commute\<close>)
  then show ?thesis by (simp add: wit_prefix_verifies)
qed


text \<open>
  A cut tail still verifies, and the checkpoint notices it: no proper prefix of a genuine log matches
  the log's checkpoint.
\<close>
theorem truncation_needs_checkpoint:
  assumes hex: "hex_digests L"
    and genuine: "verify_chain L \<lparr> au_records = gs, au_key = key \<rparr> = Inr True"
    and checkpoint: "head_checkpoint L \<lparr> au_records = gs, au_key = key \<rparr> = Inr cp"
    and cut: "n < length gs"
  shows "verify_chain L \<lparr> au_records = take n gs, au_key = key \<rparr> = Inr True \<and>
    verify_against_checkpoint L \<lparr> au_records = take n gs, au_key = key \<rparr> cp \<noteq> Inr True"
proof
  show v: "verify_chain L \<lparr> au_records = take n gs, au_key = key \<rparr> = Inr True"
    using verify_from_take genuine by (simp add: verify_chain_def)
  show "verify_against_checkpoint L \<lparr> au_records = take n gs, au_key = key \<rparr> cp \<noteq> Inr True"
  proof
    assume "verify_against_checkpoint L \<lparr> au_records = take n gs, au_key = key \<rparr> cp = Inr True"
    then have "head_checkpoint L \<lparr> au_records = take n gs, au_key = key \<rparr> = Inr cp"
      by (auto simp: verify_against_checkpoint_def v sbind_eq_Inr compare_digest_True)
    from checkpoint_length [OF this checkpoint] cut show False by simp
  qed
qed

theorem truncation_needs_checkpoint_witness:
  "verify_chain wit_audit \<lparr> au_records = [wit_r0], au_key = Some ''k'' \<rparr> = Inr True \<and>
   verify_against_checkpoint wit_audit \<lparr> au_records = [wit_r0], au_key = Some ''k'' \<rparr> wit_checkpoint \<noteq> Inr True"
  using truncation_needs_checkpoint [OF wit_audit_hex wit_verifies wit_has_checkpoint, of 1 "''k''"] by simp


text \<open>
  C24: A checkpoint kept elsewhere fixes the whole history: a store that verifies against the checkpoint
  of a genuine log has the same length and says the same in every record, unless bodies collide.
\<close>
theorem checkpoint_fixes_history:
  assumes hex: "hex_digests L"
    and genuine: "verify_chain L \<lparr> au_records = gs, au_key = key \<rparr> = Inr True"
    and checkpoint: "head_checkpoint L \<lparr> au_records = gs, au_key = key \<rparr> = Inr cp"
    and store: "verify_against_checkpoint L \<lparr> au_records = rs, au_key = key \<rparr> cp = Inr True"
    and coll: "collision_free L (set rs \<union> set gs)"
  shows "length rs = length gs \<and> list_all2 same_body rs gs"
proof -
  have v: "verify_chain L \<lparr> au_records = rs, au_key = key \<rparr> = Inr True"
    and c: "head_checkpoint L \<lparr> au_records = rs, au_key = key \<rparr> = Inr cp"
    using store by (auto simp: verify_against_checkpoint_def sbind_eq_Inr compare_digest_True split: if_splits)
  have len: "length rs = length gs" by (rule checkpoint_length [OF c checkpoint])
  moreover have "last_hash (JStr GENESIS) rs = last_hash (JStr GENESIS) gs"
    by (rule checkpoint_head [OF hex v genuine c checkpoint])
  ultimately show ?thesis
    using same_head_same_history v genuine coll by (simp add: verify_chain_def)
qed

theorem checkpoint_fixes_history_witness:
  "verify_against_checkpoint wit_audit \<lparr> au_records = [wit_r0, wit_r1], au_key = Some ''k'' \<rparr> wit_checkpoint = Inr True \<and>
   list_all2 same_body [wit_r0, wit_r1] [wit_r0, wit_r1]"
proof -
  have "is_ascii wit_checkpoint"
    by (simp add: wit_checkpoint_def nat_str.simps [of 2] is_ascii_def)
  then have "verify_against_checkpoint wit_audit \<lparr> au_records = [wit_r0, wit_r1], au_key = Some ''k'' \<rparr> wit_checkpoint
      = Inr True"
    by (simp add: verify_against_checkpoint_def wit_verifies wit_has_checkpoint)
  with checkpoint_fixes_history [OF wit_audit_hex wit_verifies wit_has_checkpoint this] wit_collision_free
  show ?thesis by simp
qed

end
