(* ===== verification/Stores.thy ===== *)
theory Stores
  imports AuditLog
begin

text \<open>
  The durable stores: \<^verbatim>\<open>PostgresAuditStore\<close> and \<^verbatim>\<open>PostgresDecisionStore\<close> of \<^verbatim>\<open>backend/app/stores.py\<close>. A table is
  the list of its rows in insertion order, with the primary key enforced by the insert; \<open>jsonb\<close> is what
  the server does to a JSON value written to a JSONB column and read back (it may refuse it). The
  append is split where the code issues its two statements, so that two pods can interleave.

  The lemmas: the table, read in order of \<open>seq\<close>, is an in-memory log, and every operation of the store is
  that log's operation; two appends from one head cannot both succeed; decisions are write-once.
\<close>

section \<open>The audit table\<close>

record pg_row =
  pg_seq :: int
  pg_ts :: pyfloat
  pg_payload :: json
  pg_prev :: string
  pg_hash :: string
  pg_hmac :: string

type_synonym audit_table = "pg_row list"

type_synonym jsonb = "json \<Rightarrow> py_exn + json"

definition pg_ordered :: "audit_table \<Rightarrow> pg_row list" where
  "pg_ordered t = sort_key pg_seq t"

text \<open>\<^verbatim>\<open>SELECT seq, hash FROM audit_log ORDER BY seq DESC LIMIT 1\<close>.\<close>

definition pg_head :: "audit_table \<Rightarrow> (int \<times> string) option" where
  "pg_head t = (if t = [] then None
     else (let r = last (pg_ordered t) in Some (pg_seq r, pg_hash r)))"

definition pg_body :: "int \<Rightarrow> pyfloat \<Rightarrow> json \<Rightarrow> string \<Rightarrow> audit_record" where
  "pg_body seq ts payload prev =
     [(''seq'', JInt seq), (''ts'', JFloat ts), (''payload'', payload), (''prev_hash'', JStr prev)]"

text \<open>The row computed from the head a connection has read.\<close>

definition pg_prepare ::
  "audit_lib \<Rightarrow> string \<Rightarrow> (int \<times> string) option \<Rightarrow> pyfloat \<Rightarrow> json \<Rightarrow> pg_row" where
  "pg_prepare L key head ts payload =
     (let seq = (case head of None \<Rightarrow> 0 | Some (s, _) \<Rightarrow> s + 1);
          prev = (case head of None \<Rightarrow> GENESIS | Some (_, h) \<Rightarrow> h);
          h = record_hash L (pg_body seq ts payload prev)
      in \<lparr> pg_seq = seq, pg_ts = ts, pg_payload = payload, pg_prev = prev, pg_hash = h,
           pg_hmac = record_mac L key h \<rparr>)"

definition pg_insert :: "jsonb \<Rightarrow> audit_table \<Rightarrow> pg_row \<Rightarrow> audit_table \<times> (py_exn + unit)" where
  "pg_insert jsonb t r =
     (case jsonb (pg_payload r) of
        Inl e \<Rightarrow> (t, Inl e)
      | Inr p \<Rightarrow> if list_ex (\<lambda>r'. pg_seq r' = pg_seq r) t then (t, Inl ExternalError)
                 else (t @ [r\<lparr>pg_payload := p\<rparr>], Inr ()))"

definition row_record :: "pg_row \<Rightarrow> audit_record" where
  "row_record r = pg_body (pg_seq r) (pg_ts r) (pg_payload r) (pg_prev r) @
     [(''hash'', JStr (pg_hash r)), (''hmac'', JStr (pg_hmac r))]"

definition pg_append ::
  "audit_lib \<Rightarrow> string \<Rightarrow> jsonb \<Rightarrow> audit_table \<Rightarrow> pyfloat \<Rightarrow> json \<Rightarrow> audit_table \<times> (py_exn + audit_record)" where
  "pg_append L key jsonb t ts payload =
     (let r = pg_prepare L key (pg_head t) ts payload in
      case pg_insert jsonb t r of
        (t', Inl e) \<Rightarrow> (t', Inl e)
      | (t', Inr _) \<Rightarrow> (t', Inr (row_record r)))"

fun pg_verify_from ::
  "audit_lib \<Rightarrow> string \<Rightarrow> int \<Rightarrow> string \<Rightarrow> pg_row list \<Rightarrow> py_exn + bool" where
  "pg_verify_from L key idx prev [] = Inr True"
| "pg_verify_from L key idx prev (r # rs) =
     (if pg_seq r \<noteq> idx \<or> pg_prev r \<noteq> prev then Inr False
      else if record_hash L (pg_body (pg_seq r) (pg_ts r) (pg_payload r) (pg_prev r)) \<noteq> pg_hash r then Inr False
      else sbind (compare_digest (record_mac L key (pg_hash r)) (pg_hmac r)) (\<lambda>same.
        if \<not> same then Inr False else pg_verify_from L key (idx + 1) (pg_hash r) rs))"

definition pg_verify_chain :: "audit_lib \<Rightarrow> string \<Rightarrow> audit_table \<Rightarrow> py_exn + bool" where
  "pg_verify_chain L key t = pg_verify_from L key 0 GENESIS (pg_ordered t)"

text \<open>\<^verbatim>\<open>LIMIT n\<close> refuses a negative \<open>n\<close>.\<close>

definition pg_tail :: "audit_table \<Rightarrow> int \<Rightarrow> py_exn + audit_record list" where
  "pg_tail t n =
     (if n < 0 then Inl ExternalError
      else Inr (map row_record (pg_ordered (take (nat n) (rev (pg_ordered t))))))"

definition pg_count :: "audit_table \<Rightarrow> int" where
  "pg_count t = int (length t)"

definition pg_head_checkpoint :: "audit_lib \<Rightarrow> string \<Rightarrow> audit_table \<Rightarrow> string" where
  "pg_head_checkpoint L key t =
     (let last_hash = (case pg_head t of None \<Rightarrow> GENESIS | Some (_, h) \<Rightarrow> h);
          body = nat_str (nat (pg_count t)) @ ''|'' @ last_hash
      in body @ ''|'' @ al_hmac L key body)"

section \<open>The decision table\<close>

record pg_decision =
  pd_identity :: string
  pd_decision :: string
  pd_body :: json
  pd_ts :: pyfloat

type_synonym decision_table = "(string \<times> pg_decision) list"

text \<open>\<^verbatim>\<open>ON CONFLICT (event_id) DO NOTHING\<close>.\<close>

definition decision_put ::
  "jsonb \<Rightarrow> decision_table \<Rightarrow> string \<Rightarrow> string \<Rightarrow> string \<Rightarrow> json \<Rightarrow> pyfloat \<Rightarrow> decision_table \<times> (py_exn + unit)" where
  "decision_put jsonb t event_id identity decision body ts =
     (case jsonb body of
        Inl e \<Rightarrow> (t, Inl e)
      | Inr b \<Rightarrow> if map_of t event_id \<noteq> None then (t, Inr ())
                 else (t @ [(event_id, \<lparr> pd_identity = identity, pd_decision = decision, pd_body = b, pd_ts = ts \<rparr>)],
                       Inr ()))"

definition decision_get :: "decision_table \<Rightarrow> string \<Rightarrow> json option" where
  "decision_get t event_id = map_option pd_body (map_of t event_id)"

section \<open>The table as a log\<close>

definition table_log :: "string \<Rightarrow> audit_table \<Rightarrow> audit_log" where
  "table_log key t = \<lparr> au_records = map row_record (pg_ordered t), au_key = Some key \<rparr>"

text \<open>The sequence numbers are \<open>0, \<dots>, n - 1\<close>.\<close>

definition seq_ok :: "audit_table \<Rightarrow> bool" where
  "seq_ok t \<longleftrightarrow> map pg_seq (pg_ordered t) = map int [0..<length t]"

lemma length_pg_ordered [simp]: "length (pg_ordered t) = length t"
  and set_pg_ordered [simp]: "set (pg_ordered t) = set t"
  and pg_ordered_Nil [simp]: "pg_ordered [] = []"
  by (simp_all add: pg_ordered_def)

lemma pg_ordered_Nil_iff [simp]: "pg_ordered t = [] \<longleftrightarrow> t = []"
  by (metis length_0_conv length_pg_ordered)

lemma row_record_fields [simp]:
  "dget (row_record r) ''seq'' = JInt (pg_seq r)"
  "ditem (row_record r) ''prev_hash'' = Inr (JStr (pg_prev r))"
  "ditem (row_record r) ''hash'' = Inr (JStr (pg_hash r))"
  "record_body (row_record r) = pg_body (pg_seq r) (pg_ts r) (pg_payload r) (pg_prev r)"
  "hmac_matches m (row_record r) = compare_digest m (pg_hmac r)"
  by (simp_all add: row_record_def pg_body_def dget_def ditem_def record_body_def hmac_matches_def)

lemma pg_verify_from_log:
  "pg_verify_from L key idx prev rs = verify_from L (Some key) idx (JStr prev) (map row_record rs)"
proof (induction rs arbitrary: idx prev)
  case (Cons r rs)
  show ?case
    by (cases "compare_digest (record_mac L key (pg_hash r)) (pg_hmac r)")
      (auto simp: check_record_def Let_def Cons.IH)
qed simp

lemma seq_ok_new: "seq_ok t \<Longrightarrow> r \<in> set t \<Longrightarrow> pg_seq r < int (length t)"
proof -
  assume "seq_ok t" "r \<in> set t"
  then have "pg_seq r \<in> set (map int [0..<length t])"
    unfolding seq_ok_def by (metis image_eqI list.set_map set_pg_ordered)
  then show ?thesis by auto
qed

lemma seq_ok_head:
  assumes "seq_ok t" "t \<noteq> []"
  shows "pg_head t = Some (int (length t) - 1, pg_hash (last (pg_ordered t)))"
proof -
  have "pg_seq (last (pg_ordered t)) = last (map pg_seq (pg_ordered t))"
    using assms(2) by (simp add: last_map)
  also have "\<dots> = int (length t) - 1"
    using assms by (cases t) (simp_all add: seq_ok_def last_map)
  finally show ?thesis using assms(2) by (simp add: pg_head_def Let_def)
qed

lemma pg_ordered_append:
  assumes "\<And>r'. r' \<in> set t \<Longrightarrow> pg_seq r' < pg_seq r"
  shows "pg_ordered (t @ [r]) = pg_ordered t @ [r]"
proof -
  have "sort_key pg_seq (t @ [r]) = pg_ordered t @ [r]"
  proof (rule properties_for_sort_key)
    show "sorted (map pg_seq (pg_ordered t @ [r]))"
      using assms by (force simp: sorted_append pg_ordered_def intro: less_imp_le)
    fix x
    have "filter (\<lambda>y. pg_seq y = pg_seq x) (pg_ordered t) = filter (\<lambda>y. pg_seq y = pg_seq x) t"
      by (simp add: pg_ordered_def sort_key_stable)
    then show "filter (\<lambda>y. pg_seq x = pg_seq y) (pg_ordered t @ [r]) = filter (\<lambda>y. pg_seq x = pg_seq y) (t @ [r])"
      by (simp add: eq_commute [of "pg_seq x"])
  qed (simp add: pg_ordered_def)
  then show ?thesis by (simp add: pg_ordered_def)
qed

lemma seq_ok_no_clash:
  "seq_ok t \<Longrightarrow> int (length t) \<le> pg_seq r \<Longrightarrow> \<not> list_ex (\<lambda>r'. pg_seq r' = pg_seq r) t"
  by (auto simp: list_ex_iff dest: seq_ok_new)

lemma prepare_seq: "seq_ok t \<Longrightarrow> pg_seq (pg_prepare L key (pg_head t) ts p) = int (length t)"
  by (cases "t = []") (simp_all add: pg_prepare_def seq_ok_head Let_def, simp add: pg_head_def)

text \<open>A successful append is the append of the log, and keeps the sequence numbers dense.\<close>

lemma pg_append_log:
  assumes ok: "seq_ok t" and json: "jsonb payload = Inr payload"
  shows "table_log key (fst (pg_append L key jsonb t ts payload)) = fst (audit_append L (table_log key t) ts payload)"
    and "snd (pg_append L key jsonb t ts payload) = snd (audit_append L (table_log key t) ts payload)"
    and "seq_ok (fst (pg_append L key jsonb t ts payload))"
proof -
  let ?r = "pg_prepare L key (pg_head t) ts payload"
  obtain prev where prev: "prev = (if t = [] then GENESIS else pg_hash (last (pg_ordered t)))" by blast
  have r: "?r = \<lparr> pg_seq = int (length t), pg_ts = ts, pg_payload = payload, pg_prev = prev,
      pg_hash = record_hash L (pg_body (int (length t)) ts payload prev),
      pg_hmac = record_mac L key (record_hash L (pg_body (int (length t)) ts payload prev)) \<rparr>"
    using ok by (cases "t = []") (simp_all add: pg_prepare_def Let_def seq_ok_head prev, simp add: pg_head_def)
  have pay: "?r\<lparr>pg_payload := payload\<rparr> = ?r" "pg_payload ?r = payload" by (simp_all add: r)
  have ins: "pg_insert jsonb t ?r = (t @ [?r], Inr ())"
    using seq_ok_no_clash [OF ok, of ?r] prepare_seq [OF ok]
    by (simp add: pg_insert_def json pay)
  have app: "pg_append L key jsonb t ts payload = (t @ [?r], Inr (row_record ?r))"
    by (simp add: pg_append_def Let_def ins)
  have ord: "pg_ordered (t @ [?r]) = pg_ordered t @ [?r]"
    using seq_ok_new [OF ok] prepare_seq [OF ok] by (intro pg_ordered_append) simp
  have head: "head_hash (au_records (table_log key t)) = Inr (JStr prev)"
    by (simp add: table_log_def head_hash_def last_map prev)
  have aud: "audit_append L (table_log key t) ts payload =
      ((table_log key t)\<lparr>au_records := map row_record (pg_ordered t) @ [row_record ?r]\<rparr>, Inr (row_record ?r))"
    by (simp add: audit_append_def head Let_def) (simp add: table_log_def row_record_def r pg_body_def)
  show "table_log key (fst (pg_append L key jsonb t ts payload)) = fst (audit_append L (table_log key t) ts payload)"
    by (simp add: app aud ord) (simp add: table_log_def ord)
  show "snd (pg_append L key jsonb t ts payload) = snd (audit_append L (table_log key t) ts payload)"
    by (simp add: app aud)
  show "seq_ok (fst (pg_append L key jsonb t ts payload))"
    using ok prepare_seq [OF ok] by (simp add: app seq_ok_def ord)
qed

lemma pg_verify_log: "pg_verify_chain L key t = verify_chain L (table_log key t)"
  by (simp add: pg_verify_chain_def verify_chain_def table_log_def pg_verify_from_log)

lemma pg_checkpoint_log:
  "head_checkpoint L (table_log key t) = Inr (pg_head_checkpoint L key t)"
  by (cases "t = []")
    (simp_all add: head_checkpoint_def head_hash_def table_log_def pg_head_checkpoint_def pg_count_def
      pg_head_def Let_def last_map)

lemma pg_tail_log:
  assumes "seq_ok t" and n: "0 < n"
  shows "pg_tail t n = Inr (audit_tail (table_log key t) n)"
proof -
  let ?xs = "pg_ordered t"
  let ?ys = "last_n (nat n) ?xs"
  have dist: "distinct (map pg_seq ?xs)"
    using assms(1) by (simp add: seq_ok_def distinct_map)
  have sorted: "sorted (map pg_seq ?xs)" by (simp add: pg_ordered_def)
  have rev: "take (nat n) (rev ?xs) = rev ?ys" by (simp add: last_n_def take_rev)
  have ys: "distinct (map pg_seq ?ys)" "sorted (map pg_seq ?ys)"
    using distinct_drop [OF dist] sorted_wrt_drop [OF sorted] by (simp_all add: last_n_def drop_map)
  have "pg_ordered (rev ?ys) = ?ys"
  proof (rule map_sorted_distinct_set_unique [of pg_seq])
    show "inj_on pg_seq (set (pg_ordered (rev ?ys)) \<union> set ?ys)" using ys(1) by (simp add: distinct_map)
    show "distinct (map pg_seq (pg_ordered (rev ?ys)))"
      using ys(1) by (simp add: pg_ordered_def distinct_map)
  qed (use ys in \<open>simp_all add: pg_ordered_def\<close>)
  then have "pg_ordered (take (nat n) (rev ?xs)) = ?ys" by (simp add: rev)
  with n show ?thesis by (simp add: pg_tail_def audit_tail_def table_log_def last_n_def drop_map)
qed

text \<open>The table keeps the contract of a trail when the JSONB column gives back what it accepts.\<close>

definition faithful_jsonb :: "jsonb \<Rightarrow> bool" where
  "faithful_jsonb jsonb \<longleftrightarrow> (\<forall>p q. jsonb p = Inr q \<longrightarrow> q = p)"

definition table_ok :: "audit_lib \<Rightarrow> string \<Rightarrow> jsonb \<Rightarrow> audit_table \<Rightarrow> bool" where
  "table_ok L key jsonb t \<longleftrightarrow> faithful_jsonb jsonb \<and> seq_ok t \<and> log_ok L (table_log key t)"

lemma pg_append_refused: "jsonb p = Inl e \<Longrightarrow> pg_append L key jsonb t ts p = (t, Inl e)"
  by (simp add: pg_append_def pg_insert_def pg_prepare_def Let_def)

interpretation pg_trail: audit_trail "pg_append L key jsonb" "pg_verify_chain L key" "\<lambda>t. au_records (table_log key t)"
  "table_ok L key jsonb" for L key jsonb
proof unfold_locales
  fix t ts p assume ok: "table_ok L key jsonb t"
  then have log: "log_ok L (table_log key t)" and seq: "seq_ok t" by (simp_all add: table_ok_def)
  show "table_ok L key jsonb (fst (pg_append L key jsonb t ts p))"
  proof (cases "jsonb p")
    case (Inr q)
    with ok have "jsonb p = Inr p" by (auto simp: table_ok_def faithful_jsonb_def)
    from pg_append_log [where jsonb = jsonb and payload = p, OF seq this] mem_trail.put_ok [OF log] ok show ?thesis by (simp add: table_ok_def)
  qed (use ok in \<open>simp add: pg_append_refused\<close>)
  show "au_records (table_log key (fst (pg_append L key jsonb t ts p))) =
      au_records (table_log key t) @ (case snd (pg_append L key jsonb t ts p) of Inl _ \<Rightarrow> [] | Inr r \<Rightarrow> [r])"
  proof (cases "jsonb p")
    case (Inr q)
    with ok have "jsonb p = Inr p" by (auto simp: table_ok_def faithful_jsonb_def)
    from pg_append_log(1, 2) [where jsonb = jsonb and payload = p, OF seq this] mem_trail.put_recs [OF log] show ?thesis by simp
  qed (simp add: pg_append_refused)
  show "pg_verify_chain L key t = Inr True"
    by (simp add: pg_verify_log mem_trail.ok_verifies [OF log])
qed

section \<open>Properties\<close>


definition wit_hash :: audit_lib where
  "wit_hash = \<lparr> al_dumps = (\<lambda>b. if dget b ''seq'' = JInt 0 then ''a'' else ''b''),
     al_sha256 = (\<lambda>x. x), al_hmac = (\<lambda>k x. k @ x) \<rparr>"


text \<open>
  Appends of two pods that have read the same head: once one of them is in, the other raises and
  leaves no row, so the decision behind it never reaches the audit trail.
\<close>
theorem concurrent_append_raises:
  assumes "pg_insert jsonb t (pg_prepare L key (pg_head t) ts payload) = (t1, Inr ())"
  shows "\<exists>e. pg_insert jsonb t1 (pg_prepare L key (pg_head t) ts' payload') = (t1, Inl e)"
proof -
  let ?r = "pg_prepare L key (pg_head t) ts payload" and ?r' = "pg_prepare L key (pg_head t) ts' payload'"
  obtain p where "t1 = t @ [?r\<lparr>pg_payload := p\<rparr>]"
    using assms by (auto simp: pg_insert_def split: sum.splits if_splits)
  moreover have "pg_seq ?r' = pg_seq ?r" by (simp add: pg_prepare_def Let_def)
  ultimately have "list_ex (\<lambda>r''. pg_seq r'' = pg_seq ?r') t1" by simp
  then show ?thesis by (auto simp: pg_insert_def split: sum.splits)
qed

theorem concurrent_append_raises_witness:
  "\<exists>t1 e. pg_insert Inr [] (pg_prepare wit_hash ''k'' (pg_head []) 1 JNull) = (t1, Inr ()) \<and>
     pg_insert Inr t1 (pg_prepare wit_hash ''k'' (pg_head []) 1 (JBool True)) = (t1, Inl e)"
proof -
  have "pg_insert Inr [] (pg_prepare wit_hash ''k'' (pg_head []) 1 JNull) =
      ([pg_prepare wit_hash ''k'' (pg_head []) 1 JNull], Inr ())"
    by (simp add: pg_insert_def pg_prepare_def Let_def)
  from concurrent_append_raises [OF this] this show ?thesis by blast
qed

text \<open>
  A decision is written once: whatever is put later under the same event id, polling it returns the
  first body.
\<close>
theorem decision_write_once:
  assumes "decision_get t event_id = Some b"
  shows "decision_get (fst (decision_put jsonb t event_id' identity d body ts)) event_id = Some b"
  using assms by (auto simp: decision_get_def decision_put_def map_add_def split: sum.splits)

theorem decision_write_once_witness:
  "let t = fst (decision_put Inr [] ''e1'' ''id1'' ''ALLOW'' (JStr ''first'') 1);
       t' = fst (decision_put Inr t ''e1'' ''id1'' ''BLOCK'' (JStr ''second'') (Fin 2))
   in decision_get t' ''e1'' = Some (JStr ''first'')"
  unfolding Let_def
  by (rule decision_write_once) (simp add: decision_get_def decision_put_def)

text \<open>The two stores differ on an empty tail: the log returns everything, the table nothing.\<close>

lemma tail_zero: "audit_tail lg 0 = au_records lg" "pg_tail t 0 = Inr []"
  by (simp_all add: audit_tail_def pg_tail_def)

end
