(* ===== verification/ModelLoader.thy ===== *)
theory ModelLoader
  imports ServingModel Base64 Schemas
begin

text \<open>
  The serving-model loader: \<^verbatim>\<open>save_artifact\<close> and \<^verbatim>\<open>load_serving_model\<close> of \<^verbatim>\<open>backend/app/model_loader.py\<close>. The file
  system is a map from paths to bytes; \<open>loader_lib\<close> holds joblib (pickle), \<^verbatim>\<open>json\<close> and SHA-256. Deserialising
  an artifact can run code, so the loader also returns the byte strings it handed to \<^verbatim>\<open>joblib.load\<close>. The
  synthetic baseline is a pair of fitted objects here; \<^theory_text>\<open>Synthetic\<close> draws the rows they are fitted on.
\<close>

section \<open>The model\<close>

text \<open>What the pickle holds, each entry of the dictionary possibly absent.\<close>

record 'o model_bundle =
  bu_model :: "'o option"
  bu_scaler :: "'o option"
  bu_feature_names :: "string list option"

record 'o loader_lib =
  ll_sha256 :: "string \<Rightarrow> string"
  ll_joblib_load :: "string \<Rightarrow> py_exn + 'o model_bundle"
  ll_joblib_dump :: "'o model_bundle \<Rightarrow> string"
  ll_json_loads :: "string \<Rightarrow> py_exn + json"
  ll_json_dumps :: "(string \<times> json) list \<Rightarrow> string"
  ll_synthetic :: "'o \<times> 'o"

datatype loader_exn = ModelArtifactMissing | ModelArtifactInvalid | LoaderRaised py_exn

type_synonym files = "string \<Rightarrow> string option"

definition ARTIFACT_NAME :: string where "ARTIFACT_NAME = ''serving_anomaly.joblib''"

definition CARD_NAME :: string where "CARD_NAME = ''model_card.json''"

definition path_join :: "string \<Rightarrow> string \<Rightarrow> string" where
  "path_join d name = d @ ''/'' @ name"

definition loader_raising :: "py_exn + 'a \<Rightarrow> loader_exn + 'a" where
  "loader_raising m = (case m of Inl e \<Rightarrow> Inl (LoaderRaised e) | Inr x \<Rightarrow> Inr x)"

lemma loader_raising_simps [simp]:
  "loader_raising (Inl e) = Inl (LoaderRaised e)" "loader_raising (Inr x) = Inr x"
  by (simp_all add: loader_raising_def)

definition card_setdefault :: "string \<Rightarrow> json \<Rightarrow> (string \<times> json) list \<Rightarrow> (string \<times> json) list" where
  "card_setdefault k v d = (if map_of d k = None then dict_set k v d else d)"

definition final_card :: "'o loader_lib \<Rightarrow> string \<Rightarrow> string list \<Rightarrow> (string \<times> json) list \<Rightarrow> (string \<times> json) list" where
  "final_card lib bytes names crd =
     (let card1 = dict_set ''feature_names'' (JList (map JStr names)) crd;
          card2 = dict_set ''artifact_sha256'' (JStr (ll_sha256 lib bytes)) card1
      in card_setdefault ''provenance''
           (case map_of card2 ''name'' of None \<Rightarrow> JStr ''unknown'' | Some n \<Rightarrow> n) card2)"

definition save_artifact ::
  "'o loader_lib \<Rightarrow> files \<Rightarrow> string \<Rightarrow> 'o \<Rightarrow> 'o \<Rightarrow> string list \<Rightarrow> (string \<times> json) list \<Rightarrow> files \<times> string" where
  "save_artifact lib fs dir model scaler names crd =
     (let artifact = path_join dir ARTIFACT_NAME;
          bytes = ll_joblib_dump lib
            \<lparr> bu_model = Some model, bu_scaler = Some scaler, bu_feature_names = Some names \<rparr>
      in (fs(artifact \<mapsto> bytes,
             path_join dir CARD_NAME \<mapsto> ll_json_dumps lib (final_card lib bytes names crd)), artifact))"

text \<open>\<^verbatim>\<open>card.get(k)\<close> when the card need not be a dictionary.\<close>

definition card_dict :: "json \<Rightarrow> py_exn + (string \<times> json) list" where
  "card_dict j = (case j of JObj d \<Rightarrow> Inr d | _ \<Rightarrow> Inl AttributeError)"

text \<open>
  The integrity gate before deserialising: a configured pin decides alone, otherwise the digest
  recorded in the card.
\<close>

definition integrity_gate :: "string option \<Rightarrow> json \<Rightarrow> string \<Rightarrow> loader_exn + unit" where
  "integrity_gate pinned crd digest =
     (case pinned of
        Some p \<Rightarrow>
          if p \<noteq> [] then
            sbind (loader_raising (compare_digest digest p)) (\<lambda>same.
              if same then Inr () else Inl ModelArtifactInvalid)
          else sbind (loader_raising (card_dict crd)) (\<lambda>d.
              if dget d ''artifact_sha256'' \<noteq> JStr digest then Inl ModelArtifactInvalid else Inr ())
      | None \<Rightarrow> sbind (loader_raising (card_dict crd)) (\<lambda>d.
              if dget d ''artifact_sha256'' \<noteq> JStr digest then Inl ModelArtifactInvalid else Inr ()))"

text \<open>The provenance of a card; one that is not a string is not followed.\<close>

definition card_provenance :: "(string \<times> json) list \<Rightarrow> py_exn + string" where
  "card_provenance d =
     (case (case map_of d ''provenance'' of Some v \<Rightarrow> v
            | None \<Rightarrow> (case map_of d ''name'' of Some v \<Rightarrow> v | None \<Rightarrow> JStr ''unknown'')) of
        JStr s \<Rightarrow> Inr s | _ \<Rightarrow> Inl Unmodelled)"

definition read_bundle ::
  "'o model_bundle \<Rightarrow> json \<Rightarrow> string list \<Rightarrow> loader_exn + 'o serving_model" where
  "read_bundle b crd names =
     (if (case bu_feature_names b of None \<Rightarrow> [] | Some ns \<Rightarrow> ns) \<noteq> names then Inl ModelArtifactInvalid
      else case (bu_model b, bu_scaler b) of
        (Some m, Some s) \<Rightarrow>
          sbind (loader_raising (card_dict crd)) (\<lambda>d.
          sbind (loader_raising (card_provenance d)) (\<lambda>prov.
          Inr \<lparr> sm_model = m, sm_scaler = s, sm_feature_names = names, sm_card = d, sm_provenance = prov \<rparr>))
      | _ \<Rightarrow> Inl (LoaderRaised KeyError))"

definition build_synthetic :: "'o loader_lib \<Rightarrow> string list \<Rightarrow> 'o serving_model" where
  "build_synthetic lib names =
     \<lparr> sm_model = fst (ll_synthetic lib), sm_scaler = snd (ll_synthetic lib), sm_feature_names = names,
       sm_card = [(''name'', JStr ''synthetic''), (''dataset'', JStr ''np.random (DEMO ONLY)''),
                  (''provenance'', JStr ''DEMO_SYNTHETIC'')],
       sm_provenance = ''DEMO_SYNTHETIC'' \<rparr>"

definition load_serving_model ::
  "'o loader_lib \<Rightarrow> files \<Rightarrow> string \<Rightarrow> string \<Rightarrow> string option \<Rightarrow> string list \<Rightarrow>
   string list \<times> (loader_exn + 'o serving_model)" where
  "load_serving_model lib fs md dir pinned names =
     (if md = ''demo_synthetic'' then ([], Inr (build_synthetic lib names))
      else case (fs (path_join dir ARTIFACT_NAME), fs (path_join dir CARD_NAME)) of
        (Some bytes, Some card_text) \<Rightarrow>
          (case loader_raising (ll_json_loads lib card_text) of
             Inl e \<Rightarrow> ([], Inl e)
           | Inr crd \<Rightarrow>
             (case integrity_gate pinned crd (ll_sha256 lib bytes) of
                Inl e \<Rightarrow> ([], Inl e)
              | Inr _ \<Rightarrow> ([bytes],
                  sbind (loader_raising (ll_joblib_load lib bytes)) (\<lambda>b. read_bundle b crd names))))
      | _ \<Rightarrow> ([], Inl ModelArtifactMissing))"

section \<open>Properties\<close>

lemma read_bundle_names: "read_bundle b crd names = Inr m \<Longrightarrow> sm_feature_names m = names"
  by (cases "bu_model b"; cases "bu_scaler b") (auto simp: read_bundle_def sbind_eq_Inr split: if_splits)

text \<open>
  C20: Nothing unpinned is unpickled: outside the demo mode the loader deserialises at most the artifact, and with
  a pin configured only when the artifact's SHA-256 is the pin, whatever the card beside it says; a mismatch
  is \<^verbatim>\<open>ModelArtifactInvalid\<close> (for an ASCII pin and digest) and a missing file \<^verbatim>\<open>ModelArtifactMissing\<close>.
\<close>
theorem unpickle_only_pinned:
  assumes md: "md \<noteq> ''demo_synthetic''" and pin: "pinned = Some p" "p \<noteq> []"
    and run: "load_serving_model lib fs md dir pinned names = (loaded, r)"
  shows "(\<forall>b\<in>set loaded. fs (path_join dir ARTIFACT_NAME) = Some b \<and> ll_sha256 lib b = p) \<and>
    (\<forall>m. r = Inr m \<longrightarrow> loaded \<noteq> [] \<and> sm_feature_names m = names) \<and>
    (fs (path_join dir ARTIFACT_NAME) = None \<longrightarrow> loaded = [] \<and> r = Inl ModelArtifactMissing)"
  using assms
  by (auto simp: load_serving_model_def integrity_gate_def sbind_eq_Inr compare_digest_def
      split: option.splits sum.splits if_splits dest: read_bundle_names)

definition wit_loader :: "unit loader_lib" where
  "wit_loader = \<lparr> ll_sha256 = (\<lambda>_. ''5a''),
     ll_joblib_load = (\<lambda>_. Inr \<lparr> bu_model = Some (), bu_scaler = Some (), bu_feature_names = Some [''f''] \<rparr>),
     ll_joblib_dump = (\<lambda>_. ''pickle''),
     ll_json_loads = (\<lambda>_. Inr (JObj [(''artifact_sha256'', JStr ''5a''), (''provenance'', JStr ''rba'')])),
     ll_json_dumps = (\<lambda>_. ''card''), ll_synthetic = ((), ()) \<rparr>"

definition wit_files :: files where
  "wit_files = [path_join ''m'' ARTIFACT_NAME \<mapsto> ''pickle'', path_join ''m'' CARD_NAME \<mapsto> ''card'']"

lemma names_differ: "ARTIFACT_NAME \<noteq> CARD_NAME"
  by (simp add: ARTIFACT_NAME_def CARD_NAME_def)

lemma wit_files_at:
  "wit_files (path_join ''m'' ARTIFACT_NAME) = Some ''pickle''" "wit_files (path_join ''m'' CARD_NAME) = Some ''card''"
  using names_differ by (simp_all add: wit_files_def path_join_def)

theorem unpickle_only_pinned_witness:
  "\<exists>m. load_serving_model wit_loader wit_files ''prod'' ''m'' (Some ''5a'') [''f''] = ([''pickle''], Inr m) \<and>
     sm_feature_names m = [''f''] \<and>
   fst (load_serving_model wit_loader wit_files ''prod'' ''m'' (Some ''66'') [''f'']) = []"
proof -
  have run: "\<exists>m. load_serving_model wit_loader wit_files ''prod'' ''m'' (Some ''5a'') [''f''] = ([''pickle''], Inr m)"
    by (simp add: load_serving_model_def wit_files_at integrity_gate_def is_ascii_def read_bundle_def card_dict_def
        card_provenance_def wit_loader_def)
  then obtain m where m: "load_serving_model wit_loader wit_files ''prod'' ''m'' (Some ''5a'') [''f''] = ([''pickle''], Inr m)"
    by blast
  have names: "sm_feature_names m = [''f'']"
    using unpickle_only_pinned [OF _ refl _ m] by simp
  obtain l r where lr: "load_serving_model wit_loader wit_files ''prod'' ''m'' (Some ''66'') [''f''] = (l, r)"
    by fastforce
  have "\<forall>b\<in>set l. ll_sha256 wit_loader b = ''66''"
    using unpickle_only_pinned [OF _ refl _ lr] by simp
  then have "set l = {}" by (auto simp: wit_loader_def)
  with m names lr show ?thesis by simp
qed

lemma saved_loads:
  assumes md: "md \<noteq> ''demo_synthetic''"
    and dict: "b = \<lparr> bu_model = Some model, bu_scaler = Some scaler, bu_feature_names = Some names \<rparr>"
    and pickle: "ll_joblib_load lib (ll_joblib_dump lib b) = Inr b"
    and codec: "ll_json_loads lib (ll_json_dumps lib (final_card lib (ll_joblib_dump lib b) names crd)) =
      Inr (JObj (final_card lib (ll_joblib_dump lib b) names crd))"
    and hex: "is_ascii (ll_sha256 lib (ll_joblib_dump lib b))"
    and saved: "save_artifact lib fs dir model scaler names crd = (fs', artifact)"
    and pin: "pinned \<in> {None, map_option (ll_sha256 lib) (fs' artifact)}"
    and prov: "map_of crd ''provenance'' = Some (JStr p)"
  shows "\<exists>bytes m. load_serving_model lib fs' md dir pinned names = ([bytes], Inr m) \<and> fs' artifact = Some bytes \<and>
    sm_model m = model \<and> sm_scaler m = scaler \<and> sm_feature_names m = names \<and> sm_provenance m = p"
proof -
  let ?bytes = "ll_joblib_dump lib b"
  let ?crd = "final_card lib ?bytes names crd"
  have neq: "path_join dir ARTIFACT_NAME \<noteq> path_join dir CARD_NAME"
    using names_differ by (simp add: path_join_def)
  have fs': "fs' (path_join dir ARTIFACT_NAME) = Some ?bytes" "fs' (path_join dir CARD_NAME) = Some (ll_json_dumps lib ?crd)"
    "artifact = path_join dir ARTIFACT_NAME"
    using saved neq by (auto simp: save_artifact_def Let_def dict)
  have crd: "map_of ?crd ''artifact_sha256'' = Some (JStr (ll_sha256 lib ?bytes))"
    "map_of ?crd ''provenance'' = Some (JStr p)"
    using prov by (simp_all add: final_card_def Let_def card_setdefault_def)
  have gate: "integrity_gate pinned (JObj ?crd) (ll_sha256 lib ?bytes) = Inr ()"
    using pin hex crd(1) fs'
    by (auto simp: integrity_gate_def card_dict_def dget_def)
  have "read_bundle b (JObj ?crd) names =
      Inr \<lparr> sm_model = model, sm_scaler = scaler, sm_feature_names = names, sm_card = ?crd, sm_provenance = p \<rparr>"
    using crd(2) by (simp add: read_bundle_def card_dict_def card_provenance_def dict)
  then show ?thesis
    by (simp add: load_serving_model_def md fs' codec gate pickle)
qed

text \<open>
  What \<^verbatim>\<open>save_artifact\<close> writes, \<^verbatim>\<open>load_serving_model\<close> loads: without a pin or with the artifact's own digest
  pinned, the same model and scaler come back, with the provenance the card names (its own, else its name).
\<close>
theorem save_load_roundtrip:
  assumes md: "md \<noteq> ''demo_synthetic''"
    and dict: "b = \<lparr> bu_model = Some model, bu_scaler = Some scaler, bu_feature_names = Some names \<rparr>"
    and pickle: "ll_joblib_load lib (ll_joblib_dump lib b) = Inr b"
    and codec: "ll_json_loads lib (ll_json_dumps lib (final_card lib (ll_joblib_dump lib b) names crd)) =
      Inr (JObj (final_card lib (ll_joblib_dump lib b) names crd))"
    and hex: "is_ascii (ll_sha256 lib (ll_joblib_dump lib b))"
    and saved: "save_artifact lib fs dir model scaler names crd = (fs', artifact)"
    and pin: "pinned \<in> {None, map_option (ll_sha256 lib) (fs' artifact)}"
    and prov: "map_of crd ''provenance'' = Some (JStr p)"
  shows "\<exists>bytes m. load_serving_model lib fs' md dir pinned names = ([bytes], Inr m) \<and> fs' artifact = Some bytes \<and>
    sm_model m = model \<and> sm_scaler m = scaler \<and> sm_feature_names m = names \<and> sm_provenance m = p"
  using assms by (rule saved_loads)

definition wit_card :: "(string \<times> json) list" where
  "wit_card = [(''name'', JStr ''n''), (''provenance'', JStr ''rba'')]"

definition wit_codec :: "unit loader_lib" where
  "wit_codec = \<lparr> ll_sha256 = (\<lambda>_. ''5a''),
     ll_joblib_load = (\<lambda>_. Inr \<lparr> bu_model = Some (), bu_scaler = Some (), bu_feature_names = Some [''f''] \<rparr>),
     ll_joblib_dump = (\<lambda>_. ''pickle''),
     ll_json_loads = (\<lambda>_. Inr (JObj [(''name'', JStr ''n''), (''provenance'', JStr ''rba''),
       (''feature_names'', JList [JStr ''f'']), (''artifact_sha256'', JStr ''5a'')])),
     ll_json_dumps = (\<lambda>_. ''card''), ll_synthetic = ((), ()) \<rparr>"

theorem save_load_roundtrip_witness:
  "\<exists>m. load_serving_model wit_codec (fst (save_artifact wit_codec Map.empty ''m'' () () [''f''] wit_card)) ''prod'' ''m''
       None [''f''] = ([''pickle''], Inr m) \<and> sm_provenance m = ''rba''"
proof -
  obtain fs' artifact where saved: "save_artifact wit_codec Map.empty ''m'' () () [''f''] wit_card = (fs', artifact)"
    by fastforce
  have "\<exists>bytes m. load_serving_model wit_codec fs' ''prod'' ''m'' None [''f''] = ([bytes], Inr m) \<and>
      fs' artifact = Some bytes \<and> sm_model m = () \<and> sm_scaler m = () \<and> sm_feature_names m = [''f''] \<and>
      sm_provenance m = ''rba''"
    by (rule save_load_roundtrip [OF _ refl _ _ _ saved])
      (simp_all add: wit_codec_def wit_card_def final_card_def card_setdefault_def Let_def is_ascii_def)
  moreover have "fs' artifact = Some ''pickle''"
  proof -
    have "path_join ''m'' ARTIFACT_NAME \<noteq> path_join ''m'' CARD_NAME"
      using names_differ by (simp add: path_join_def)
    with saved show ?thesis by (auto simp: save_artifact_def Let_def wit_codec_def)
  qed
  ultimately show ?thesis using saved by auto
qed

end
