(* ===== verification/Auth.thy ===== *)
theory Auth
  imports Schemas
begin

text \<open>
  API keys and scopes: \<^verbatim>\<open>backend/app/auth.py\<close>. An outcome other than a context is an \<^verbatim>\<open>HTTPException\<close> with its
  status, or an exception nobody handles (answered with 500 by the framework).
\<close>

datatype http_exn = HTTPException int string | Unhandled py_exn

definition unhandled :: "py_exn + 'a \<Rightarrow> http_exn + 'a" where
  "unhandled m = (case m of Inl e \<Rightarrow> Inl (Unhandled e) | Inr x \<Rightarrow> Inr x)"

lemma unhandled_simps [simp]: "unhandled (Inl e) = Inl (Unhandled e)" "unhandled (Inr x) = Inr x"
  by (simp_all add: unhandled_def)

record auth_context =
  ac_client_id :: string
  ac_scopes :: "string fset"

type_synonym api_keys = "(string \<times> string fset) list"

text \<open>The loop over all keys: it does not stop at a match, so the last one counts.\<close>

fun match_keys :: "api_keys \<Rightarrow> string \<Rightarrow> auth_context option \<Rightarrow> py_exn + auth_context option" where
  "match_keys [] header matched = Inr matched"
| "match_keys ((key, scopes) # keys) header matched =
     sbind (compare_digest key header) (\<lambda>same.
       match_keys keys header
         (if same then Some \<lparr> ac_client_id = key, ac_scopes = scopes \<rparr> else matched))"

definition authenticate :: "api_keys \<Rightarrow> string option \<Rightarrow> http_exn + auth_context" where
  "authenticate keys header =
     (case header of
        None \<Rightarrow> Inl (HTTPException 401 ''missing API key'')
      | Some h \<Rightarrow>
        if h = [] then Inl (HTTPException 401 ''missing API key'')
        else sbind (unhandled (match_keys keys h None)) (\<lambda>matched.
          case matched of
            None \<Rightarrow> Inl (HTTPException 401 ''invalid API key'')
          | Some ctx \<Rightarrow> Inr ctx))"

definition require_scope :: "api_keys \<Rightarrow> string \<Rightarrow> string option \<Rightarrow> http_exn + auth_context" where
  "require_scope keys scope header =
     sbind (authenticate keys header) (\<lambda>ctx.
       if scope |\<notin>| ac_scopes ctx then Inl (HTTPException 403 (''missing scope: '' @ scope)) else Inr ctx)"

section \<open>Facts\<close>

definition keys_ok :: "api_keys \<Rightarrow> bool" where
  "keys_ok keys \<longleftrightarrow> distinct (map fst keys) \<and> list_all (\<lambda>p. is_ascii (fst p)) keys"

lemma match_keys_lookup:
  assumes "keys_ok keys" "is_ascii h"
  shows "match_keys keys h m =
    Inr (case map_of keys h of None \<Rightarrow> m | Some s \<Rightarrow> Some \<lparr> ac_client_id = h, ac_scopes = s \<rparr>)"
  using assms(1)
proof (induction keys arbitrary: m)
  case (Cons p keys)
  obtain k s where p: "p = (k, s)" by fastforce
  have ok: "keys_ok keys" "is_ascii k" "k \<notin> fst ` set keys" using Cons.prems p by (auto simp: keys_ok_def)
  then have "map_of keys k = None" by (simp add: map_of_eq_None_iff)
  with ok assms(2) Cons.IH [OF ok(1)] show ?case
    by (auto simp: p compare_digest_def split: option.splits)
qed simp

text \<open>
  Who gets through: with distinct ASCII keys, a request is let into an endpoint exactly when its key is
  registered with that endpoint's scope, and it then acts as that key; otherwise it is refused with 401
  (no key, unknown key) or 403 (key without the scope).
\<close>
theorem access_decision:
  assumes "keys_ok keys" "h \<noteq> []" "is_ascii h"
  shows "require_scope keys scope (Some h) =
    (case map_of keys h of
       None \<Rightarrow> Inl (HTTPException 401 ''invalid API key'')
     | Some scopes \<Rightarrow> if scope |\<in>| scopes then Inr \<lparr> ac_client_id = h, ac_scopes = scopes \<rparr>
                      else Inl (HTTPException 403 (''missing scope: '' @ scope))) \<and>
    require_scope keys scope None = Inl (HTTPException 401 ''missing API key'')"
  using assms by (simp add: require_scope_def authenticate_def match_keys_lookup split: option.splits)

definition wit_keys :: api_keys where
  "wit_keys = [(''soc'', {|''audit:read''|}), (''gw'', {|''events:write''|})]"

theorem access_decision_witness:
  "require_scope wit_keys ''events:write'' (Some ''gw'') = Inr \<lparr> ac_client_id = ''gw'', ac_scopes = {|''events:write''|} \<rparr> \<and>
   require_scope wit_keys ''audit:read'' (Some ''gw'') = Inl (HTTPException 403 ''missing scope: audit:read'')"
proof -
  have "keys_ok wit_keys" "is_ascii ''gw''" by (simp_all add: keys_ok_def wit_keys_def is_ascii_def)
  then show ?thesis
    using access_decision [of wit_keys "''gw''" "''events:write''"] access_decision [of wit_keys "''gw''" "''audit:read''"]
    by (simp add: wit_keys_def)
qed

text \<open>
  A key header with a character outside ASCII is not refused with 401: the comparison raises and the
  request ends as an unhandled exception (500).
\<close>
theorem non_ascii_key_unhandled:
  assumes "\<not> is_ascii h" "keys \<noteq> []"
  shows "require_scope keys scope (Some h) = Inl (Unhandled TypeError)"
proof -
  obtain k s ks where "keys = (k, s) # ks" using assms(2) by (metis list.exhaust surj_pair)
  moreover have "h \<noteq> []" using assms(1) by (auto simp: is_ascii_def)
  ultimately show ?thesis
    using assms(1) by (simp add: require_scope_def authenticate_def compare_digest_def)
qed

theorem non_ascii_key_unhandled_witness:
  "require_scope wit_keys ''events:write'' (Some [CHR 0xE9]) = Inl (Unhandled TypeError)"
  by (rule non_ascii_key_unhandled) (simp_all add: wit_keys_def is_ascii_def)

end
