(* ===== verification/Config.thy ===== *)
theory Config
  imports VerifierFacts
begin

text \<open>
  Configuration: \<^verbatim>\<open>backend/app/config.py\<close>. The environment is a dictionary of strings; \<open>demo_secrets\<close> holds
  the random values the demo mode draws. An outcome other than settings is a \<^verbatim>\<open>ConfigError\<close> or an exception of
  the runtime.
\<close>

type_synonym environ = "(string \<times> string) list"

datatype config_exn = ConfigError | ConfigRaised py_exn

definition REQUIRED_PROD :: "string list" where
  "REQUIRED_PROD = [''PRAMAAN_EDGE_SECRET'', ''PRAMAAN_AUDIT_KEY'', ''PRAMAAN_STEPUP_PUBKEY'',
     ''PRAMAAN_ATTEST_PUBKEY'', ''PRAMAAN_BEHAVIOR_PUBKEY'', ''PRAMAAN_API_KEYS'', ''PRAMAAN_CORS_ORIGINS'']"

definition VALID_SCOPES :: "string list" where
  "VALID_SCOPES = [''events:write'', ''audit:read'', ''identity:read'', ''stepup:write'', ''identity:erase'']"

definition PUBKEY_VARS :: "string list" where
  "PUBKEY_VARS = [''PRAMAAN_STEPUP_PUBKEY'', ''PRAMAAN_ATTEST_PUBKEY'', ''PRAMAAN_BEHAVIOR_PUBKEY'']"

record settings =
  se_mode :: string
  se_edge_secret :: string
  se_audit_signing_key :: string
  se_stepup_pubkey :: string
  se_attest_pubkey :: string
  se_behavior_pubkey :: string
  se_api_keys :: "(string \<times> string fset) list"
  se_cors_origins :: "string list"
  se_model_dir :: string
  se_redis_url :: "string option"
  se_is_synthetic :: bool
  se_model_sha256 :: "string option"

record demo_secrets =
  ds_edge_hex :: string
  ds_audit_hex :: string
  ds_pubkey :: "string \<Rightarrow> string"
  ds_api_keys_json :: string

text \<open>\<^verbatim>\<open>env.get(k)\<close> is falsy: absent or empty.\<close>

definition env_unset :: "environ \<Rightarrow> string \<Rightarrow> bool" where
  "env_unset env k \<longleftrightarrow> map_of env k = None \<or> map_of env k = Some []"

definition missing_secrets :: "environ \<Rightarrow> string list" where
  "missing_secrets env = filter (env_unset env) REQUIRED_PROD"

definition setdefault :: "string \<Rightarrow> string \<Rightarrow> environ \<Rightarrow> environ" where
  "setdefault k v env = (if map_of env k = None then dict_set k v env else env)"

text \<open>The defaults of the demo mode; a public key is also replaced when it is set but empty.\<close>

definition demo_defaults :: "demo_secrets \<Rightarrow> environ \<Rightarrow> environ" where
  "demo_defaults ds env =
     (let env1 = setdefault ''PRAMAAN_EDGE_SECRET'' (''DEMO-'' @ ds_edge_hex ds) env;
          env2 = setdefault ''PRAMAAN_AUDIT_KEY'' (''DEMO-'' @ ds_audit_hex ds) env1;
          env3 = foldl (\<lambda>ev k. if env_unset ev k then dict_set k (ds_pubkey ds k) ev else ev) env2 PUBKEY_VARS;
          env4 = setdefault ''PRAMAAN_API_KEYS'' (ds_api_keys_json ds) env3
      in setdefault ''PRAMAAN_CORS_ORIGINS'' ''http://localhost:8000'' env4)"

text \<open>
  \<^verbatim>\<open>set(scopes)\<close>: the elements of a list, the keys of a dictionary, the characters of a string; anything
  else cannot be iterated, and a list or dictionary cannot be an element.
\<close>

definition scope_elements :: "json \<Rightarrow> py_exn + json list" where
  "scope_elements j = (case j of
       JList xs \<Rightarrow> if list_ex (\<lambda>x. case x of JList _ \<Rightarrow> True | JObj _ \<Rightarrow> True | _ \<Rightarrow> False) xs
                   then Inl TypeError else Inr xs
     | JObj d \<Rightarrow> Inr (map (JStr \<circ> fst) d)
     | JStr s \<Rightarrow> Inr (map (\<lambda>c. JStr [c]) s)
     | _ \<Rightarrow> Inl TypeError)"

text \<open>\<^verbatim>\<open>sorted(bad)\<close> in the message of the error: only values of one kind can be sorted.\<close>

definition sortable :: "json list \<Rightarrow> bool" where
  "sortable xs \<longleftrightarrow> length (remdups xs) \<le> 1 \<or>
     list_all (\<lambda>x. case x of JStr _ \<Rightarrow> True | _ \<Rightarrow> False) xs \<or>
     list_all (\<lambda>x. case x of JInt _ \<Rightarrow> True | JFloat _ \<Rightarrow> True | JBool _ \<Rightarrow> True | _ \<Rightarrow> False) xs"

fun scope_str :: "json \<Rightarrow> string" where
  "scope_str (JStr s) = s"
| "scope_str _ = []"

definition check_scopes :: "json \<Rightarrow> config_exn + string fset" where
  "check_scopes j =
     (case scope_elements j of
        Inl e \<Rightarrow> Inl (ConfigRaised e)
      | Inr xs \<Rightarrow>
        (let bad = filter (\<lambda>x. x \<notin> set (map JStr VALID_SCOPES)) xs in
         if bad \<noteq> [] then Inl (if sortable bad then ConfigError else ConfigRaised TypeError)
         else Inr (fset_of_list (map scope_str xs))))"

fun parse_api_keys :: "(string \<times> json) list \<Rightarrow> (string \<times> string fset) list \<Rightarrow>
    config_exn + (string \<times> string fset) list" where
  "parse_api_keys [] acc = Inr acc"
| "parse_api_keys ((key, scopes) # d) acc =
     sbind (check_scopes scopes) (\<lambda>s. parse_api_keys d (dict_set key s acc))"

definition api_keys_of :: "json_lib \<Rightarrow> string \<Rightarrow> config_exn + (string \<times> string fset) list" where
  "api_keys_of J raw =
     (case js_loads J raw of
        Inl e \<Rightarrow> Inl (if e = ValueError then ConfigError else ConfigRaised e)
      | Inr (JObj d) \<Rightarrow> parse_api_keys d []
      | Inr _ \<Rightarrow> Inl (ConfigRaised AttributeError))"

text \<open>\<^verbatim>\<open>str.strip()\<close> on ASCII white space.\<close>

definition is_space :: "char \<Rightarrow> bool" where
  "is_space c = (let n = byte c in n = 32 \<or> 9 \<le> n \<and> n \<le> 13 \<or> 28 \<le> n \<and> n \<le> 31)"

definition strip :: "string \<Rightarrow> string" where
  "strip s = rev (dropWhile is_space (rev (dropWhile is_space s)))"

definition cors_of :: "string \<Rightarrow> string list" where
  "cors_of s = filter (\<lambda>x. x \<noteq> []) (map strip (py_split (CHR '','') s))"

definition env_or_none :: "environ \<Rightarrow> string \<Rightarrow> string option" where
  "env_or_none env k = (if env_unset env k then None else map_of env k)"

definition env_item :: "environ \<Rightarrow> string \<Rightarrow> config_exn + string" where
  "env_item env k = (case map_of env k of None \<Rightarrow> Inl (ConfigRaised KeyError) | Some v \<Rightarrow> Inr v)"

fun check_pubkeys :: "('priv, 'pub) crypto \<Rightarrow> environ \<Rightarrow> string list \<Rightarrow> config_exn + unit" where
  "check_pubkeys C env [] = Inr ()"
| "check_pubkeys C env (k # ks) =
     (case map_of env k of
        None \<Rightarrow> Inl ConfigError
      | Some b \<Rightarrow> (case ed25519_from_b64 C b of Inl _ \<Rightarrow> Inl ConfigError | Inr _ \<Rightarrow> check_pubkeys C env ks))"

text \<open>The part of \<^verbatim>\<open>from_env\<close> after the environment has been completed.\<close>

definition build_settings ::
  "('priv, 'pub) crypto \<Rightarrow> json_lib \<Rightarrow> bool \<Rightarrow> string \<Rightarrow> string \<Rightarrow> bool \<Rightarrow> environ \<Rightarrow> config_exn + settings" where
  "build_settings C J has_ed25519 default_dir md synthetic env =
     sbind (sbind (env_item env ''PRAMAAN_API_KEYS'') (api_keys_of J)) (\<lambda>keys.
     sbind (env_item env ''PRAMAAN_CORS_ORIGINS'') (\<lambda>origins.
     if ''*'' \<in> set (cors_of origins) then Inl ConfigError
     else sbind (if has_ed25519 then check_pubkeys C env PUBKEY_VARS else Inr ()) (\<lambda>_.
     sbind (env_item env ''PRAMAAN_EDGE_SECRET'') (\<lambda>edge.
     sbind (env_item env ''PRAMAAN_AUDIT_KEY'') (\<lambda>akey.
     sbind (env_item env ''PRAMAAN_STEPUP_PUBKEY'') (\<lambda>sp.
     sbind (env_item env ''PRAMAAN_ATTEST_PUBKEY'') (\<lambda>ap.
     sbind (env_item env ''PRAMAAN_BEHAVIOR_PUBKEY'') (\<lambda>bp.
     Inr \<lparr> se_mode = md, se_edge_secret = edge, se_audit_signing_key = akey, se_stepup_pubkey = sp,
           se_attest_pubkey = ap, se_behavior_pubkey = bp, se_api_keys = keys, se_cors_origins = cors_of origins,
           se_model_dir = (case map_of env ''PRAMAAN_MODEL_DIR'' of None \<Rightarrow> default_dir | Some d \<Rightarrow> d),
           se_redis_url = env_or_none env ''PRAMAAN_REDIS_URL'', se_is_synthetic = synthetic,
           se_model_sha256 = env_or_none env ''PRAMAAN_MODEL_SHA256'' \<rparr>))))))))"

definition from_env ::
  "('priv, 'pub) crypto \<Rightarrow> json_lib \<Rightarrow> bool \<Rightarrow> string \<Rightarrow> demo_secrets \<Rightarrow> environ \<Rightarrow> config_exn + settings" where
  "from_env C J has_ed25519 default_dir ds env =
     (let md = (case map_of env ''PRAMAAN_MODE'' of None \<Rightarrow> ''prod'' | Some m \<Rightarrow> m) in
      if md \<notin> {''prod'', ''demo_synthetic''} then Inl ConfigError
      else if md = ''prod'' then
        (if missing_secrets env \<noteq> [] then Inl ConfigError
         else build_settings C J has_ed25519 default_dir md False env)
      else build_settings C J has_ed25519 default_dir md True (demo_defaults ds env))"

text \<open>\<^verbatim>\<open>stepup_validator\<close>: the verifier its key builds (the validator is \<open>validate\<close> over it).\<close>

definition stepup_verifier ::
  "('priv, 'pub) crypto \<Rightarrow> bool \<Rightarrow> settings \<Rightarrow> py_exn + 'pub verifier" where
  "stepup_verifier C has_ed25519 s = build_verifier C has_ed25519 (se_stepup_pubkey s)"

section \<open>Facts\<close>

lemma env_item_Inr: "env_item env k = Inr v \<longleftrightarrow> map_of env k = Some v"
  by (auto simp: env_item_def split: option.splits)

lemma check_scopes_valid:
  "check_scopes j = Inr s \<Longrightarrow> fset s \<subseteq> set VALID_SCOPES"
  by (auto simp: check_scopes_def Let_def filter_empty_conv fset_of_list.rep_eq
      split: sum.splits if_splits dest!: bspec)

lemma parse_api_keys_valid:
  assumes "parse_api_keys d acc = Inr keys" "\<forall>p\<in>set acc. fset (snd p) \<subseteq> set VALID_SCOPES" "distinct (map fst acc)"
  shows "(\<forall>p\<in>set keys. fset (snd p) \<subseteq> set VALID_SCOPES) \<and> distinct (map fst keys)"
  using assms
proof (induction d arbitrary: acc)
  case (Cons p d)
  obtain k j where p: "p = (k, j)" by fastforce
  with Cons.prems obtain s where s: "check_scopes j = Inr s" "parse_api_keys d (dict_set k s acc) = Inr keys"
    by (auto simp: sbind_eq_Inr)
  have "\<forall>q\<in>insert (k, s) (set acc). fset (snd q) \<subseteq> set VALID_SCOPES"
    using check_scopes_valid [OF s(1)] Cons.prems(2) by simp
  with set_dict_set [of k s acc] have "\<forall>q\<in>set (dict_set k s acc). fset (snd q) \<subseteq> set VALID_SCOPES"
    by blast
  with Cons.IH [OF s(2)] Cons.prems(3) show ?case by simp
qed simp

lemma check_pubkeys_Inr:
  "check_pubkeys C env ks = Inr u \<Longrightarrow> k \<in> set ks \<Longrightarrow>
     \<exists>b v. map_of env k = Some b \<and> ed25519_from_b64 C b = Inr v"
  by (induction ks) (auto split: option.splits sum.splits)

lemma build_settings_Inr:
  assumes "build_settings C J has_ed dir md syn env = Inr s"
  shows "se_mode s = md \<and> se_is_synthetic s = syn \<and> ''*'' \<notin> set (se_cors_origins s) \<and>
    (\<forall>p\<in>set (se_api_keys s). fset (snd p) \<subseteq> set VALID_SCOPES) \<and> distinct (map fst (se_api_keys s)) \<and>
    map_of env ''PRAMAAN_EDGE_SECRET'' = Some (se_edge_secret s) \<and>
    map_of env ''PRAMAAN_AUDIT_KEY'' = Some (se_audit_signing_key s) \<and>
    map_of env ''PRAMAAN_STEPUP_PUBKEY'' = Some (se_stepup_pubkey s) \<and>
    map_of env ''PRAMAAN_ATTEST_PUBKEY'' = Some (se_attest_pubkey s) \<and>
    map_of env ''PRAMAAN_BEHAVIOR_PUBKEY'' = Some (se_behavior_pubkey s) \<and>
    (has_ed \<longrightarrow> (\<forall>b\<in>{se_stepup_pubkey s, se_attest_pubkey s, se_behavior_pubkey s}.
       \<exists>v. ed25519_from_b64 C b = Inr v))"
proof -
  from assms obtain raw keys where k: "js_loads J raw = Inr (JObj keys)"
    "parse_api_keys keys [] = Inr (se_api_keys s)"
    by (auto simp: build_settings_def sbind_eq_Inr api_keys_of_def split: if_splits sum.splits json.splits)
  have "(\<forall>p\<in>set (se_api_keys s). fset (snd p) \<subseteq> set VALID_SCOPES) \<and> distinct (map fst (se_api_keys s))"
    using parse_api_keys_valid [OF k(2)] by simp
  moreover have "se_mode s = md \<and> se_is_synthetic s = syn \<and> ''*'' \<notin> set (se_cors_origins s) \<and>
    map_of env ''PRAMAAN_EDGE_SECRET'' = Some (se_edge_secret s) \<and>
    map_of env ''PRAMAAN_AUDIT_KEY'' = Some (se_audit_signing_key s) \<and>
    map_of env ''PRAMAAN_STEPUP_PUBKEY'' = Some (se_stepup_pubkey s) \<and>
    map_of env ''PRAMAAN_ATTEST_PUBKEY'' = Some (se_attest_pubkey s) \<and>
    map_of env ''PRAMAAN_BEHAVIOR_PUBKEY'' = Some (se_behavior_pubkey s) \<and>
    (has_ed \<longrightarrow> check_pubkeys C env PUBKEY_VARS = Inr ())"
    using assms by (auto simp: build_settings_def sbind_eq_Inr env_item_Inr split: if_splits)
  ultimately show ?thesis
    using check_pubkeys_Inr [of C env PUBKEY_VARS] by (fastforce simp: PUBKEY_VARS_def)
qed

lemma missing_secrets_Nil: "missing_secrets env = [] \<longleftrightarrow> (\<forall>k\<in>set REQUIRED_PROD. \<not> env_unset env k)"
  by (auto simp: missing_secrets_def filter_empty_conv)


text \<open>
  Startup fails loudly: an unknown mode, or prod mode with any required variable unset or empty, is a
  \<^verbatim>\<open>ConfigError\<close>, whatever the other variables are.
\<close>
theorem startup_fails_loud:
  assumes "map_of env ''PRAMAAN_MODE'' \<notin> {None, Some ''prod'', Some ''demo_synthetic''} \<or>
    map_of env ''PRAMAAN_MODE'' \<noteq> Some ''demo_synthetic'' \<and> k \<in> set REQUIRED_PROD \<and> env_unset env k"
  shows "from_env C J has_ed25519 dir ds env = Inl ConfigError"
proof (cases "map_of env ''PRAMAAN_MODE''")
  case None
  with assms have "missing_secrets env \<noteq> []" by (auto simp: missing_secrets_Nil)
  with None show ?thesis by (simp add: from_env_def)
next
  case (Some m)
  show ?thesis
  proof (cases "m \<in> {''prod'', ''demo_synthetic''}")
    case True
    with assms Some have "m = ''prod''" "missing_secrets env \<noteq> []" by (auto simp: missing_secrets_Nil)
    with Some show ?thesis by (simp add: from_env_def)
  next
    case False
    with Some show ?thesis by (simp add: from_env_def)
  qed
qed

section \<open>Witnesses\<close>

definition wit_env :: environ where
  "wit_env = [(''PRAMAAN_EDGE_SECRET'', ''e''), (''PRAMAAN_AUDIT_KEY'', ''a''), (''PRAMAAN_STEPUP_PUBKEY'', ''AAAA''),
     (''PRAMAAN_ATTEST_PUBKEY'', ''AAAA''), (''PRAMAAN_BEHAVIOR_PUBKEY'', ''AAAA''), (''PRAMAAN_API_KEYS'', ''{}''),
     (''PRAMAAN_CORS_ORIGINS'', ''https://a, https://b'')]"

definition wit_config_json :: json_lib where
  "wit_config_json = \<lparr> js_dumps = (\<lambda>_. []), js_loads = (\<lambda>_. Inr (JObj [(''soc'', JList [JStr ''audit:read''])])),
     js_float = (\<lambda>_. None), js_str = (\<lambda>_. []) \<rparr>"

definition wit_ed :: "(unit, unit) crypto" where
  "wit_ed = \<lparr> cr_ed_sign = (\<lambda>_ m. m), cr_ed_verify = (\<lambda>_ sig m. sig = m), cr_ed_public = id,
     cr_ed_private_bytes = (\<lambda>_. []), cr_ed_public_bytes = (\<lambda>_. []), cr_ed_from_private = (\<lambda>_. Inr ()),
     cr_ed_from_public = (\<lambda>_. Inr ()), cr_hmac = (\<lambda>k m. k @ m) \<rparr>"

definition wit_demo :: demo_secrets where
  "wit_demo = \<lparr> ds_edge_hex = ''0'', ds_audit_hex = ''1'', ds_pubkey = (\<lambda>_. ''AAAA''), ds_api_keys_json = ''{}'' \<rparr>"

lemma wit_key_reads: "ed25519_from_b64 wit_ed ''AAAA'' = Inr (Ed25519Verifier ())"
proof -
  have "b64d ''AAAA'' = Inr (replicate 3 (char_of (0 :: nat)))"
    by (simp add: b64d_def b64_padding_def urlsafe_b64decode_def b64_val_def byte_def Let_def numeral_3_eq_3)
  then show ?thesis by (simp add: ed25519_from_b64_def wit_ed_def)
qed

lemma wit_starts: "\<exists>s. from_env wit_ed wit_config_json True ''models'' wit_demo wit_env = Inr s \<and> se_mode s = ''prod''"
proof -
  have env: "map_of wit_env ''PRAMAAN_MODE'' = None" "missing_secrets wit_env = []"
    by (simp_all add: wit_env_def missing_secrets_def REQUIRED_PROD_def env_unset_def)
  have keys: "check_pubkeys wit_ed wit_env PUBKEY_VARS = Inr ()"
    by (simp add: PUBKEY_VARS_def wit_env_def wit_key_reads)
  have api: "api_keys_of wit_config_json ''{}'' = Inr [(''soc'', {|''audit:read''|})]"
    by (simp add: api_keys_of_def wit_config_json_def check_scopes_def scope_elements_def VALID_SCOPES_def Let_def)
  have cors: "''*'' \<notin> set (cors_of ''https://a, https://b'')"
    by (simp add: cors_of_def strip_def is_space_def byte_def Let_def)
  have items: "env_item wit_env ''PRAMAAN_API_KEYS'' = Inr ''{}''"
    "env_item wit_env ''PRAMAAN_CORS_ORIGINS'' = Inr ''https://a, https://b''"
    "env_item wit_env ''PRAMAAN_EDGE_SECRET'' = Inr ''e''" "env_item wit_env ''PRAMAAN_AUDIT_KEY'' = Inr ''a''"
    "env_item wit_env ''PRAMAAN_STEPUP_PUBKEY'' = Inr ''AAAA''"
    "env_item wit_env ''PRAMAAN_ATTEST_PUBKEY'' = Inr ''AAAA''"
    "env_item wit_env ''PRAMAAN_BEHAVIOR_PUBKEY'' = Inr ''AAAA''"
    by (simp_all add: env_item_def wit_env_def)
  show ?thesis
    by (simp add: from_env_def env build_settings_def items api cors keys)
qed


theorem startup_fails_loud_witness:
  "from_env wit_ed wit_config_json True ''models'' wit_demo [(''PRAMAAN_EDGE_SECRET'', ''e'')] = Inl ConfigError"
  by (rule startup_fails_loud [where k = "''PRAMAAN_AUDIT_KEY''"])
    (simp add: REQUIRED_PROD_def env_unset_def)

end
