(* ===== verification/Vault.thy ===== *)
theory Vault
  imports Schemas
begin

text \<open>
  The keyed PII vault with crypto-shredding: \<^verbatim>\<open>KeyedPiiStore\<close> (\<^verbatim>\<open>backend/app/keystore.py\<close>) and
  \<^verbatim>\<open>PostgresPiiVault\<close> (\<^verbatim>\<open>backend/app/stores.py\<close>). The cipher is a parameter \<open>fernet\<close>: a fresh key and the
  cipher's randomness are arguments of \<open>put\<close>. The locale \<open>pii_vault\<close> is the contract the two share and the
  erasure guarantee is proved in it; both stores are interpreted in it.
\<close>

section \<open>Primitives outside the repository\<close>

record fernet =
  fe_encrypt :: "string \<Rightarrow> string \<Rightarrow> string \<Rightarrow> string"
  fe_decrypt :: "string \<Rightarrow> string \<Rightarrow> py_exn + string"
  fe_dumps :: "(string \<times> json) list \<Rightarrow> string"
  fe_loads :: "string \<Rightarrow> py_exn + json"
  fe_sha256 :: "string \<Rightarrow> string"

text \<open>Material that the cipher and the JSON codec give back under every key.\<close>

definition material_ok :: "fernet \<Rightarrow> (string \<times> json) list \<Rightarrow> json \<Rightarrow> bool" where
  "material_ok F m j \<longleftrightarrow>
     (\<forall>key rnd. sbind (fe_decrypt F key (fe_encrypt F key rnd (fe_dumps F m))) (fe_loads F) = Inr j)"

datatype vault_exn = Erased | VaultRaised py_exn

definition vault_raising :: "py_exn + 'a \<Rightarrow> vault_exn + 'a" where
  "vault_raising m = (case m of Inl e \<Rightarrow> Inl (VaultRaised e) | Inr x \<Rightarrow> Inr x)"

lemma vault_raising_simps [simp]:
  "vault_raising (Inl e) = Inl (VaultRaised e)" "vault_raising (Inr x) = Inr x"
  by (simp_all add: vault_raising_def)

definition material_ref :: "fernet \<Rightarrow> string \<Rightarrow> string" where
  "material_ref F token = take 16 (fe_sha256 F token)"

section \<open>The in-memory vault\<close>

record keyed_vault =
  kv_keys :: "string \<Rightarrow> string option"
  kv_ct :: "string \<Rightarrow> string option"
  kv_tombstoned :: "string fset"

definition vault_empty :: keyed_vault where
  "vault_empty = \<lparr> kv_keys = Map.empty, kv_ct = Map.empty, kv_tombstoned = {||} \<rparr>"

text \<open>\<^verbatim>\<open>k or generate_key()\<close>: an empty key counts as none.\<close>

definition key_or :: "string option \<Rightarrow> string \<Rightarrow> string" where
  "key_or k fresh = (case k of None \<Rightarrow> fresh | Some x \<Rightarrow> if x = [] then fresh else x)"

definition vault_put ::
  "fernet \<Rightarrow> keyed_vault \<Rightarrow> string \<Rightarrow> string \<Rightarrow> string \<Rightarrow> (string \<times> json) list \<Rightarrow> keyed_vault \<times> (vault_exn + string)" where
  "vault_put F v fresh_key rnd i material =
     (if i |\<in>| kv_tombstoned v then (v, Inl Erased)
      else
        (let key = key_or (kv_keys v i) fresh_key;
             token = fe_encrypt F key rnd (fe_dumps F material)
         in (v\<lparr>kv_keys := (kv_keys v)(i \<mapsto> key), kv_ct := (kv_ct v)(i \<mapsto> token)\<rparr>,
             Inr (material_ref F token))))"

definition vault_get :: "fernet \<Rightarrow> keyed_vault \<Rightarrow> string \<Rightarrow> vault_exn + json" where
  "vault_get F v i =
     (case kv_keys v i of
        None \<Rightarrow> Inl Erased
      | Some key \<Rightarrow> vault_raising
          (case kv_ct v i of
             None \<Rightarrow> Inl KeyError
           | Some token \<Rightarrow> sbind (fe_decrypt F key token) (fe_loads F)))"

definition vault_erase :: "keyed_vault \<Rightarrow> string \<Rightarrow> keyed_vault \<times> bool" where
  "vault_erase v i =
     (v\<lparr>kv_keys := (kv_keys v)(i := None), kv_tombstoned := finsert i (kv_tombstoned v)\<rparr>,
      kv_keys v i \<noteq> None)"

definition vault_reconsent :: "keyed_vault \<Rightarrow> string \<Rightarrow> keyed_vault" where
  "vault_reconsent v i = v\<lparr>kv_tombstoned := kv_tombstoned v |-| {|i|}\<rparr>"

definition vault_is_erased :: "keyed_vault \<Rightarrow> string \<Rightarrow> bool" where
  "vault_is_erased v i \<longleftrightarrow> i |\<in>| kv_tombstoned v"

text \<open>An erased identity has no key.\<close>

definition vault_ok :: "keyed_vault \<Rightarrow> bool" where
  "vault_ok v \<longleftrightarrow> (\<forall>i. i |\<in>| kv_tombstoned v \<longrightarrow> kv_keys v i = None)"

section \<open>The Postgres vault\<close>

record pii_row =
  pii_ciphertext :: "string option"
  pii_fkey :: "string option"
  pii_tombstoned :: bool

type_synonym pii_table = "string \<Rightarrow> pii_row option"

definition pg_vault_put ::
  "fernet \<Rightarrow> pii_table \<Rightarrow> string \<Rightarrow> string \<Rightarrow> string \<Rightarrow> (string \<times> json) list \<Rightarrow> pii_table \<times> (vault_exn + string)" where
  "pg_vault_put F t fresh_key rnd i material =
     (case t i of
        Some row \<Rightarrow>
          if pii_tombstoned row then (t, Inl Erased)
          else
            (let key = key_or (pii_fkey row) fresh_key;
                 token = fe_encrypt F key rnd (fe_dumps F material)
             in (t(i \<mapsto> row\<lparr>pii_ciphertext := Some token, pii_fkey := Some key\<rparr>), Inr (material_ref F token)))
      | None \<Rightarrow>
          (let token = fe_encrypt F fresh_key rnd (fe_dumps F material)
           in (t(i \<mapsto> \<lparr> pii_ciphertext = Some token, pii_fkey = Some fresh_key, pii_tombstoned = False \<rparr>),
               Inr (material_ref F token))))"

text \<open>\<^verbatim>\<open>bytes(None)\<close>, for a key without a ciphertext, is a \<^verbatim>\<open>TypeError\<close>.\<close>

definition pg_vault_get :: "fernet \<Rightarrow> pii_table \<Rightarrow> string \<Rightarrow> vault_exn + json" where
  "pg_vault_get F t i =
     (case t i of
        None \<Rightarrow> Inl Erased
      | Some row \<Rightarrow>
        (case pii_fkey row of
           None \<Rightarrow> Inl Erased
         | Some key \<Rightarrow>
             if key = [] then Inl Erased
             else vault_raising
               (case pii_ciphertext row of
                  None \<Rightarrow> Inl TypeError
                | Some token \<Rightarrow> sbind (fe_decrypt F key token) (fe_loads F))))"

definition pg_vault_erase :: "pii_table \<Rightarrow> string \<Rightarrow> pii_table \<times> bool" where
  "pg_vault_erase t i =
     (case t i of
        None \<Rightarrow> (t(i \<mapsto> \<lparr> pii_ciphertext = None, pii_fkey = None, pii_tombstoned = True \<rparr>), False)
      | Some row \<Rightarrow> (t(i \<mapsto> row\<lparr>pii_fkey := None, pii_tombstoned := True\<rparr>), pii_fkey row \<noteq> None))"

definition pg_vault_is_erased :: "pii_table \<Rightarrow> string \<Rightarrow> bool" where
  "pg_vault_is_erased t i = (case t i of None \<Rightarrow> False | Some row \<Rightarrow> pii_tombstoned row)"

definition pg_vault_ok :: "pii_table \<Rightarrow> bool" where
  "pg_vault_ok t \<longleftrightarrow>
     (\<forall>i row. t i = Some row \<longrightarrow>
        (pii_tombstoned row \<longrightarrow> pii_fkey row = None) \<and> pii_fkey row \<noteq> Some [] \<and>
        (pii_fkey row \<noteq> None \<longrightarrow> pii_ciphertext row \<noteq> None))"

text \<open>Writes and erasures, with the key and the randomness each write would use.\<close>

datatype vault_op = VPut string string string "(string \<times> json) list" | VErase string

fun op_fresh :: "vault_op \<Rightarrow> bool" where
  "op_fresh (VPut fresh rnd i m) = (fresh \<noteq> [])"
| "op_fresh (VErase i) = True"

fun vault_run ::
  "('s \<Rightarrow> string \<Rightarrow> string \<Rightarrow> string \<Rightarrow> (string \<times> json) list \<Rightarrow> 's \<times> (vault_exn + string)) \<Rightarrow>
   ('s \<Rightarrow> string \<Rightarrow> 's \<times> bool) \<Rightarrow> 's \<Rightarrow> vault_op list \<Rightarrow> 's" where
  "vault_run put erase s [] = s"
| "vault_run put erase s (VPut fresh rnd i m # ops) = vault_run put erase (fst (put s fresh rnd i m)) ops"
| "vault_run put erase s (VErase i # ops) = vault_run put erase (fst (erase s i)) ops"

section \<open>The contract of a vault\<close>

text \<open>
  Over a store \<open>'s\<close>: \<open>put\<close> with a fresh key and randomness, \<open>get\<close>, \<open>erase\<close>, \<open>is_erased\<close>.
\<close>

locale pii_vault =
  fixes put :: "fernet \<Rightarrow> 's \<Rightarrow> string \<Rightarrow> string \<Rightarrow> string \<Rightarrow> (string \<times> json) list \<Rightarrow> 's \<times> (vault_exn + string)"
    and get :: "fernet \<Rightarrow> 's \<Rightarrow> string \<Rightarrow> vault_exn + json"
    and erase :: "'s \<Rightarrow> string \<Rightarrow> 's \<times> bool"
    and is_erased :: "'s \<Rightarrow> string \<Rightarrow> bool"
    and vok :: "'s \<Rightarrow> bool"
  assumes put_ok: "vok s \<Longrightarrow> fresh \<noteq> [] \<Longrightarrow> vok (fst (put F s fresh rnd i m))"
    and erase_ok: "vok s \<Longrightarrow> vok (fst (erase s i))"
    and put_erased: "is_erased s i \<Longrightarrow> put F s fresh rnd i m = (s, Inl Erased)"
    and put_get: "vok s \<Longrightarrow> fresh \<noteq> [] \<Longrightarrow> \<not> is_erased s i \<Longrightarrow> material_ok F m j \<Longrightarrow>
      \<exists>ref. snd (put F s fresh rnd i m) = Inr ref \<and> get F (fst (put F s fresh rnd i m)) i = Inr j"
    and put_other: "i' \<noteq> i \<Longrightarrow> get F (fst (put F s fresh rnd i m)) i' = get F s i'"
    and put_tomb: "is_erased (fst (put F s fresh rnd i m)) i' = is_erased s i'"
    and erase_marks: "is_erased (fst (erase s i)) i' \<longleftrightarrow> i' = i \<or> is_erased s i'"
    and erase_other: "i' \<noteq> i \<Longrightarrow> get F (fst (erase s i)) i' = get F s i'"
    and erased_get: "vok s \<Longrightarrow> is_erased s i \<Longrightarrow> get F s i = Inl Erased"
begin

text \<open>Erasure lasts through any sequence of later writes and erasures.\<close>

lemma erased_forever:
  assumes "vok s" "is_erased s i" "list_all op_fresh ops"
  shows "vok (vault_run (put F) erase s ops) \<and> is_erased (vault_run (put F) erase s ops) i \<and>
    get F (vault_run (put F) erase s ops) i = Inl Erased"
  using assms
proof (induction ops arbitrary: s)
  case Nil
  then show ?case by (simp add: erased_get)
next
  case (Cons op ops)
  show ?case
  proof (cases op)
    case (VPut fresh rnd i' m)
    with Cons.prems have "vok (fst (put F s fresh rnd i' m))" "is_erased (fst (put F s fresh rnd i' m)) i"
      by (simp_all add: put_ok put_tomb)
    with Cons VPut show ?thesis by simp
  next
    case (VErase i')
    with Cons.prems have "vok (fst (erase s i'))" "is_erased (fst (erase s i')) i"
      by (simp_all add: erase_ok erase_marks)
    with Cons VErase show ?thesis by simp
  qed
qed

lemma erase_lasts:
  assumes "vok s" "list_all op_fresh ops"
  shows "get F (vault_run (put F) erase (fst (erase s i)) ops) i = Inl Erased"
    and "is_erased (vault_run (put F) erase (fst (erase s i)) ops) i"
  using erased_forever [of "fst (erase s i)" i ops F] assms by (simp_all add: erase_ok erase_marks)

end

interpretation mem_vault: pii_vault vault_put vault_get vault_erase vault_is_erased vault_ok
  by unfold_locales
    (auto simp: vault_put_def vault_get_def vault_erase_def vault_is_erased_def vault_ok_def Let_def
      material_ok_def cong: option.case_cong)

interpretation pg_vault: pii_vault pg_vault_put pg_vault_get pg_vault_erase pg_vault_is_erased pg_vault_ok
proof unfold_locales
  fix s and fresh rnd i :: string and F m
  assume "pg_vault_ok s" "fresh \<noteq> []"
  then show "pg_vault_ok (fst (pg_vault_put F s fresh rnd i m))"
    by (auto simp: pg_vault_put_def pg_vault_ok_def key_or_def Let_def split: option.splits)
next
  fix s and fresh rnd i :: string and F m j
  assume s: "pg_vault_ok s" "fresh \<noteq> []" "\<not> pg_vault_is_erased s i" "material_ok F m j"
  then have "key_or k fresh \<noteq> []" for k by (simp add: key_or_def split: option.splits)
  with s show "\<exists>ref. snd (pg_vault_put F s fresh rnd i m) = Inr ref \<and>
      pg_vault_get F (fst (pg_vault_put F s fresh rnd i m)) i = Inr j"
    by (auto simp: pg_vault_put_def pg_vault_get_def pg_vault_is_erased_def Let_def material_ok_def
        split: option.splits)
next
  fix s i
  assume "pg_vault_ok s"
  then show "pg_vault_ok (fst (pg_vault_erase s i))"
    by (auto simp: pg_vault_erase_def pg_vault_ok_def split: option.splits)
next
  fix s F i
  assume "pg_vault_ok s" "pg_vault_is_erased s i"
  then show "pg_vault_get F s i = Inl Erased"
    by (auto simp: pg_vault_get_def pg_vault_is_erased_def pg_vault_ok_def split: option.splits)
qed (auto simp: pg_vault_put_def pg_vault_get_def pg_vault_erase_def pg_vault_is_erased_def Let_def
    split: option.splits)

section \<open>The durable vault refines the in-memory one\<close>

definition vault_sim :: "pii_table \<Rightarrow> keyed_vault \<Rightarrow> bool" where
  "vault_sim t v \<longleftrightarrow> (\<forall>i. kv_keys v i = Option.bind (t i) pii_fkey \<and> kv_ct v i = Option.bind (t i) pii_ciphertext \<and>
     (i |\<in>| kv_tombstoned v \<longleftrightarrow> pg_vault_is_erased t i))"

lemma vault_sim_put:
  assumes "vault_sim t v"
  shows "vault_sim (fst (pg_vault_put F t fresh rnd i m)) (fst (vault_put F v fresh rnd i m)) \<and>
    snd (pg_vault_put F t fresh rnd i m) = snd (vault_put F v fresh rnd i m)"
  using assms
  by (auto simp: vault_sim_def pg_vault_put_def vault_put_def pg_vault_is_erased_def Let_def key_or_def
      split: option.splits)

lemma vault_sim_get:
  assumes "vault_sim t v" "pg_vault_ok t"
  shows "pg_vault_get F t i = vault_get F v i"
  using assms
  by (cases "t i") (force simp: vault_sim_def pg_vault_get_def vault_get_def pg_vault_ok_def split: option.splits)+

lemma vault_sim_erase:
  assumes "vault_sim t v"
  shows "vault_sim (fst (pg_vault_erase t i)) (fst (vault_erase v i)) \<and>
    snd (pg_vault_erase t i) = snd (vault_erase v i)"
  using assms
  by (auto simp: vault_sim_def pg_vault_erase_def vault_erase_def pg_vault_is_erased_def split: option.splits)

section \<open>Properties\<close>

text \<open>
  C19: Erasure is durable in both vaults: after an erase, whatever is written or erased later, under whatever
  keys, the identity stays erased and reading it back raises \<open>Erased\<close> (only \<open>vault_reconsent\<close> lifts
  the in-memory tombstone).
\<close>
theorem erasure_is_durable:
  assumes "vault_ok v" "pg_vault_ok t" "list_all op_fresh ops"
  shows "vault_get F (vault_run (vault_put F) vault_erase (fst (vault_erase v i)) ops) i = Inl Erased \<and>
    vault_is_erased (vault_run (vault_put F) vault_erase (fst (vault_erase v i)) ops) i \<and>
    pg_vault_get F (vault_run (pg_vault_put F) pg_vault_erase (fst (pg_vault_erase t i)) ops) i = Inl Erased \<and>
    pg_vault_is_erased (vault_run (pg_vault_put F) pg_vault_erase (fst (pg_vault_erase t i)) ops) i"
  using mem_vault.erase_lasts [OF assms(1,3)] pg_vault.erase_lasts [OF assms(2,3)] by blast

definition wit_fernet :: fernet where
  "wit_fernet = \<lparr> fe_encrypt = (\<lambda>k r m. r @ m), fe_decrypt = (\<lambda>k c. Inr (drop 1 c)), fe_dumps = (\<lambda>_. ''m''),
     fe_loads = (\<lambda>_. Inr (JObj [])), fe_sha256 = (\<lambda>x. x) \<rparr>"

theorem erasure_is_durable_witness:
  "vault_get wit_fernet (vault_run (vault_put wit_fernet) vault_erase
     (fst (vault_erase (fst (vault_put wit_fernet vault_empty ''k'' ''r'' ''id1'' [])) ''id1''))
     [VPut ''k2'' ''r'' ''id1'' []]) ''id1'' = Inl Erased"
proof -
  have "vault_ok (fst (vault_put wit_fernet vault_empty ''k'' ''r'' ''id1'' []))"
    by (simp add: vault_ok_def vault_put_def vault_empty_def Let_def)
  moreover have "pg_vault_ok Map.empty" by (simp add: pg_vault_ok_def)
  ultimately show ?thesis
    using erasure_is_durable [of _ _ "[VPut ''k2'' ''r'' ''id1'' []]" wit_fernet "''id1''"] by simp
qed

text \<open>
  C13: The Postgres vault implements the in-memory one: from related states every operation gives the same
  result, exceptions included, and related states; the relation reads a row's key, ciphertext and tombstone.
\<close>
theorem postgres_vault_refines:
  assumes "vault_sim t v" "pg_vault_ok t"
  shows "snd (pg_vault_put F t fresh rnd i m) = snd (vault_put F v fresh rnd i m) \<and>
    vault_sim (fst (pg_vault_put F t fresh rnd i m)) (fst (vault_put F v fresh rnd i m)) \<and>
    pg_vault_get F t i = vault_get F v i \<and>
    snd (pg_vault_erase t i) = snd (vault_erase v i) \<and>
    vault_sim (fst (pg_vault_erase t i)) (fst (vault_erase v i)) \<and>
    pg_vault_is_erased t i = vault_is_erased v i"
proof (intro conjI)
  show "pg_vault_is_erased t i = vault_is_erased v i"
    using assms(1) by (simp add: vault_sim_def vault_is_erased_def)
qed (simp_all add: vault_sim_put [OF assms(1)] vault_sim_erase [OF assms(1)] vault_sim_get [OF assms])

theorem postgres_vault_refines_witness:
  "snd (pg_vault_put wit_fernet Map.empty ''k'' ''r'' ''id1'' []) = snd (vault_put wit_fernet vault_empty ''k'' ''r'' ''id1'' []) \<and>
   pg_vault_get wit_fernet Map.empty ''id1'' = vault_get wit_fernet vault_empty ''id1''"
  using postgres_vault_refines [of Map.empty vault_empty]
  by (simp add: vault_sim_def vault_empty_def pg_vault_ok_def pg_vault_is_erased_def)

text \<open>
  What was stored is what is read: after a write to an identity that is not erased, with a working
  cipher, both vaults return the material, and no other identity's material changes.
\<close>
theorem vault_put_get:
  assumes "vault_ok v" "fresh \<noteq> []" "\<not> vault_is_erased v i" "material_ok F m j"
    and "pg_vault_ok t" "\<not> pg_vault_is_erased t i" "i' \<noteq> i"
  shows "vault_get F (fst (vault_put F v fresh rnd i m)) i = Inr j \<and>
    vault_get F (fst (vault_put F v fresh rnd i m)) i' = vault_get F v i' \<and>
    pg_vault_get F (fst (pg_vault_put F t fresh rnd i m)) i = Inr j \<and>
    pg_vault_get F (fst (pg_vault_put F t fresh rnd i m)) i' = pg_vault_get F t i'"
  using mem_vault.put_get [OF assms(1-4)] pg_vault.put_get [OF assms(5,2,6,4)]
    mem_vault.put_other [OF assms(7)] pg_vault.put_other [OF assms(7)] by blast

theorem vault_put_get_witness:
  "vault_get wit_fernet (fst (vault_put wit_fernet vault_empty ''k'' ''r'' ''id1'' [])) ''id1'' = Inr (JObj [])"
proof -
  have "material_ok wit_fernet [] (JObj [])"
    by (simp add: material_ok_def wit_fernet_def)
  then show ?thesis
    using vault_put_get [of vault_empty "''k''" "''id1''" wit_fernet "[]" "JObj []" Map.empty "''id2''" "''r''"]
    by (simp add: vault_ok_def vault_empty_def vault_is_erased_def pg_vault_ok_def pg_vault_is_erased_def)
qed

end
