(* ===== verification/Api.thy ===== *)
theory Api
  imports Auth Config Vault AuditProps EngineProps VerifierFacts
begin

text \<open>
  The API service: \<^verbatim>\<open>backend/app/main.py\<close>. \<open>api_env\<close> is what the process builds at startup (engine, store,
  audit primitives, step-up verifier, vault cipher, API keys); \<open>api_state\<close> is the state of its module-level
  objects; each endpoint is a definition over both. \<open>api_inputs\<close> are the clock readings and random values one
  request consumes. \<open>api_step\<close> is any request that can change state, in any order.
\<close>

section \<open>State\<close>

definition IDEM_MAX :: nat where "IDEM_MAX = 10000"
definition STEPUP_ACCEPTED_MAX :: int where "STEPUP_ACCEPTED_MAX = 5"
definition STEPUP_FAILURE_MAX :: int where "STEPUP_FAILURE_MAX = 20"
definition STEPUP_WINDOW_SECONDS :: pyfloat where "STEPUP_WINDOW_SECONDS = Fin 300"

fun stepup_message :: "bool \<Rightarrow> string" where
  "stepup_message True = ''Verification successful.''"
| "stepup_message False = ''Verification failed.''"

record ('o, 'n, 's, 'priv, 'pub) api_env =
  ae_engine :: "('o, 'n) trust_engine"
  ae_ops :: "'s store_ops"
  ae_audit :: audit_lib
  ae_crypto :: "('priv, 'pub) crypto"
  ae_json :: json_lib
  ae_verifier :: "'pub verifier"
  ae_fernet :: fernet
  ae_keys :: api_keys
  ae_mode :: string

type_synonym rate_bucket = "(string \<times> pyfloat list) list"

type_synonym idem_cache = "((string \<times> string) \<times> string \<times> risk_assessment) list"

record ('n, 's) api_state =
  ap_world :: "'s \<times> 'n"
  ap_audit :: audit_log
  ap_nonces :: mem_nonce
  ap_vault :: keyed_vault
  ap_idem :: idem_cache
  ap_accepted :: rate_bucket
  ap_failures :: rate_bucket

definition api_start :: "'s \<times> 'n \<Rightarrow> string \<Rightarrow> ('n, 's) api_state" where
  "api_start w key =
     \<lparr> ap_world = w, ap_audit = new_log (Some key), ap_nonces = [], ap_vault = vault_empty, ap_idem = [],
       ap_accepted = [], ap_failures = [] \<rparr>"

record api_inputs =
  ai_engine :: call_inputs
  ai_audit_ts :: pyfloat
  ai_vault_key :: string
  ai_vault_rnd :: string
  ai_now :: pyfloat
  ai_validate_now :: pyfloat
  ai_wall :: pyfloat

section \<open>Helpers\<close>

definition event_fingerprint :: "audit_lib \<Rightarrow> identity_event \<Rightarrow> string" where
  "event_fingerprint L e = al_sha256 L (al_dumps L (dict_del ''idempotency_key'' (event_dump e)))"

text \<open>\<^verbatim>\<open>_rate_count\<close>: the bucket is pruned in place and dropped when it becomes empty.\<close>

definition rate_count :: "rate_bucket \<Rightarrow> string \<Rightarrow> pyfloat \<Rightarrow> rate_bucket \<times> int" where
  "rate_count b i now =
     (case map_of b i of
        None \<Rightarrow> (b, 0)
      | Some q \<Rightarrow>
        (let q' = filter (\<lambda>t. now - t < STEPUP_WINDOW_SECONDS) q in
         if q' = [] then (dict_del i b, 0) else (dict_set i q' b, int (length q'))))"

text \<open>\<^verbatim>\<open>bucket.setdefault(identity_id, []).append(now)\<close>.\<close>

definition rate_add :: "rate_bucket \<Rightarrow> string \<Rightarrow> pyfloat \<Rightarrow> rate_bucket" where
  "rate_add b i now = dict_set i ((case map_of b i of None \<Rightarrow> [] | Some q \<Rightarrow> q) @ [now]) b"

text \<open>\<^verbatim>\<open>while len(cache) > MAX: cache.popitem(last=False)\<close>.\<close>

fun evict_oldest :: "nat \<Rightarrow> 'a list \<Rightarrow> 'a list" where
  "evict_oldest n [] = []"
| "evict_oldest n (x # xs) = (if n < length (x # xs) then evict_oldest n xs else x # xs)"

section \<open>Ingest\<close>

text \<open>\<^verbatim>\<open>cache_key\<close>: none without a (non-empty) idempotency key.\<close>

definition idem_key :: "auth_context \<Rightarrow> identity_event \<Rightarrow> (string \<times> string) option" where
  "idem_key ctx e =
     (case ev_idempotency_key e of
        None \<Rightarrow> None
      | Some k \<Rightarrow> if k = [] then None else Some (ac_client_id ctx, k))"

definition vault_stash ::
  "fernet \<Rightarrow> keyed_vault \<Rightarrow> api_inputs \<Rightarrow> identity_event \<Rightarrow> keyed_vault \<times> (py_exn + string option)" where
  "vault_stash F v inp e =
     (if vault_is_erased v (ev_identity_id e) then (v, Inr None)
      else (case vault_put F v (ai_vault_key inp) (ai_vault_rnd inp) (ev_identity_id e)
                   [(''identity_token'', JStr (ev_identity_id e)), (''geo'', JStr (ev_geo e)),
                    (''device'', JStr (ev_device_id e))] of
              (v', Inl Erased) \<Rightarrow> (v', Inl KeyError)
            | (v', Inl (VaultRaised x)) \<Rightarrow> (v', Inl x)
            | (v', Inr ref) \<Rightarrow> (v', Inr (Some ref))))"

definition idem_store ::
  "(string \<times> string) option \<Rightarrow> string \<Rightarrow> risk_assessment \<Rightarrow> idem_cache \<Rightarrow> idem_cache" where
  "idem_store key fp resp c =
     (case key of
        None \<Rightarrow> c
      | Some k \<Rightarrow> evict_oldest IDEM_MAX (move_to_end k (dict_set k (fp, resp) c)))"

text \<open>The part of \<^verbatim>\<open>ingest_event\<close> after the cache has missed.\<close>

definition score_event ::
  "('o, 'n, 's, 'priv, 'pub) api_env \<Rightarrow> api_inputs \<Rightarrow> identity_event \<Rightarrow> (string \<times> string) option \<Rightarrow>
   ('n, 's) api_state \<Rightarrow> ('n, 's) api_state \<times> (http_exn + risk_assessment)" where
  "score_event env inp e key st =
     (case assess (ae_engine env) (ae_ops env) (ai_engine inp) e (ap_world st) of
        (w, Inl x) \<Rightarrow> (st\<lparr>ap_world := w\<rparr>, Inl (Unhandled x))
      | (w, Inr soc) \<Rightarrow>
        (case vault_stash (ae_fernet env) (ap_vault st) inp e of
           (v, Inl x) \<Rightarrow> (st\<lparr>ap_world := w, ap_vault := v\<rparr>, Inl (Unhandled x))
         | (v, Inr ref) \<Rightarrow>
           (case audit_append (ae_audit env) (ap_audit st) (ai_audit_ts inp)
                   (JObj (dict_set ''pii_ref'' (json_opt JStr ref) (to_audit_payload soc))) of
              (a, Inl x) \<Rightarrow> (st\<lparr>ap_world := w, ap_vault := v, ap_audit := a\<rparr>, Inl (Unhandled x))
            | (a, Inr _) \<Rightarrow>
              (st\<lparr>ap_world := w, ap_vault := v, ap_audit := a,
                  ap_idem := idem_store key (event_fingerprint (ae_audit env) e) (to_client soc) (ap_idem st)\<rparr>,
               Inr (to_client soc)))))"

definition ingest_event ::
  "('o, 'n, 's, 'priv, 'pub) api_env \<Rightarrow> api_inputs \<Rightarrow> string option \<Rightarrow> identity_event \<Rightarrow>
   ('n, 's) api_state \<Rightarrow> ('n, 's) api_state \<times> (http_exn + risk_assessment)" where
  "ingest_event env inp header e st =
     (case require_scope (ae_keys env) ''events:write'' header of
        Inl x \<Rightarrow> (st, Inl x)
      | Inr ctx \<Rightarrow>
        (case idem_key ctx e of
           None \<Rightarrow> score_event env inp e None st
         | Some k \<Rightarrow>
           (case map_of (ap_idem st) k of
              None \<Rightarrow> score_event env inp e (Some k) st
            | Some (stored_fp, stored_resp) \<Rightarrow>
              (case compare_digest stored_fp (event_fingerprint (ae_audit env) e) of
                 Inl x \<Rightarrow> (st, Inl (Unhandled x))
               | Inr False \<Rightarrow>
                   (st, Inl (HTTPException 409 ''idempotency key reused with a different payload''))
               | Inr True \<Rightarrow> (st\<lparr>ap_idem := move_to_end k (ap_idem st)\<rparr>, Inr stored_resp)))))"

section \<open>Step-up\<close>

fun rejection_name :: "rejection \<Rightarrow> string" where
  "rejection_name MalformedAssertion = ''MalformedAssertion''"
| "rejection_name BadSignature = ''BadSignature''"
| "rejection_name ExpiredAssertion = ''ExpiredAssertion''"
| "rejection_name ReplayedNonce = ''ReplayedNonce''"
| "rejection_name IdentityMismatch = ''IdentityMismatch''"

text \<open>The part after the assertion has been accepted; the response model needs a string challenge.\<close>

definition apply_accepted ::
  "('o, 'n, 's, 'priv, 'pub) api_env \<Rightarrow> api_inputs \<Rightarrow> string \<Rightarrow> assertion \<Rightarrow>
   ('n, 's) api_state \<Rightarrow> ('n, 's) api_state \<times> (http_exn + step_up_result)" where
  "apply_accepted env inp i a st =
     (let (acc, n) = rate_count (ap_accepted st) i (ai_now inp) in
      if STEPUP_ACCEPTED_MAX \<le> n then
        (st\<lparr>ap_accepted := acc\<rparr>, Inl (HTTPException 429 ''too many step-up attempts''))
      else
        (let st1 = st\<lparr>ap_accepted := rate_add acc i (ai_now inp)\<rparr> in
         case apply_verified_step_up (ae_ops env) i (passed a) (fst (ap_world st1)) of
           (s, Inl x) \<Rightarrow> (st1\<lparr>ap_world := (s, snd (ap_world st1))\<rparr>, Inl (Unhandled x))
         | (s, Inr new_trust) \<Rightarrow>
           (let st2 = st1\<lparr>ap_world := (s, snd (ap_world st1))\<rparr> in
            case audit_append (ae_audit env) (ap_audit st2) (ai_audit_ts inp)
                   (JObj [(''type'', JStr ''step_up''), (''identity_id'', JStr i), (''method'', as_method a),
                          (''result'', as_result a), (''challenge_id'', as_challenge_id a),
                          (''new_trust_score'', JInt new_trust)]) of
              (lg, Inl x) \<Rightarrow> (st2\<lparr>ap_audit := lg\<rparr>, Inl (Unhandled x))
            | (lg, Inr _) \<Rightarrow>
              (st2\<lparr>ap_audit := lg\<rparr>,
               (case as_challenge_id a of
                  JStr c \<Rightarrow> Inr \<lparr> sr_challenge_id = JStr c,
                                  sr_decision = (if passed a then ALLOW else BLOCK),
                                  sr_message = stepup_message (passed a) \<rparr>
                | _ \<Rightarrow> Inl (Unhandled ValueError))))))"

definition step_up_outcome ::
  "('o, 'n, 's, 'priv, 'pub) api_env \<Rightarrow> api_inputs \<Rightarrow> string option \<Rightarrow> string \<Rightarrow> step_up_request \<Rightarrow>
   ('n, 's) api_state \<Rightarrow> ('n, 's) api_state \<times> (http_exn + step_up_result)" where
  "step_up_outcome env inp header i body st =
     (case require_scope (ae_keys env) ''stepup:write'' header of
        Inl x \<Rightarrow> (st, Inl x)
      | Inr ctx \<Rightarrow>
        (let (fails, n) = rate_count (ap_failures st) i (ai_now inp);
             st1 = st\<lparr>ap_failures := fails\<rparr>
         in if STEPUP_FAILURE_MAX \<le> n then
              (st1, Inl (HTTPException 429 ''too many failed step-up attempts''))
            else
              (case validate (ae_crypto env) (ae_json env) (ae_verifier env) mem_nonce_ops (Fin 5) (ap_nonces st1)
                      (rq_assertion body) i (ai_validate_now inp) (ai_wall inp) of
                 (c, Inr a) \<Rightarrow> apply_accepted env inp i a (st1\<lparr>ap_nonces := c\<rparr>)
               | (c, Inl (Raised x)) \<Rightarrow> (st1\<lparr>ap_nonces := c\<rparr>, Inl (Unhandled x))
               | (c, Inl (Rejected r)) \<Rightarrow>
                 (let st2 = st1\<lparr>ap_nonces := c, ap_failures := rate_add (ap_failures st1) i (ai_now inp)\<rparr> in
                  case audit_append (ae_audit env) (ap_audit st2) (ai_audit_ts inp)
                         (JObj [(''type'', JStr ''step_up_rejected''), (''identity_id'', JStr i),
                                (''reason'', JStr (rejection_name r))]) of
                    (lg, Inl x) \<Rightarrow> (st2\<lparr>ap_audit := lg\<rparr>, Inl (Unhandled x))
                  | (lg, Inr _) \<Rightarrow>
                      (st2\<lparr>ap_audit := lg\<rparr>, Inl (HTTPException 401 ''invalid step-up assertion''))))))"

section \<open>Reads and erasure\<close>

definition identity_state_of ::
  "('o, 'n, 's, 'priv, 'pub) api_env \<Rightarrow> string option \<Rightarrow> string \<Rightarrow> ('n, 's) api_state \<Rightarrow>
   http_exn + (string \<times> json) list" where
  "identity_state_of env header i st =
     sbind (require_scope (ae_keys env) ''identity:read'' header) (\<lambda>_.
     sbind (unhandled (identity_snapshot (ae_ops env) i (fst (ap_world st)))) (\<lambda>sn. Inr
       [(''identity_id'', JStr i), (''trust_score'', JInt (sn_trust_score sn)),
        (''known_devices'', JInt (sn_known_devices sn)), (''events_seen'', JInt (sn_events_seen sn))]))"

definition erase_identity ::
  "('o, 'n, 's, 'priv, 'pub) api_env \<Rightarrow> api_inputs \<Rightarrow> string option \<Rightarrow> string \<Rightarrow>
   ('n, 's) api_state \<Rightarrow> ('n, 's) api_state \<times> (http_exn + (string \<times> json) list)" where
  "erase_identity env inp header i st =
     (case require_scope (ae_keys env) ''identity:erase'' header of
        Inl x \<Rightarrow> (st, Inl x)
      | Inr _ \<Rightarrow>
        (let (v, existed) = vault_erase (ap_vault st) i;
             (lg, r) = audit_append (ae_audit env) (ap_audit st) (ai_audit_ts inp)
               (JObj [(''type'', JStr ''erasure''), (''identity_id'', JStr i), (''method'', JStr ''crypto_shred''),
                      (''existed'', JBool existed)]);
             st1 = st\<lparr>ap_vault := v, ap_audit := lg\<rparr>
         in case r of
              Inl x \<Rightarrow> (st1, Inl (Unhandled x))
            | Inr _ \<Rightarrow> (st1, sbind (unhandled (verify_chain (ae_audit env) lg)) (\<lambda>ok. Inr
                [(''identity_id'', JStr i), (''erased'', JBool existed), (''method'', JStr ''crypto_shred''),
                 (''chain_intact'', JBool ok)]))))"

definition audit_tail_of ::
  "('o, 'n, 's, 'priv, 'pub) api_env \<Rightarrow> string option \<Rightarrow> int \<Rightarrow> ('n, 's) api_state \<Rightarrow>
   http_exn + bool \<times> audit_record list" where
  "audit_tail_of env header n st =
     sbind (require_scope (ae_keys env) ''audit:read'' header) (\<lambda>_.
     sbind (unhandled (verify_chain (ae_audit env) (ap_audit st))) (\<lambda>ok.
     Inr (ok, audit_tail (ap_audit st) n)))"

definition audit_verify ::
  "('o, 'n, 's, 'priv, 'pub) api_env \<Rightarrow> string option \<Rightarrow> ('n, 's) api_state \<Rightarrow> http_exn + (string \<times> json) list" where
  "audit_verify env header st =
     sbind (require_scope (ae_keys env) ''audit:read'' header) (\<lambda>_.
     sbind (unhandled (verify_chain (ae_audit env) (ap_audit st))) (\<lambda>ok.
     sbind (unhandled (head_checkpoint (ae_audit env) (ap_audit st))) (\<lambda>cp. Inr
       [(''chain_intact'', JBool ok), (''records'', JInt (int (length (au_records (ap_audit st))))),
        (''head_checkpoint'', JStr cp)])))"

definition health ::
  "('o, 'n, 's, 'priv, 'pub) api_env \<Rightarrow> ('n, 's) api_state \<Rightarrow> http_exn + (string \<times> json) list" where
  "health env st =
     sbind (unhandled (verify_chain (ae_audit env) (ap_audit st))) (\<lambda>ok. Inr
       [(''status'', JStr ''ok''), (''service'', JStr ''pramaan''), (''mode'', JStr (ae_mode env)),
        (''model'', JStr (model_mode (ae_engine env))), (''audit_chain_intact'', JBool ok)])"

section \<open>Any sequence of requests\<close>

inductive api_step ::
  "('o, 'n, 's, 'priv, 'pub) api_env \<Rightarrow> ('n, 's) api_state \<Rightarrow> ('n, 's) api_state \<Rightarrow> bool" for env where
  ingest: "ingest_event env inp header e st = (st', r) \<Longrightarrow> api_step env st st'"
| step_up: "step_up_outcome env inp header i body st = (st', r') \<Longrightarrow> api_step env st st'"
| erase: "erase_identity env inp header i st = (st', r'') \<Longrightarrow> api_step env st st'"

inductive api_reach ::
  "('o, 'n, 's, 'priv, 'pub) api_env \<Rightarrow> ('n, 's) api_state \<Rightarrow> ('n, 's) api_state \<Rightarrow> bool" for env st0 where
  start: "api_reach env st0 st0"
| step: "api_reach env st0 st \<Longrightarrow> api_step env st st' \<Longrightarrow> api_reach env st0 st'"

inductive_cases api_stepE: "api_step env st st'"

end
