(* ===== verification/ApiProps.thy ===== *)
theory ApiProps
  imports Api VerifierProps
begin

text \<open>
  The properties of the API service (\<^verbatim>\<open>backend/app/main.py\<close>). First what one request can do to each part of
  the state, whatever its outcome; then the invariants of every reachable state and the properties of the
  idempotency cache, the step-up endpoint and the erasure endpoint.
\<close>

section \<open>What a request does to each part of the state\<close>

lemma score_event_parts:
  assumes "score_event env inp e key st = (st', r)"
  shows "(\<exists>r0. assess (ae_engine env) (ae_ops env) (ai_engine inp) e (ap_world st) = (ap_world st', r0)) \<and>
    (ap_audit st' = ap_audit st \<or> (\<exists>ts p. ap_audit st' = fst (audit_append (ae_audit env) (ap_audit st) ts p))) \<and>
    (ap_vault st' = ap_vault st \<or> ap_vault st' = fst (vault_stash (ae_fernet env) (ap_vault st) inp e)) \<and>
    (ap_idem st' = ap_idem st \<or> (\<exists>fp resp. ap_idem st' = idem_store key fp resp (ap_idem st))) \<and>
    ap_nonces st' = ap_nonces st \<and> ap_accepted st' = ap_accepted st \<and> ap_failures st' = ap_failures st"
  using assms
  by (auto simp: score_event_def split: prod.splits sum.splits) (metis fst_conv)+

lemma ingest_parts:
  assumes "ingest_event env inp header e st = (st', r)"
  obtains (unchanged) "st' = st"
  | (replayed) k where "st' = st\<lparr>ap_idem := move_to_end k (ap_idem st)\<rparr>"
  | (scored) key where "score_event env inp e key st = (st', r)"
  using assms unfolding ingest_event_def
  by (auto split: sum.splits option.splits prod.splits bool.splits)

lemma apply_accepted_parts:
  assumes "apply_accepted env inp i a st = (st', r)"
  obtains (capped) acc where "st' = st\<lparr>ap_accepted := acc\<rparr>" "r = Inl (HTTPException 429 ''too many step-up attempts'')"
  | (failed) acc s x where "apply_verified_step_up (ae_ops env) i (passed a) (fst (ap_world st)) = (s, Inl x)"
      "st' = st\<lparr>ap_accepted := acc, ap_world := (s, snd (ap_world st))\<rparr>" "r = Inl (Unhandled x)"
  | (applied) acc s t lg y p where
      "apply_verified_step_up (ae_ops env) i (passed a) (fst (ap_world st)) = (s, Inr t)"
      "audit_append (ae_audit env) (ap_audit st) (ai_audit_ts inp) p = (lg, y)"
      "st' = st\<lparr>ap_accepted := acc, ap_world := (s, snd (ap_world st)), ap_audit := lg\<rparr>"
proof -
  obtain acc n where rc: "rate_count (ap_accepted st) i (ai_now inp) = (acc, n)" by fastforce
  obtain s x where up: "apply_verified_step_up (ae_ops env) i (passed a) (fst (ap_world st)) = (s, x)" by fastforce
  show thesis
  proof (cases "STEPUP_ACCEPTED_MAX \<le> n")
    case True
    with assms rc show thesis by (intro capped [of acc]) (simp_all add: apply_accepted_def)
  next
    case below: False
    show thesis
    proof (cases x)
      case (Inl e)
      with assms rc below up show thesis
        by (intro failed [of s e "rate_add acc i (ai_now inp)"]) (simp_all add: apply_accepted_def Let_def)
    next
      case (Inr t)
      let ?p = "JObj [(''type'', JStr ''step_up''), (''identity_id'', JStr i), (''method'', as_method a),
          (''result'', as_result a), (''challenge_id'', as_challenge_id a), (''new_trust_score'', JInt t)]"
      obtain lg y where ap: "audit_append (ae_audit env) (ap_audit st) (ai_audit_ts inp) ?p = (lg, y)"
        by fastforce
      have "st' = st\<lparr>ap_accepted := rate_add acc i (ai_now inp), ap_world := (s, snd (ap_world st)), ap_audit := lg\<rparr>"
        using assms rc below up Inr ap by (simp add: apply_accepted_def Let_def split: sum.splits)
      with up Inr ap show thesis by (intro applied) simp_all
    qed
  qed
qed

text \<open>The endpoint up to the validation: refused before it, or validated on the pruned state.\<close>

lemma step_up_parts:
  assumes "step_up_outcome env inp header i body st = (st', r)"
  obtains (refused) fails where "st' = st\<lparr>ap_failures := fails\<rparr>" "r \<noteq> Inr x"
  | (raised) fails c x where
      "validate (ae_crypto env) (ae_json env) (ae_verifier env) mem_nonce_ops (Fin 5) (ap_nonces st)
         (rq_assertion body) i (ai_validate_now inp) (ai_wall inp) = (c, Inl (Raised x))"
      "st' = st\<lparr>ap_failures := fails, ap_nonces := c\<rparr>" "r = Inl (Unhandled x)"
  | (rejected) fails c rej lg x where
      "validate (ae_crypto env) (ae_json env) (ae_verifier env) mem_nonce_ops (Fin 5) (ap_nonces st)
         (rq_assertion body) i (ai_validate_now inp) (ai_wall inp) = (c, Inl (Rejected rej))"
      "audit_append (ae_audit env) (ap_audit st) (ai_audit_ts inp)
         (JObj [(''type'', JStr ''step_up_rejected''), (''identity_id'', JStr i),
                (''reason'', JStr (rejection_name rej))]) = (lg, x)"
      "st' = st\<lparr>ap_failures := rate_add fails i (ai_now inp), ap_nonces := c, ap_audit := lg\<rparr>"
      "\<exists>y. r = Inl y"
  | (accepted) fails c a where
      "validate (ae_crypto env) (ae_json env) (ae_verifier env) mem_nonce_ops (Fin 5) (ap_nonces st)
         (rq_assertion body) i (ai_validate_now inp) (ai_wall inp) = (c, Inr a)"
      "apply_accepted env inp i a (st\<lparr>ap_failures := fails, ap_nonces := c\<rparr>) = (st', r)"
proof (cases "require_scope (ae_keys env) ''stepup:write'' header")
  case (Inl y)
  with assms have "st' = st" "r = Inl y" by (auto simp: step_up_outcome_def)
  then show thesis by (intro refused [of "ap_failures st"]) simp_all
next
  case (Inr ctx)
  obtain fails n where f: "rate_count (ap_failures st) i (ai_now inp) = (fails, n)" by fastforce
  let ?v = "validate (ae_crypto env) (ae_json env) (ae_verifier env) mem_nonce_ops (Fin 5) (ap_nonces st)
         (rq_assertion body) i (ai_validate_now inp) (ai_wall inp)"
  show thesis
  proof (cases "STEPUP_FAILURE_MAX \<le> n")
    case True
    with assms Inr f show thesis by (intro refused [of fails]) (auto simp: step_up_outcome_def Let_def)
  next
    case False
    obtain c res where v: "?v = (c, res)" by fastforce
    show thesis
    proof (cases res)
      case (Inr a)
      with assms \<open>require_scope _ _ _ = _\<close> f False v show thesis
        by (intro accepted [of c a fails]) (simp_all add: step_up_outcome_def Let_def)
    next
      case (Inl e)
      show thesis
      proof (cases e)
        case (Raised x)
        with assms Inr f False v Inl show thesis
          by (intro raised [of c x fails]) (simp_all add: step_up_outcome_def Let_def)
      next
        case (Rejected rej)
        obtain lg x where a: "audit_append (ae_audit env) (ap_audit st) (ai_audit_ts inp)
         (JObj [(''type'', JStr ''step_up_rejected''), (''identity_id'', JStr i),
                (''reason'', JStr (rejection_name rej))]) = (lg, x)" by fastforce
        with assms Inr f False v Inl Rejected show thesis
          by (intro rejected [of c rej lg x fails]) (auto simp: step_up_outcome_def Let_def split: sum.splits)
      qed
    qed
  qed
qed

lemma erase_parts:
  assumes "erase_identity env inp header i st = (st', r)"
  obtains (refused) "st' = st" "\<exists>y. r = Inl y"
  | (erased) p lg y where "audit_append (ae_audit env) (ap_audit st) (ai_audit_ts inp) p = (lg, y)"
      "st' = st\<lparr>ap_vault := fst (vault_erase (ap_vault st) i), ap_audit := lg\<rparr>"
proof (cases "require_scope (ae_keys env) ''identity:erase'' header")
  case (Inl y)
  with assms show thesis by (intro refused) (auto simp: erase_identity_def)
next
  case (Inr ctx)
  obtain v existed where v: "vault_erase (ap_vault st) i = (v, existed)" by fastforce
  let ?p = "JObj [(''type'', JStr ''erasure''), (''identity_id'', JStr i), (''method'', JStr ''crypto_shred''),
      (''existed'', JBool existed)]"
  obtain lg y where a: "audit_append (ae_audit env) (ap_audit st) (ai_audit_ts inp) ?p = (lg, y)" by fastforce
  have "st' = st\<lparr>ap_vault := v, ap_audit := lg\<rparr>"
    using assms Inr v a by (simp add: erase_identity_def Let_def split: sum.splits)
  with v a show thesis by (intro erased) simp_all
qed

section \<open>Parts of the invariant\<close>

lemma evict_oldest_drop: "evict_oldest n xs = drop (length xs - n) xs"
  by (induction xs) (auto simp: Suc_diff_le)

lemma evict_oldest_map: "map f (evict_oldest n xs) = evict_oldest n (map f xs)"
  by (simp add: evict_oldest_drop drop_map)

definition idem_ok :: "idem_cache \<Rightarrow> bool" where
  "idem_ok c \<longleftrightarrow> distinct (map fst c) \<and> length c \<le> IDEM_MAX"

lemma idem_ok_move: "idem_ok c \<Longrightarrow> idem_ok (move_to_end k c)"
  by (simp add: idem_ok_def)

lemma idem_ok_store: "idem_ok c \<Longrightarrow> idem_ok (idem_store key fp resp c)"
  by (auto simp: idem_ok_def idem_store_def evict_oldest_drop drop_map [symmetric] distinct_drop
      split: option.splits)

lemma vault_ok_put: "vault_ok v \<Longrightarrow> vault_ok (fst (vault_put F v k rnd i m))"
  by (auto simp: vault_ok_def vault_put_def Let_def)

lemma vault_stash_fst:
  "fst (vault_stash F v inp e) = v \<or>
   (\<exists>m. fst (vault_stash F v inp e) = fst (vault_put F v (ai_vault_key inp) (ai_vault_rnd inp) (ev_identity_id e) m))"
  by (auto simp: vault_stash_def split: prod.splits sum.splits vault_exn.splits) (metis fst_conv)+

lemma vault_ok_stash: "vault_ok v \<Longrightarrow> vault_ok (fst (vault_stash F v inp e))"
  using vault_stash_fst [of F v inp e] vault_ok_put by metis

definition api_ok :: "('o, 'n, 's, 'priv, 'pub) api_env \<Rightarrow> ('n, 's) api_state \<Rightarrow> bool" where
  "api_ok env st \<longleftrightarrow>
     verify_chain (ae_audit env) (ap_audit st) = Inr True \<and> idem_ok (ap_idem st) \<and>
     distinct (map fst (ap_nonces st)) \<and> vault_ok (ap_vault st)"

lemma validate_nonces_ok:
  assumes "validate C J v mem_nonce_ops skew c tok i now wall = (c', r)" "distinct (map fst c)"
  shows "distinct (map fst c')"
  using mem_nonce.validate_ok [OF assms(2), of C J v skew tok i now wall] assms(1) by simp

lemma api_step_ok:
  assumes hex: "hex_digests (ae_audit env)" and ok: "api_ok env st" and st: "api_step env st st'"
  shows "api_ok env st'"
proof -
  note app = append_verifies(1) [OF hex]
  have v: "verify_chain (ae_audit env) (ap_audit st) = Inr True" "idem_ok (ap_idem st)"
    "distinct (map fst (ap_nonces st))" "vault_ok (ap_vault st)"
    using ok by (simp_all add: api_ok_def)
  from st show ?thesis
  proof cases
    case (ingest inp header e r)
    from ingest show ?thesis
    proof (cases rule: ingest_parts)
      case (scored key)
      from score_event_parts [OF scored] v app vault_ok_stash idem_ok_store show ?thesis
        unfolding api_ok_def by metis
    qed (use ok idem_ok_move in \<open>auto simp: api_ok_def\<close>)
  next
    case (step_up inp header i body r)
    from step_up show ?thesis
    proof (cases rule: step_up_parts)
      case (accepted fails c a)
      have "distinct (map fst c)" using validate_nonces_ok [OF accepted(1) v(3)] .
      with ok have ok1: "api_ok env (st\<lparr>ap_failures := fails, ap_nonces := c\<rparr>)" by (simp add: api_ok_def)
      from accepted(2) show ?thesis
      proof (cases rule: apply_accepted_parts)
        case (applied acc s t lg y p)
        have "verify_chain (ae_audit env) lg = Inr True"
          using app [OF v(1), of "ai_audit_ts inp" p] applied(2) by simp
        with ok1 applied(3) show ?thesis by (simp add: api_ok_def)
      qed (use ok1 in \<open>simp_all add: api_ok_def\<close>)
    next
      case (rejected fails c rej lg x)
      have "verify_chain (ae_audit env) lg = Inr True"
        using app [OF v(1)] rejected(2) by (metis fst_conv)
      with ok rejected(3) validate_nonces_ok [OF rejected(1) v(3)] show ?thesis by (simp add: api_ok_def)
    next
      case (raised fails c x)
      with ok validate_nonces_ok [OF raised(1) v(3)] show ?thesis by (simp add: api_ok_def)
    qed (use ok in \<open>simp add: api_ok_def\<close>)
  next
    case (erase inp header i r)
    from erase show ?thesis
    proof (cases rule: erase_parts)
      case (erased p lg y)
      have "verify_chain (ae_audit env) lg = Inr True"
        using app [OF v(1)] erased(1) by (metis fst_conv)
      with ok erased(2) mem_vault.erase_ok [OF v(4)] show ?thesis by (simp add: api_ok_def)
    qed (use ok in simp)
  qed
qed

lemma api_start_ok: "api_ok env (api_start w key)"
  by (simp add: api_ok_def api_start_def new_log_verifies idem_ok_def vault_ok_def vault_empty_def)

lemma api_reach_ok:
  "api_reach env st0 st \<Longrightarrow> hex_digests (ae_audit env) \<Longrightarrow> api_ok env st0 \<Longrightarrow> api_ok env st"
  by (induction rule: api_reach.induct) (auto intro: api_step_ok)

text \<open>The engine's state moves by assessments and validated step-ups only.\<close>

lemma api_step_engine:
  assumes ops: "ae_ops env = mem_ops" and run: "engine_run (ae_engine env) w0 (ap_world st)"
    and st: "api_step env st st'"
  shows "engine_run (ae_engine env) w0 (ap_world st')"
  using st
proof cases
  case (ingest inp header e r)
  from ingest show ?thesis
  proof (cases rule: ingest_parts)
    case (scored key)
    obtain r0 where "assess (ae_engine env) mem_ops (ai_engine inp) e (ap_world st) = (ap_world st', r0)"
      using score_event_parts [OF scored] ops by auto
    then show ?thesis by (rule engine_run.assessed [OF run])
  qed (use run in simp_all)
next
  case (step_up inp header i body r)
  from step_up show ?thesis
  proof (cases rule: step_up_parts)
    case (accepted fails c a)
    have run': "engine_run (ae_engine env) w0 (fst (ap_world st), snd (ap_world st))" using run by simp
    from accepted(2) show ?thesis
    proof (cases rule: apply_accepted_parts)
      case (failed acc s x)
      then have "apply_verified_step_up mem_ops i (passed a) (fst (ap_world st)) = (s, Inl x)" using ops by simp
      from engine_run.stepped_up [OF run' this] failed show ?thesis by simp
    next
      case (applied acc s t lg y p)
      then have "apply_verified_step_up mem_ops i (passed a) (fst (ap_world st)) = (s, Inr t)" using ops by simp
      from engine_run.stepped_up [OF run' this] applied show ?thesis by simp
    qed (use run in simp)
  qed (use run in simp_all)
next
  case (erase inp header i r)
  from erase run show ?thesis by (cases rule: erase_parts) simp_all
qed

lemma api_reach_engine:
  assumes "api_reach env st0 st" "ae_ops env = mem_ops"
  shows "engine_run (ae_engine env) (ap_world st0) (ap_world st)"
  using assms(1)
proof (induction rule: api_reach.induct)
  case start
  show ?case by (rule engine_run.start)
next
  case (step st st')
  from api_step_engine [OF assms(2) step(3) step(2)] show ?case .
qed

text \<open>A tombstone is never lifted by a request.\<close>

lemma api_step_erased:
  assumes "api_step env st st'" "vault_is_erased (ap_vault st) i"
  shows "vault_is_erased (ap_vault st') i"
  using assms(1)
proof cases
  case (ingest inp header e r)
  from ingest show ?thesis
  proof (cases rule: ingest_parts)
    case (scored key)
    from score_event_parts [OF scored] vault_stash_fst [of "ae_fernet env" "ap_vault st" inp e] assms(2)
    show ?thesis by (metis mem_vault.put_tomb)
  qed (use assms(2) in simp_all)
next
  case (step_up inp header i body r)
  from step_up show ?thesis
  proof (cases rule: step_up_parts)
    case (accepted fails c a)
    from accepted(2) assms(2) show ?thesis by (cases rule: apply_accepted_parts) simp_all
  qed (use assms(2) in simp_all)
next
  case (erase inp header i r)
  from erase assms(2) show ?thesis by (cases rule: erase_parts) (simp_all add: mem_vault.erase_marks)
qed

section \<open>A concrete service for the witnesses\<close>

definition wit_api :: "(unit, unit, mem_store, unit, unit) api_env" where
  "wit_api = \<lparr> ae_engine = wit_engine, ae_ops = mem_ops,
     ae_audit = wit_audit\<lparr>al_dumps := (\<lambda>b. if dget b ''geo'' = JStr ''KP'' then ''a'' else ''b'')\<rparr>, ae_crypto = wit_sealed,
     ae_json = wit_json wit_payload, ae_verifier = Ed25519Verifier (), ae_fernet = wit_fernet,
     ae_keys = [(''gw'', {|''events:write'', ''stepup:write'', ''identity:erase''|})], ae_mode = ''prod'' \<rparr>"

definition wit_start :: "(unit, mem_store) api_state" where
  "wit_start = api_start (mem_empty, ()) ''k''"

definition wit_ai :: api_inputs where
  "wit_ai = \<lparr> ai_engine = wit_inputs, ai_audit_ts = 1, ai_vault_key = ''k'', ai_vault_rnd = ''r'', ai_now = Fin 60,
     ai_validate_now = Fin 60, ai_wall = Fin 60 \<rparr>"

lemma wit_hex: "hex_digests (ae_audit wit_api)"
  using wit_audit_hex by (simp add: wit_api_def hex_digests_def)

lemma wit_scope:
  "scope \<in> {''events:write'', ''stepup:write'', ''identity:erase''} \<Longrightarrow>
   require_scope (ae_keys wit_api) scope (Some ''gw'') =
     Inr \<lparr> ac_client_id = ''gw'', ac_scopes = {|''events:write'', ''stepup:write'', ''identity:erase''|} \<rparr>"
  by (auto simp: wit_api_def require_scope_def authenticate_def compare_digest_def is_ascii_def)

section \<open>Properties\<close>

text \<open>
  C4: The service keeps its invariants through every sequence of ingest, step-up and erase requests, valid or
  not, authorised or not: the audit chain verifies, every trust score stays in [0, 1000], the idempotency
  cache holds at most 10000 entries, one per key, and erased identities have no key.
\<close>
theorem service_invariant:
  assumes reach: "api_reach env (api_start (mem_empty, n0) key) st"
    and ops: "ae_ops env = mem_ops" and laws: "num_laws (te_lib (ae_engine env))"
    and hex: "hex_digests (ae_audit env)"
  shows "verify_chain (ae_audit env) (ap_audit st) = Inr True \<and>
    0 \<le> st_trust (mem_load (fst (ap_world st)) i) \<and> st_trust (mem_load (fst (ap_world st)) i) \<le> 1000 \<and>
    length (ap_idem st) \<le> IDEM_MAX \<and> distinct (map fst (ap_idem st)) \<and>
    (vault_is_erased (ap_vault st) j \<longrightarrow> kv_keys (ap_vault st) j = None)"
proof -
  have ok: "api_ok env st" using api_reach_ok [OF reach hex api_start_ok] .
  have "engine_run (ae_engine env) (mem_empty, n0) (fst (ap_world st), snd (ap_world st))"
    using api_reach_engine [OF reach ops] by (simp add: api_start_def)
  from engine_run_trust [OF laws this] ok show ?thesis
    by (auto simp: api_ok_def idem_ok_def vault_ok_def vault_is_erased_def)
qed

theorem service_invariant_witness:
  "\<exists>st. api_reach wit_api wit_start st \<and> st \<noteq> wit_start \<and>
     verify_chain (ae_audit wit_api) (ap_audit st) = Inr True \<and> length (au_records (ap_audit st)) = 1"
proof -
  obtain st r where e: "erase_identity wit_api wit_ai (Some ''gw'') ''id1'' wit_start = (st, r)" by fastforce
  have reach: "api_reach wit_api wit_start st"
    by (rule api_reach.step [OF api_reach.start api_step.erase [OF e]])
  have "length (au_records (ap_audit st)) = 1"
    using e wit_scope [of "''identity:erase''"]
    by (auto simp: erase_identity_def Let_def wit_start_def api_start_def new_log_def audit_append_def head_hash_def
        vault_erase_def split: sum.splits)
  moreover have "length (au_records (ap_audit wit_start)) = 0"
    by (simp add: wit_start_def api_start_def new_log_def)
  ultimately show ?thesis
    using service_invariant [OF reach [unfolded wit_start_def] _ _ wit_hex, of "[]" "[]"] wit_laws(1) reach
    by (auto simp: wit_api_def)
qed

lemma map_of_idem_store:
  assumes "distinct (map fst c)"
  shows "map_of (idem_store (Some k) fp resp c) k = Some (fp, resp)"
proof -
  let ?d = "dict_del k (dict_set k (fp, resp) c)"
  have m: "move_to_end k (dict_set k (fp, resp) c) = ?d @ [(k, (fp, resp))]"
    by (simp add: move_to_end_def)
  have none: "map_of (drop n ?d) k = None" for n
  proof -
    have "k \<notin> fst ` set ?d" by (auto simp: dict_del_def)
    then have "k \<notin> fst ` set (drop n ?d)" using set_drop_subset [of n ?d] by blast
    then show ?thesis by (simp add: map_of_eq_None_iff)
  qed
  have "length ?d + 1 - IDEM_MAX \<le> length ?d" by (simp add: IDEM_MAX_def)
  then have "idem_store (Some k) fp resp c = drop (length ?d + 1 - IDEM_MAX) ?d @ [(k, (fp, resp))]"
    by (simp add: idem_store_def m evict_oldest_drop)
  then show ?thesis using none by (simp add: map_add_def)
qed

lemma ingest_cached:
  assumes run: "ingest_event env inp header e st = (st1, Inr resp)"
    and ctx: "require_scope (ae_keys env) ''events:write'' header = Inr ctx" "idem_key ctx e = Some k"
    and cache: "distinct (map fst (ap_idem st))"
  shows "map_of (ap_idem st1) k = Some (event_fingerprint (ae_audit env) e, resp)"
proof (cases "map_of (ap_idem st) k")
  case None
  with run ctx have "score_event env inp e (Some k) st = (st1, Inr resp)" by (simp add: ingest_event_def)
  then have "ap_idem st1 = idem_store (Some k) (event_fingerprint (ae_audit env) e) resp (ap_idem st)"
    by (auto simp: score_event_def split: prod.splits sum.splits)
  with map_of_idem_store [OF cache] show ?thesis by simp
next
  case (Some p)
  obtain fp r where "p = (fp, r)" by fastforce
  with run ctx Some show ?thesis
    by (auto simp: ingest_event_def compare_digest_def split: sum.splits bool.splits if_splits)
qed

text \<open>
  C14: Idempotency: once a request with an idempotency key has been answered, the same client repeating it
  with the same event gets the same answer and nothing is scored, vaulted or audited again; the same key
  with an event of another fingerprint is a 409 and changes nothing.
\<close>
theorem idempotent_replay:
  assumes run: "ingest_event env inp header e st = (st1, Inr resp)"
    and ctx: "require_scope (ae_keys env) ''events:write'' header = Inr ctx" "idem_key ctx e = Some k"
    and cache: "distinct (map fst (ap_idem st))" and hex: "hex_digests (ae_audit env)"
  shows "ingest_event env inp' header e st1 = (st1\<lparr>ap_idem := move_to_end k (ap_idem st1)\<rparr>, Inr resp) \<and>
    (idem_key ctx e' = Some k \<and> event_fingerprint (ae_audit env) e' \<noteq> event_fingerprint (ae_audit env) e \<longrightarrow>
       ingest_event env inp' header e' st1 =
         (st1, Inl (HTTPException 409 ''idempotency key reused with a different payload'')))"
  using ingest_cached [OF run ctx cache] ctx hex
  by (auto simp: ingest_event_def compare_digest_def hex_digests_def event_fingerprint_def)

definition wit_keyed_event :: identity_event where
  "wit_keyed_event = wit_event\<lparr>ev_idempotency_key := Some ''op-1''\<rparr>"

lemma wit_ingests:
  "\<exists>st1 resp. ingest_event wit_api wit_ai (Some ''gw'') wit_keyed_event wit_start = (st1, Inr resp)"
proof -
  have ok: "event_ok wit_keyed_event" "amount_ok (ev_amount wit_keyed_event)"
    using wit_event_ok by (simp_all add: wit_keyed_event_def event_ok_def)
  obtain s' n' soc where a: "assess wit_engine mem_ops wit_inputs wit_keyed_event (mem_empty, ()) = ((s', n'), Inr soc)"
    by (rule assess_total_mem [OF wit_laws(1) wit_resolver_ok(1) mem_empty_ok ok])
  have "\<exists>v ref. vault_stash (ae_fernet wit_api) vault_empty wit_ai wit_keyed_event = (v, Inr ref)"
    by (simp add: vault_stash_def vault_put_def vault_is_erased_def vault_empty_def Let_def)
  then obtain v ref where v: "vault_stash (ae_fernet wit_api) vault_empty wit_ai wit_keyed_event = (v, Inr ref)" by blast
  have "\<exists>lg x. audit_append (ae_audit wit_api) (new_log (Some ''k'')) 1 p = (lg, Inr x)" for p
    by (simp add: audit_append_def head_hash_def new_log_def Let_def)
  then obtain lg x where l: "audit_append (ae_audit wit_api) (new_log (Some ''k'')) 1
      (JObj (dict_set ''pii_ref'' (json_opt JStr ref) (to_audit_payload soc))) = (lg, Inr x)" by blast
  have "idem_key \<lparr> ac_client_id = ''gw'', ac_scopes = s \<rparr> wit_keyed_event = Some (''gw'', ''op-1'')" for s
    by (simp add: idem_key_def wit_keyed_event_def)
  then show ?thesis
    using a v l wit_scope [of "''events:write''"]
    by (simp add: ingest_event_def score_event_def wit_start_def api_start_def wit_ai_def)
      (simp add: wit_api_def)
qed

theorem idempotent_replay_witness:
  "\<exists>st1 resp. ingest_event wit_api wit_ai (Some ''gw'') wit_keyed_event wit_start = (st1, Inr resp) \<and>
     snd (ingest_event wit_api wit_ai (Some ''gw'') wit_keyed_event st1) = Inr resp \<and>
     snd (ingest_event wit_api wit_ai (Some ''gw'') (wit_keyed_event\<lparr>ev_geo := ''KP''\<rparr>) st1) =
       Inl (HTTPException 409 ''idempotency key reused with a different payload'')"
proof -
  obtain st1 resp where run: "ingest_event wit_api wit_ai (Some ''gw'') wit_keyed_event wit_start = (st1, Inr resp)"
    using wit_ingests by blast
  have d: "distinct (map fst (ap_idem wit_start))" by (simp add: wit_start_def api_start_def)
  let ?ctx = "\<lparr> ac_client_id = ''gw'', ac_scopes = {|''events:write'', ''stepup:write'', ''identity:erase''|} \<rparr>"
  have k: "idem_key ?ctx wit_keyed_event = Some (''gw'', ''op-1'')"
    "idem_key ?ctx (wit_keyed_event\<lparr>ev_geo := ''KP''\<rparr>) = Some (''gw'', ''op-1'')"
    by (simp_all add: idem_key_def wit_keyed_event_def)
  have "event_fingerprint (ae_audit wit_api) (wit_keyed_event\<lparr>ev_geo := ''KP''\<rparr>) \<noteq>
      event_fingerprint (ae_audit wit_api) wit_keyed_event"
    by (simp add: event_fingerprint_def wit_api_def wit_audit_def dict_del_def event_dump_def dget_def
        wit_keyed_event_def wit_event_def)
  with idempotent_replay [OF run wit_scope k(1) d wit_hex, of wit_ai "wit_keyed_event\<lparr>ev_geo := ''KP''\<rparr>"] k(2) run
  show ?thesis by auto
qed


definition wit_body :: step_up_request where
  "wit_body = \<lparr> rq_assertion = sign_token wit_sealed (wit_json wit_payload) (Ed25519Signer ()) wit_payload \<rparr>"

lemma wit_step_up_moves:
  "\<exists>st' r. step_up_outcome wit_api wit_ai (Some ''gw'') ''id1'' wit_body wit_start = (st', r) \<and>
     ap_world st' \<noteq> ap_world wit_start"
proof -
  obtain st' r where run: "step_up_outcome wit_api wit_ai (Some ''gw'') ''id1'' wit_body wit_start = (st', r)"
    by fastforce
  obtain c a where v: "validate wit_sealed (wit_json wit_payload) (Ed25519Verifier ()) mem_nonce_ops (Fin 5) []
      (rq_assertion wit_body) ''id1'' (Fin 60) (Fin 60) = (c, Inr a)"
    using wit_sealed_accepts by (auto simp: wit_body_def)
  obtain s x where up: "apply_verified_step_up mem_ops ''id1'' (passed a) mem_empty = (s, x)" by fastforce
  note moved = step_up_mem [OF up]
  have "st_version (mem_load s ''id1'') \<noteq> st_version (mem_load mem_empty ''id1'')"
    by (simp add: moved(2))
  then have ne: "s \<noteq> mem_empty" by metis
  have "fst (ap_world st') = s"
    using run v up moved(1) wit_scope [of "''stepup:write''"]
    by (auto simp: step_up_outcome_def apply_accepted_def rate_count_def wit_start_def api_start_def wit_ai_def wit_api_def
        Let_def STEPUP_FAILURE_MAX_def STEPUP_ACCEPTED_MAX_def split: sum.splits prod.splits)
  with ne have "ap_world st' \<noteq> ap_world wit_start" by (auto simp: wit_start_def api_start_def)
  with run show ?thesis by blast
qed



text \<open>
  The failure guard locks the owner out: with 20 rejected attempts in the window, from whoever holds the
  step-up scope, every step-up of that identity is answered with 429 before its assertion is looked at, a
  valid one included (the code's comments promise that garbage cannot lock a victim out).
\<close>
theorem failure_flood_locks_out:
  assumes "require_scope (ae_keys env) ''stepup:write'' header = Inr ctx"
    and "map_of (ap_failures st) i = Some q"
    and "20 \<le> length (filter (\<lambda>t. ai_now inp - t < STEPUP_WINDOW_SECONDS) q)"
  shows "snd (step_up_outcome env inp header i body st) = Inl (HTTPException 429 ''too many failed step-up attempts'') \<and>
    ap_world (fst (step_up_outcome env inp header i body st)) = ap_world st"
proof -
  let ?q = "filter (\<lambda>t. ai_now inp - t < STEPUP_WINDOW_SECONDS) q"
  have "?q \<noteq> []" using assms(3) by (metis list.size(3) not_numeral_le_zero)
  then have "rate_count (ap_failures st) i (ai_now inp) = (dict_set i ?q (ap_failures st), int (length ?q))"
    using assms(2) by (simp add: rate_count_def Let_def)
  moreover have "STEPUP_FAILURE_MAX \<le> int (length ?q)" using assms(3) by (simp add: STEPUP_FAILURE_MAX_def)
  ultimately show ?thesis using assms(1) by (simp add: step_up_outcome_def)
qed

theorem failure_flood_locks_out_witness:
  "snd (step_up_outcome wit_api wit_ai (Some ''gw'') ''id1'' wit_body
     (wit_start\<lparr>ap_failures := [(''id1'', replicate 20 (Fin 59))]\<rparr>)) =
   Inl (HTTPException 429 ''too many failed step-up attempts'')"
proof -
  have "filter (\<lambda>t. ai_now wit_ai - t < STEPUP_WINDOW_SECONDS) (replicate 20 (Fin 59)) = replicate 20 (Fin 59)"
    by (simp add: wit_ai_def STEPUP_WINDOW_SECONDS_def)
  then show ?thesis
    using failure_flood_locks_out [OF wit_scope, where q = "replicate 20 (Fin 59)" and inp = wit_ai
        and st = "wit_start\<lparr>ap_failures := [(''id1'', replicate 20 (Fin 59))]\<rparr>" and i = "''id1''"]
    by simp
qed


text \<open>
  Erasure is durable through the API: after an erase request, whatever requests follow, the identity stays
  erased, no event puts its data back into the vault and the audit chain still verifies.
\<close>
theorem erasure_survives_requests:
  assumes reach: "api_reach env st0 st" and erased: "vault_is_erased (ap_vault st0) i"
    and ok: "api_ok env st0" and hex: "hex_digests (ae_audit env)"
  shows "vault_is_erased (ap_vault st) i \<and> vault_get F (ap_vault st) i = Inl Erased \<and>
    verify_chain (ae_audit env) (ap_audit st) = Inr True"
proof -
  have "vault_is_erased (ap_vault st) i"
    using reach erased by (induction rule: api_reach.induct) (auto intro: api_step_erased)
  moreover have "api_ok env st" using api_reach_ok [OF reach hex ok] .
  ultimately show ?thesis by (simp add: api_ok_def mem_vault.erased_get)
qed

theorem erasure_survives_requests_witness:
  "\<exists>st0 st. fst (erase_identity wit_api wit_ai (Some ''gw'') ''id1'' wit_start) = st0 \<and> api_reach wit_api st0 st \<and>
     ap_vault st = ap_vault st0 \<and> ap_audit st \<noteq> ap_audit st0 \<and> vault_get wit_fernet (ap_vault st) ''id1'' = Inl Erased"
proof -
  obtain st0 r where e0: "erase_identity wit_api wit_ai (Some ''gw'') ''id1'' wit_start = (st0, r)" by fastforce
  obtain st r' where e1: "erase_identity wit_api wit_ai (Some ''gw'') ''id1'' st0 = (st, r')" by fastforce
  have reach: "api_reach wit_api st0 st" by (rule api_reach.step [OF api_reach.start api_step.erase [OF e1]])
  have ok: "api_ok wit_api st0"
    unfolding wit_start_def
    by (rule api_step_ok [OF wit_hex api_start_ok api_step.erase [OF e0 [unfolded wit_start_def]]])
  note scope = wit_scope [of "''identity:erase''"]
  have v: "ap_vault st0 = fst (vault_erase (ap_vault wit_start) ''id1'')"
    "ap_vault st = fst (vault_erase (ap_vault st0) ''id1'')"
    using e0 e1 scope by (auto simp: erase_identity_def Let_def split: sum.splits prod.splits)
  then have v': "ap_vault st = ap_vault st0" "vault_is_erased (ap_vault st0) ''id1''"
    by (simp_all add: vault_erase_def vault_is_erased_def)
  let ?p = "JObj [(''type'', JStr ''erasure''), (''identity_id'', JStr ''id1''), (''method'', JStr ''crypto_shred''),
    (''existed'', JBool (snd (vault_erase (ap_vault st0) ''id1'')))]"
  obtain lg y where a: "audit_append (ae_audit wit_api) (ap_audit st0) (ai_audit_ts wit_ai) ?p = (lg, y)" by fastforce
  moreover have "ap_audit st = lg" using e1 scope a by (auto simp: erase_identity_def Let_def split: sum.splits prod.splits)
  ultimately have a: "audit_append (ae_audit wit_api) (ap_audit st0) (ai_audit_ts wit_ai) ?p = (lg, y)" "ap_audit st = lg"
    by simp_all
  obtain rec where "au_records lg = au_records (ap_audit st0) @ [rec]"
    using append_verifies(2) [OF wit_hex, of "ap_audit st0" "ai_audit_ts wit_ai" ?p] ok a by (auto simp: api_ok_def)
  then have "ap_audit st \<noteq> ap_audit st0" using a(2) by auto
  with erasure_survives_requests [OF reach v'(2) ok wit_hex, of wit_fernet] e0 reach v'(1) show ?thesis by auto
qed

end
