(* ===== verification/Privacy.thy ===== *)
theory Privacy
  imports Config AuditLog
begin

text \<open>
  The privacy layer at the edge: \<^verbatim>\<open>backend/app/privacy.py\<close>. The module's global \<^verbatim>\<open>_EPHEMERAL\<close> is passed as state;
  \<open>fresh\<close> is what \<^verbatim>\<open>secrets.token_bytes\<close> would draw, \<open>rnd\<close> what \<^verbatim>\<open>SystemRandom().random()\<close> returns, and
  \<open>clog\<close> the C library's logarithm on its domain (its rounding is not fixed by Python).

  The lemmas: a token depends only on the identifier and the process's secret, no secret is ever made up
  outside the demo mode, and the Laplace noise fails for exactly one of the values \<^verbatim>\<open>random()\<close> can return.
\<close>

section \<open>Pseudonyms\<close>

definition resolve_secret ::
  "environ \<Rightarrow> string \<Rightarrow> string option \<Rightarrow> string option \<Rightarrow> string option \<times> (config_exn + string)" where
  "resolve_secret env fresh ephemeral secret =
     (case secret of
        Some s \<Rightarrow> (ephemeral, Inr s)
      | None \<Rightarrow>
        (case env_or_none env ''PRAMAAN_EDGE_SECRET'' of
           Some s \<Rightarrow> (ephemeral, Inr s)
         | None \<Rightarrow>
           let mode = (case map_of env ''PRAMAAN_MODE'' of None \<Rightarrow> ''prod'' | Some m \<Rightarrow> m) in
           if mode = ''demo_synthetic''
           then (case ephemeral of None \<Rightarrow> (Some fresh, Inr fresh) | Some s \<Rightarrow> (ephemeral, Inr s))
           else (ephemeral, Inl ConfigError)))"

definition pseudonymize ::
  "audit_lib \<Rightarrow> environ \<Rightarrow> string \<Rightarrow> string option \<Rightarrow> string \<Rightarrow> string option \<Rightarrow>
   string option \<times> (config_exn + string)" where
  "pseudonymize L env fresh ephemeral raw_identifier secret =
     (case resolve_secret env fresh ephemeral secret of
        (eph, Inl e) \<Rightarrow> (eph, Inl e)
      | (eph, Inr key) \<Rightarrow> (eph, Inr (take 24 (al_hmac L key raw_identifier))))"

definition coarsen_geo :: "pyfloat \<Rightarrow> pyfloat \<Rightarrow> string \<Rightarrow> string" where
  "coarsen_geo lat lon state_code = ''IN-'' @ state_code"

section \<open>Laplace noise\<close>

text \<open>\<^verbatim>\<open>math.log\<close>: a \<^verbatim>\<open>ValueError\<close> outside its domain.\<close>

definition math_log :: "(pyfloat \<Rightarrow> pyfloat) \<Rightarrow> pyfloat \<Rightarrow> py_exn + pyfloat" where
  "math_log clog x = (if x \<le> Fin 0 then Inl ValueError else Inr (clog x))"

definition dp_noise ::
  "(pyfloat \<Rightarrow> pyfloat) \<Rightarrow> pyfloat \<Rightarrow> pyfloat \<Rightarrow> pyfloat \<Rightarrow> pyfloat \<Rightarrow> py_exn + pyfloat" where
  "dp_noise clog rnd val epsilon sensitivity =
     (let u = rnd - fl 0.5 in
      sbind (py_div sensitivity epsilon) (\<lambda>scale.
      sbind (math_log clog (Fin 1 - Fin 2 * \<bar>u\<bar>)) (\<lambda>l.
        Inr (val + ((- scale) * (if Fin 0 \<le> u then Fin 1 else Fin (- 1))) * l))))"

section \<open>Facts\<close>

lemma resolve_secret_again:
  "resolve_secret env fresh eph secret = (eph', Inr k) \<Longrightarrow>
   resolve_secret env fresh' eph' secret = (eph', Inr k)"
  by (auto simp: resolve_secret_def Let_def split: option.splits if_splits)

lemma env_or_none_unset:
  "env_or_none env k = None \<Longrightarrow> env_unset env k" "env_or_none env k = Some v \<Longrightarrow> \<not> env_unset env k"
  by (auto simp: env_or_none_def env_unset_def split: option.splits if_splits)

text \<open>\<open>k / 2 ^ 53\<close> for \<open>k < 2 ^ 53\<close> are the values \<^verbatim>\<open>random()\<close> can return.\<close>

definition random_value :: "int \<Rightarrow> pyfloat" where
  "random_value k = Fin (of_int k / 2 ^ 53)"

lemma f64_dyadic: "\<bar>n\<bar> \<le> 2 ^ 53 \<Longrightarrow> d \<le> 1000 \<Longrightarrow> f64 (of_int n / 2 ^ d)"
proof -
  assume n: "\<bar>n\<bar> \<le> 2 ^ 53" and d: "d \<le> 1000"
  have "(of_int n / 2 ^ d :: rat) = of_int n * 2 powi (- int d)"
    by (simp add: power_int_minus field_simps)
  with n d have r: "f64_round (of_int n / 2 ^ d) = (of_int n / 2 ^ d :: rat)"
    by (simp add: f64_round_dyadic)
  have "\<bar>of_int n / 2 ^ d :: rat\<bar> \<le> \<bar>of_int n\<bar>"
    by (simp add: divide_le_eq mult_le_cancel_left1)
  also have "\<dots> \<le> of_int (2 ^ 53)" using n by (metis of_int_abs of_int_le_iff)
  also have "\<dots> < 2 ^ 1024" by simp
  finally show ?thesis using r by (simp add: f64_def)
qed

lemma dp_noise_argument:
  assumes "0 \<le> k" "k < 2 ^ 53"
  shows "\<exists>m. Fin 1 - Fin 2 * \<bar>random_value k - fl 0.5\<bar> = Fin m \<and> (m \<le> 0 \<longleftrightarrow> k = 0)"
proof -
  let ?n = "k - 2 ^ 52"
  have n: "\<bar>?n\<bar> \<le> 2 ^ 53" using assms by auto
  have "random_value k - fl 0.5 = fl (of_int k / 2 ^ 53 - 1 / 2)" by (simp add: random_value_def)
  also have "of_int k / 2 ^ 53 - 1 / 2 = (of_int ?n / 2 ^ 53 :: rat)" by (simp add: field_simps)
  also have "fl (of_int ?n / 2 ^ 53) = Fin (of_int ?n / 2 ^ 53)" by (rule fl_f64 [OF f64_dyadic [OF n]]) simp
  finally have "random_value k - fl 0.5 = Fin (of_int ?n / 2 ^ 53)" .
  then have "Fin 2 * \<bar>random_value k - fl 0.5\<bar> = Fin (of_int \<bar>?n\<bar> / 2 ^ 52)"
    using f64_dyadic [of "\<bar>?n\<bar>" 52] n by (simp add: fl_f64)
  then have "Fin 1 - Fin 2 * \<bar>random_value k - fl 0.5\<bar> = fl (1 - of_int \<bar>?n\<bar> / 2 ^ 52)" by (simp del: of_int_abs)
  also have "1 - of_int \<bar>?n\<bar> / 2 ^ 52 = (of_int (2 ^ 52 - \<bar>?n\<bar>) / 2 ^ 52 :: rat)" by (simp add: field_simps)
  also have "fl (of_int (2 ^ 52 - \<bar>?n\<bar>) / 2 ^ 52) = Fin (of_int (2 ^ 52 - \<bar>?n\<bar>) / 2 ^ 52)"
    using assms by (intro fl_f64 f64_dyadic) auto
  finally have "Fin 1 - Fin 2 * \<bar>random_value k - fl 0.5\<bar> = Fin (of_int (2 ^ 52 - \<bar>?n\<bar>) / 2 ^ 52)" .
  moreover have "(of_int (2 ^ 52 - \<bar>?n\<bar>) / 2 ^ 52 :: rat) \<le> 0 \<longleftrightarrow> k = 0"
  proof -
    have "(of_int z / 2 ^ 52 :: rat) \<le> 0 \<longleftrightarrow> z \<le> 0" for z :: int by (simp add: divide_le_0_iff)
    moreover have "2 ^ 52 - \<bar>?n\<bar> \<le> 0 \<longleftrightarrow> k = 0" using assms by auto
    ultimately show ?thesis by blast
  qed
  ultimately show ?thesis by blast
qed

section \<open>Properties\<close>

text \<open>
  Pseudonyms are stable and never use a default: in one process an identifier always gets the token it
  got first, whatever the random generator would draw later; without an explicit secret, a configured one or
  the demo mode nothing is tokenized.
\<close>
theorem pseudonyms_stable:
  assumes "pseudonymize L env fresh eph raw secret = (eph', Inr token)"
  shows "pseudonymize L env fresh' eph' raw secret = (eph', Inr token) \<and> length token \<le> 24 \<and>
    (secret \<noteq> None \<or> \<not> env_unset env ''PRAMAAN_EDGE_SECRET'' \<or> map_of env ''PRAMAAN_MODE'' = Some ''demo_synthetic'')"
proof -
  obtain key where k: "resolve_secret env fresh eph secret = (eph', Inr key)"
    and t: "token = take 24 (al_hmac L key raw)"
    using assms by (auto simp: pseudonymize_def split: prod.splits sum.splits)
  from k have "secret \<noteq> None \<or> \<not> env_unset env ''PRAMAAN_EDGE_SECRET'' \<or>
      map_of env ''PRAMAAN_MODE'' = Some ''demo_synthetic''"
    by (auto simp: resolve_secret_def Let_def env_or_none_unset split: option.splits if_splits)
  with resolve_secret_again [OF k, of fresh'] t show ?thesis by (simp add: pseudonymize_def)
qed

theorem pseudonyms_stable_witness:
  "\<exists>eph. pseudonymize \<lparr> al_dumps = \<lambda>_. [], al_sha256 = id, al_hmac = (\<lambda>k m. k @ m) \<rparr>
      [(''PRAMAAN_MODE'', ''demo_synthetic'')] ''r1'' None ''id1'' None = (eph, Inr ''r1id1'') \<and>
    pseudonymize \<lparr> al_dumps = \<lambda>_. [], al_sha256 = id, al_hmac = (\<lambda>k m. k @ m) \<rparr>
      [(''PRAMAAN_MODE'', ''demo_synthetic'')] ''r2'' eph ''id1'' None = (eph, Inr ''r1id1'')"
proof -
  have "pseudonymize \<lparr> al_dumps = \<lambda>_. [], al_sha256 = id, al_hmac = (\<lambda>k m. k @ m) \<rparr>
      [(''PRAMAAN_MODE'', ''demo_synthetic'')] ''r1'' None ''id1'' None = (Some ''r1'', Inr ''r1id1'')"
    by (simp add: pseudonymize_def resolve_secret_def env_or_none_def Let_def)
  from pseudonyms_stable [OF this, of "''r2''"] this show ?thesis by blast
qed

text \<open>
  The Laplace mechanism fails for exactly one draw: of the \<open>2 ^ 53\<close> values \<^verbatim>\<open>random()\<close> can return, zero
  makes \<^verbatim>\<open>math.log(0)\<close> raise \<^verbatim>\<open>ValueError\<close> and every other one gives noise, for any privacy budget but zero
  (which is a \<^verbatim>\<open>ZeroDivisionError\<close>).
\<close>
theorem dp_noise_failure:
  assumes "0 \<le> k" "k < 2 ^ 53"
  shows "(dp_noise clog (random_value k) x epsilon sensitivity = Inl ValueError \<longleftrightarrow> epsilon \<noteq> Fin 0 \<and> k = 0) \<and>
    (dp_noise clog (random_value k) x epsilon sensitivity = Inl ZeroDivisionError \<longleftrightarrow> epsilon = Fin 0) \<and>
    ((\<exists>y. dp_noise clog (random_value k) x epsilon sensitivity = Inr y) \<longleftrightarrow> epsilon \<noteq> Fin 0 \<and> 0 < k)"
proof -
  obtain m where m: "Fin 1 - Fin 2 * \<bar>random_value k - fl 0.5\<bar> = Fin m" "m \<le> 0 \<longleftrightarrow> k = 0"
    using dp_noise_argument [OF assms] by blast
  show ?thesis
    unfolding dp_noise_def Let_def m(1) using m(2) assms(1) by (auto simp: py_div_def math_log_def)
qed

theorem dp_noise_failure_witness:
  "dp_noise id (random_value 0) (Fin 3) (Fin 1) (Fin 1) = Inl ValueError \<and>
   (\<exists>y. dp_noise id (random_value 1) (Fin 3) (Fin 1) (Fin 1) = Inr y)"
  using dp_noise_failure [of 0 id "Fin 3" "Fin 1" "Fin 1"] dp_noise_failure [of 1 id "Fin 3" "Fin 1" "Fin 1"] by simp

end
