(* ===== verification/Pods.thy ===== *)
theory Pods
  imports Stores Auth Config EngineProps Attestation
begin

text \<open>
  The distributed topology: the Kafka bus (\<^verbatim>\<open>backend/app/bus.py\<close>), the ingress (\<^verbatim>\<open>ingress.py\<close>), the scoring pod
  (\<^verbatim>\<open>scoring_pod.py\<close>) and the verifier service (\<^verbatim>\<open>verifier_service.py\<close>). A topic is the list of its records
  in order, as keys and serialised values; \<open>dumps\<close> and \<open>loads\<close> are \<^verbatim>\<open>json\<close>, the Kafka and database clients
  are parameters. A pod's state is the store and resolver it scores with and the two tables it writes.

  The lemmas: connecting ends after at most the configured attempts; an accepted event comes back as the
  decision the engine made; no decision is published without an audit record of the same assessment; the
  handler survives every message whose value decodes, and no other.
\<close>

section \<open>The bus\<close>

definition TOPIC :: "environ \<Rightarrow> string" where
  "TOPIC env = (case map_of env ''PRAMAAN_EVENTS_TOPIC'' of None \<Rightarrow> ''pramaan.events'' | Some t \<Rightarrow> t)"

record producer_config =
  pc_bootstrap_servers :: "string list"
  pc_acks :: string
  pc_retries :: int

record consumer_config =
  cc_topic :: string
  cc_bootstrap_servers :: "string list"
  cc_group_id :: string
  cc_auto_offset_reset :: string
  cc_enable_auto_commit :: bool
  cc_timeout_ms :: int

text \<open>\<^verbatim>\<open>RuntimeError(... {last})\<close> with the last exception (\<open>None\<close> when no attempt was allowed).\<close>

datatype bus_exn = Unavailable "py_exn option"

text \<open>
  The loop of \<^verbatim>\<open>make_producer\<close> and \<^verbatim>\<open>make_consumer\<close>: \<open>attempt i\<close> is the outcome of the \<open>i\<close>-th construction.
  The result is the number of two-second sleeps and the client, or the error.
\<close>

fun connect_loop ::
  "nat \<Rightarrow> (nat \<Rightarrow> py_exn + 'c) \<Rightarrow> nat \<Rightarrow> py_exn option \<Rightarrow> nat \<times> (bus_exn + 'c)" where
  "connect_loop 0 attempt i last_exn = (i, Inl (Unavailable last_exn))"
| "connect_loop (Suc left) attempt i last_exn =
     (case attempt i of
        Inr client \<Rightarrow> (i, Inr client)
      | Inl e \<Rightarrow> connect_loop left attempt (Suc i) (Some e))"

definition make_producer ::
  "(producer_config \<Rightarrow> nat \<Rightarrow> py_exn + 'c) \<Rightarrow> string \<Rightarrow> nat \<Rightarrow> nat \<times> (bus_exn + 'c)" where
  "make_producer kafka brokers retries =
     connect_loop retries
       (kafka \<lparr> pc_bootstrap_servers = py_split (CHR '','') brokers, pc_acks = ''all'', pc_retries = 5 \<rparr>) 0 None"

definition make_consumer ::
  "environ \<Rightarrow> (consumer_config \<Rightarrow> nat \<Rightarrow> py_exn + 'c) \<Rightarrow> string \<Rightarrow> string \<Rightarrow> nat \<Rightarrow> nat \<times> (bus_exn + 'c)" where
  "make_consumer env kafka brokers group_id retries =
     connect_loop retries
       (kafka \<lparr> cc_topic = TOPIC env, cc_bootstrap_servers = py_split (CHR '','') brokers, cc_group_id = group_id,
          cc_auto_offset_reset = ''earliest'', cc_enable_auto_commit = True, cc_timeout_ms = 1000 \<rparr>) 0 None"

section \<open>The ingress\<close>

type_synonym topic = "(string \<times> string) list"

definition ingress_value :: "string \<Rightarrow> identity_event \<Rightarrow> json" where
  "ingress_value event_id e = JObj [(''event_id'', JStr event_id), (''event'', JObj (event_dump e))]"

text \<open>
  \<^verbatim>\<open>POST /v1/events\<close>: \<open>sent\<close> is what \<^verbatim>\<open>send\<close> and \<^verbatim>\<open>flush\<close> do, \<open>Inr b\<close> when they return and the broker
  has taken the record iff \<open>b\<close> (the future \<^verbatim>\<open>send\<close> returns is not looked at).
\<close>

definition ingress_ingest ::
  "(json \<Rightarrow> string) \<Rightarrow> api_keys \<Rightarrow> string \<Rightarrow> py_exn + bool \<Rightarrow> string option \<Rightarrow> identity_event \<Rightarrow> topic \<Rightarrow>
   topic \<times> (http_exn + int \<times> (string \<times> json) list)" where
  "ingress_ingest dumps keys uuid_hex sent header e t =
     (case require_scope keys ''events:write'' header of
        Inl x \<Rightarrow> (t, Inl x)
      | Inr _ \<Rightarrow>
        let event_id = take 12 uuid_hex in
        (case sent of
           Inl x \<Rightarrow> (t, Inl (Unhandled x))
         | Inr taken \<Rightarrow>
           ((if taken then t @ [(ev_identity_id e, dumps (ingress_value event_id e))] else t),
            Inr (202, [(''event_id'', JStr event_id), (''status'', JStr ''accepted'')]))))"

definition get_decision ::
  "api_keys \<Rightarrow> string option \<Rightarrow> string \<Rightarrow> decision_table \<Rightarrow> http_exn + json" where
  "get_decision keys header event_id t =
     sbind (require_scope keys ''events:write'' header) (\<lambda>_.
       case decision_get t event_id of
         None \<Rightarrow> Inl (HTTPException 404 ''decision pending'')
       | Some d \<Rightarrow> Inr d)"

definition ingress_health :: "environ \<Rightarrow> settings \<Rightarrow> (string \<times> json) list" where
  "ingress_health env s =
     [(''status'', JStr ''ok''), (''service'', JStr ''ingress''), (''mode'', JStr (se_mode s)),
      (''topic'', JStr (TOPIC env))]"

section \<open>The scoring pod\<close>

text \<open>
  \<open>pe_parse\<close> is pydantic's construction of an event from a JSON object, \<open>pe_text\<close> what the database makes
  of a value put into a text column.
\<close>

record ('o, 'n, 's) pod_env =
  pe_engine :: "('o, 'n) trust_engine"
  pe_ops :: "'s store_ops"
  pe_lib :: audit_lib
  pe_key :: string
  pe_jsonb :: jsonb
  pe_parse :: "json \<Rightarrow> py_exn + identity_event"
  pe_text :: "json \<Rightarrow> py_exn + string"
  pe_loads :: "string \<Rightarrow> py_exn + json"
  pe_name :: string

record ('n, 's) pod_state =
  po_world :: "'s \<times> 'n"
  po_audit :: audit_table
  po_decisions :: decision_table

record pod_inputs =
  pi_engine :: call_inputs
  pi_audit_ts :: pyfloat
  pi_decision_ts :: pyfloat

definition pod_name :: "environ \<Rightarrow> string" where
  "pod_name env = (case map_of env ''HOSTNAME'' of None \<Rightarrow> ''pod'' | Some h \<Rightarrow> h)"

definition pod_payload :: "string \<Rightarrow> soc_assessment \<Rightarrow> (string \<times> json) list" where
  "pod_payload pod soc = dict_set ''pod'' (JStr pod) (to_audit_payload soc)"

text \<open>Audit first, then publish.\<close>

definition pod_publish ::
  "('o, 'n, 's) pod_env \<Rightarrow> pod_inputs \<Rightarrow> json \<Rightarrow> identity_event \<Rightarrow> soc_assessment \<Rightarrow> ('n, 's) pod_state \<Rightarrow>
   ('n, 's) pod_state \<times> (py_exn + unit)" where
  "pod_publish env inp rec e soc st =
     (case pg_append (pe_lib env) (pe_key env) (pe_jsonb env) (po_audit st) (pi_audit_ts inp)
             (JObj (pod_payload (pe_name env) soc)) of
        (a, Inl x) \<Rightarrow> (st\<lparr>po_audit := a\<rparr>, Inl x)
      | (a, Inr _) \<Rightarrow>
        (case sbind (json_item rec ''event_id'') (pe_text env) of
           Inl x \<Rightarrow> (st\<lparr>po_audit := a\<rparr>, Inl x)
         | Inr event_id \<Rightarrow>
           let (d, r) = decision_put (pe_jsonb env) (po_decisions st) event_id (ev_identity_id e)
                 (decision_str (soc_decision soc)) (JObj (client_dump (to_client soc))) (pi_decision_ts inp)
           in (st\<lparr>po_audit := a, po_decisions := d\<rparr>, r)))"

text \<open>The body of the \<^verbatim>\<open>try\<close>, with what it raises.\<close>

definition pod_score ::
  "('o, 'n, 's) pod_env \<Rightarrow> pod_inputs \<Rightarrow> json \<Rightarrow> ('n, 's) pod_state \<Rightarrow> ('n, 's) pod_state \<times> (py_exn + unit)" where
  "pod_score env inp rec st =
     (case sbind (json_item rec ''event'') (pe_parse env) of
        Inl x \<Rightarrow> (st, Inl x)
      | Inr e \<Rightarrow>
        (case assess (pe_engine env) (pe_ops env) (pi_engine inp) e (po_world st) of
           (w, Inl x) \<Rightarrow> (st\<lparr>po_world := w\<rparr>, Inl x)
         | (w, Inr soc) \<Rightarrow> pod_publish env inp rec e soc (st\<lparr>po_world := w\<rparr>)))"

text \<open>\<^verbatim>\<open>except Exception\<close> prints it and goes on.\<close>

definition pod_handle ::
  "('o, 'n, 's) pod_env \<Rightarrow> pod_inputs \<Rightarrow> json \<Rightarrow> ('n, 's) pod_state \<Rightarrow> ('n, 's) pod_state" where
  "pod_handle env inp rec st = fst (pod_score env inp rec st)"

text \<open>
  One pass of \<^verbatim>\<open>for msg in consumer\<close>. The consumer deserialises a value when it hands the record out, which
  is outside the \<^verbatim>\<open>try\<close>: what that raises ends \<^verbatim>\<open>main\<close>.
\<close>

fun pod_consume ::
  "('o, 'n, 's) pod_env \<Rightarrow> (string \<times> pod_inputs) list \<Rightarrow> ('n, 's) pod_state \<Rightarrow>
   ('n, 's) pod_state \<times> py_exn option" where
  "pod_consume env [] st = (st, None)"
| "pod_consume env ((raw, inp) # msgs) st =
     (case pe_loads env raw of
        Inl x \<Rightarrow> (st, Some x)
      | Inr rec \<Rightarrow> pod_consume env msgs (pod_handle env inp rec st))"

text \<open>The outer loop over a number of passes.\<close>

fun pod_main ::
  "('o, 'n, 's) pod_env \<Rightarrow> (string \<times> pod_inputs) list list \<Rightarrow> ('n, 's) pod_state \<Rightarrow>
   ('n, 's) pod_state \<times> py_exn option" where
  "pod_main env [] st = (st, None)"
| "pod_main env (batch # batches) st =
     (case pod_consume env batch st of
        (st', Some x) \<Rightarrow> (st', Some x)
      | (st', None) \<Rightarrow> pod_main env batches st')"

section \<open>The verifier service\<close>

record issue_request =
  ir_challenge_id :: string
  ir_identity_id :: string
  ir_method :: string
  ir_result :: string

text \<open>The defaults of \<^verbatim>\<open>IssueRequest\<close>.\<close>

definition issue_request_of :: "string \<Rightarrow> string \<Rightarrow> string option \<Rightarrow> string option \<Rightarrow> issue_request" where
  "issue_request_of challenge identity meth result =
     \<lparr> ir_challenge_id = challenge, ir_identity_id = identity,
       ir_method = (case meth of None \<Rightarrow> ''otp_sms'' | Some m \<Rightarrow> m),
       ir_result = (case result of None \<Rightarrow> ''pass'' | Some r \<Rightarrow> r) \<rparr>"

definition service_signer :: "('priv, 'pub) crypto \<Rightarrow> environ \<Rightarrow> py_exn + 'priv signer" where
  "service_signer C env =
     (case map_of env ''PRAMAAN_STEPUP_PRIVKEY'' of
        None \<Rightarrow> Inl KeyError
      | Some b \<Rightarrow> from_private_b64 C b)"

definition service_health :: "('priv, 'pub) crypto \<Rightarrow> 'priv signer \<Rightarrow> (string \<times> json) list" where
  "service_health C s =
     [(''status'', JStr ''ok''), (''service'', JStr ''verifier''), (''public_key'', JStr (public_key_b64 C s))]"

definition service_issue ::
  "('priv, 'pub) crypto \<Rightarrow> json_lib \<Rightarrow> 'priv signer \<Rightarrow> pyfloat \<Rightarrow> string \<Rightarrow> issue_request \<Rightarrow> (string \<times> json) list" where
  "service_issue C J s clock urandom_hex rq =
     [(''assertion'', JStr (issue C J s clock urandom_hex (ir_challenge_id rq) (ir_identity_id rq) (ir_method rq)
        (ir_result rq) (Fin 120) None None))]"

end
