(* ===== verification/PodProps.thy ===== *)
theory PodProps
  imports Pods AttestationProps AuditProps
begin

text \<open>
  The properties of the distributed topology: bounded connecting, the path of an event from the ingress
  through the bus and a pod back to the client, the order of audit and publication, and the trust path from
  the verifier service to the engine.
\<close>

section \<open>Connecting\<close>

lemma connect_loop_result:
  assumes "connect_loop n attempt i l = (k, r)"
  shows "i \<le> k \<and> k \<le> i + n \<and> (\<forall>j. i \<le> j \<and> j < k \<longrightarrow> (\<exists>e. attempt j = Inl e)) \<and>
    (case r of Inr c \<Rightarrow> k < i + n \<and> attempt k = Inr c | Inl _ \<Rightarrow> k = i + n)"
  using assms
proof (induction n arbitrary: i l)
  case (Suc n)
  show ?case
  proof (cases "attempt i")
    case (Inl e)
    with Suc.prems have "connect_loop n attempt (Suc i) (Some e) = (k, r)" by simp
    from Suc.IH [OF this] Inl show ?thesis
      by (auto split: sum.splits) (metis Suc_leI le_neq_implies_less)+
  next
    case (Inr c)
    with Suc.prems show ?thesis by auto
  qed
qed auto

section \<open>What a pod does to its tables\<close>

definition decision_audited :: "audit_table \<Rightarrow> pg_decision \<Rightarrow> bool" where
  "decision_audited t d \<longleftrightarrow>
     (\<exists>r\<in>set t. \<exists>pl b. pg_payload r = JObj pl \<and> pd_body d = JObj b \<and>
        dget pl ''event_id'' = dget b ''event_id'' \<and> dget pl ''decision'' = dget b ''decision'' \<and>
        dget pl ''identity_id'' = JStr (pd_identity d))"

definition pod_ok :: "('n, 's) pod_state \<Rightarrow> bool" where
  "pod_ok st \<longleftrightarrow> (\<forall>d\<in>snd ` set (po_decisions st). decision_audited (po_audit st) d)"

lemma decision_audited_mono: "decision_audited t d \<Longrightarrow> set t \<subseteq> set t' \<Longrightarrow> decision_audited t' d"
  unfolding decision_audited_def by blast

lemma pg_append_grows:
  assumes "pg_append L key jsonb t ts payload = (t', r)"
  shows "set t \<subseteq> set t'"
    and "faithful_jsonb jsonb \<Longrightarrow> r = Inr x \<Longrightarrow> \<exists>row\<in>set t'. pg_payload row = payload"
  using assms
  by (auto simp: pg_append_def pg_insert_def faithful_jsonb_def pg_prepare_def Let_def
      split: sum.splits prod.splits if_splits)

lemma decision_put_rows:
  assumes "decision_put jsonb t event_id identity d body ts = (t', r)" "faithful_jsonb jsonb"
  shows "set t' \<subseteq> insert (event_id, \<lparr> pd_identity = identity, pd_decision = d, pd_body = body, pd_ts = ts \<rparr>) (set t)"
  using assms by (auto simp: decision_put_def faithful_jsonb_def split: sum.splits if_splits)

lemma decision_put_kept:
  "decision_get t i = Some b \<Longrightarrow> decision_get (fst (decision_put jsonb t event_id identity d body ts)) i = Some b"
  by (auto simp: decision_get_def decision_put_def map_add_def split: sum.splits)

lemma pod_payload_fields:
  "dget (pod_payload pod soc) ''event_id'' = JStr (soc_event_id soc)"
  "dget (pod_payload pod soc) ''decision'' = JStr (decision_str (soc_decision soc))"
  "dget (pod_payload pod soc) ''identity_id'' = JStr (soc_identity_id soc)"
  by (simp_all add: pod_payload_def to_audit_payload_def dget_def)

lemma client_fields:
  "dget (client_dump (to_client soc)) ''event_id'' = JStr (soc_event_id soc)"
  "dget (client_dump (to_client soc)) ''decision'' = JStr (decision_str (soc_decision soc))"
  by (simp_all add: client_dump_def to_client_def to_client_assessment_def dget_def)

lemma assess_identity:
  "assess eng ops ci e w = (w', Inr soc) \<Longrightarrow> soc_identity_id soc = ev_identity_id e"
  by (auto simp: assess_def Let_def dest: soc_of_outcome_simps(7) split: prod.splits sum.splits option.splits)

lemma pod_publish_ok:
  assumes "pod_publish env inp rec e soc st = (st', r)" "pod_ok st" "faithful_jsonb (pe_jsonb env)"
    "soc_identity_id soc = ev_identity_id e"
  shows "pod_ok st'"
proof -
  obtain a ra where app: "pg_append (pe_lib env) (pe_key env) (pe_jsonb env) (po_audit st) (pi_audit_ts inp)
      (JObj (pod_payload (pe_name env) soc)) = (a, ra)" by fastforce
  note grows = pg_append_grows(1) [OF app]
  have old: "pod_ok (st\<lparr>po_audit := a\<rparr>)"
    using assms(2) grows by (auto simp: pod_ok_def intro: decision_audited_mono)
  show ?thesis
  proof (cases ra)
    case (Inl x)
    with assms(1) app old show ?thesis by (simp add: pod_publish_def)
  next
    case (Inr rec')
    obtain row where row: "row \<in> set a" "pg_payload row = JObj (pod_payload (pe_name env) soc)"
      using pg_append_grows(2) [OF app assms(3) Inr] by blast
    show ?thesis
    proof (cases "sbind (json_item rec ''event_id'') (pe_text env)")
      case (Inl x)
      with assms(1) app old \<open>ra = Inr rec'\<close> show ?thesis by (simp add: pod_publish_def)
    next
      case (Inr event_id)
      obtain d rd where put: "decision_put (pe_jsonb env) (po_decisions st) event_id (ev_identity_id e)
          (decision_str (soc_decision soc)) (JObj (client_dump (to_client soc))) (pi_decision_ts inp) = (d, rd)"
        by fastforce
      have "st' = st\<lparr>po_audit := a, po_decisions := d\<rparr>"
        using assms(1) app Inr put \<open>ra = Inr rec'\<close> by (simp add: pod_publish_def)
      moreover have "decision_audited a \<lparr> pd_identity = ev_identity_id e,
          pd_decision = decision_str (soc_decision soc), pd_body = JObj (client_dump (to_client soc)),
          pd_ts = pi_decision_ts inp \<rparr>"
        unfolding decision_audited_def
        by (rule bexI [OF _ row(1)]) (simp add: row(2) pod_payload_fields client_fields assms(4))
      ultimately show ?thesis
        using old decision_put_rows [OF put assms(3)] by (force simp: pod_ok_def)
    qed
  qed
qed

lemma pod_handle_ok:
  assumes "pod_ok st" "faithful_jsonb (pe_jsonb env)"
  shows "pod_ok (pod_handle env inp rec st)"
proof -
  have world: "pod_ok (st\<lparr>po_world := w\<rparr>)" for w using assms(1) by (simp add: pod_ok_def)
  show ?thesis
  proof (cases "sbind (json_item rec ''event'') (pe_parse env)")
    case (Inl x)
    with assms(1) show ?thesis by (simp add: pod_handle_def pod_score_def)
  next
    case (Inr e)
    obtain w r where scored: "assess (pe_engine env) (pe_ops env) (pi_engine inp) e (po_world st) = (w, r)" by fastforce
    show ?thesis
    proof (cases r)
      case (Inl x)
      with Inr scored world show ?thesis by (simp add: pod_handle_def pod_score_def)
    next
      case (Inr soc)
      obtain st' r' where p: "pod_publish env inp rec e soc (st\<lparr>po_world := w\<rparr>) = (st', r')" by fastforce
      have "pod_handle env inp rec st = st'"
        using p scored Inr \<open>sbind _ _ = Inr e\<close> by (simp add: pod_handle_def pod_score_def)
      with pod_publish_ok [OF p world assms(2)] assess_identity [OF scored [unfolded Inr]] show ?thesis by simp
    qed
  qed
qed

lemma pod_publish_kept:
  "decision_get (po_decisions st) i = Some b \<Longrightarrow>
   decision_get (po_decisions (fst (pod_publish env inp rec e soc st))) i = Some b"
  using decision_put_kept [of "po_decisions st" i b]
  by (auto simp: pod_publish_def split_def Let_def split: sum.splits)

lemma pod_handle_kept:
  "decision_get (po_decisions st) i = Some b \<Longrightarrow>
   decision_get (po_decisions (pod_handle env inp rec st)) i = Some b"
  by (auto simp: pod_handle_def pod_score_def pod_publish_kept split: sum.splits prod.splits)

lemma pod_consume_kept:
  "decision_get (po_decisions st) i = Some b \<Longrightarrow>
   decision_get (po_decisions (fst (pod_consume env msgs st))) i = Some b"
  by (induction env msgs st rule: pod_consume.induct) (auto simp: pod_handle_kept split: sum.splits)

lemma pod_consume_ok:
  "pod_ok st \<Longrightarrow> faithful_jsonb (pe_jsonb env) \<Longrightarrow> pod_ok (fst (pod_consume env msgs st))"
  by (induction env msgs st rule: pod_consume.induct) (auto simp: pod_handle_ok split: sum.splits)

lemma pod_main_ok:
  "pod_ok st \<Longrightarrow> faithful_jsonb (pe_jsonb env) \<Longrightarrow> pod_ok (fst (pod_main env batches st))"
proof (induction env batches st rule: pod_main.induct)
  case (2 env b bs st)
  with pod_consume_ok [OF "2.prems", of b] show ?case
    by (cases "pod_consume env b st") (auto split: option.splits)
qed simp

lemma pod_main_kept:
  "decision_get (po_decisions st) i = Some b \<Longrightarrow>
   decision_get (po_decisions (fst (pod_main env batches st))) i = Some b"
proof (induction env batches st rule: pod_main.induct)
  case (2 env m ms st)
  with pod_consume_kept [OF "2.prems", of env m] show ?case
    by (cases "pod_consume env m st") (auto split: option.splits)
qed simp

lemma pod_consume_None:
  "snd (pod_consume env msgs st) = None \<longleftrightarrow> (\<forall>m\<in>set msgs. \<exists>v. pe_loads env (fst m) = Inr v)"
  by (induction env msgs st rule: pod_consume.induct) (auto split: sum.splits)

lemma pod_main_None:
  "snd (pod_main env batches st) = None \<longleftrightarrow>
   (\<forall>batch\<in>set batches. \<forall>m\<in>set batch. \<exists>v. pe_loads env (fst m) = Inr v)"
proof (induction env batches st rule: pod_main.induct)
  case (2 env b bs st)
  obtain st' x where c: "pod_consume env b st = (st', x)" by fastforce
  have x: "x = None \<longleftrightarrow> (\<forall>m\<in>set b. \<exists>v. pe_loads env (fst m) = Inr v)"
    using pod_consume_None [of env b st] c by simp
  show ?case
  proof (cases x)
    case None
    with "2.IH" [OF c [symmetric]] c x show ?thesis by simp
  next
    case (Some e)
    with c x show ?thesis by auto
  qed
qed simp

text \<open>To the audit table a pod only appends.\<close>

lemma pod_handle_puts:
  "\<exists>ps. po_audit (pod_handle env inp rec st) = puts (pg_append (pe_lib env) (pe_key env) (pe_jsonb env)) (po_audit st) ps"
proof -
  have pub: "po_audit (fst (pod_publish env inp rec e soc s)) =
      fst (pg_append (pe_lib env) (pe_key env) (pe_jsonb env) (po_audit s) (pi_audit_ts inp)
        (JObj (pod_payload (pe_name env) soc)))" for e soc s
    by (auto simp: pod_publish_def Let_def split: sum.splits prod.splits)
  have "po_audit (pod_handle env inp rec st) = po_audit st \<or> (\<exists>ts p. po_audit (pod_handle env inp rec st) =
      fst (pg_append (pe_lib env) (pe_key env) (pe_jsonb env) (po_audit st) ts p))"
    using pub by (fastforce simp: pod_handle_def pod_score_def split: sum.splits prod.splits)
  then show ?thesis
  proof
    assume "po_audit (pod_handle env inp rec st) = po_audit st"
    then show ?thesis by (intro exI [of _ "[]"]) simp
  next
    assume "\<exists>ts p. po_audit (pod_handle env inp rec st) =
      fst (pg_append (pe_lib env) (pe_key env) (pe_jsonb env) (po_audit st) ts p)"
    then obtain ts p where "po_audit (pod_handle env inp rec st) =
      fst (pg_append (pe_lib env) (pe_key env) (pe_jsonb env) (po_audit st) ts p)" by blast
    then show ?thesis by (intro exI [of _ "[(ts, p)]"]) simp
  qed
qed

lemma pod_consume_puts:
  "\<exists>ps. po_audit (fst (pod_consume env msgs st)) = puts (pg_append (pe_lib env) (pe_key env) (pe_jsonb env)) (po_audit st) ps"
proof (induction env msgs st rule: pod_consume.induct)
  case (2 env raw inp rest st)
  show ?case
  proof (cases "pe_loads env raw")
    case (Inr rec)
    from pod_handle_puts [of env inp rec st] "2.IH" [OF Inr] Inr show ?thesis
      by (auto simp flip: puts_append)
  qed (auto intro: exI [of _ "[]"])
qed (auto intro: exI [of _ "[]"])

lemma pod_main_puts:
  "\<exists>ps. po_audit (fst (pod_main env batches st)) = puts (pg_append (pe_lib env) (pe_key env) (pe_jsonb env)) (po_audit st) ps"
proof (induction env batches st rule: pod_main.induct)
  case (2 env b bs st)
  obtain s x where c: "pod_consume env b st = (s, x)" by fastforce
  from pod_consume_puts [of env b st] c obtain ps where
    "po_audit s = puts (pg_append (pe_lib env) (pe_key env) (pe_jsonb env)) (po_audit st) ps" by auto
  with "2.IH" [OF c [symmetric]] c show ?case by (auto split: option.splits simp flip: puts_append)
qed (auto intro: exI [of _ "[]"])

section \<open>A concrete topology\<close>

definition wit_pod :: "(unit, unit, mem_store) pod_env" where
  "wit_pod = \<lparr> pe_engine = wit_engine, pe_ops = mem_ops, pe_lib = wit_hash, pe_key = ''k'', pe_jsonb = Inr,
     pe_parse = (\<lambda>_. Inr wit_event), pe_text = (\<lambda>v. case v of JStr s \<Rightarrow> Inr s | _ \<Rightarrow> Inl TypeError),
     pe_loads = (\<lambda>raw. if raw = ''m'' then Inr (ingress_value ''0123456789ab'' wit_event) else Inl ValueError),
     pe_name = ''pod-0'' \<rparr>"

definition wit_pod_start :: "(unit, mem_store) pod_state" where
  "wit_pod_start = \<lparr> po_world = (mem_empty, ()), po_audit = [], po_decisions = [] \<rparr>"

definition wit_pod_inputs :: pod_inputs where
  "wit_pod_inputs = \<lparr> pi_engine = wit_inputs, pi_audit_ts = Fin 7, pi_decision_ts = Fin 8 \<rparr>"

lemma wit_pod_faithful: "faithful_jsonb (pe_jsonb wit_pod)" "pod_ok wit_pod_start"
  by (simp_all add: wit_pod_def faithful_jsonb_def pod_ok_def wit_pod_start_def)

section \<open>Properties\<close>

text \<open>
  C31: Connecting ends: \<^verbatim>\<open>make_producer\<close> sleeps at most once per allowed attempt; it returns the client of the
  first construction that succeeds and raises only when all of them failed.
\<close>
theorem connecting_ends:
  assumes "make_producer kafka brokers retries = (sleeps, r)"
    "cfg = \<lparr> pc_bootstrap_servers = py_split (CHR '','') brokers, pc_acks = ''all'', pc_retries = 5 \<rparr>"
  shows "sleeps \<le> retries \<and> (\<forall>j<sleeps. \<exists>e. kafka cfg j = Inl e) \<and>
    (case r of Inr client \<Rightarrow> sleeps < retries \<and> kafka cfg sleeps = Inr client | Inl _ \<Rightarrow> sleeps = retries)"
  using connect_loop_result [OF assms(1) [unfolded make_producer_def assms(2) [symmetric]]]
  unfolding add_0 by simp

theorem connecting_ends_witness:
  "make_producer (\<lambda>cfg i. if i < 3 then Inl ExternalError else Inr (pc_bootstrap_servers cfg)) ''a,b'' 40 =
     (3, Inr [''a'', ''b''])"
proof -
  obtain k r where p: "make_producer (\<lambda>cfg i. if i < 3 then Inl ExternalError else Inr (pc_bootstrap_servers cfg))
      ''a,b'' 40 = (k, r)" by fastforce
  note q = connecting_ends [OF p refl]
  have "\<not> 3 < k" using q by (auto split: if_splits)
  moreover have "\<not> k < 3" using q by (auto split: sum.splits if_splits)
  ultimately have "k = 3" by simp
  with q p show ?thesis by (auto split: sum.splits)
qed

text \<open>
  Pods keep the audit chain: from a table that verifies, whatever messages are handled, broken and redelivered
  ones included, the table still verifies and every earlier record stays where it was.
\<close>
theorem pods_keep_the_chain:
  assumes "pod_main env batches st = (st', x)" "hex_digests (pe_lib env)" "faithful_jsonb (pe_jsonb env)"
    and "seq_ok (po_audit st)" "pg_verify_chain (pe_lib env) (pe_key env) (po_audit st) = Inr True"
  shows "pg_verify_chain (pe_lib env) (pe_key env) (po_audit st') = Inr True \<and>
    (\<exists>rs. au_records (table_log (pe_key env) (po_audit st')) = au_records (table_log (pe_key env) (po_audit st)) @ rs)"
proof -
  have ok: "table_ok (pe_lib env) (pe_key env) (pe_jsonb env) (po_audit st)"
    using assms by (simp add: table_ok_def log_ok_def pg_verify_log)
  from pod_main_puts [of env batches st] assms(1) obtain ps where
    "po_audit st' = puts (pg_append (pe_lib env) (pe_key env) (pe_jsonb env)) (po_audit st) ps" by auto
  with pg_trail.puts_verifies [OF ok] pg_trail.puts_extend [OF ok] show ?thesis by metis
qed

theorem pods_keep_the_chain_witness:
  "\<exists>st' x. pod_main (wit_pod\<lparr>pe_lib := wit_audit\<rparr>) [[(''m'', wit_pod_inputs), (''bad'', wit_pod_inputs)]] wit_pod_start = (st', x) \<and>
     pg_verify_chain wit_audit ''k'' (po_audit st') = Inr True"
proof -
  let ?env = "wit_pod\<lparr>pe_lib := wit_audit\<rparr>"
  obtain st' x where m: "pod_main ?env [[(''m'', wit_pod_inputs), (''bad'', wit_pod_inputs)]] wit_pod_start = (st', x)"
    by fastforce
  have "hex_digests (pe_lib ?env)" "faithful_jsonb (pe_jsonb ?env)" "seq_ok (po_audit wit_pod_start)"
    "pg_verify_chain (pe_lib ?env) (pe_key ?env) (po_audit wit_pod_start) = Inr True" "pe_key ?env = ''k''"
    using wit_audit_hex wit_pod_faithful
    by (simp_all add: wit_pod_def wit_pod_start_def seq_ok_def pg_verify_chain_def)
  from pods_keep_the_chain [OF m this(1-4)] m this(5) show ?thesis by auto
qed

lemma event_answered:
  assumes accepted: "ingress_ingest dumps keys uuid_hex (Inr True) header e t = (t', Inr resp)"
    and codec: "pe_loads env (dumps (ingress_value (take 12 uuid_hex) e)) = Inr (ingress_value (take 12 uuid_hex) e)"
    and parse: "pe_parse env (JObj (event_dump e)) = Inr e"
    and text_id: "pe_text env (JStr (take 12 uuid_hex)) = Inr (take 12 uuid_hex)"
    and scored: "assess (pe_engine env) (pe_ops env) (pi_engine inp) e (po_world st) = (w, Inr soc)"
    and tables: "seq_ok (po_audit st)" "pe_jsonb env = Inr"
    and unused: "decision_get (po_decisions st) (take 12 uuid_hex) = None"
  shows "\<exists>st'. pod_consume env [(snd (last t'), inp)] st = (st', None) \<and> po_world st' = w \<and>
    table_log (pe_key env) (po_audit st') = fst (audit_append (pe_lib env) (table_log (pe_key env) (po_audit st))
      (pi_audit_ts inp) (JObj (pod_payload (pe_name env) soc))) \<and>
    get_decision keys header (take 12 uuid_hex) (po_decisions st') = Inr (JObj (client_dump (to_client soc)))"
proof -
  let ?id = "take 12 uuid_hex" and ?p = "JObj (pod_payload (pe_name env) soc)"
  obtain ctx where ctx: "require_scope keys ''events:write'' header = Inr ctx"
    and t': "t' = t @ [(ev_identity_id e, dumps (ingress_value ?id e))]"
    using accepted by (auto simp: ingress_ingest_def Let_def split: sum.splits)
  obtain a ra where app: "pg_append (pe_lib env) (pe_key env) (pe_jsonb env) (po_audit st) (pi_audit_ts inp) ?p = (a, ra)"
    by fastforce
  have jsonb: "pe_jsonb env ?p = Inr ?p" using tables(2) by simp
  note log = pg_append_log [OF tables(1), where jsonb = "pe_jsonb env" and payload = ?p, OF jsonb, where key = "pe_key env" and L = "pe_lib env" and ts = "pi_audit_ts inp", unfolded app fst_conv snd_conv]
  obtain row where ra: "ra = Inr row"
    using log(2) by (auto simp: audit_append_def head_hash_def table_log_def last_map Let_def split: sum.splits if_splits)
  let ?d = "po_decisions st @ [(?id, \<lparr> pd_identity = ev_identity_id e, pd_decision = decision_str (soc_decision soc),
      pd_body = JObj (client_dump (to_client soc)), pd_ts = pi_decision_ts inp \<rparr>)]"
  have "pod_handle env inp (ingress_value ?id e) st = st\<lparr>po_world := w, po_audit := a, po_decisions := ?d\<rparr>"
    using parse scored app ra text_id unused tables(2)
    by (simp add: pod_handle_def pod_score_def pod_publish_def ingress_value_def json_item_def ditem_def
        decision_put_def decision_get_def)
  moreover have "get_decision keys header ?id ?d = Inr (JObj (client_dump (to_client soc)))"
    using ctx unused by (simp add: get_decision_def decision_get_def map_add_def)
  ultimately show ?thesis using codec log(1) by (simp add: t')
qed

lemma wit_ingested:
  obtains t' resp where "ingress_ingest (\<lambda>_. ''m'') wit_keys ''0123456789abcdef'' (Inr True) (Some ''gw'') wit_event []
      = (t', Inr resp)" "snd (last t') = ''m''"
  by (simp add: ingress_ingest_def require_scope_def authenticate_def wit_keys_def compare_digest_def is_ascii_def)

lemma wit_tables: "seq_ok []" "decision_get [] i = None"
  by (simp_all add: seq_ok_def pg_ordered_def decision_get_def)

lemma wit_pod_answers:
  obtains st' b where "pod_consume wit_pod [(''m'', wit_pod_inputs)] wit_pod_start = (st', None)"
    "decision_get (po_decisions st') ''0123456789ab'' = Some b"
proof (rule wit_allow)
  fix s' n' soc
  assume a: "assess wit_engine mem_ops wit_inputs wit_event (mem_empty, ()) = ((s', n'), Inr soc)"
  show thesis
  proof (rule wit_ingested)
    fix t' resp
    assume i: "ingress_ingest (\<lambda>_. ''m'') wit_keys ''0123456789abcdef'' (Inr True) (Some ''gw'') wit_event []
      = (t', Inr resp)" "snd (last t') = ''m''"
    show thesis
      using event_answered [OF i(1), of wit_pod wit_pod_inputs wit_pod_start "(s', n')" soc] a i(2) wit_tables that
      by (auto simp: wit_pod_def wit_pod_inputs_def wit_pod_start_def get_decision_def sbind_eq_Inr split: option.splits)
  qed
qed





text \<open>
  Exactly the messages whose value does not decode kill a pod: as long as all values decode it stays
  up, whatever the events hold and whatever the engine or the databases raise; the first one that does not
  ends \<^verbatim>\<open>main\<close>, because the consumer decodes it outside the \<^verbatim>\<open>try\<close> that should keep one bad event from killing
  the pod.
\<close>
theorem pod_survives_iff_decodable:
  "snd (pod_main env batches st) = None \<longleftrightarrow>
   (\<forall>batch\<in>set batches. \<forall>m\<in>set batch. \<exists>v. pe_loads env (fst m) = Inr v)"
  by (rule pod_main_None)

theorem pod_survives_iff_decodable_witness:
  "snd (pod_main wit_pod [[(''m'', wit_pod_inputs), (''{'', wit_pod_inputs)]] wit_pod_start) \<noteq> None"
  unfolding pod_survives_iff_decodable by (simp add: wit_pod_def)

text \<open>
  The verifier service and the engine fit together: an assertion requested from the service, in its
  two minutes, is accepted for its identity by an engine configured with the key the service publishes under
  \<^verbatim>\<open>/health\<close>, and it passes iff the requested verdict was a pass.
\<close>
theorem service_assertion_accepted:
  assumes laws: "ed25519_laws C"
    and service: "map_of env ''PRAMAAN_STEPUP_PRIVKEY'' = Some (private_key_b64 C k)" "service_signer C env = Inr s"
    and engine: "dget (service_health C s) ''public_key'' = JStr (se_stepup_pubkey cfg)" "stepup_verifier C True cfg = Inr v"
    and json: "json_reads_back J (issue_payload s clock rnd (ir_challenge_id rq) (ir_identity_id rq) (ir_method rq)
      (ir_result rq) (Fin 120) None None)"
    and fresh: "\<not> clock + Fin 120 < now" "\<not> now + skew < clock"
    and cache: "distinct (map fst c)" "map_of c rnd = None"
  shows "\<exists>token c' a. dget (service_issue C J s clock rnd rq) ''assertion'' = JStr token \<and>
    validate C J v mem_nonce_ops skew c token (ir_identity_id rq) now wall = (c', Inr a) \<and>
    (passed a \<longleftrightarrow> ir_result rq = ''pass'')"
proof -
  have s: "s = Ed25519Signer k"
    using service signer_seed_roundtrip [OF laws, of k] by (simp add: service_signer_def)
  have v: "build_verifier C True (public_key_b64 C (Ed25519Signer k)) = Inr v"
    using engine by (simp add: s service_health_def dget_def stepup_verifier_def)
  show ?thesis
    using issue_accepted [OF laws v json [unfolded s], of now skew c wall] fresh cache
    by (auto simp: service_issue_def dget_def s issued_time_def issued_nonce_def)
qed

theorem service_assertion_accepted_witness:
  "\<exists>token c' a. dget (service_issue wit_crypto (wit_json wit_payload) (Ed25519Signer ()) 0 ''n1''
       (issue_request_of ''c1'' ''id1'' None None)) ''assertion'' = JStr token \<and>
     validate wit_crypto (wit_json wit_payload) (Ed25519Verifier ()) mem_nonce_ops (Fin 5) [] token ''id1'' (Fin 60) (Fin 60)
       = (c', Inr a) \<and> passed a"
proof -
  let ?cfg = "\<lparr> se_mode = ''prod'', se_edge_secret = ''e'', se_audit_signing_key = ''a'',
    se_stepup_pubkey = public_key_b64 wit_crypto (Ed25519Signer ()), se_attest_pubkey = [], se_behavior_pubkey = [],
    se_api_keys = [], se_cors_origins = [], se_model_dir = [], se_redis_url = None, se_is_synthetic = False,
    se_model_sha256 = None \<rparr>"
  have v: "stepup_verifier wit_crypto True ?cfg = Inr (Ed25519Verifier ())"
    using ed25519_key_pair(1) [OF wit_crypto_laws, of "()"] unfolding stepup_verifier_def settings.simps by simp
  have s: "service_signer wit_crypto [(''PRAMAAN_STEPUP_PRIVKEY'', private_key_b64 wit_crypto ())] = Inr (Ed25519Signer ())"
    by (simp add: service_signer_def signer_seed_roundtrip [OF wit_crypto_laws])
  have key: "dget (service_health wit_crypto (Ed25519Signer ())) ''public_key'' = JStr (se_stepup_pubkey ?cfg)"
    by (simp add: service_health_def dget_def)
  show ?thesis
    using service_assertion_accepted [OF wit_crypto_laws _ s key v, where J = "wit_json wit_payload"
        and clock = 0 and rnd = "''n1''" and rq = "issue_request_of ''c1'' ''id1'' None None" and now = "Fin 60"
        and skew = "Fin 5" and c = "[]" and wall = "Fin 60" and k = "()"]
      wit_json_reads_back [of wit_payload, unfolded wit_payload_def]
    by (simp add: issue_request_of_def wit_payload_def zero_pyfloat_def)
qed

end
