(* ===== verification/Export.thy ===== *)
theory Export
  imports ModelLoader Config EngineProps
begin

text \<open>
  Training data for the serving model: \<^verbatim>\<open>src/export_models.py\<close>. A \<open>login\<close> is a row of the RBA sample after
  pandas has parsed it (\<open>lg_ts\<close> is \<open>None\<close> for a time stamp \<^verbatim>\<open>to_datetime\<close> coerces to NaT, the other columns
  are the strings \<^verbatim>\<open>str\<close> gives); the genuine logins are replayed through the serving features over an
  in-memory store, and the fitted model is saved with its card. scikit-learn's fit, git and the clock are
  parameters.

  The lemmas: the replay never raises, gives one vector in the unit cube per genuine login and leaves every
  identity with as many events as it logged in; what the export writes, the production loader loads.
\<close>

section \<open>Rows and events\<close>

record login =
  lg_user :: int
  lg_ts :: "int option"
  lg_hour :: int
  lg_success :: string
  lg_takeover :: string
  lg_device_type :: string
  lg_browser :: string
  lg_os :: string
  lg_country :: string

definition lower_char :: "char \<Rightarrow> char" where
  "lower_char c = (if 65 \<le> byte c \<and> byte c \<le> 90 then char_of (byte c + 32) else c)"

definition is_true :: "string \<Rightarrow> bool" where
  "is_true s \<longleftrightarrow> map lower_char s = ''true''"

text \<open>\<^verbatim>\<open>str.split()\<close>: the maximal runs of characters that are not white space.\<close>

fun split_ws :: "string \<Rightarrow> string \<Rightarrow> string list" where
  "split_ws cur [] = (if cur = [] then [] else [cur])"
| "split_ws cur (c # cs) =
     (if is_space c then (if cur = [] then split_ws [] cs else cur # split_ws [] cs)
      else split_ws (cur @ [c]) cs)"

definition fam :: "string \<Rightarrow> string" where
  "fam val = (case split_ws [] val of [] \<Rightarrow> ''unknown'' | p # _ \<Rightarrow> p)"

definition row_to_event :: "string \<Rightarrow> string \<Rightarrow> string \<Rightarrow> string \<Rightarrow> string \<Rightarrow> int \<Rightarrow> identity_event" where
  "row_to_event user device_type browser os_name country_name hour =
     \<lparr> ev_identity_id = user, ev_event_type = LOGIN, ev_channel = INTERNET_BANKING,
       ev_device_id = device_type @ ''|'' @ fam browser @ ''|'' @ fam os_name,
       ev_geo = country_name, ev_hour_of_day = hour, ev_amount = None,
       ev_is_new_beneficiary = False, ev_recovery_contact_changed = False,
       ev_privileged_scope = None, ev_device_attestation = None, ev_behavior_assertion = None,
       ev_idempotency_key = None \<rparr>"

text \<open>\<^verbatim>\<open>df.head(n)\<close>, where a negative \<open>n\<close> cuts from the end; \<^verbatim>\<open>if limit\<close> skips it for 0 and \<^verbatim>\<open>None\<close>.\<close>

definition df_head :: "int \<Rightarrow> 'a list \<Rightarrow> 'a list" where
  "df_head n xs = (if 0 \<le> n then take (nat n) xs else take (length xs - nat (- n)) xs)"

definition limited :: "int option \<Rightarrow> 'a list \<Rightarrow> 'a list" where
  "limited limit xs = (case limit of None \<Rightarrow> xs | Some n \<Rightarrow> if n = 0 then xs else df_head n xs)"

text \<open>
  Genuine successful logins by user and time: \<^verbatim>\<open>sort_values\<close> on two columns is the stable sort by the
  first after the stable sort by the second.
\<close>

definition login_time :: "login \<Rightarrow> int" where
  "login_time r = (case lg_ts r of None \<Rightarrow> 0 | Some t \<Rightarrow> t)"

definition genuine_logins :: "login list \<Rightarrow> int option \<Rightarrow> login list" where
  "genuine_logins rows limit =
     (let parsed = filter (\<lambda>r. lg_ts r \<noteq> None) rows;
          good = filter (\<lambda>r. is_true (lg_success r) \<and> \<not> is_true (lg_takeover r)) parsed
      in limited limit (sort_key lg_user (sort_key login_time good)))"

definition login_event :: "(int \<Rightarrow> string) \<Rightarrow> login \<Rightarrow> identity_event" where
  "login_event int_str r =
     row_to_event (int_str (lg_user r)) (lg_device_type r) (lg_browser r) (lg_os r) (lg_country r) (lg_hour r)"

section \<open>The replay\<close>

text \<open>One turn of the loop: under the identity's lock, score, fold into the baseline and commit.\<close>

definition replay_step ::
  "float_pow \<Rightarrow> mem_store \<Rightarrow> identity_event \<Rightarrow> py_exn + mem_store \<times> pyfloat list" where
  "replay_step pw s e =
     (let s1 = fst (mem_key_lock s (ev_identity_id e));
          st = mem_load s1 (ev_identity_id e);
          (s2, dev) = mem_device_add s1 (ev_device_id e) (ev_identity_id e)
      in sbind (compute_features pw e st dev None) (\<lambda>(st', vec).
           let st'' = commit_features st' e
           in Inr (fst (mem_commit s2 (ev_identity_id e) st'' (st_version st'')), vec)))"

fun replay :: "float_pow \<Rightarrow> mem_store \<Rightarrow> identity_event list \<Rightarrow> py_exn + mem_store \<times> pyfloat list list" where
  "replay pw s [] = Inr (s, [])"
| "replay pw s (e # es) =
     sbind (replay_step pw s e) (\<lambda>(s', vec).
     sbind (replay pw s' es) (\<lambda>(s'', vecs). Inr (s'', vec # vecs)))"

definition build_serving_vectors ::
  "float_pow \<Rightarrow> (int \<Rightarrow> string) \<Rightarrow> login list \<Rightarrow> int option \<Rightarrow> py_exn + pyfloat list list" where
  "build_serving_vectors pw int_str rows limit =
     sbind (replay pw mem_empty (map (login_event int_str) (genuine_logins rows limit))) (\<lambda>(s, vecs). Inr vecs)"

section \<open>The export\<close>

text \<open>\<^verbatim>\<open>_git_sha\<close> and \<^verbatim>\<open>_rba_metric\<close>: whatever fails gives the default.\<close>

definition git_sha :: "py_exn + string \<Rightarrow> string" where
  "git_sha out = (case out of Inl _ \<Rightarrow> ''no-git'' | Inr s \<Rightarrow> strip s)"

definition rba_metric :: "py_exn + json \<Rightarrow> (string \<times> json) list" where
  "rba_metric metrics =
     (case metrics of
        Inr (JObj m) \<Rightarrow> map (\<lambda>k. (k, dget m k)) [''roc_auc'', ''pr_auc'', ''operating_point'']
      | _ \<Rightarrow> [])"

definition CONTAMINATION :: pyfloat where "CONTAMINATION = fl 0.03"

definition export_card ::
  "py_exn + json \<Rightarrow> string \<Rightarrow> py_exn + string \<Rightarrow> nat \<Rightarrow> (string \<times> json) list" where
  "export_card metrics now_utc git_out n_train =
     [(''name'', JStr ''serving_anomaly''),
      (''dataset'', JStr ''RBA / Wiefling (Zenodo 6782156) - real logins, behavioural serving schema''),
      (''dataset_url'', JStr ''https://zenodo.org/records/6782156''),
      (''detector'', JStr ''IsolationForest(n=200) over StandardScaler(11 serving features)''),
      (''metric'', JObj (rba_metric metrics)),
      (''trained_at'', JStr now_utc),
      (''git_sha'', JStr (git_sha git_out)),
      (''n_train'', JInt (int n_train)),
      (''contamination'', JFloat CONTAMINATION),
      (''provenance'', JStr ''rba_wiefling''),
      (''note'', JStr (''Replayed through app.features.compute_features so training and '' @
                       ''serving share one feature definition (no drift).''))]"

record 'o export_env =
  xe_pow :: float_pow
  xe_int_str :: "int \<Rightarrow> string"
  xe_lib :: "'o loader_lib"
  xe_fit_scaler :: "pyfloat list list \<Rightarrow> py_exn + 'o"
  xe_fit_model :: "'o \<Rightarrow> pyfloat list list \<Rightarrow> py_exn + 'o"
  xe_metrics :: "py_exn + json"
  xe_now_utc :: string
  xe_git :: "py_exn + string"

definition export_serving_model ::
  "'o export_env \<Rightarrow> files \<Rightarrow> string \<Rightarrow> login list \<Rightarrow> int option \<Rightarrow> py_exn + files" where
  "export_serving_model env fs dir rows limit =
     sbind (build_serving_vectors (xe_pow env) (xe_int_str env) rows limit) (\<lambda>x.
     sbind (xe_fit_scaler env x) (\<lambda>scaler.
     sbind (xe_fit_model env scaler x) (\<lambda>model.
     Inr (fst (save_artifact (xe_lib env) fs dir model scaler FEATURE_NAMES
       (export_card (xe_metrics env) (xe_now_utc env) (xe_git env) (length x)))))))"

section \<open>Facts about the replay\<close>

definition replay_ok :: "mem_store \<Rightarrow> bool" where
  "replay_ok s \<longleftrightarrow> (\<forall>i. (\<forall>h\<in>set (st_hours (mem_load s i)). 0 \<le> h \<and> h \<le> 23) \<and>
     st_amounts (mem_load s i) = [] \<and> fin_in 0 2 (st_burst (mem_load s i)))"

lemma replay_ok_empty: "replay_ok mem_empty"
  by (simp add: replay_ok_def) (simp add: initial_state_def zero_pyfloat_def)

lemma replay_step_total:
  assumes pw: "pow_laws pw" and ok: "replay_ok s" and e: "event_ok e" "ev_amount e = None"
  obtains s' vec where "replay_step pw s e = Inr (s', vec)" "replay_ok s'" "length vec = 11"
    "\<forall>f\<in>set vec. fin_in 0 1 f"
    "\<And>i. st_event_count (mem_load s' i) =
       st_event_count (mem_load s i) + (if i = ev_identity_id e then 1 else 0)"
proof -
  let ?i = "ev_identity_id e"
  let ?s1 = "fst (mem_key_lock s ?i)"
  let ?st = "mem_load s ?i"
  obtain s2 dev where dev: "mem_device_add ?s1 (ev_device_id e) ?i = (s2, dev)" by fastforce
  have "1 \<le> dev" using mem.device_add_positive [of ?s1 "ev_device_id e" ?i s2 dev] dev by simp
  obtain st' vec where f: "compute_features pw e ?st dev None = Inr (st', vec)" "\<forall>f\<in>set vec. fin_in 0 1 f"
    using compute_features_unit [OF pw, of ?st e None dev] ok e \<open>1 \<le> dev\<close>
    by (auto simp: replay_ok_def amounts_ok_def amount_ok_def behavior_ok_def)
  note st' = compute_features_state [OF f(1)]
  let ?st'' = "commit_features st' e"
  have ver: "st_version ?st'' = st_version (mem_load s2 ?i)"
    using dev st' mem_load_device_add [of ?s1 "ev_device_id e" ?i] by (simp add: commit_features_def)
  obtain s' where s': "mem_commit s2 ?i ?st'' (st_version ?st'') = (s', True)"
    "mem_load s' = (mem_load s2)(?i := ?st''\<lparr>st_version := st_version ?st'' + 1\<rparr>)"
    using mem_commit_same [OF ver] .
  have s2: "mem_load s2 = mem_load s"
    using dev mem_load_device_add [of ?s1 "ev_device_id e" ?i] by simp
  show thesis
  proof (rule that)
    show "replay_step pw s e = Inr (s', vec)"
      using f(1) dev s'(1) by (simp add: replay_step_def Let_def)
    have "fin_in 0 2 (st_burst st')" using ok burst_step by (simp add: st' replay_ok_def)
    then show "replay_ok s'"
      using ok e by (auto simp: replay_ok_def s'(2) s2 st' commit_features_def event_ok_def)
    show "st_event_count (mem_load s' i) = st_event_count (mem_load s i) + (if i = ?i then 1 else 0)" for i
      by (simp add: s'(2) s2 st' commit_features_def)
  qed (use st' f in simp_all)
qed

lemma replay_total:
  assumes "pow_laws pw" "replay_ok s" "\<forall>e\<in>set es. event_ok e \<and> ev_amount e = None"
  shows "\<exists>s' vecs. replay pw s es = Inr (s', vecs) \<and> replay_ok s' \<and> length vecs = length es \<and>
    (\<forall>vec\<in>set vecs. length vec = 11 \<and> (\<forall>f\<in>set vec. fin_in 0 1 f)) \<and>
    (\<forall>i. st_event_count (mem_load s' i) =
       st_event_count (mem_load s i) + int (length (filter (\<lambda>e. ev_identity_id e = i) es)))"
  using assms(2,3)
proof (induction es arbitrary: s)
  case (Cons e es)
  have "event_ok e" "ev_amount e = None" using Cons.prems by simp_all
  from replay_step_total [OF assms(1) Cons.prems(1) this] obtain s1 vec where st:
    "replay_step pw s e = Inr (s1, vec)" "replay_ok s1" "length vec = 11" "\<forall>f\<in>set vec. fin_in 0 1 f"
    "\<And>i. st_event_count (mem_load s1 i) =
       st_event_count (mem_load s i) + (if i = ev_identity_id e then 1 else 0)"
    by metis
  from Cons.IH [OF st(2)] Cons.prems(2) obtain s' vecs where "replay pw s1 es = Inr (s', vecs)" "replay_ok s'"
    "length vecs = length es" "\<forall>vec\<in>set vecs. length vec = 11 \<and> (\<forall>f\<in>set vec. fin_in 0 1 f)"
    "\<forall>i. st_event_count (mem_load s' i) =
       st_event_count (mem_load s1 i) + int (length (filter (\<lambda>e. ev_identity_id e = i) es))"
    by auto
  with st show ?case by auto
qed auto

lemma row_to_event_ok: "0 \<le> h \<Longrightarrow> h \<le> 23 \<Longrightarrow> event_ok (row_to_event u d b s c h) \<and> ev_amount (row_to_event u d b s c h) = None"
  by (simp add: row_to_event_def event_ok_def)

lemma limited_subset: "set (limited limit xs) \<subseteq> set xs"
  by (auto simp: limited_def df_head_def split: option.splits dest: in_set_takeD)

lemma genuine_logins_set:
  "r \<in> set (genuine_logins rows limit) \<Longrightarrow>
   r \<in> set rows \<and> lg_ts r \<noteq> None \<and> is_true (lg_success r) \<and> \<not> is_true (lg_takeover r)"
  using limited_subset by (fastforce simp: genuine_logins_def Let_def)

section \<open>Properties\<close>

text \<open>
  C32: The training replay never fails and stays in the serving feature space: for logins with an hour of the
  day it returns one vector per genuine login, each with the eleven serving features in [0, 1].
\<close>
theorem serving_vectors_total:
  assumes "pow_laws pw" "\<forall>r\<in>set rows. 0 \<le> lg_hour r \<and> lg_hour r \<le> 23"
  shows "\<exists>vecs. build_serving_vectors pw int_str rows limit = Inr vecs \<and>
    length vecs = length (genuine_logins rows limit) \<and>
    (\<forall>vec\<in>set vecs. length vec = length FEATURE_NAMES \<and> (\<forall>f\<in>set vec. fin_in 0 1 f))"
proof -
  have "\<forall>e\<in>set (map (login_event int_str) (genuine_logins rows limit)). event_ok e \<and> ev_amount e = None"
    using assms(2) row_to_event_ok by (auto simp: login_event_def dest: genuine_logins_set)
  from replay_total [OF assms(1) replay_ok_empty this] show ?thesis
    by (fastforce simp: build_serving_vectors_def FEATURE_NAMES_def)
qed

definition wit_login :: login where
  "wit_login = \<lparr> lg_user = 7, lg_ts = Some 0, lg_hour = 10, lg_success = ''True'', lg_takeover = ''False'',
     lg_device_type = ''mobile'', lg_browser = ''Chrome 79'', lg_os = ''iOS 13'', lg_country = ''IN'' \<rparr>"

lemma wit_login_genuine: "genuine_logins [wit_login] None = [wit_login]"
  by (simp add: genuine_logins_def limited_def wit_login_def is_true_def lower_char_def byte_def char_of_def bit_0)

lemma wit_pow: "pow_laws (nl_pow (te_lib wit_engine))"
  using wit_laws(1) by (simp add: num_laws_def)

theorem serving_vectors_total_witness:
  "\<exists>vec. build_serving_vectors (nl_pow (te_lib wit_engine)) (\<lambda>_. ''7'') [wit_login] None = Inr [vec] \<and> length vec = 11"
proof -
  have "\<forall>r\<in>set [wit_login]. 0 \<le> lg_hour r \<and> lg_hour r \<le> 23" by (simp add: wit_login_def)
  from serving_vectors_total [OF wit_pow this, of "\<lambda>_. ''7''" None] show ?thesis
    by (auto simp: wit_login_genuine length_Suc_conv FEATURE_NAMES_def)
qed

text \<open>
  What the exporter writes is what production serves: after an export, a loader in prod mode (without a pin or
  with the digest of the exported artifact pinned) returns exactly the fitted pair under the provenance of the
  real data, never the synthetic stamp.
\<close>
theorem exported_model_is_served:
  fixes env :: "'o export_env"
  assumes fitted: "build_serving_vectors (xe_pow env) (xe_int_str env) rows limit = Inr x"
      "xe_fit_scaler env x = Inr scaler" "xe_fit_model env scaler x = Inr model"
    and md: "md \<noteq> ''demo_synthetic''"
    and bundle_def: "b = \<lparr> bu_model = Some model, bu_scaler = Some scaler, bu_feature_names = Some FEATURE_NAMES \<rparr>"
    and crd: "crd = final_card (xe_lib env) (ll_joblib_dump (xe_lib env) b) FEATURE_NAMES
      (export_card (xe_metrics env) (xe_now_utc env) (xe_git env) (length x))"
    and pickle: "ll_joblib_load (xe_lib env) (ll_joblib_dump (xe_lib env) b) = Inr b"
    and codec: "ll_json_loads (xe_lib env) (ll_json_dumps (xe_lib env) crd) = Inr (JObj crd)"
    and hex: "is_ascii (ll_sha256 (xe_lib env) (ll_joblib_dump (xe_lib env) b))"
    and pin: "pinned \<in> {None, Some (ll_sha256 (xe_lib env) (ll_joblib_dump (xe_lib env) b))}"
  shows "\<exists>fs' bytes m. export_serving_model env fs dir rows limit = Inr fs' \<and>
    load_serving_model (xe_lib env) fs' md dir pinned FEATURE_NAMES = ([bytes], Inr m) \<and>
    sm_model m = model \<and> sm_scaler m = scaler \<and> sm_provenance m = ''rba_wiefling'' \<and> \<not> sm_is_synthetic m"
proof -
  let ?ecard = "export_card (xe_metrics env) (xe_now_utc env) (xe_git env) (length x)"
  obtain fs' where saved: "save_artifact (xe_lib env) fs dir model scaler FEATURE_NAMES ?ecard
      = (fs', path_join dir ARTIFACT_NAME)"
    by (simp add: save_artifact_def Let_def)
  have on_disk: "fs' (path_join dir ARTIFACT_NAME) = Some (ll_joblib_dump (xe_lib env) b)"
    using saved names_differ by (auto simp: save_artifact_def Let_def bundle_def path_join_def)
  have pin': "pinned \<in> {None, map_option (ll_sha256 (xe_lib env)) (fs' (path_join dir ARTIFACT_NAME))}"
    using pin by (simp add: on_disk)
  have prov: "map_of ?ecard ''provenance'' = Some (JStr ''rba_wiefling'')" by (simp add: export_card_def)
  have "export_serving_model env fs dir rows limit = Inr fs'"
    using fitted saved by (simp add: export_serving_model_def)
  with saved_loads [OF md bundle_def pickle codec [unfolded crd] hex saved pin' prov] show ?thesis
    by (auto simp: sm_is_synthetic_def)
qed

definition wit_export :: "unit export_env" where
  "wit_export = \<lparr> xe_pow = nl_pow (te_lib wit_engine), xe_int_str = (\<lambda>_. ''7''),
     xe_lib = \<lparr> ll_sha256 = (\<lambda>_. ''5a''),
       ll_joblib_load = (\<lambda>_. Inr \<lparr> bu_model = Some (), bu_scaler = Some (), bu_feature_names = Some FEATURE_NAMES \<rparr>),
       ll_joblib_dump = (\<lambda>_. ''pickle''),
       ll_json_loads = (\<lambda>_. Inr (JObj (dict_set ''artifact_sha256'' (JStr ''5a'')
         (dict_set ''feature_names'' (JList (map JStr FEATURE_NAMES))
           (export_card (Inl ExternalError) ''2026'' (Inl ExternalError) 1))))),
       ll_json_dumps = (\<lambda>_. ''card''), ll_synthetic = ((), ()) \<rparr>,
     xe_fit_scaler = (\<lambda>_. Inr ()), xe_fit_model = (\<lambda>_ _. Inr ()), xe_metrics = Inl ExternalError,
     xe_now_utc = ''2026'', xe_git = Inl ExternalError \<rparr>"

theorem exported_model_is_served_witness:
  "\<exists>fs' bytes m. export_serving_model wit_export Map.empty ''models'' [wit_login] None = Inr fs' \<and>
     load_serving_model (xe_lib wit_export) fs' ''prod'' ''models'' (Some ''5a'') FEATURE_NAMES = ([bytes], Inr m) \<and>
     sm_provenance m = ''rba_wiefling''"
proof -
  have "\<forall>e\<in>set (map (login_event (\<lambda>_. ''7'')) [wit_login]). event_ok e \<and> ev_amount e = None"
    by (simp add: login_event_def wit_login_def row_to_event_ok)
  from replay_total [OF wit_pow replay_ok_empty this] obtain vec where
    x: "build_serving_vectors (xe_pow wit_export) (xe_int_str wit_export) [wit_login] None = Inr [vec]"
    by (auto simp: build_serving_vectors_def wit_login_genuine wit_export_def length_Suc_conv)
  have "\<exists>fs' bytes m. export_serving_model wit_export Map.empty ''models'' [wit_login] None = Inr fs' \<and>
      load_serving_model (xe_lib wit_export) fs' ''prod'' ''models'' (Some ''5a'') FEATURE_NAMES = ([bytes], Inr m) \<and>
      sm_model m = () \<and> sm_scaler m = () \<and> sm_provenance m = ''rba_wiefling'' \<and> \<not> sm_is_synthetic m"
    by (rule exported_model_is_served [OF x _ _ _ refl refl])
      (simp_all add: wit_export_def final_card_def card_setdefault_def export_card_def Let_def is_ascii_def)
  then show ?thesis by blast
qed

end
