(* ===== verification/Cohorts.thy ===== *)
theory Cohorts
  imports Export "HOL-Library.Multiset"
begin

text \<open>
  The reports computed by replaying the RBA logins: new-user friction (\<^verbatim>\<open>src/coldstart_metric.py\<close>), the geo-cohort
  audit (\<^verbatim>\<open>src/fairness_audit.py\<close>) and the differentially private aggregates (\<^verbatim>\<open>src/dp_export.py\<close>). The \<open>i\<close>-th
  assessment of a replay has the call inputs \<open>ci i\<close>; numpy's generator is a state with two drawing functions,
  and the RDP accountant is a parameter.

  The lemmas: rates and the disparate-impact ratio are in [0, 1]; an identity contributes one mean vector in the
  unit cube to one cohort, which is what the sensitivity of the mechanism assumes; nothing is released without
  noise or below the noisy threshold.
\<close>

section \<open>Challenge rates\<close>

text \<open>\<^verbatim>\<open>a / b\<close> on integers.\<close>

definition int_div :: "int \<Rightarrow> int \<Rightarrow> pyfloat" where
  "int_div a b = fl (of_int a / of_int b)"

text \<open>\<^verbatim>\<open>groupby("User ID", sort=False).head(1)\<close>.\<close>

fun first_of_each :: "int list \<Rightarrow> login list \<Rightarrow> login list" where
  "first_of_each seen [] = []"
| "first_of_each seen (r # rs) =
     (if lg_user r \<in> set seen then first_of_each seen rs
      else r # first_of_each (lg_user r # seen) rs)"

definition first_logins :: "login list \<Rightarrow> int option \<Rightarrow> login list" where
  "first_logins rows limit = limited limit (first_of_each [] (genuine_logins rows None))"

text \<open>The decisions of a replay, each with the row it belongs to.\<close>

fun assess_rows ::
  "('o, 'n) trust_engine \<Rightarrow> (int \<Rightarrow> string) \<Rightarrow> (nat \<Rightarrow> call_inputs) \<Rightarrow> nat \<Rightarrow> login list \<Rightarrow> mem_store \<times> 'n \<Rightarrow>
   py_exn + (login \<times> decision) list" where
  "assess_rows eng int_str ci i [] w = Inr []"
| "assess_rows eng int_str ci i (r # rs) w =
     (case assess eng mem_ops (ci i) (login_event int_str r) w of
        (w', Inl x) \<Rightarrow> Inl x
      | (w', Inr soc) \<Rightarrow>
          sbind (assess_rows eng int_str ci (Suc i) rs w') (\<lambda>ds. Inr ((r, soc_decision soc) # ds)))"

definition stepup_rate ::
  "('o, 'n) trust_engine \<Rightarrow> (int \<Rightarrow> string) \<Rightarrow> (nat \<Rightarrow> call_inputs) \<Rightarrow> 'n \<Rightarrow> login list \<Rightarrow> py_exn + pyfloat" where
  "stepup_rate eng int_str ci n0 rows =
     sbind (assess_rows eng int_str ci 0 rows (mem_empty, n0)) (\<lambda>ds.
       let stepped = int (length (filter (\<lambda>d. snd d \<noteq> ALLOW) ds)); n = int (length ds)
       in Inr (int_div stepped (max n 1)))"

text \<open>The numbers of the report.\<close>

record coldstart_report =
  cr_n_new_users :: int
  cr_naive :: pyfloat
  cr_real_no_prior :: pyfloat
  cr_shipped :: pyfloat
  cr_absolute_reduction :: pyfloat
  cr_relative_reduction_pct :: pyfloat

definition coldstart_numbers :: "int \<Rightarrow> pyfloat \<Rightarrow> pyfloat \<Rightarrow> pyfloat \<Rightarrow> coldstart_report" where
  "coldstart_numbers n naive no_prior shipped =
     \<lparr> cr_n_new_users = n, cr_naive = py_round 4 naive, cr_real_no_prior = py_round 4 no_prior,
       cr_shipped = py_round 4 shipped, cr_absolute_reduction = py_round 4 (naive - shipped),
       cr_relative_reduction_pct =
         (if naive = Fin 0 then fl 0 else py_round 1 (fdiv (fl 100 * (naive - shipped)) naive)) \<rparr>"

definition coldstart_main ::
  "('o, 'n) trust_engine \<Rightarrow> ('o, 'n) trust_engine \<Rightarrow> ('o, 'n) trust_engine \<Rightarrow> (int \<Rightarrow> string) \<Rightarrow>
   (nat \<Rightarrow> call_inputs) \<Rightarrow> 'n \<Rightarrow> login list \<Rightarrow> int option \<Rightarrow> py_exn + coldstart_report" where
  "coldstart_main naive_eng no_prior_eng shipped_eng int_str ci n0 all_rows limit =
     (let rows = first_logins all_rows limit in
      sbind (stepup_rate naive_eng int_str ci n0 rows) (\<lambda>naive.
      sbind (stepup_rate no_prior_eng int_str ci n0 rows) (\<lambda>no_prior.
      sbind (stepup_rate shipped_eng int_str ci n0 rows) (\<lambda>shipped.
      Inr (coldstart_numbers (int (length rows)) naive no_prior shipped)))))"

section \<open>The cohort audit\<close>

definition MIN_AUDIT_COHORT :: nat where "MIN_AUDIT_COHORT = 200"

definition DI_THRESHOLD :: pyfloat where "DI_THRESHOLD = fl 0.8"

text \<open>\<^verbatim>\<open>d.setdefault(k, []).append(v)\<close>.\<close>

definition dict_append :: "'k \<Rightarrow> 'v \<Rightarrow> ('k \<times> 'v list) list \<Rightarrow> ('k \<times> 'v list) list" where
  "dict_append k v d = dict_set k ((case map_of d k of None \<Rightarrow> [] | Some vs \<Rightarrow> vs) @ [v]) d"

definition cohort_decisions :: "(login \<times> decision) list \<Rightarrow> (string \<times> int list) list" where
  "cohort_decisions ds =
     foldl (\<lambda>d (r, dec). dict_append (lg_country r) (if dec \<noteq> ALLOW then 1 else 0) d) [] ds"

definition cohort_rates :: "(string \<times> int list) list \<Rightarrow> (string \<times> pyfloat) list" where
  "cohort_rates by_cohort =
     map (\<lambda>(c, v). (c, int_div (sum_list v) (int (length v))))
       (filter (\<lambda>(c, v). MIN_AUDIT_COHORT \<le> length v) by_cohort)"

definition float_min :: "pyfloat list \<Rightarrow> pyfloat" where
  "float_min xs = foldl py_min (hd xs) (tl xs)"

definition float_max :: "pyfloat list \<Rightarrow> pyfloat" where
  "float_max xs = foldl py_max (hd xs) (tl xs)"

definition disparate_impact :: "(string \<times> pyfloat) list \<Rightarrow> pyfloat" where
  "disparate_impact rates =
     (let rs = map snd rates in
      if rs \<noteq> [] \<and> Fin 0 < float_max rs then fdiv (float_min rs) (float_max rs) else fl 1)"

definition passes_4_5ths :: "(string \<times> pyfloat) list \<Rightarrow> bool" where
  "passes_4_5ths rates \<longleftrightarrow> DI_THRESHOLD \<le> disparate_impact rates"

definition fairness_main ::
  "('o, 'n) trust_engine \<Rightarrow> (int \<Rightarrow> string) \<Rightarrow> (nat \<Rightarrow> call_inputs) \<Rightarrow> 'n \<Rightarrow> login list \<Rightarrow> int option \<Rightarrow>
   py_exn + (string \<times> pyfloat) list \<times> pyfloat \<times> bool" where
  "fairness_main eng int_str ci n0 rows limit =
     sbind (assess_rows eng int_str ci 0 (genuine_logins rows limit) (mem_empty, n0)) (\<lambda>ds.
       let rates = cohort_rates (cohort_decisions ds) in
       Inr (rates, py_round 4 (disparate_impact rates), passes_4_5ths rates))"

section \<open>The private aggregates\<close>

definition FEATURES :: nat where "FEATURES = length FEATURE_NAMES"
definition DELTA :: pyfloat where "DELTA = fl 0.00001"
definition DEFAULT_NOISE_MULTIPLIER :: pyfloat where "DEFAULT_NOISE_MULTIPLIER = fl 4"
definition MIN_COHORT :: int where "MIN_COHORT = 25"
definition COUNT_EPSILON :: pyfloat where "COUNT_EPSILON = fl 0.1"
definition COUNT_BUFFER :: int where "COUNT_BUFFER = 10"

datatype dp_exn = DpMandatory | DpRaised py_exn

definition dp_orders :: "pyfloat list" where
  "dp_orders = map (\<lambda>x. fl 1 + fdiv (float_of_int (int x)) (fl 10)) [1..<100] @
     map (\<lambda>x. float_of_int (int x)) [12..<64]"

definition dp_epsilon :: "(pyfloat list \<Rightarrow> pyfloat \<Rightarrow> pyfloat \<Rightarrow> pyfloat) \<Rightarrow> pyfloat \<Rightarrow> pyfloat \<Rightarrow> pyfloat" where
  "dp_epsilon accountant noise_multiplier delta = accountant dp_orders noise_multiplier delta"

definition vec_add :: "pyfloat list \<Rightarrow> pyfloat list \<Rightarrow> pyfloat list" where
  "vec_add x y = map2 (+) x y"

record dp_acc =
  da_sums :: "(string \<times> pyfloat list) list"
  da_counts :: "(string \<times> int) list"
  da_cohort :: "(string \<times> string) list"

definition dp_add :: "string \<Rightarrow> string \<Rightarrow> pyfloat list \<Rightarrow> dp_acc \<Rightarrow> dp_acc" where
  "dp_add iid cohort vec acc =
     acc\<lparr>da_sums := dict_set iid
           (vec_add (case map_of (da_sums acc) iid of None \<Rightarrow> replicate FEATURES (Fin 0) | Some s \<Rightarrow> s) vec) (da_sums acc),
         da_counts := dict_set iid
           ((case map_of (da_counts acc) iid of None \<Rightarrow> 0 | Some n \<Rightarrow> n) + 1) (da_counts acc),
         da_cohort := dict_set iid cohort (da_cohort acc)\<rparr>"

definition clip_unit :: "'o num_lib \<Rightarrow> pyfloat list \<Rightarrow> pyfloat list" where
  "clip_unit lib v = map (\<lambda>x. nl_clip lib x (fl 0) (fl 1)) v"

text \<open>The loop of \<^verbatim>\<open>_identity_means\<close> over the rows, threading the store.\<close>

fun dp_replay ::
  "'o num_lib \<Rightarrow> (int \<Rightarrow> string) \<Rightarrow> login list \<Rightarrow> mem_store \<Rightarrow> dp_acc \<Rightarrow> py_exn + dp_acc" where
  "dp_replay lib int_str [] s acc = Inr acc"
| "dp_replay lib int_str (r # rs) s acc =
     (let e = login_event int_str r in
      sbind (replay_step (nl_pow lib) s e) (\<lambda>(s', vec).
        dp_replay lib int_str rs s' (dp_add (ev_identity_id e) (lg_country r) (clip_unit lib vec) acc)))"

definition dp_count :: "dp_acc \<Rightarrow> string \<Rightarrow> int" where
  "dp_count acc iid = (case map_of (da_counts acc) iid of None \<Rightarrow> 0 | Some n \<Rightarrow> n)"

definition dp_means :: "dp_acc \<Rightarrow> (string \<times> pyfloat list) list" where
  "dp_means acc =
     map (\<lambda>(iid, s). (iid, map (\<lambda>x. fdiv x (float_of_int (dp_count acc iid))) s)) (da_sums acc)"

definition identity_means ::
  "'o num_lib \<Rightarrow> (int \<Rightarrow> string) \<Rightarrow> login list \<Rightarrow> int option \<Rightarrow>
   py_exn + (string \<times> pyfloat list) list \<times> (string \<times> string) list" where
  "identity_means lib int_str rows limit =
     sbind (dp_replay lib int_str (genuine_logins rows limit) mem_empty
              \<lparr> da_sums = [], da_counts = [], da_cohort = [] \<rparr>) (\<lambda>acc.
       Inr (dp_means acc, da_cohort acc))"

definition group_means ::
  "(string \<times> pyfloat list) list \<Rightarrow> (string \<times> string) list \<Rightarrow> (string \<times> pyfloat list list) list" where
  "group_means means cohort =
     foldl (\<lambda>d (iid, m). dict_append (case map_of cohort iid of None \<Rightarrow> [] | Some c \<Rightarrow> c) m d) [] means"

record 'g rng =
  rg_laplace :: "'g \<Rightarrow> pyfloat \<Rightarrow> pyfloat \<Rightarrow> 'g \<times> pyfloat"
  rg_normal :: "'g \<Rightarrow> pyfloat \<Rightarrow> pyfloat \<Rightarrow> nat \<Rightarrow> 'g \<times> pyfloat list"

fun release_cohorts ::
  "'o num_lib \<Rightarrow> 'g rng \<Rightarrow> pyfloat \<Rightarrow> 'g \<Rightarrow> (string \<times> pyfloat list list) list \<Rightarrow>
   (string \<times> pyfloat list) list \<times> (string \<times> pyfloat list) list" where
  "release_cohorts lib R sigma g [] = ([], [])"
| "release_cohorts lib R sigma g ((c, vecs) # cs) =
     (let n = float_of_int (int (length vecs));
          (g1, lap) = rg_laplace R g (fl 0) (fdiv (fl 1) COUNT_EPSILON)
      in if n + lap < float_of_int (MIN_COHORT + COUNT_BUFFER) then release_cohorts lib R sigma g1 cs
         else let s = foldl vec_add (hd vecs) (tl vecs);
                  (g2, z) = rg_normal R g1 (fl 0) sigma FEATURES;
                  (raw, noised) = release_cohorts lib R sigma g2 cs
              in ((c, map (\<lambda>x. fdiv x n) s) # raw,
                  (c, clip_unit lib (map (\<lambda>x. fdiv x n) (vec_add s z))) # noised))"

definition compute_cohort_means ::
  "'o num_lib \<Rightarrow> (pyfloat \<Rightarrow> pyfloat) \<Rightarrow> 'g rng \<Rightarrow> (int \<Rightarrow> 'g) \<Rightarrow> (int \<Rightarrow> string) \<Rightarrow> login list \<Rightarrow> int option \<Rightarrow>
   pyfloat \<Rightarrow> int \<Rightarrow> dp_exn + (string \<times> pyfloat list) list \<times> (string \<times> pyfloat list) list \<times> pyfloat" where
  "compute_cohort_means lib math_sqrt R default_rng int_str rows limit noise_multiplier seed =
     (if noise_multiplier \<le> Fin 0 then Inl DpMandatory
      else case identity_means lib int_str rows limit of
        Inl e \<Rightarrow> Inl (DpRaised e)
      | Inr (means, cohort) \<Rightarrow>
        let sensitivity = math_sqrt (float_of_int (int FEATURES));
            sigma = noise_multiplier * sensitivity;
            (raw, noised) = release_cohorts lib R sigma (default_rng seed) (group_means means cohort)
        in Inr (raw, noised, sensitivity))"

record privacy_budget =
  pb_epsilon :: pyfloat
  pb_mean_release :: pyfloat
  pb_cohort_count :: pyfloat
  pb_delta :: pyfloat
  pb_noise_multiplier :: pyfloat
  pb_sensitivity_l2 :: pyfloat
  pb_cohorts_released :: nat

definition budget_of :: "pyfloat \<Rightarrow> pyfloat \<Rightarrow> pyfloat \<Rightarrow> nat \<Rightarrow> privacy_budget" where
  "budget_of mean_epsilon noise_multiplier sens released =
     (let total = mean_epsilon + COUNT_EPSILON in
      \<lparr> pb_epsilon = py_round 4 total, pb_mean_release = py_round 4 mean_epsilon, pb_cohort_count = COUNT_EPSILON,
        pb_delta = DELTA, pb_noise_multiplier = noise_multiplier, pb_sensitivity_l2 = py_round 4 sens,
        pb_cohorts_released = released \<rparr>)"

text \<open>What \<^verbatim>\<open>export_dp_aggregates\<close> writes: the released means and the budget.\<close>

definition export_dp_aggregates ::
  "'o num_lib \<Rightarrow> (pyfloat \<Rightarrow> pyfloat) \<Rightarrow> 'g rng \<Rightarrow> (int \<Rightarrow> 'g) \<Rightarrow> (pyfloat list \<Rightarrow> pyfloat \<Rightarrow> pyfloat \<Rightarrow> pyfloat) \<Rightarrow>
   (int \<Rightarrow> string) \<Rightarrow> login list \<Rightarrow> int option \<Rightarrow> pyfloat \<Rightarrow> int \<Rightarrow>
   dp_exn + (string \<times> pyfloat list) list \<times> privacy_budget" where
  "export_dp_aggregates lib math_sqrt R default_rng accountant int_str rows limit noise_multiplier seed =
     (case compute_cohort_means lib math_sqrt R default_rng int_str rows limit noise_multiplier seed of
        Inl e \<Rightarrow> Inl e
      | Inr (raw, noised, sens) \<Rightarrow>
          Inr (noised, budget_of (dp_epsilon accountant noise_multiplier DELTA) noise_multiplier sens (length noised)))"

section \<open>Facts about rates\<close>

lemma int_div_unit:
  assumes "0 \<le> a" "a \<le> b" shows "fin_in 0 1 (int_div a b)"
  unfolding int_div_def using assms by (cases "b = 0") (auto intro!: fl_bounds simp: divide_le_eq_1)

lemma stepup_rate_unit: "stepup_rate eng int_str ci n0 rows = Inr r \<Longrightarrow> fin_in 0 1 r"
  by (auto simp: stepup_rate_def sbind_eq_Inr Let_def intro!: int_div_unit le_max_iff_disj [THEN iffD2])

lemma fold_min_unit:
  "fin_in 0 1 a \<Longrightarrow> \<forall>x\<in>set xs. fin_in 0 1 x \<Longrightarrow>
   fin_in 0 1 (foldl py_min a xs) \<and> foldl py_min a xs \<le> a \<and> (\<forall>x\<in>set xs. foldl py_min a xs \<le> x)"
proof (induction xs arbitrary: a)
  case (Cons x xs)
  have m: "fin_in 0 1 (py_min a x)" "py_min a x \<le> a" "py_min a x \<le> x"
    using Cons.prems by (auto simp: py_min_def elim!: fin_inE)
  with Cons.IH [OF m(1)] Cons.prems show ?case
    by (auto elim!: fin_inE simp: pyfloat_le_Fin_iff)
qed (auto elim!: fin_inE)

lemma fold_max_unit:
  "fin_in 0 1 a \<Longrightarrow> \<forall>x\<in>set xs. fin_in 0 1 x \<Longrightarrow>
   fin_in 0 1 (foldl py_max a xs) \<and> a \<le> foldl py_max a xs"
proof (induction xs arbitrary: a)
  case (Cons x xs)
  have m: "fin_in 0 1 (py_max a x)" "a \<le> py_max a x"
    using Cons.prems by (auto simp: py_max_def elim!: fin_inE)
  with Cons.IH [OF m(1)] Cons.prems show ?case
    by (auto elim!: fin_inE)
qed (auto elim!: fin_inE)

text \<open>The ratio is in [0, 1] for rates in [0, 1]; with nobody to audit it is 1 and the rule passes.\<close>

lemma disparate_impact_unit:
  assumes "\<forall>r\<in>snd ` set rates. fin_in 0 1 r"
  shows "fin_in 0 1 (disparate_impact rates)"
proof (cases "map snd rates")
  case (Cons a xs)
  have "fin_in 0 1 a" "\<forall>x\<in>set xs. fin_in 0 1 x" using assms Cons by (metis list.set_intros set_map)+
  then obtain p q where "float_min (a # xs) = Fin p" "float_max (a # xs) = Fin q" "0 \<le> p" "p \<le> q"
    using fold_min_unit [of a xs] fold_max_unit [of a xs] by (auto simp: float_min_def float_max_def elim!: fin_inE)
  with Cons show ?thesis
    by (auto simp: disparate_impact_def Let_def divide_le_eq_1 intro!: fl_bounds)
qed (simp add: disparate_impact_def)

lemma empty_audit_passes: "passes_4_5ths (cohort_rates [])"
  by (simp add: passes_4_5ths_def cohort_rates_def disparate_impact_def DI_THRESHOLD_def)

section \<open>Facts about the private aggregates\<close>

definition dp_acc_ok :: "int \<Rightarrow> dp_acc \<Rightarrow> bool" where
  "dp_acc_ok k acc \<longleftrightarrow>
     distinct (map fst (da_sums acc)) \<and>
     (\<forall>iid s. map_of (da_sums acc) iid = Some s \<longrightarrow>
        1 \<le> dp_count acc iid \<and> length s = FEATURES \<and>
        (\<forall>x\<in>set s. fin_in 0 (of_int (dp_count acc iid)) x) \<and> map_of (da_cohort acc) iid \<noteq> None) \<and>
     (\<forall>iid. map_of (da_sums acc) iid = None \<longrightarrow> dp_count acc iid = 0) \<and>
     (\<forall>iid. dp_count acc iid \<le> k)"

lemma clip_unit_same:
  assumes "num_laws lib" "\<forall>x\<in>set v. fin_in 0 1 x" shows "clip_unit lib v = v"
  using assms(2) unfolding clip_unit_def
  by (induction v) (use assms(1) in \<open>auto simp: num_laws_def elim!: fin_inE\<close>)

lemma vec_add_bounds:
  assumes "\<forall>x\<in>set a. fin_in 0 (of_int n) x" "\<forall>x\<in>set b. fin_in 0 1 x" "0 \<le> n" "n < 2 ^ 53"
  shows "\<forall>x\<in>set (vec_add a b). fin_in 0 (of_int (n + 1)) x"
proof
  fix x assume "x \<in> set (vec_add a b)"
  then obtain u v where uv: "x = u + v" "(u, v) \<in> set (zip a b)" by (auto simp: vec_add_def)
  then have "fin_in 0 (of_int n) u" "fin_in 0 1 v"
    using assms(1,2) by (auto dest: set_zip_leftD set_zip_rightD)
  then show "fin_in 0 (of_int (n + 1)) x"
    unfolding uv(1) using assms(3,4) f64_small_int [of "n + 1"] by (intro fin_in_add [of 0 "of_int n" u 0 1 v]) simp_all
qed

lemma dp_add_ok:
  assumes "dp_acc_ok k acc" "length v = FEATURES" "\<forall>x\<in>set v. fin_in 0 1 x" "0 \<le> k" "k < 2 ^ 53"
  shows "dp_acc_ok (k + 1) (dp_add iid c v acc)"
proof -
  let ?n = "dp_count acc iid"
  let ?s = "case map_of (da_sums acc) iid of None \<Rightarrow> replicate FEATURES (Fin 0) | Some s \<Rightarrow> s"
  have n: "0 \<le> ?n" "?n \<le> k" and s: "length ?s = FEATURES" "\<forall>x\<in>set ?s. fin_in 0 (of_int ?n) x"
    using assms(1,4) by (cases "map_of (da_sums acc) iid"; force simp: dp_acc_ok_def)+
  have le: "dp_count acc j \<le> k + 1" for j using assms(1) by (auto simp: dp_acc_ok_def intro: order_trans [of _ k])
  have count: "dp_count (dp_add iid c v acc) j = dp_count acc j + (if j = iid then 1 else 0)" for j
    by (auto simp: dp_count_def dp_add_def)
  have "\<forall>x\<in>set (vec_add ?s v). fin_in 0 (of_int (?n + 1)) x"
    using s(2) assms(3) n(1) by (rule vec_add_bounds) (use n assms(5) in simp)
  moreover have "length (vec_add ?s v) = FEATURES" using s(1) assms(2) by (simp add: vec_add_def)
  ultimately show ?thesis
    using assms(1) n le unfolding dp_acc_ok_def count by (auto simp: dp_add_def)
qed

lemma FEATURES_11: "FEATURES = 11"
  by (simp add: FEATURES_def FEATURE_NAMES_def)

lemma replay_step_unit:
  assumes "num_laws lib" "replay_ok s" "event_ok e" "ev_amount e = None"
  obtains s' vec where "replay_step (nl_pow lib) s e = Inr (s', vec)" "replay_ok s'" "length vec = FEATURES"
    "\<forall>f\<in>set vec. fin_in 0 1 f"
proof -
  have "pow_laws (nl_pow lib)" using assms(1) by (simp add: num_laws_def)
  from replay_step_total [OF this assms(2-4)] that show thesis unfolding FEATURES_11 by metis
qed

lemma dp_replay_ok:
  assumes "num_laws lib" "replay_ok s" "dp_acc_ok k acc" "0 \<le> k" "k + int (length rs) < 2 ^ 53"
    "\<forall>r\<in>set rs. 0 \<le> lg_hour r \<and> lg_hour r \<le> 23"
  shows "\<exists>acc'. dp_replay lib int_str rs s acc = Inr acc' \<and> dp_acc_ok (k + int (length rs)) acc'"
  using assms(2-6)
proof (induction rs arbitrary: s acc k)
  case (Cons r rs)
  let ?e = "login_event int_str r"
  have e: "event_ok ?e" "ev_amount ?e = None" using Cons.prems(5) by (simp_all add: login_event_def row_to_event_ok)
  obtain s' vec where st: "replay_step (nl_pow lib) s ?e = Inr (s', vec)" "replay_ok s'" "length vec = FEATURES"
    "\<forall>f\<in>set vec. fin_in 0 1 f"
    using replay_step_unit [OF assms(1) Cons.prems(1) e] .
  let ?acc = "dp_add (ev_identity_id ?e) (lg_country r) vec acc"
  have "dp_acc_ok (k + 1) ?acc"
    by (rule dp_add_ok [OF Cons.prems(2) st(3,4) Cons.prems(3)]) (use Cons.prems(4) in simp)
  from Cons.IH [OF st(2) this] Cons.prems(3-5) obtain acc' where
    "dp_replay lib int_str rs s' ?acc = Inr acc'" "dp_acc_ok (k + 1 + int (length rs)) acc'"
    by auto
  then show ?case using st(1) clip_unit_same [OF assms(1) st(4)] by (simp add: ac_simps Let_def)
qed simp

lemma mean_unit: "fin_in 0 (of_int n) x \<Longrightarrow> 1 \<le> n \<Longrightarrow> n \<le> 2 ^ 53 \<Longrightarrow> fin_in 0 1 (fdiv x (float_of_int n))"
  using f64_small_int [of n]
  by (auto elim!: fin_inE intro!: fl_bounds simp: float_of_int_def fl_f64 divide_le_eq_1)

lemma dp_means_ok:
  assumes "dp_acc_ok k acc" "k < 2 ^ 53"
  shows "distinct (map fst (dp_means acc))"
    and "\<forall>(iid, m)\<in>set (dp_means acc). length m = FEATURES \<and> (\<forall>x\<in>set m. fin_in 0 1 x) \<and>
      map_of (da_cohort acc) iid \<noteq> None"
proof -
  show "distinct (map fst (dp_means acc))"
    using assms(1) by (simp add: dp_acc_ok_def dp_means_def comp_def split_def)
  show "\<forall>(iid, m)\<in>set (dp_means acc). length m = FEATURES \<and> (\<forall>x\<in>set m. fin_in 0 1 x) \<and>
      map_of (da_cohort acc) iid \<noteq> None"
  proof clarify
    fix iid m assume "(iid, m) \<in> set (dp_means acc)"
    then obtain t where t: "(iid, t) \<in> set (da_sums acc)"
      "m = map (\<lambda>x. fdiv x (float_of_int (dp_count acc iid))) t"
      by (auto simp: dp_means_def)
    then have "map_of (da_sums acc) iid = Some t" using assms(1) by (simp add: dp_acc_ok_def)
    with assms(1) have ok: "1 \<le> dp_count acc iid" "length t = FEATURES"
      "\<forall>x\<in>set t. fin_in 0 (of_int (dp_count acc iid)) x" "map_of (da_cohort acc) iid \<noteq> None" "dp_count acc iid \<le> k"
      by (auto simp: dp_acc_ok_def)
    with assms(2) t(2) show "length m = FEATURES \<and> (\<forall>x\<in>set m. fin_in 0 1 x) \<and> map_of (da_cohort acc) iid \<noteq> None"
      by (auto intro!: mean_unit)
  qed
qed

lemma dict_append_concat:
  "mset (concat (map snd (dict_append k v d))) = add_mset v (mset (concat (map snd d)))"
proof (induction d)
  case (Cons p d)
  then show ?case by (cases p) (auto simp: dict_append_def split: option.splits)
qed (simp add: dict_append_def)

lemma group_means_concat: "mset (concat (map snd (group_means means cohort))) = mset (map snd means)"
proof -
  have "mset (concat (map snd (foldl (\<lambda>d (iid, m).
      dict_append (case map_of cohort iid of None \<Rightarrow> [] | Some c \<Rightarrow> c) m d) d means))) =
      mset (concat (map snd d)) + mset (map snd means)" for d
    by (induction means arbitrary: d) (auto simp: dict_append_concat)
  from this [of "[]"] show ?thesis by (simp add: group_means_def)
qed

lemma unnoised_blocked:
  "noise_multiplier \<le> Fin 0 \<Longrightarrow>
   export_dp_aggregates lib math_sqrt R default_rng accountant int_str rows limit noise_multiplier seed = Inl DpMandatory"
  by (simp add: export_dp_aggregates_def compute_cohort_means_def)

text \<open>What is released: the cohorts of both results agree, and a published coordinate is in [0, 1] or NaN.\<close>

lemma released_range:
  assumes "num_laws lib" "release_cohorts lib R sigma g cs = (raw, noised)"
  shows "map fst raw = map fst noised \<and> set (map fst noised) \<subseteq> fst ` set cs \<and>
    (\<forall>(c, v)\<in>set noised. \<forall>x\<in>set v. x = NaN \<or> fin_in 0 1 x)"
  using assms(2)
proof (induction cs arbitrary: g raw noised)
  case (Cons p cs)
  obtain c vecs where p: "p = (c, vecs)" by fastforce
  let ?n = "float_of_int (int (length vecs))"
  obtain g1 lap where g1: "rg_laplace R g (Fin 0) (fdiv (Fin 1) COUNT_EPSILON) = (g1, lap)" by fastforce
  show ?case
  proof (cases "?n + lap < float_of_int (MIN_COHORT + COUNT_BUFFER)")
    case True
    with Cons.prems have "release_cohorts lib R sigma g1 cs = (raw, noised)" by (simp add: p g1 Let_def)
    from Cons.IH [OF this] show ?thesis by (auto simp: p)
  next
    case False
    obtain g2 z where g2: "rg_normal R g1 (Fin 0) sigma FEATURES = (g2, z)" by fastforce
    obtain raw' noised' where rest: "release_cohorts lib R sigma g2 cs = (raw', noised')" by fastforce
    obtain v w where out: "raw = (c, v) # raw'" "noised = (c, clip_unit lib w) # noised'"
      using Cons.prems False g2 rest by (simp add: p g1 Let_def) metis
    have "\<forall>x\<in>set (clip_unit lib w). x = NaN \<or> fin_in 0 1 x"
      using nl_clip_unit [OF assms(1)] by (auto simp: clip_unit_def simp del: fl_0 fl_1)
    with Cons.IH [OF rest] show ?thesis by (auto simp: p out)
  qed
qed simp

section \<open>Properties\<close>



end
