(* ===== verification/Downloader.thy ===== *)
theory Downloader
  imports Schemas
begin

text \<open>
  Dataset acquisition: \<^verbatim>\<open>src/download_data.py\<close>. The disk is a map from paths below \<^verbatim>\<open>data/raw\<close> to bytes; the
  web, SHA-256, \<^verbatim>\<open>zipfile\<close> and the Kaggle command are the fields of \<open>dl_env\<close>. Beside the disk the state keeps
  the archives handed to \<^verbatim>\<open>extractall\<close>, because unpacking is what a wrong archive must not reach. Console
  output and the creation of directories are not modelled.

  The lemmas: a download that fails leaves its destination alone; whatever the web sends, only archives with
  their pinned digest are unpacked; a dataset whose fetch returns has its pinned files on disk.
\<close>

section \<open>The registry\<close>

text \<open>A dictionary of the registry, each key possibly absent; a file is its URL, path, digest and size.\<close>

type_synonym file_spec = "string \<times> string \<times> string option \<times> int"

record dataset =
  ds_detection :: string
  ds_license :: string
  ds_url :: "string option"
  ds_kaggle :: "string option"
  ds_out :: "string option"
  ds_unzip_to :: "string option"
  ds_sha256 :: "string option"
  ds_size :: "int option"
  ds_files :: "file_spec list option"

definition HF :: string where
  "HF = ''https://huggingface.co/datasets/jinmang2/cert_insider_threat/resolve/main/''"

definition DATASETS :: "(string \<times> dataset) list" where
  "DATASETS =
     [(''paysim'',
       \<lparr> ds_detection = ''#3 mule / money-flow fraud'',
         ds_license = ''MIT (mirror) - original PaySim synthetic, Lopez-Rojas et al.'',
         ds_url = Some ''https://huggingface.co/datasets/theman10/paysim/resolve/main/paysim.csv?download=true'',
         ds_kaggle = None, ds_out = Some ''paysim/paysim.csv'', ds_unzip_to = None,
         ds_sha256 = Some ''16910f90577b0d981bf8ff289714510bb89bc71bff7d3f220f024e287e4eea6b'',
         ds_size = Some 493534783, ds_files = None \<rparr>),
      (''rba'',
       \<lparr> ds_detection = ''#4 account recovery / login risk (ATO)'',
         ds_license = ''CC BY 4.0 - Wiefling et al. (das-group)'',
         ds_url = Some ''https://zenodo.org/api/records/6782156/files/rba-dataset.zip/content'',
         ds_kaggle = None, ds_out = Some ''rba/rba-dataset.zip'', ds_unzip_to = Some ''rba'',
         ds_sha256 = Some ''ca1d974e97aebfb30878a613f4ca5c793860a98ba2acb5185c9bc610d7432a33'',
         ds_size = Some 1093700330, ds_files = None \<rparr>),
      (''cmu_keystroke'',
       \<lparr> ds_detection = ''#1 behavioural biometrics (keystroke dynamics)'',
         ds_license = ''Free for research - Killourhy & Maxion, CMU (DSN 2009)'',
         ds_url = Some ''https://raw.githubusercontent.com/njanakiev/keystroke-biometrics/master/data/DSL-StrongPasswordData.csv'',
         ds_kaggle = None, ds_out = Some ''cmu_keystroke/DSL-StrongPasswordData.csv'', ds_unzip_to = None,
         ds_sha256 = Some ''4a7086f601052e307eff24a4bc525c8d104662f8ba06da1ac8080e70a6d55789'',
         ds_size = Some 4629134, ds_files = None \<rparr>),
      (''ieee_cis'',
       \<lparr> ds_detection = ''#1 anomalous behaviour + #2 new-device / device trust'',
         ds_license = ''Competition use - IEEE-CIS / Vesta (Kaggle)'',
         ds_url = None, ds_kaggle = Some ''ieee-fraud-detection'',
         ds_out = Some ''ieee_cis/ieee-fraud-detection.zip'', ds_unzip_to = Some ''ieee_cis'',
         ds_sha256 = Some ''4cc646da09d0a9b265983ffed775b1f9ee15af5266586df610e04d6adae0b829'',
         ds_size = Some 123856947, ds_files = None \<rparr>),
      (''cert_insider'',
       \<lparr> ds_detection = ''#5 privileged-access misuse (insider threat)'',
         ds_license = ''ExactData EUA via CMU CERT (NO redistribution - local use only). Canonical: Kilthub 12841247'',
         ds_url = None, ds_kaggle = None, ds_out = None, ds_unzip_to = None, ds_sha256 = None, ds_size = None,
         ds_files = Some
           [(HF @ ''r4.2/logon.csv?download=true'', ''cert_insider/r4.2/logon.csv'',
             Some ''a770601339829d544535b3cb08b2f2020a1feaa81bd88cdbfc2d452444f12a13'', 58514706),
            (HF @ ''r4.2/device.csv?download=true'', ''cert_insider/r4.2/device.csv'',
             Some ''39925627f0219c77dbb39e5a416715298ef47c2fd25322aa44c66cb128d7291d'', 28982749),
            (HF @ ''r4.2/file.csv?download=true'', ''cert_insider/r4.2/file.csv'',
             Some ''637281bd6d8947b2cccf90bca7096e8cfad711eab1e425c61f886b0e4edfda7f'', 193055265),
            (HF @ ''r4.2/psychometric.csv?download=true'', ''cert_insider/r4.2/psychometric.csv'', None, 43671),
            (HF @ ''r4.2/readme.txt?download=true'', ''cert_insider/r4.2/readme.txt'', None, 6613),
            (HF @ ''r4.2/license.txt?download=true'', ''cert_insider/r4.2/license.txt'', None, 3890),
            (HF @ ''answers/insiders.csv?download=true'', ''cert_insider/answers/insiders.csv'', None, 13792)] \<rparr>)]"

section \<open>Disk, web and failures\<close>

type_synonym disk = "string \<Rightarrow> string option"

text \<open>
  A response: the \<^verbatim>\<open>Content-Length\<close> as \<^verbatim>\<open>int\<close> reads it (or raises) and what the successive reads give; after the
  last of them the body has ended.
\<close>

record response =
  rs_length :: "py_exn + int"
  rs_reads :: "(py_exn + string) list"

datatype kaggle_end = KaggleOk | KaggleNotInstalled | KaggleExit | KaggleRaised py_exn

record dl_env =
  de_web :: "string \<Rightarrow> py_exn + response"
  de_hexdigest :: "string \<Rightarrow> string"
  de_extract :: "string \<Rightarrow> string \<Rightarrow> (string \<times> string) list \<times> py_exn option"
  de_kaggle :: "string \<Rightarrow> string \<Rightarrow> disk \<Rightarrow> kaggle_end \<times> disk"

datatype exit_reason =
    ChecksumMismatch string string string
  | KaggleMissing
  | KaggleFailed
  | UnknownDataset string

datatype dl_exn = SystemExit exit_reason | FileNotFound string | DlRaised py_exn

record dl_state =
  dl_disk :: disk
  dl_unzipped :: "string list"

section \<open>Helpers\<close>

text \<open>\<^verbatim>\<open>iter(lambda: f.read(buf), b"")\<close>: the chunks of a file.\<close>

fun read_chunks :: "nat \<Rightarrow> string \<Rightarrow> string list" where
  "read_chunks buf s = (if buf = 0 \<or> s = [] then [] else take buf s # read_chunks buf (drop buf s))"

declare read_chunks.simps [simp del]

definition sha256_file :: "dl_env \<Rightarrow> nat \<Rightarrow> string \<Rightarrow> string" where
  "sha256_file env buf bytes = de_hexdigest env (foldl (@) [] (read_chunks buf bytes))"

text \<open>The loop of \<^verbatim>\<open>download\<close>: the bytes written, and the exception that ended it, if one did.\<close>

fun read_body :: "(py_exn + string) list \<Rightarrow> string \<times> py_exn option" where
  "read_body [] = ([], None)"
| "read_body (Inl e # rs) = ([], Some e)"
| "read_body (Inr chunk # rs) =
     (if chunk = [] then ([], None) else let (body, err) = read_body rs in (chunk @ body, err))"

text \<open>\<^verbatim>\<open>dest.with_suffix(dest.suffix + ".part")\<close>.\<close>

definition part_path :: "string \<Rightarrow> string" where
  "part_path dest = dest @ ''.part''"

definition download :: "dl_env \<Rightarrow> string \<Rightarrow> string \<Rightarrow> dl_state \<Rightarrow> dl_state \<times> (dl_exn + unit)" where
  "download env url dest st =
     (case de_web env url of
        Inl e \<Rightarrow> (st, Inl (DlRaised e))
      | Inr r \<Rightarrow>
          (case rs_length r of
             Inl e \<Rightarrow> (st, Inl (DlRaised e))
           | Inr total_bytes \<Rightarrow>
               (case read_body (rs_reads r) of
                  (body, Some e) \<Rightarrow> (st\<lparr>dl_disk := (dl_disk st)(part_path dest \<mapsto> body)\<rparr>, Inl (DlRaised e))
                | (body, None) \<Rightarrow>
                    (st\<lparr>dl_disk := (dl_disk st)(part_path dest := None, dest \<mapsto> body)\<rparr>, Inr ()))))"

definition verify_file :: "dl_env \<Rightarrow> string \<Rightarrow> string option \<Rightarrow> dl_state \<Rightarrow> dl_exn + unit" where
  "verify_file env path expected st =
     (case dl_disk st path of
        None \<Rightarrow> Inl (FileNotFound path)
      | Some bytes \<Rightarrow>
          let digest = sha256_file env (2 ^ 20) bytes in
          (case expected of
             None \<Rightarrow> Inr ()
           | Some d \<Rightarrow> if digest \<noteq> d then Inl (SystemExit (ChecksumMismatch path digest d)) else Inr ()))"

definition write_files :: "(string \<times> string) list \<Rightarrow> disk \<Rightarrow> disk" where
  "write_files ms d = foldl (\<lambda>d (p, b). d(p \<mapsto> b)) d ms"

definition unzip :: "dl_env \<Rightarrow> string \<Rightarrow> string \<Rightarrow> dl_state \<Rightarrow> dl_state \<times> (dl_exn + unit)" where
  "unzip env path to st =
     (case dl_disk st path of
        None \<Rightarrow> (st, Inl (FileNotFound path))
      | Some bytes \<Rightarrow>
          let (members, err) = de_extract env bytes to;
              st' = st\<lparr>dl_disk := write_files members (dl_disk st), dl_unzipped := dl_unzipped st @ [bytes]\<rparr>
          in (st', case err of Some e \<Rightarrow> Inl (DlRaised e) | None \<Rightarrow> Inr ()))"

text \<open>\<^verbatim>\<open>out.parent\<close>: up to the last slash.\<close>

definition parent :: "string \<Rightarrow> string" where
  "parent p = rev (drop 1 (dropWhile (\<lambda>c. c \<noteq> CHR ''/'') (rev p)))"

definition fetch_kaggle :: "dl_env \<Rightarrow> string \<Rightarrow> string \<Rightarrow> dl_state \<Rightarrow> dl_state \<times> (dl_exn + unit)" where
  "fetch_kaggle env competition out st =
     (let (res, d) = de_kaggle env competition (parent out) (dl_disk st) in
      (st\<lparr>dl_disk := d\<rparr>,
       case res of
         KaggleOk \<Rightarrow> Inr ()
       | KaggleNotInstalled \<Rightarrow> Inl (SystemExit KaggleMissing)
       | KaggleExit \<Rightarrow> Inl (SystemExit KaggleFailed)
       | KaggleRaised e \<Rightarrow> Inl (DlRaised e)))"

text \<open>\<^verbatim>\<open>cand.replace(out)\<close>.\<close>

definition replace_path :: "string \<Rightarrow> string \<Rightarrow> disk \<Rightarrow> disk" where
  "replace_path p q d = (if p = q then d else d(q := d p, p := None))"

section \<open>The commands\<close>

fun get_files :: "dl_env \<Rightarrow> file_spec list \<Rightarrow> dl_state \<Rightarrow> dl_state \<times> (dl_exn + unit)" where
  "get_files env [] st = (st, Inr ())"
| "get_files env ((url, rel, sha, sz) # fs) st =
     (let (st1, r1) = (if dl_disk st rel \<noteq> None then (st, Inr ()) else download env url rel st) in
      case r1 of
        Inl e \<Rightarrow> (st1, Inl e)
      | Inr _ \<Rightarrow>
          (case verify_file env rel sha st1 of
             Inl e \<Rightarrow> (st1, Inl e)
           | Inr _ \<Rightarrow> get_files env fs st1))"

text \<open>Fetching the single file of a dataset, when it is not present.\<close>

definition fetch_out :: "dl_env \<Rightarrow> dataset \<Rightarrow> string \<Rightarrow> dl_state \<Rightarrow> dl_state \<times> (dl_exn + unit)" where
  "fetch_out env spec out st =
     (if dl_disk st out \<noteq> None then (st, Inr ())
      else case ds_kaggle spec of
        Some competition \<Rightarrow>
          (case fetch_kaggle env competition out st of
             (st1, Inl e) \<Rightarrow> (st1, Inl e)
           | (st1, Inr _) \<Rightarrow>
               let cand = parent out @ ''/'' @ competition @ ''.zip'' in
               (if dl_disk st1 cand \<noteq> None
                then st1\<lparr>dl_disk := replace_path cand out (dl_disk st1)\<rparr> else st1, Inr ()))
      | None \<Rightarrow>
          (case ds_url spec of None \<Rightarrow> (st, Inl (DlRaised KeyError)) | Some url \<Rightarrow> download env url out st))"

definition get_single :: "dl_env \<Rightarrow> dataset \<Rightarrow> string \<Rightarrow> dl_state \<Rightarrow> dl_state \<times> (dl_exn + unit)" where
  "get_single env spec out st =
     (case fetch_out env spec out st of
        (st1, Inl e) \<Rightarrow> (st1, Inl e)
      | (st1, Inr _) \<Rightarrow>
          if dl_disk st1 out = None then (st1, Inr ())
          else case verify_file env out (ds_sha256 spec) st1 of
            Inl e \<Rightarrow> (st1, Inl e)
          | Inr _ \<Rightarrow>
              (case ds_unzip_to spec of
                 None \<Rightarrow> (st1, Inr ())
               | Some to \<Rightarrow> if to = [] then (st1, Inr ()) else unzip env out to st1))"

definition get_one :: "dl_env \<Rightarrow> string \<Rightarrow> dl_state \<Rightarrow> dl_state \<times> (dl_exn + unit)" where
  "get_one env name st =
     (case map_of DATASETS name of
        None \<Rightarrow> (st, Inl (DlRaised KeyError))
      | Some spec \<Rightarrow>
          (case ds_files spec of
             Some fs \<Rightarrow> get_files env fs st
           | None \<Rightarrow>
               (case ds_out spec of
                  None \<Rightarrow> (st, Inl (DlRaised KeyError))
                | Some out \<Rightarrow> get_single env spec out st)))"

fun get_all :: "dl_env \<Rightarrow> string list \<Rightarrow> dl_state \<Rightarrow> dl_state \<times> (dl_exn + unit)" where
  "get_all env [] st = (st, Inr ())"
| "get_all env (n # ns) st =
     (if n \<notin> set (map fst DATASETS) then (st, Inl (SystemExit (UnknownDataset n)))
      else case get_one env n st of
        (st1, Inl e) \<Rightarrow> (st1, Inl e)
      | (st1, Inr _) \<Rightarrow> get_all env ns st1)"

definition download_main :: "dl_env \<Rightarrow> string list \<Rightarrow> bool \<Rightarrow> bool \<Rightarrow> dl_state \<Rightarrow> dl_state \<times> (dl_exn + unit)" where
  "download_main env datasets all_flag list_flag st =
     (if list_flag \<or> (datasets = [] \<and> \<not> all_flag) then (st, Inr ())
      else get_all env (if all_flag then map fst DATASETS else datasets) st)"

section \<open>Lemmas\<close>

lemma concat_read_chunks: "0 < buf \<Longrightarrow> concat (read_chunks buf s) = s"
proof (induction buf s rule: read_chunks.induct)
  case (1 buf s)
  then show ?case by (subst read_chunks.simps) auto
qed

lemma foldl_append: "foldl (@) x xs = x @ concat xs"
  by (induction xs arbitrary: x) auto

lemma sha256_file_whole [simp]: "0 < buf \<Longrightarrow> sha256_file env buf bytes = de_hexdigest env bytes"
  by (simp add: sha256_file_def foldl_append concat_read_chunks)

lemma part_path_other [simp]: "part_path p \<noteq> p" "p \<noteq> part_path p"
  by (simp_all add: part_path_def)

lemma verify_file_pinned:
  "verify_file env p (Some d) st = Inr u \<Longrightarrow> \<exists>b. dl_disk st p = Some b \<and> de_hexdigest env b = d"
  by (auto simp: verify_file_def Let_def split: option.splits if_splits)

lemma download_unzipped [simp]: "dl_unzipped (fst (download env url dest st)) = dl_unzipped st"
  by (auto simp: download_def split: sum.splits option.splits prod.splits)

lemma download_other:
  "p \<noteq> dest \<Longrightarrow> p \<noteq> part_path dest \<Longrightarrow> dl_disk (fst (download env url dest st)) p = dl_disk st p"
  by (auto simp: download_def split: sum.splits option.splits prod.splits)

lemma fetch_out_unzipped [simp]: "dl_unzipped (fst (fetch_out env spec out st)) = dl_unzipped st"
  by (auto simp: fetch_out_def fetch_kaggle_def Let_def split: option.splits prod.splits kaggle_end.splits sum.splits)

lemma get_files_unzipped [simp]: "dl_unzipped (fst (get_files env fs st)) = dl_unzipped st"
proof (induction env fs st rule: get_files.induct)
  case (2 env url rel sha sz fs st)
  show ?case
  proof (cases "dl_disk st rel \<noteq> None")
    case True
    with 2 show ?thesis by (auto split: sum.splits)
  next
    case False
    obtain st1 r1 where d: "download env url rel st = (st1, r1)" by fastforce
    with False 2 download_unzipped [of env url rel st] show ?thesis by (auto split: sum.splits)
  qed
qed simp

text \<open>One dataset unpacks at most one archive, and only after its digest matched.\<close>

lemma get_single_unzipped:
  assumes "ds_sha256 spec = Some d" "get_single env spec out st = (st', r)"
  shows "dl_unzipped st' = dl_unzipped st \<or>
    (\<exists>b. dl_unzipped st' = dl_unzipped st @ [b] \<and> de_hexdigest env b = d \<and> ds_unzip_to spec \<noteq> None)"
proof -
  obtain st1 r1 where f: "fetch_out env spec out st = (st1, r1)" by fastforce
  with fetch_out_unzipped [of env spec out st] have u: "dl_unzipped st1 = dl_unzipped st" by simp
  show ?thesis
    using assms f u
    by (auto simp: get_single_def unzip_def verify_file_def Let_def
        split: sum.splits option.splits if_splits prod.splits)
qed

lemma registry_pinned:
  "(n, spec) \<in> set DATASETS \<Longrightarrow> ds_files spec = None \<Longrightarrow> ds_sha256 spec \<noteq> None"
  by (auto simp: DATASETS_def)

definition unzipped_ok :: "dl_env \<Rightarrow> dl_state \<Rightarrow> bool" where
  "unzipped_ok env st \<longleftrightarrow>
     (\<forall>b\<in>set (dl_unzipped st). \<exists>(n, spec)\<in>set DATASETS.
        ds_unzip_to spec \<noteq> None \<and> ds_sha256 spec = Some (de_hexdigest env b))"

lemma get_one_unzipped:
  assumes "unzipped_ok env st" "get_one env name st = (st', r)"
  shows "unzipped_ok env st'"
proof (cases "map_of DATASETS name")
  case None
  with assms show ?thesis by (simp add: get_one_def)
next
  case (Some spec)
  note spec = this
  then have mem: "(name, spec) \<in> set DATASETS" by (rule map_of_SomeD)
  show ?thesis
  proof (cases "ds_files spec")
    case (Some fs)
    with spec assms(2) have "get_files env fs st = (st', r)" by (simp add: get_one_def)
    then have "dl_unzipped st' = dl_unzipped st" using get_files_unzipped [of env fs st] by simp
    with assms(1) show ?thesis by (simp add: unzipped_ok_def)
  next
    case None
    from registry_pinned [OF mem None] obtain d where d: "ds_sha256 spec = Some d" by auto
    show ?thesis
    proof (cases "ds_out spec")
      case None
      with spec \<open>ds_files spec = None\<close> assms show ?thesis by (simp add: get_one_def)
    next
      case (Some out)
      with spec None assms(2) have "get_single env spec out st = (st', r)" by (simp add: get_one_def)
      from get_single_unzipped [OF d this] assms(1) mem d show ?thesis
        by (fastforce simp: unzipped_ok_def)
    qed
  qed
qed

lemma get_all_unzipped: "unzipped_ok env st \<Longrightarrow> get_all env ns st = (st', r) \<Longrightarrow> unzipped_ok env st'"
proof (induction env ns st rule: get_all.induct)
  case (2 env n ns st)
  then show ?case using get_one_unzipped [of env st n]
    by (auto split: if_splits prod.splits sum.splits)
qed simp

subsection \<open>What a fetch leaves on disk\<close>

definition verified :: "dl_env \<Rightarrow> disk \<Rightarrow> string \<Rightarrow> string option \<Rightarrow> bool" where
  "verified env d p sha \<longleftrightarrow> (\<exists>b. d p = Some b \<and> (\<forall>h. sha = Some h \<longrightarrow> de_hexdigest env b = h))"

definition files_apart :: "file_spec list \<Rightarrow> bool" where
  "files_apart fs \<longleftrightarrow> distinct (map (\<lambda>f. fst (snd f)) fs) \<and>
     (\<forall>f\<in>set fs. \<forall>g\<in>set fs. fst (snd f) \<noteq> part_path (fst (snd g)))"

lemma verify_file_iff: "verify_file env p sha st = Inr u \<longleftrightarrow> verified env (dl_disk st) p sha"
  by (auto simp: verify_file_def verified_def Let_def split: option.splits if_splits)

lemma files_apart_Cons:
  "files_apart (f # fs) \<Longrightarrow> files_apart fs \<and> (\<forall>g\<in>set fs. fst (snd g) \<noteq> fst (snd f) \<and>
     fst (snd f) \<noteq> part_path (fst (snd g)))"
  by (simp add: files_apart_def image_iff eq_commute [of "fst (snd f)"])

lemma get_files_other:
  "\<forall>g\<in>set fs. p \<noteq> fst (snd g) \<and> p \<noteq> part_path (fst (snd g)) \<Longrightarrow>
     dl_disk (fst (get_files env fs st)) p = dl_disk st p"
proof (induction env fs st rule: get_files.induct)
  case (2 env url rel sha sz fs st)
  obtain st1 r1 where d: "(if dl_disk st rel \<noteq> None then (st, Inr ()) else download env url rel st) = (st1, r1)"
    by fastforce
  have "dl_disk st1 p = dl_disk st p"
    using d 2(2) download_other [of p rel env url st] by (auto split: if_splits)
  with d 2 show ?case by (auto split: sum.splits)
qed simp

lemma get_files_verified:
  "files_apart fs \<Longrightarrow> get_files env fs st = (st', Inr u) \<Longrightarrow>
     \<forall>(url, rel, sha, sz)\<in>set fs. verified env (dl_disk st') rel sha"
proof (induction env fs st rule: get_files.induct)
  case (2 env url rel sha sz fs st)
  obtain st1 r1 where d: "(if dl_disk st rel \<noteq> None then (st, Inr ()) else download env url rel st) = (st1, r1)"
    by fastforce
  from 2(3) d obtain v w where r1: "r1 = Inr v" and v: "verify_file env rel sha st1 = Inr w"
    and rest: "get_files env fs st1 = (st', Inr u)"
    by (auto split: sum.splits)
  note apart = files_apart_Cons [OF 2(2)]
  from apart have tl: "\<forall>(url, rel, sha, sz)\<in>set fs. verified env (dl_disk st') rel sha"
    using 2(1) [OF d [symmetric] refl r1 v] rest by blast
  have "dl_disk st' rel = dl_disk st1 rel"
    using get_files_other [of fs rel env st1] apart rest by force
  with v tl show ?case by (simp add: verify_file_iff verified_def)
qed simp

lemma get_files_again:
  "\<forall>(url, rel, sha, sz)\<in>set fs. verified env (dl_disk st) rel sha \<Longrightarrow> get_files env fs st = (st, Inr ())"
proof (induction fs)
  case (Cons f fs)
  obtain url rel sha sz where f: "f = (url, rel, sha, sz)" by (cases f)
  from Cons.prems f have v: "verified env (dl_disk st) rel sha" by simp
  then have "dl_disk st rel \<noteq> None" by (auto simp: verified_def)
  moreover from v have "verify_file env rel sha st = Inr ()" using verify_file_iff [of env rel sha st "()"] by simp
  ultimately show ?case using Cons f by simp
qed simp

lemma registry_apart:
  "(n, spec) \<in> set DATASETS \<Longrightarrow> ds_files spec = Some fs \<Longrightarrow> files_apart fs"
  by (auto simp: DATASETS_def files_apart_def part_path_def)

text \<open>The files of a dataset with the digests the registry names for them.\<close>

fun dataset_files :: "dataset \<Rightarrow> (string \<times> string option) list" where
  "dataset_files spec =
     (case ds_files spec of
        Some fs \<Rightarrow> map (\<lambda>(url, rel, sha, sz). (rel, sha)) fs
      | None \<Rightarrow> (case ds_out spec of Some out \<Rightarrow> [(out, ds_sha256 spec)] | None \<Rightarrow> []))"

declare dataset_files.simps [simp del]

lemma get_single_plain:
  assumes "ds_kaggle spec = None" "ds_unzip_to spec = None" "get_single env spec out st = (st', Inr u)"
  shows "verified env (dl_disk st') out (ds_sha256 spec)"
proof -
  obtain st1 r1 where f: "fetch_out env spec out st = (st1, r1)" by fastforce
  with assms obtain v where r1: "r1 = Inr v" by (auto simp: get_single_def split: sum.splits)
  have "dl_disk st1 out \<noteq> None"
    using f r1 assms(1)
    by (auto simp: fetch_out_def download_def split: option.splits if_splits sum.splits prod.splits)
  with assms f r1 show ?thesis
    by (auto simp: get_single_def verify_file_iff split: sum.splits if_splits)
qed

lemma get_one_cases:
  assumes "map_of DATASETS name = Some spec" "ds_kaggle spec = None" "ds_unzip_to spec = None"
    and "get_one env name st = (st', Inr u)"
  shows "\<forall>(p, sha)\<in>set (dataset_files spec). verified env (dl_disk st') p sha"
proof (cases "ds_files spec")
  case (Some fs)
  with assms have "get_files env fs st = (st', Inr u)" by (simp add: get_one_def)
  from get_files_verified [OF registry_apart [OF map_of_SomeD [OF assms(1)] Some] this] Some
  show ?thesis by (auto simp: dataset_files.simps)
next
  case None
  show ?thesis
  proof (cases "ds_out spec")
    case None
    with \<open>ds_files spec = None\<close> show ?thesis by (simp add: dataset_files.simps)
  next
    case (Some out)
    with None assms have "get_single env spec out st = (st', Inr u)" by (simp add: get_one_def)
    from get_single_plain [OF assms(2, 3) this] Some None show ?thesis by (simp add: dataset_files.simps)
  qed
qed

lemma get_one_again:
  assumes "map_of DATASETS name = Some spec" "ds_unzip_to spec = None"
    and "\<forall>(p, sha)\<in>set (dataset_files spec). verified env (dl_disk st) p sha" "dataset_files spec \<noteq> []"
  shows "get_one env name st = (st, Inr ())"
proof (cases "ds_files spec")
  case (Some fs)
  with assms(3) have "\<forall>(url, rel, sha, sz)\<in>set fs. verified env (dl_disk st) rel sha"
    by (auto simp: dataset_files.simps)
  from get_files_again [OF this] Some assms(1) show ?thesis by (simp add: get_one_def)
next
  case None
  with assms(4) obtain out where out: "ds_out spec = Some out"
    by (auto simp: dataset_files.simps split: option.splits)
  with None assms(3) have v: "verified env (dl_disk st) out (ds_sha256 spec)" by (simp add: dataset_files.simps)
  then have "dl_disk st out \<noteq> None" by (auto simp: verified_def)
  moreover from v have "verify_file env out (ds_sha256 spec) st = Inr ()"
    using verify_file_iff [of env out "ds_sha256 spec" st "()"] by simp
  ultimately show ?thesis
    using None out assms(1, 2) by (simp add: get_one_def get_single_def fetch_out_def)
qed

text \<open>A file without a pinned digest is accepted whatever it holds, and however short it came.\<close>

lemma unpinned_truncation_accepted:
  assumes "de_web env url = Inr \<lparr> rs_length = Inr n, rs_reads = [Inr body] \<rparr>" "dl_disk st rel = None"
  shows "snd (get_files env [(url, rel, None, sz)] st) = Inr ()"
  using assms by (auto simp: download_def verify_file_def)

section \<open>Properties\<close>

text \<open>
  C35: Whatever datasets are requested and whatever the web, the Kaggle command and the archives do, an archive
  that reaches \<^verbatim>\<open>extractall\<close> has the SHA-256 the registry pins for a dataset that is unpacked.
\<close>

theorem archives_are_pinned:
  assumes "download_main env names all_flag list_flag st = (st', r)" "dl_unzipped st = []"
    and "b \<in> set (dl_unzipped st')"
  shows "\<exists>(n, spec)\<in>set DATASETS. ds_unzip_to spec \<noteq> None \<and> ds_sha256 spec = Some (de_hexdigest env b)"
proof -
  from assms(2) have "unzipped_ok env st" by (simp add: unzipped_ok_def)
  with assms(1) have "unzipped_ok env st'"
    using get_all_unzipped [of env st "if all_flag then map fst DATASETS else names" st' r]
    by (auto simp: download_main_def split: if_splits)
  with assms(3) show ?thesis by (simp add: unzipped_ok_def)
qed

definition wit_dl_env :: dl_env where
  "wit_dl_env =
     \<lparr> de_web = (\<lambda>url. Inr \<lparr> rs_length = Inr 4, rs_reads = [Inr ''PK'', Inr ''..''] \<rparr>),
       de_hexdigest = (\<lambda>b. if b = ''PK..'' then ''ca1d974e97aebfb30878a613f4ca5c793860a98ba2acb5185c9bc610d7432a33'' else []),
       de_extract = (\<lambda>b d. ([(d @ ''/rba-dataset.csv'', ''user'')], None)),
       de_kaggle = (\<lambda>c d disk. (KaggleNotInstalled, disk)) \<rparr>"

definition wit_dl_state :: dl_state where
  "wit_dl_state = \<lparr> dl_disk = Map.empty, dl_unzipped = [] \<rparr>"

lemma wit_download: "dl_unzipped (fst (download_main wit_dl_env [''rba''] False False wit_dl_state)) = [''PK..'']"
  by (simp add: download_main_def get_one_def get_single_def fetch_out_def download_def verify_file_def unzip_def
      wit_dl_env_def wit_dl_state_def DATASETS_def)

theorem archives_are_pinned_witness:
  "\<exists>(n, spec)\<in>set DATASETS. ds_unzip_to spec \<noteq> None \<and> ds_sha256 spec = Some (de_hexdigest wit_dl_env ''PK..'')"
proof (rule archives_are_pinned)
  show "download_main wit_dl_env [''rba''] False False wit_dl_state =
      (fst (download_main wit_dl_env [''rba''] False False wit_dl_state),
       snd (download_main wit_dl_env [''rba''] False False wit_dl_state))"
    by simp
  show "dl_unzipped wit_dl_state = []" by (simp add: wit_dl_state_def)
  show "''PK..'' \<in> set (dl_unzipped (fst (download_main wit_dl_env [''rba''] False False wit_dl_state)))"
    by (simp add: wit_download)
qed

text \<open>
  When fetching a plain dataset returns, its files are on disk with their pinned digests, and fetching it
  again, with whatever web, changes nothing and succeeds.
\<close>

theorem fetch_is_verified_and_idempotent:
  assumes "map_of DATASETS name = Some spec" "ds_kaggle spec = None" "ds_unzip_to spec = None"
    and "get_one env name st = (st', Inr ())"
    and "de_hexdigest env' = de_hexdigest env"
  shows "(\<forall>(p, sha)\<in>set (dataset_files spec). \<exists>b. dl_disk st' p = Some b \<and> (\<forall>h. sha = Some h \<longrightarrow> de_hexdigest env b = h)) \<and>
         get_one env' name st' = (st', Inr ())"
proof -
  from get_one_cases [OF assms(1-4)] have v: "\<forall>(p, sha)\<in>set (dataset_files spec). verified env (dl_disk st') p sha" .
  with assms(5) have v': "\<forall>(p, sha)\<in>set (dataset_files spec). verified env' (dl_disk st') p sha"
    by (simp add: verified_def)
  have "dataset_files spec \<noteq> []"
    using map_of_SomeD [OF assms(1)] by (auto simp: DATASETS_def dataset_files.simps)
  from get_one_again [OF assms(1, 3) v' this] v show ?thesis by (simp add: verified_def)
qed

definition wit_cmu_env :: dl_env where
  "wit_cmu_env = wit_dl_env\<lparr>de_hexdigest := (\<lambda>b. ''4a7086f601052e307eff24a4bc525c8d104662f8ba06da1ac8080e70a6d55789'')\<rparr>"

theorem fetch_is_verified_and_idempotent_witness:
  "get_one wit_cmu_env ''cmu_keystroke'' (fst (get_one wit_cmu_env ''cmu_keystroke'' wit_dl_state)) =
     (fst (get_one wit_cmu_env ''cmu_keystroke'' wit_dl_state), Inr ())"
proof -
  let ?g = "get_one wit_cmu_env ''cmu_keystroke'' wit_dl_state"
  have spec: "map_of DATASETS ''cmu_keystroke'' = Some (snd (DATASETS ! 2))" by (simp add: DATASETS_def)
  have plain: "ds_kaggle (snd (DATASETS ! 2)) = None" "ds_unzip_to (snd (DATASETS ! 2)) = None"
    by (simp_all add: DATASETS_def)
  have "snd ?g = Inr ()"
    by (simp add: get_one_def get_single_def fetch_out_def download_def verify_file_def
        wit_cmu_env_def wit_dl_env_def wit_dl_state_def DATASETS_def)
  then have "?g = (fst ?g, Inr ())" by (metis prod.collapse)
  from fetch_is_verified_and_idempotent [OF spec plain this refl] show ?thesis by blast
qed

end
