(* ===== verification/Training.thy ===== *)
theory Training
  imports Export
begin

text \<open>
  The training tables of the offline detectors: the PaySim features and the CERT user-day features of
  \<^verbatim>\<open>src/train.py\<close>, its RBA table, and the streaming RBA table of \<^verbatim>\<open>src/train_rba_full.py\<close>. A data frame is the
  list of its rows; numpy's and pandas' numerical routines (\<^verbatim>\<open>log1p\<close>, the cast to \<^verbatim>\<open>float32\<close>, \<^verbatim>\<open>isclose\<close>, medians,
  quantiles, sampling) are the fields of \<open>np_lib\<close>. Fitting and scoring follow in \<^theory_text>\<open>Fitting\<close>.

  The lemmas are about what a feature may look at: PaySim features and the streamed RBA training table depend on
  the past only, and streaming in chunks changes nothing; the imputation of the sampled RBA table and the CERT
  deviations do look ahead.
\<close>

record np_lib =
  np_log1p :: "pyfloat \<Rightarrow> pyfloat"
  np_f32 :: "pyfloat \<Rightarrow> pyfloat"
  np_isclose :: "pyfloat \<Rightarrow> pyfloat \<Rightarrow> bool"
  pd_median :: "pyfloat list \<Rightarrow> pyfloat"
  pd_quantile :: "int list \<Rightarrow> int option"
  pd_sample :: "nat \<Rightarrow> nat \<Rightarrow> nat list"

text \<open>\<^verbatim>\<open>Series.clip\<close> keeps NaN.\<close>

definition clip_low :: "pyfloat \<Rightarrow> pyfloat \<Rightarrow> pyfloat" where
  "clip_low lo x = (if x = NaN then NaN else if x < lo then lo else x)"

definition clip_high :: "pyfloat \<Rightarrow> pyfloat \<Rightarrow> pyfloat" where
  "clip_high hi x = (if x = NaN then NaN else if hi < x then hi else x)"

section \<open>PaySim\<close>

record paysim_row =
  pr_step :: int
  pr_type :: string
  pr_amount :: pyfloat
  pr_orig :: string
  pr_old_org :: pyfloat
  pr_new_orig :: pyfloat
  pr_dest :: string
  pr_old_dest :: pyfloat
  pr_new_dest :: pyfloat
  pr_fraud :: int
  pr_flagged :: int

record paysim_feature =
  pf_step :: int
  pf_fraud :: int
  pf_flagged :: int
  pf_hour :: int
  pf_log_amount :: pyfloat
  pf_amount :: pyfloat
  pf_type :: string
  pf_orig_txn_idx :: int
  pf_dest_in_deg :: int
  pf_dest_is_merchant :: bool
  pf_balances :: "pyfloat list"
  pf_err_orig :: pyfloat
  pf_err_dest :: pyfloat
  pf_orig_emptied :: bool
  pf_dest_zero_before :: bool
  pf_amt_ratio :: pyfloat
  pf_frac_orig_moved :: pyfloat
  pf_amount_eq_oldorig :: bool

text \<open>The features of one row, given the earlier names of its columns (\<^verbatim>\<open>cumcount\<close>).\<close>

definition paysim_feature_of :: "np_lib \<Rightarrow> string list \<Rightarrow> string list \<Rightarrow> paysim_row \<Rightarrow> paysim_feature" where
  "paysim_feature_of np origs dests r =
     (let ratio = fdiv (pr_amount r) (pr_old_org r + fl 1) in
      \<lparr> pf_step = pr_step r, pf_fraud = pr_fraud r, pf_flagged = pr_flagged r,
        pf_hour = pr_step r mod 24,
        pf_log_amount = np_f32 np (np_log1p np (pr_amount r)),
        pf_amount = pr_amount r, pf_type = pr_type r,
        pf_orig_txn_idx = int (length (filter ((=) (pr_orig r)) origs)),
        pf_dest_in_deg = int (length (filter ((=) (pr_dest r)) dests)),
        pf_dest_is_merchant = (take 1 (pr_dest r) = ''M''),
        pf_balances = map (np_f32 np) [pr_old_org r, pr_new_orig r, pr_old_dest r, pr_new_dest r],
        pf_err_orig = np_f32 np (pr_old_org r - pr_amount r - pr_new_orig r),
        pf_err_dest = np_f32 np (pr_old_dest r + pr_amount r - pr_new_dest r),
        pf_orig_emptied = (pr_new_orig r = Fin 0 \<and> Fin 0 < pr_old_org r),
        pf_dest_zero_before = (pr_old_dest r = Fin 0),
        pf_amt_ratio = np_f32 np ratio,
        pf_frac_orig_moved = np_f32 np (clip_high (fl 5) (clip_low (fl 0) ratio)),
        pf_amount_eq_oldorig = np_isclose np (pr_amount r) (pr_old_org r) \<rparr>)"

fun paysim_from :: "np_lib \<Rightarrow> string list \<Rightarrow> string list \<Rightarrow> paysim_row list \<Rightarrow> paysim_feature list" where
  "paysim_from np origs dests [] = []"
| "paysim_from np origs dests (r # rs) =
     paysim_feature_of np origs dests r # paysim_from np (pr_orig r # origs) (pr_dest r # dests) rs"

definition paysim_features :: "np_lib \<Rightarrow> paysim_row list \<Rightarrow> paysim_feature list" where
  "paysim_features np rows = paysim_from np [] [] rows"

text \<open>The temporal split of \<^verbatim>\<open>paysim_fit\<close>: (train, test).\<close>

definition paysim_split :: "paysim_feature list \<Rightarrow> paysim_feature list \<times> paysim_feature list" where
  "paysim_split df = (filter (\<lambda>f. pf_step f \<le> 600) df, filter (\<lambda>f. 600 < pf_step f) df)"

section \<open>RBA, streamed from the full log\<close>

record rba_row =
  rl_ts :: "int option"
  rl_hour :: int
  rl_rtt :: pyfloat
  rl_country :: "string option"
  rl_asn :: "string option"
  rl_browser :: string
  rl_os :: string
  rl_device :: "string option"
  rl_success :: string
  rl_attack_ip :: string
  rl_takeover :: string

record rba_prep =
  rp_ts :: int
  rp_y :: int
  rp_attack_ip :: int
  rp_hour :: int
  rp_rtt :: pyfloat
  rp_device :: string
  rp_browser :: "string option"
  rp_os :: "string option"
  rp_country :: "string option"
  rp_asn :: "string option"

definition of_bool_int :: "bool \<Rightarrow> int" where
  "of_bool_int b = (if b then 1 else 0)"

text \<open>\<^verbatim>\<open>.str.split().str[0]\<close>.\<close>

definition first_word :: "string \<Rightarrow> string option" where
  "first_word s = (case split_ws [] s of [] \<Rightarrow> None | w # _ \<Rightarrow> Some w)"

definition pass_a_cut :: "np_lib \<Rightarrow> rba_row list list \<Rightarrow> int option" where
  "pass_a_cut np chunks =
     pd_quantile np (List.map_filter rl_ts
       (concat (map (filter (\<lambda>r. is_true (rl_success r) \<and> is_true (rl_takeover r))) chunks)))"

text \<open>\<^verbatim>\<open>astype(str)\<close> of a missing value is \<^verbatim>\<open>nan\<close>.\<close>

definition col_str :: "string option \<Rightarrow> string" where
  "col_str x = (case x of None \<Rightarrow> ''nan'' | Some s \<Rightarrow> s)"

definition prep_row :: "np_lib \<Rightarrow> rba_row \<Rightarrow> int \<Rightarrow> rba_prep" where
  "prep_row np r t =
     \<lparr> rp_ts = t, rp_y = of_bool_int (is_true (rl_takeover r)),
       rp_attack_ip = of_bool_int (is_true (rl_attack_ip r)), rp_hour = rl_hour r,
       rp_rtt = np_f32 np (np_log1p np (rl_rtt r)),
       rp_device = (case rl_device r of None \<Rightarrow> ''unknown'' | Some d \<Rightarrow> d),
       rp_browser = first_word (rl_browser r), rp_os = first_word (rl_os r),
       rp_country = Some (col_str (rl_country r)), rp_asn = Some (col_str (rl_asn r)) \<rparr>"

definition prep_chunk :: "np_lib \<Rightarrow> rba_row list \<Rightarrow> rba_prep list" where
  "prep_chunk np ch =
     List.map_filter (\<lambda>r. map_option (prep_row np r) (rl_ts r)) (filter (\<lambda>r. is_true (rl_success r)) ch)"

text \<open>The loop of \<^verbatim>\<open>pass_b_collect\<close>: (training parts, test parts). Nothing is after a missing cutoff.\<close>

definition is_test :: "int option \<Rightarrow> rba_prep \<Rightarrow> bool" where
  "is_test cutoff d = (case cutoff of None \<Rightarrow> False | Some c \<Rightarrow> c < rp_ts d)"

fun collect_parts ::
  "np_lib \<Rightarrow> int option \<Rightarrow> rba_row list list \<Rightarrow> rba_prep list \<Rightarrow> rba_prep list \<Rightarrow> rba_prep list \<times> rba_prep list" where
  "collect_parts np cutoff [] train test = (train, test)"
| "collect_parts np cutoff (ch # chs) train test =
     (let d = prep_chunk np ch in
      collect_parts np cutoff chs (train @ filter (\<lambda>r. \<not> is_test cutoff r) d) (test @ filter (is_test cutoff) d))"

definition pass_b_collect ::
  "np_lib \<Rightarrow> rba_row list list \<Rightarrow> int option \<Rightarrow> nat \<Rightarrow> rba_prep list \<times> rba_prep list" where
  "pass_b_collect np chunks cutoff train_neg_cap =
     (let (train, test) = collect_parts np cutoff chunks [] [];
          tr_pos = filter (\<lambda>r. rp_y r = 1) train;
          tr_neg = filter (\<lambda>r. rp_y r = 0) train;
          tr_neg' = (if train_neg_cap < length tr_neg
                     then map ((!) tr_neg) (pd_sample np train_neg_cap (length tr_neg)) else tr_neg)
      in (tr_pos @ tr_neg', test))"

text \<open>
  A frequency encoding: the share of a value among the training rows without takeover whose value is present,
  0 for an unseen or missing one.
\<close>

definition freq_encoding :: "np_lib \<Rightarrow> rba_prep list \<Rightarrow> (rba_prep \<Rightarrow> string option) \<Rightarrow> rba_prep \<Rightarrow> pyfloat" where
  "freq_encoding np train col part =
     (let seen = List.map_filter col (filter (\<lambda>r. rp_y r = 0) train);
          share = (case col part of
                     None \<Rightarrow> Fin 0
                   | Some v \<Rightarrow> if v \<in> set seen
                       then fl (of_int (int (length (filter ((=) v) seen))) / of_int (int (length seen))) else Fin 0)
      in np_f32 np (np_log1p np (share * fl 1000000)))"

record rba_features =
  rf_row :: rba_prep
  rf_f_country :: pyfloat
  rf_f_asn :: pyfloat
  rf_f_browser :: pyfloat
  rf_f_os :: pyfloat

definition add_freq_features :: "np_lib \<Rightarrow> rba_prep list \<Rightarrow> rba_prep list \<Rightarrow> rba_features list" where
  "add_freq_features np train part =
     map (\<lambda>r. \<lparr> rf_row = r, rf_f_country = freq_encoding np train rp_country r,
                rf_f_asn = freq_encoding np train rp_asn r,
                rf_f_browser = freq_encoding np train rp_browser r,
                rf_f_os = freq_encoding np train rp_os r \<rparr>) part"

text \<open>What \<^verbatim>\<open>main\<close> fits on and what it scores.\<close>

definition rba_full_tables ::
  "np_lib \<Rightarrow> rba_row list list \<Rightarrow> nat \<Rightarrow> rba_features list \<times> rba_features list" where
  "rba_full_tables np chunks train_neg_cap =
     (let (train, test) = pass_b_collect np chunks (pass_a_cut np chunks) train_neg_cap
      in (add_freq_features np train train, add_freq_features np train test))"

section \<open>RBA, from the committed sample\<close>

text \<open>
  \<^verbatim>\<open>rba_fit\<close>: successful logins up to the last one without takeover; a missing round-trip time becomes the
  median over the whole window, before the split.
\<close>

definition sample_row :: "np_lib \<Rightarrow> rba_row \<Rightarrow> int \<Rightarrow> rba_prep" where
  "sample_row np r t =
     (prep_row np r t)\<lparr>rp_rtt := np_log1p np (rl_rtt r), rp_country := rl_country r, rp_asn := rl_asn r\<rparr>"

definition impute_rtt :: "np_lib \<Rightarrow> rba_prep list \<Rightarrow> rba_prep list" where
  "impute_rtt np df =
     (let m = pd_median np (filter (\<lambda>x. x \<noteq> NaN) (map rp_rtt df))
      in map (\<lambda>r. if rp_rtt r = NaN then r\<lparr>rp_rtt := m\<rparr> else r) df)"

definition sample_window :: "rba_prep list \<Rightarrow> rba_prep list" where
  "sample_window df =
     (let negs = map rp_ts (filter (\<lambda>r. rp_y r = 0) df)
      in filter (\<lambda>r. negs \<noteq> [] \<and> rp_ts r \<le> Max (set negs)) df)"

definition rba_sample_split :: "np_lib \<Rightarrow> rba_row list \<Rightarrow> rba_prep list \<times> rba_prep list" where
  "rba_sample_split np rows =
     (let parsed = List.map_filter (\<lambda>r. map_option (\<lambda>t. (r, sample_row np r t)) (rl_ts r)) rows;
          df = map snd (filter (\<lambda>(r, d). is_true (rl_success r)) parsed);
          df2 = impute_rtt np (sample_window df)
      in case pd_quantile np (map rp_ts (filter (\<lambda>r. rp_y r = 1) df2)) of
           None \<Rightarrow> ([], [])
         | Some c \<Rightarrow> (filter (\<lambda>r. rp_ts r \<le> c) df2, filter (\<lambda>r. c < rp_ts r) df2))"

definition rba_sample_tables :: "np_lib \<Rightarrow> rba_row list \<Rightarrow> rba_features list \<times> rba_features list" where
  "rba_sample_tables np rows =
     (let (train, test) = rba_sample_split np rows
      in (add_freq_features np train train, add_freq_features np train test))"

section \<open>CERT user-days\<close>

record user_day =
  ud_user :: string
  ud_day :: int
  ud_counts :: "pyfloat list"

text \<open>\<^verbatim>\<open>lab\<close>: inside the user's insider window.\<close>

definition cert_label :: "(string \<Rightarrow> (int \<times> int) option) \<Rightarrow> user_day \<Rightarrow> int" where
  "cert_label win r =
     (case win (ud_user r) of None \<Rightarrow> 0 | Some (a, b) \<Rightarrow> of_bool_int (a \<le> ud_day r \<and> ud_day r \<le> b))"

definition user_column :: "user_day list \<Rightarrow> string \<Rightarrow> nat \<Rightarrow> pyfloat list" where
  "user_column ud u j = map (\<lambda>r. ud_counts r ! j) (filter (\<lambda>r. ud_user r = u) ud)"

text \<open>One deviation: the positive part of the robust z-score against all of the user's days.\<close>

definition deviation :: "np_lib \<Rightarrow> user_day list \<Rightarrow> user_day \<Rightarrow> nat \<Rightarrow> pyfloat" where
  "deviation np ud r j =
     (let xs = user_column ud (ud_user r) j;
          med = pd_median np xs;
          mad0 = pd_median np (map (\<lambda>x. \<bar>x - med\<bar>) xs);
          mad = (if mad0 = Fin 0 then NaN else mad0);
          z = clip_low (fl 0) (fdiv (ud_counts r ! j - med) (fl 1.4826 * mad))
      in if z = NaN then Fin 0 else z)"

definition cert_deviations :: "np_lib \<Rightarrow> user_day list \<Rightarrow> (user_day \<times> pyfloat list) list" where
  "cert_deviations np ud = map (\<lambda>r. (r, map (\<lambda>j. np_f32 np (deviation np ud r j)) [0..<8])) ud"

section \<open>Lemmas\<close>

lemma paysim_from_append:
  "paysim_from np o1 d1 (xs @ ys) =
     paysim_from np o1 d1 xs @ paysim_from np (rev (map pr_orig xs) @ o1) (rev (map pr_dest xs) @ d1) ys"
  by (induction xs arbitrary: o1 d1) auto

lemma paysim_from_steps: "map pf_step (paysim_from np o1 d1 xs) = map pr_step xs"
  by (induction xs arbitrary: o1 d1) (auto simp: paysim_feature_of_def Let_def)

lemma map_eq_witness: "map f xs = map g ys \<Longrightarrow> x \<in> set xs \<Longrightarrow> \<exists>y\<in>set ys. f x = g y"
proof -
  assume eq: "map f xs = map g ys" and x: "x \<in> set xs"
  from x have "f x \<in> set (map f xs)" by simp
  then show ?thesis unfolding eq by auto
qed

lemma sorted_split:
  fixes t :: int
  shows "sorted (map f xs) \<Longrightarrow> xs = filter (\<lambda>x. f x \<le> t) xs @ filter (\<lambda>x. t < f x) xs"
proof (induction xs)
  case (Cons x xs)
  show ?case
  proof (cases "f x \<le> t")
    case True
    with Cons show ?thesis by simp
  next
    case False
    with Cons.prems have "\<forall>y\<in>set (x # xs). t < f y" by auto
    then have "filter (\<lambda>x. f x \<le> t) (x # xs) = []" "filter (\<lambda>x. t < f x) (x # xs) = x # xs"
      by (auto simp: filter_empty_conv intro: filter_True)
    then show ?thesis by simp
  qed
qed simp

lemma map_filter_append [simp]: "List.map_filter f (xs @ ys) = List.map_filter f xs @ List.map_filter f ys"
  by (induction xs) (auto simp: List.map_filter_simps split: option.splits)

lemma prep_chunk_append: "prep_chunk np (xs @ ys) = prep_chunk np xs @ prep_chunk np ys"
  by (simp add: prep_chunk_def)

lemma prep_chunk_Nil [simp]: "prep_chunk np [] = []"
  by (simp add: prep_chunk_def List.map_filter_simps)

lemma collect_parts_concat:
  "collect_parts np cutoff chunks train test =
     (train @ filter (\<lambda>r. \<not> is_test cutoff r) (prep_chunk np (concat chunks)),
      test @ filter (is_test cutoff) (prep_chunk np (concat chunks)))"
  by (induction chunks arbitrary: train test) (auto simp: prep_chunk_append Let_def)

lemma pass_a_cut_concat: "pass_a_cut np chunks = pass_a_cut np [concat chunks]"
  by (simp add: pass_a_cut_def filter_concat)

text \<open>The rows up to a time.\<close>

definition past :: "int \<Rightarrow> rba_row list \<Rightarrow> rba_row list" where
  "past c rows = filter (\<lambda>r. case rl_ts r of None \<Rightarrow> False | Some t \<Rightarrow> t \<le> c) rows"

lemma prep_chunk_past:
  "filter (\<lambda>r. \<not> is_test (Some c) r) (prep_chunk np rows) = prep_chunk np (past c rows)"
  by (induction rows)
     (auto simp: prep_chunk_def past_def is_test_def prep_row_def List.map_filter_simps split: option.splits)

section \<open>Properties\<close>

text \<open>
  On a log in time order, the PaySim training features are those of the training rows alone: no later
  transaction reaches them through the per-account counters.
\<close>

theorem paysim_training_is_causal:
  assumes "sorted (map pr_step rows)"
  shows "fst (paysim_split (paysim_features np rows)) =
    paysim_features np (filter (\<lambda>r. pr_step r \<le> 600) rows)"
proof -
  let ?past = "filter (\<lambda>r. pr_step r \<le> 600) rows" and ?future = "filter (\<lambda>r. 600 < pr_step r) rows"
  obtain o1 d1 where app: "paysim_features np (?past @ ?future) = paysim_features np ?past @ paysim_from np o1 d1 ?future"
    using paysim_from_append [of np "[]" "[]" ?past ?future] by (auto simp: paysim_features_def)
  have "filter (\<lambda>f. pf_step f \<le> 600) (paysim_features np ?past) = paysim_features np ?past"
    using map_eq_witness [OF paysim_from_steps [of np "[]" "[]" ?past]]
    by (force simp: paysim_features_def filter_id_conv)
  moreover have "filter (\<lambda>f. pf_step f \<le> 600) (paysim_from np o1 d1 ?future) = []"
    using map_eq_witness [OF paysim_from_steps [of np o1 d1 ?future]]
    by (force simp: filter_empty_conv)
  ultimately show ?thesis
    using app sorted_split [OF assms, of 600] by (simp add: paysim_split_def)
qed

definition wit_median :: "pyfloat list \<Rightarrow> pyfloat" where
  "wit_median xs =
     (case xs of [a] \<Rightarrow> a | [a, b] \<Rightarrow> fdiv (a + b) (Fin 2)
      | [a, b, c] \<Rightarrow> py_max (py_min a b) (py_min (py_max a b) c) | _ \<Rightarrow> NaN)"

definition wit_np :: np_lib where
  "wit_np =
     \<lparr> np_log1p = (\<lambda>x. x), np_f32 = (\<lambda>x. x), np_isclose = (\<lambda>x y. x = y), pd_median = wit_median,
       pd_quantile = (\<lambda>ts. case ts of [] \<Rightarrow> None | t # _ \<Rightarrow> Some t), pd_sample = (\<lambda>k n. [0..<k]) \<rparr>"

definition wit_paysim :: "int \<Rightarrow> paysim_row" where
  "wit_paysim step =
     \<lparr> pr_step = step, pr_type = ''TRANSFER'', pr_amount = Fin 1, pr_orig = ''C1'', pr_old_org = Fin 0,
       pr_new_orig = Fin 0, pr_dest = ''M1'', pr_old_dest = Fin 0, pr_new_dest = Fin 0, pr_fraud = 0, pr_flagged = 0 \<rparr>"

theorem paysim_training_is_causal_witness:
  "fst (paysim_split (paysim_features wit_np [wit_paysim 1, wit_paysim 600, wit_paysim 601])) =
     paysim_features wit_np (filter (\<lambda>r. pr_step r \<le> 600) [wit_paysim 1, wit_paysim 600, wit_paysim 601])"
  by (rule paysim_training_is_causal) (simp add: wit_paysim_def)

text \<open>
  Streaming the login log in chunks gives the tables of the whole log, however it is cut into chunks.
\<close>

theorem streaming_is_batch:
  "rba_full_tables np chunks train_neg_cap = rba_full_tables np [concat chunks] train_neg_cap"
  by (simp add: rba_full_tables_def pass_b_collect_def collect_parts_concat pass_a_cut_concat [of np chunks])

text \<open>
  C37: Two logs with the same temporal cut and the same logins up to it give the same RBA training table: later
  logins, labels and sampling noise among them reach no training feature.
\<close>

theorem rba_training_ignores_future:
  assumes "pass_a_cut np chunks = Some c" "pass_a_cut np chunks' = Some c"
    and "past c (concat chunks) = past c (concat chunks')"
  shows "fst (rba_full_tables np chunks cap) = fst (rba_full_tables np chunks' cap)"
  using assms
  by (simp add: rba_full_tables_def pass_b_collect_def collect_parts_concat prep_chunk_past Let_def)

definition wit_rba :: "int \<Rightarrow> pyfloat \<Rightarrow> string \<Rightarrow> rba_row" where
  "wit_rba t rtt ato =
     \<lparr> rl_ts = Some t, rl_hour = 12, rl_rtt = rtt, rl_country = Some ''IN'', rl_asn = Some ''1'',
       rl_browser = ''Chrome 80'', rl_os = ''Linux'', rl_device = None, rl_success = ''True'',
       rl_attack_ip = ''False'', rl_takeover = ato \<rparr>"

lemma wit_true: "is_true ''True''" "\<not> is_true ''False''"
  by code_simp+

theorem rba_training_ignores_future_witness:
  "fst (rba_full_tables wit_np [[wit_rba 1 (Fin 1) ''False''], [wit_rba 5 (Fin 1) ''True'', wit_rba 9 (Fin 7) ''False'']] 10) =
   fst (rba_full_tables wit_np [[wit_rba 1 (Fin 1) ''False'', wit_rba 5 (Fin 1) ''True'']] 10)"
  by (rule rba_training_ignores_future [where c = 5])
     (simp_all add: pass_a_cut_def wit_np_def wit_rba_def wit_true List.map_filter_simps past_def)

text \<open>
  The CERT deviation features are never NaN and never negative, whatever the counts and medians are.
\<close>

theorem deviations_nonnegative:
  "deviation np ud r j \<noteq> NaN \<and> Fin 0 \<le> deviation np ud r j"
proof -
  have c: "clip_low (fl 0) x = NaN \<or> Fin 0 \<le> clip_low (fl 0) x" for x
    by (cases x) (auto simp: clip_low_def)
  show ?thesis
    unfolding deviation_def Let_def using c by auto
qed

subsection \<open>Features that look ahead\<close>

text \<open>
  The imputed round-trip time of a training row depends on a login after the temporal cut: the row of time 1
  has none of its own, and a login at time 9 changes the value it is trained with.
\<close>

definition wit_prep :: "int \<Rightarrow> pyfloat \<Rightarrow> int \<Rightarrow> rba_prep" where
  "wit_prep t rtt y =
     \<lparr> rp_ts = t, rp_y = y, rp_attack_ip = 0, rp_hour = 12, rp_rtt = rtt, rp_device = ''unknown'',
       rp_browser = Some ''Chrome'', rp_os = Some ''Linux'', rp_country = Some ''IN'', rp_asn = Some ''1'' \<rparr>"

lemma wit_words: "first_word ''Chrome 80'' = Some ''Chrome''" "first_word ''Linux'' = Some ''Linux''"
  by code_simp+

lemma wit_sample_row:
  "sample_row wit_np (wit_rba t rtt a) u = wit_prep u rtt (of_bool_int (is_true a))"
  by (simp add: sample_row_def prep_row_def wit_np_def wit_rba_def wit_prep_def wit_words wit_true of_bool_int_def)

lemma wit_rba_fields [simp]:
  "rl_ts (wit_rba t rtt a) = Some t" "rl_success (wit_rba t rtt a) = ''True''"
  "rp_ts (wit_prep t rtt y) = t" "rp_y (wit_prep t rtt y) = y" "rp_rtt (wit_prep t rtt y) = rtt"
  "(wit_prep t rtt y)\<lparr>rp_rtt := z\<rparr> = wit_prep t z y"
  by (simp_all add: wit_rba_def wit_prep_def)

lemma wit_np_fields [simp]:
  "pd_median wit_np = wit_median" "pd_quantile wit_np (t # ts) = Some t"
  by (simp_all add: wit_np_def)

lemma imputation_looks_ahead:
  "map rp_rtt (fst (rba_sample_split wit_np [wit_rba 1 NaN ''True'', wit_rba 2 (Fin 2) ''False''])) = [Fin 2] \<and>
   map rp_rtt (fst (rba_sample_split wit_np [wit_rba 1 NaN ''True'', wit_rba 2 (Fin 2) ''False'',
     wit_rba 9 (Fin 4) ''False''])) = [Fin 3]"
proof -
  have w2: "sample_window [wit_prep 1 NaN 1, wit_prep 2 (Fin 2) 0] = [wit_prep 1 NaN 1, wit_prep 2 (Fin 2) 0]"
    by (simp add: sample_window_def)
  have w3: "sample_window [wit_prep 1 NaN 1, wit_prep 2 (Fin 2) 0, wit_prep 9 (Fin 4) 0] =
      [wit_prep 1 NaN 1, wit_prep 2 (Fin 2) 0, wit_prep 9 (Fin 4) 0]"
    by (simp add: sample_window_def)
  have i2: "impute_rtt wit_np [wit_prep 1 NaN 1, wit_prep 2 (Fin 2) 0] = [wit_prep 1 (Fin 2) 1, wit_prep 2 (Fin 2) 0]"
    by (simp add: impute_rtt_def wit_median_def)
  have i3: "impute_rtt wit_np [wit_prep 1 NaN 1, wit_prep 2 (Fin 2) 0, wit_prep 9 (Fin 4) 0] =
      [wit_prep 1 (Fin 3) 1, wit_prep 2 (Fin 2) 0, wit_prep 9 (Fin 4) 0]"
    by (simp add: impute_rtt_def wit_median_def)
  show ?thesis
    by (simp add: rba_sample_split_def wit_sample_row wit_true List.map_filter_simps of_bool_int_def w2 w3 i2 i3)
qed

text \<open>A CERT deviation of one day changes with a day the user has not had yet.\<close>

definition wit_day :: "int \<Rightarrow> rat \<Rightarrow> user_day" where
  "wit_day d n = \<lparr> ud_user = ''U1'', ud_day = d, ud_counts = replicate 8 (Fin n) \<rparr>"

lemma wit_day_fields [simp]: "ud_user (wit_day d n) = ''U1''" "ud_counts (wit_day d n) ! 0 = Fin n"
  by (simp_all add: wit_day_def)

lemma deviation_looks_ahead:
  "deviation wit_np [wit_day 1 1, wit_day 2 3] (wit_day 2 3) 0 \<noteq>
   deviation wit_np [wit_day 1 1, wit_day 2 3, wit_day 3 5] (wit_day 2 3) 0"
proof -
  have "fin_in 1 2 (fl (7413 / 5000))" by (rule fl_bounds) simp_all
  then obtain k where k: "fl (7413 / 5000) = Fin k" "1 \<le> k" "k \<le> 2" by (auto elim: fin_inE)
  have m1: "fl (- 1) = Fin (- 1)" "fl (- 2) = Fin (- 2)" by (rule fl_f64, simp)+
  have "fin_in 1 2 (fl k)" using k by (intro fl_bounds) simp_all
  then obtain k1 where k1: "fl k = Fin k1" "1 \<le> k1" "k1 \<le> 2" by (auto elim: fin_inE)
  have "fin_in 2 4 (fl (k * 2))" using k by (intro fl_bounds) simp_all
  then obtain k2 where k2: "fl (k * 2) = Fin k2" "2 \<le> k2" by (auto elim: fin_inE)
  have "fin_in (1 / 2) 1 (fl (1 / k1))" using k1 by (intro fl_bounds) (simp_all add: field_simps)
  then obtain z where z: "fl (1 / k1) = Fin z" "1 / 2 \<le> z" by (auto elim: fin_inE)
  have "deviation wit_np [wit_day 1 1, wit_day 2 3] (wit_day 2 3) 0 = Fin z"
    using z(2) by (simp add: deviation_def user_column_def wit_median_def k k1 z(1) m1 clip_low_def)
  moreover have "deviation wit_np [wit_day 1 1, wit_day 2 3, wit_day 3 5] (wit_day 2 3) 0 = Fin 0"
    using k2(2) by (simp add: deviation_def user_column_def wit_median_def py_min_def py_max_def k(1) k2(1) m1 clip_low_def)
  ultimately show ?thesis using z(2) by simp
qed

end
