(* ===== verification/Metrics.thy ===== *)
theory Metrics
  imports PyFloat "HOL-Library.Multiset"
begin

text \<open>
  The metric protocol of the offline evaluation: \<^verbatim>\<open>src/eval_full.py\<close> and its smaller relative
  \<^verbatim>\<open>src/pramaan_eval.py\<close>, the alert budget of \<^verbatim>\<open>src/evaluate.py\<close> and the equal error rate of
  \<^verbatim>\<open>src/phaseb_extra.py\<close>. Labels are integers, scores floats. The curves and scores of scikit-learn and the array
  routines of numpy are the fields of \<open>metric_lib\<close>; \<open>metric_laws\<close> states what their documentation promises.
  Plots and files are not modelled.

  The lemmas: the operating point is the best one within the friction budget; the cost analysis finds a
  threshold of least expected cost; the alert budget is kept on every day.
\<close>

record metric_lib =
  ml_roc_curve :: "int list \<Rightarrow> pyfloat list \<Rightarrow> pyfloat list \<times> pyfloat list \<times> pyfloat list"
  ml_roc_auc :: "int list \<Rightarrow> pyfloat list \<Rightarrow> py_exn + pyfloat"
  ml_pauc :: "int list \<Rightarrow> pyfloat list \<Rightarrow> pyfloat \<Rightarrow> py_exn + pyfloat"
  ml_average_precision :: "int list \<Rightarrow> pyfloat list \<Rightarrow> pyfloat list \<Rightarrow> py_exn + pyfloat"
  ml_brier :: "int list \<Rightarrow> pyfloat list \<Rightarrow> pyfloat list \<Rightarrow> pyfloat"
  ml_trapz :: "pyfloat list \<Rightarrow> pyfloat list \<Rightarrow> pyfloat"
  ml_searchsorted_right :: "pyfloat list \<Rightarrow> pyfloat \<Rightarrow> nat"
  ml_argsort :: "pyfloat list \<Rightarrow> nat list"
  ml_argmin :: "pyfloat list \<Rightarrow> nat"
  ml_max :: "pyfloat list \<Rightarrow> pyfloat"
  ml_nanmin :: "pyfloat list \<Rightarrow> pyfloat"
  ml_nanmax :: "pyfloat list \<Rightarrow> pyfloat"
  ml_cumsum :: "pyfloat list \<Rightarrow> pyfloat list"
  ml_sum :: "pyfloat list \<Rightarrow> pyfloat"
  ml_average :: "pyfloat list \<Rightarrow> pyfloat list \<Rightarrow> pyfloat"
  ml_linspace :: "nat \<Rightarrow> pyfloat list"
  ml_digitize :: "pyfloat list \<Rightarrow> pyfloat \<Rightarrow> nat"
  ml_mean :: "pyfloat list \<Rightarrow> pyfloat"
  ml_std :: "pyfloat list \<Rightarrow> pyfloat"
  ml_percentile :: "pyfloat list \<Rightarrow> pyfloat \<Rightarrow> pyfloat"

section \<open>Curves and operating points\<close>

definition FPR_TARGETS :: "pyfloat list" where
  "FPR_TARGETS = [fl 0.001, fl 0.005, fl 0.01, fl 0.02, fl 0.05]"

definition COST_FP :: pyfloat where "COST_FP = fl 17"

definition count_label :: "int \<Rightarrow> int list \<Rightarrow> int" where
  "count_label c y = int (length (filter ((=) c) y))"

text \<open>Indexing an array raises outside of it.\<close>

definition item :: "'a list \<Rightarrow> nat \<Rightarrow> py_exn + 'a" where
  "item xs i = (if i < length xs then Inr (xs ! i) else Inl IndexError)"

definition sample_weights :: "int list \<Rightarrow> pyfloat \<Rightarrow> py_exn + pyfloat list" where
  "sample_weights y neg_rate =
     (if neg_rate \<noteq> Fin 1 then sbind (py_div (fl 1) neg_rate) (\<lambda>w. Inr (map (\<lambda>c. if c = 0 then w else fl 1) y))
      else Inr (map (\<lambda>_. fl 1) y))"

record roc_pack =
  rk_fpr :: "pyfloat list"
  rk_tpr :: "pyfloat list"
  rk_thr :: "pyfloat list"
  rk_precision :: "pyfloat list"
  rk_P :: pyfloat
  rk_N_full :: pyfloat

definition make_roc_pack :: "metric_lib \<Rightarrow> int list \<Rightarrow> pyfloat list \<Rightarrow> pyfloat \<Rightarrow> py_exn + roc_pack" where
  "make_roc_pack lib y s neg_rate =
     (let (fpr, tpr, thr) = ml_roc_curve lib y s;
          P = float_of_int (count_label 1 y)
      in sbind (py_div (float_of_int (count_label 0 y)) neg_rate) (\<lambda>N_full.
         Inr \<lparr> rk_fpr = fpr, rk_tpr = tpr, rk_thr = thr,
               rk_precision = map2 (\<lambda>t f. let tp = t * P; fp_full = f * N_full in
                  if Fin 0 < tp + fp_full then fdiv tp (tp + fp_full) else fl 1) tpr fpr,
               rk_P = P, rk_N_full = N_full \<rparr>))"

record op_point =
  op_fpr :: pyfloat
  op_recall :: pyfloat
  op_precision :: pyfloat
  op_threshold :: pyfloat

definition op_index :: "metric_lib \<Rightarrow> pyfloat list \<Rightarrow> pyfloat \<Rightarrow> nat" where
  "op_index lib fpr target = nat (max (int (ml_searchsorted_right lib fpr target) - 1) 0)"

definition op_at_fpr :: "metric_lib \<Rightarrow> roc_pack \<Rightarrow> pyfloat \<Rightarrow> py_exn + op_point" where
  "op_at_fpr lib k target =
     (let i = op_index lib (rk_fpr k) target in
      sbind (item (rk_fpr k) i) (\<lambda>f. sbind (item (rk_tpr k) i) (\<lambda>r.
      sbind (item (rk_precision k) i) (\<lambda>p. sbind (item (rk_thr k) i) (\<lambda>t.
      Inr \<lparr> op_fpr = f, op_recall = r, op_precision = p, op_threshold = t \<rparr>)))))"

text \<open>\<^verbatim>\<open>_recall_at\<close>.\<close>

definition recall_at :: "metric_lib \<Rightarrow> pyfloat list \<Rightarrow> pyfloat list \<Rightarrow> pyfloat \<Rightarrow> py_exn + pyfloat" where
  "recall_at lib fpr tpr t = item tpr (op_index lib fpr t)"

record tf_metrics =
  tf_pr_auc :: pyfloat
  tf_pr_auc_trapz :: pyfloat
  tf_roc_auc :: pyfloat
  tf_pauc :: pyfloat
  tf_ks :: pyfloat
  tf_gini :: pyfloat

definition threshold_free :: "metric_lib \<Rightarrow> int list \<Rightarrow> pyfloat list \<Rightarrow> pyfloat \<Rightarrow> py_exn + tf_metrics" where
  "threshold_free lib y s neg_rate =
     sbind (sample_weights y neg_rate) (\<lambda>w.
     sbind (make_roc_pack lib y s neg_rate) (\<lambda>k.
     sbind (ml_roc_auc lib y s) (\<lambda>roc.
     sbind (ml_average_precision lib y s w) (\<lambda>ap.
     let pr_trapz = ml_trapz lib (map (\<lambda>p. if p = NaN then fl 1 else p) (rk_precision k)) (rk_tpr k);
         pauc1 = (case ml_pauc lib y s (fl 0.01) of Inr a \<Rightarrow> a | Inl _ \<Rightarrow> NaN);
         ks = ml_max lib (map2 (-) (rk_tpr k) (rk_fpr k))
     in Inr \<lparr> tf_pr_auc = py_round 4 ap, tf_pr_auc_trapz = py_round 4 pr_trapz, tf_roc_auc = py_round 4 roc,
              tf_pauc = py_round 4 pauc1, tf_ks = py_round 4 ks, tf_gini = py_round 4 (fl 2 * roc - fl 1) \<rparr>))))"

record op_report =
  or_step_up_rate :: pyfloat
  or_recall :: pyfloat
  or_precision :: pyfloat
  or_f1 :: pyfloat
  or_f2 :: pyfloat
  or_specificity :: pyfloat
  or_lift :: "pyfloat option"
  or_threshold :: pyfloat
  or_tp :: int
  or_fn :: int
  or_fp :: int
  or_tn :: int

definition f_score :: "pyfloat \<Rightarrow> pyfloat \<Rightarrow> pyfloat \<Rightarrow> pyfloat \<Rightarrow> pyfloat" where
  "f_score a b pr r = (if Fin 0 < b * pr + r then fdiv (a * pr * r) (b * pr + r) else Fin 0)"

definition op_report_at :: "metric_lib \<Rightarrow> roc_pack \<Rightarrow> pyfloat \<Rightarrow> pyfloat \<Rightarrow> py_exn + op_report" where
  "op_report_at lib k base_rate t =
     sbind (op_at_fpr lib k t) (\<lambda>o1.
     let r = op_recall o1; pr = op_precision o1; tp = r * rk_P k; fp = op_fpr o1 * rk_N_full k in
     sbind (round_int tp) (\<lambda>itp. sbind (round_int (rk_P k - tp)) (\<lambda>ifn.
     sbind (round_int fp) (\<lambda>ifp. sbind (round_int (rk_N_full k - fp)) (\<lambda>itn.
     Inr \<lparr> or_step_up_rate = py_round 5 (op_fpr o1), or_recall = py_round 4 r, or_precision = py_round 6 pr,
           or_f1 = py_round 4 (if Fin 0 < pr + r then fdiv (fl 2 * pr * r) (pr + r) else Fin 0),
           or_f2 = py_round 4 (f_score (fl 5) (fl 4) pr r),
           or_specificity = py_round 5 (fl 1 - op_fpr o1),
           or_lift = (if Fin 0 < base_rate then Some (py_round 1 (fdiv pr base_rate)) else None),
           or_threshold = py_round 6 (op_threshold o1),
           or_tp = itp, or_fn = ifn, or_fp = ifp, or_tn = itn \<rparr>)))))"

fun try_map :: "('a \<Rightarrow> 'e + 'b) \<Rightarrow> 'a list \<Rightarrow> 'e + 'b list" where
  "try_map f [] = Inr []"
| "try_map f (x # xs) = sbind (f x) (\<lambda>y. sbind (try_map f xs) (\<lambda>ys. Inr (y # ys)))"

definition operating_points ::
  "metric_lib \<Rightarrow> int list \<Rightarrow> pyfloat list \<Rightarrow> pyfloat \<Rightarrow> pyfloat list \<Rightarrow> py_exn + op_report list \<times> pyfloat" where
  "operating_points lib y s neg_rate targets =
     sbind (make_roc_pack lib y s neg_rate) (\<lambda>k.
     sbind (py_div (rk_P k) (rk_P k + rk_N_full k)) (\<lambda>base_rate.
     sbind (try_map (op_report_at lib k base_rate) targets) (\<lambda>rs. Inr (rs, base_rate))))"

section \<open>Calibration\<close>

record bin_point =
  bp_bin :: nat
  bp_confidence :: pyfloat
  bp_empirical :: pyfloat
  bp_weight_frac :: pyfloat

record calibration_report =
  cl_brier :: pyfloat
  cl_ece :: pyfloat
  cl_reliability :: "bin_point list"
  cl_n_bins :: nat

definition clip01 :: "pyfloat \<Rightarrow> pyfloat" where
  "clip01 x = (if x = NaN then NaN else if x < Fin 0 then Fin 0 else if Fin 1 < x then Fin 1 else x)"

definition bin_of :: "metric_lib \<Rightarrow> nat \<Rightarrow> pyfloat \<Rightarrow> nat" where
  "bin_of lib n_bins x =
     min (ml_digitize lib (butlast (tl (ml_linspace lib (n_bins + 1)))) x) (n_bins - 1)"

text \<open>One turn of the loop over the bins: the error so far and the points.\<close>

definition calibrate_bin ::
  "metric_lib \<Rightarrow> (int \<times> pyfloat \<times> pyfloat) list \<Rightarrow> (nat \<times> int \<times> pyfloat \<times> pyfloat) list \<Rightarrow> nat \<Rightarrow>
   pyfloat \<times> bin_point list \<Rightarrow> pyfloat \<times> bin_point list" where
  "calibrate_bin lib ysw rows b acc =
     (let m = map snd (filter (\<lambda>r. fst r = b) rows);
          W = ml_sum lib (map (\<lambda>(y, s, w). w) ysw);
          ws = map (\<lambda>(y, s, w). w) m; wb = ml_sum lib ws
      in if wb = Fin 0 then acc
         else let conf = ml_average lib (map (\<lambda>(y, s, w). s) m) ws;
                  accu = ml_average lib (map (\<lambda>(y, s, w). float_of_int y) m) ws
              in (fst acc + fdiv wb W * \<bar>accu - conf\<bar>,
                  snd acc @ [\<lparr> bp_bin = b, bp_confidence = py_round 4 conf, bp_empirical = py_round 4 accu,
                               bp_weight_frac = py_round 4 (fdiv wb W) \<rparr>]))"

definition calibration ::
  "metric_lib \<Rightarrow> int list \<Rightarrow> pyfloat list \<Rightarrow> pyfloat \<Rightarrow> nat \<Rightarrow> bool option \<Rightarrow> py_exn + calibration_report option" where
  "calibration lib y s neg_rate n_bins is_proba =
     (if is_proba = Some False then Inr None
      else if is_proba = None \<and>
              \<not> (- fl 0.000000001 \<le> ml_nanmin lib s \<and> ml_nanmax lib s \<le> fl 1 + fl 0.000000001) then Inr None
      else sbind (sample_weights y neg_rate) (\<lambda>w.
        let s' = map clip01 s; ysw = zip y (zip s' w);
            rows = map (\<lambda>r. (bin_of lib n_bins (fst (snd r)), r)) ysw;
            (ece, pts) = foldl (\<lambda>a b. calibrate_bin lib ysw rows b a) (Fin 0, []) [0..<n_bins]
        in Inr (Some \<lparr> cl_brier = py_round 5 (ml_brier lib y s' w), cl_ece = py_round 5 ece,
                       cl_reliability = pts, cl_n_bins = n_bins \<rparr>)))"

section \<open>Expected cost\<close>

text \<open>
  The cut after the \<open>k\<close> highest scores: its threshold, the positives caught and the false positives of the full
  population, at the first minimum of the cost.
\<close>

record cost_cut =
  cc_threshold :: pyfloat
  cc_caught :: pyfloat
  cc_fp :: pyfloat
  cc_total :: pyfloat
  cc_index :: nat

definition by_score :: "metric_lib \<Rightarrow> pyfloat list \<Rightarrow> 'a list \<Rightarrow> 'a list" where
  "by_score lib s xs = map ((!) xs) (ml_argsort lib (map uminus s))"

definition cut_of ::
  "metric_lib \<Rightarrow> pyfloat list \<Rightarrow> pyfloat list \<Rightarrow> pyfloat list \<Rightarrow> pyfloat list \<Rightarrow> cost_cut" where
  "cut_of lib ss cum_caught cum_fp total_cost =
     (let k = ml_argmin lib total_cost in
      \<lparr> cc_threshold = ss ! k, cc_caught = cum_caught ! k, cc_fp = cum_fp ! k, cc_total = total_cost ! k,
        cc_index = k \<rparr>)"

definition ratio_cut ::
  "metric_lib \<Rightarrow> int list \<Rightarrow> pyfloat list \<Rightarrow> pyfloat list \<Rightarrow> pyfloat \<Rightarrow> int \<Rightarrow> cost_cut" where
  "ratio_cut lib y s w cost_fp rt =
     (let ys = by_score lib s y; ss = by_score lib s s; ws = by_score lib s w;
          pos = map (\<lambda>c. if c = 1 then fl 1 else fl 0) ys;
          neg_w = map2 (\<lambda>v c. v * (if c = 0 then fl 1 else fl 0)) ws ys;
          cum_fp = ml_cumsum lib neg_w;
          P = ml_sum lib pos; cum_caught = ml_cumsum lib pos;
          cfn = float_of_int rt * cost_fp
      in cut_of lib ss cum_caught cum_fp
           (map2 (\<lambda>c f. cfn * (P - c) + cost_fp * f) cum_caught cum_fp))"

record ratio_report =
  rr_ratio :: int
  rr_threshold :: pyfloat
  rr_recall :: pyfloat
  rr_step_up_rate :: pyfloat

definition ratio_report_of ::
  "metric_lib \<Rightarrow> int list \<Rightarrow> pyfloat list \<Rightarrow> pyfloat list \<Rightarrow> pyfloat \<Rightarrow> pyfloat \<Rightarrow> int \<Rightarrow> ratio_report" where
  "ratio_report_of lib y s w neg_rate cost_fp rt =
     (let k = ratio_cut lib y s w cost_fp rt;
          P = ml_sum lib (map (\<lambda>c. if c = 1 then fl 1 else fl 0) (by_score lib s y)) in
      \<lparr> rr_ratio = rt, rr_threshold = py_round 6 (cc_threshold k),
        rr_recall = py_round 4 (fdiv (cc_caught k) (py_max P (Fin 1))),
        rr_step_up_rate = py_round 5
          (fdiv (cc_fp k) (py_max (float_of_int (int (length y)) - P) (Fin 1)) * neg_rate) \<rparr>)"

record amount_report =
  am_total_at_risk :: pyfloat
  am_threshold :: pyfloat
  am_min_cost :: pyfloat
  am_recall :: pyfloat
  am_step_up_rate :: pyfloat
  am_recovered :: pyfloat

definition amount_cut ::
  "metric_lib \<Rightarrow> int list \<Rightarrow> pyfloat list \<Rightarrow> pyfloat list \<Rightarrow> pyfloat list \<Rightarrow> pyfloat \<Rightarrow> pyfloat \<times> cost_cut" where
  "amount_cut lib y s w loss cost_fp =
     (let ys = by_score lib s y; ss = by_score lib s s; ws = by_score lib s w; lo = by_score lib s loss;
          pos = map (\<lambda>c. if c = 1 then fl 1 else fl 0) ys;
          neg_w = map2 (\<lambda>v c. v * (if c = 0 then fl 1 else fl 0)) ws ys;
          cum_fp = ml_cumsum lib neg_w;
          caught_loss = map2 (*) lo pos;
          tot_loss = ml_sum lib caught_loss; cum_caught_loss = ml_cumsum lib caught_loss
      in (tot_loss, cut_of lib ss cum_caught_loss cum_fp
           (map2 (\<lambda>c f. (tot_loss - c) + cost_fp * f) cum_caught_loss cum_fp)))"

definition amount_report_of ::
  "metric_lib \<Rightarrow> int list \<Rightarrow> pyfloat list \<Rightarrow> pyfloat list \<Rightarrow> pyfloat list \<Rightarrow> pyfloat \<Rightarrow> pyfloat \<Rightarrow> amount_report" where
  "amount_report_of lib y s w loss neg_rate cost_fp =
     (let (tot_loss, k) = amount_cut lib y s w loss cost_fp;
          pos = map (\<lambda>c. if c = 1 then fl 1 else fl 0) (by_score lib s y);
          P = ml_sum lib pos; caught = ml_sum lib (take (cc_index k + 1) pos)
      in \<lparr> am_total_at_risk = py_round 2 tot_loss, am_threshold = py_round 6 (cc_threshold k),
           am_min_cost = py_round 2 (cc_total k),
           am_recall = py_round 4 (fdiv caught (py_max P (Fin 1))),
           am_step_up_rate = py_round 5 (fdiv (cc_fp k) (float_of_int (int (length y)) - P) * neg_rate),
           am_recovered = py_round 2 (cc_caught k) \<rparr>)"

datatype cost_report = AmountBased amount_report | RatioBased "ratio_report list"

definition cost_analysis ::
  "metric_lib \<Rightarrow> int list \<Rightarrow> pyfloat list \<Rightarrow> pyfloat \<Rightarrow> pyfloat list option \<Rightarrow> pyfloat \<Rightarrow> int list \<Rightarrow> py_exn + cost_report" where
  "cost_analysis lib y s neg_rate loss cost_fp ratios =
     sbind (sample_weights y neg_rate) (\<lambda>w.
       if y = [] then Inl ValueError
       else case loss of
         Some ls \<Rightarrow> Inr (AmountBased (amount_report_of lib y s w ls neg_rate cost_fp))
       | None \<Rightarrow> Inr (RatioBased (map (ratio_report_of lib y s w neg_rate cost_fp) ratios)))"

section \<open>What the libraries promise\<close>

definition ints :: "int list \<Rightarrow> pyfloat list" where
  "ints ns = map (\<lambda>n. Fin (of_int n)) ns"

text \<open>
  On labels of both classes a ROC curve rises from (0, 0) within the unit square; \<^verbatim>\<open>searchsorted\<close>, \<^verbatim>\<open>argsort\<close>
  and \<^verbatim>\<open>argmin\<close> are correct on finite numbers; sums of non-negative integers below 2^53 are exact in whatever
  order they are added.
\<close>

definition roc_law :: "metric_lib \<Rightarrow> bool" where
  "roc_law lib \<longleftrightarrow>
     (\<forall>y s fpr tpr thr. set y = {0, 1} \<and> ml_roc_curve lib y s = (fpr, tpr, thr) \<longrightarrow>
        fpr \<noteq> [] \<and> length tpr = length fpr \<and> length thr = length fpr \<and> hd fpr = Fin 0 \<and>
        sorted_wrt (\<le>) fpr \<and> sorted_wrt (\<le>) tpr \<and> (\<forall>x\<in>set fpr. fin_in 0 1 x) \<and> (\<forall>x\<in>set tpr. fin_in 0 1 x))"

definition searchsorted_law :: "metric_lib \<Rightarrow> bool" where
  "searchsorted_law lib \<longleftrightarrow>
     (\<forall>xs v i. sorted_wrt (\<le>) xs \<and> (\<forall>x\<in>set xs. is_finite x) \<and> is_finite v \<and> ml_searchsorted_right lib xs v = i \<longrightarrow>
        i \<le> length xs \<and> (\<forall>j<i. xs ! j \<le> v) \<and> (\<forall>j<length xs. i \<le> j \<longrightarrow> v < xs ! j))"

definition argsort_law :: "metric_lib \<Rightarrow> bool" where
  "argsort_law lib \<longleftrightarrow>
     (\<forall>ks. mset (ml_argsort lib (map Fin ks)) = mset [0..<length ks] \<and>
        sorted (map ((!) ks) (ml_argsort lib (map Fin ks))))"

definition argmin_law :: "metric_lib \<Rightarrow> bool" where
  "argmin_law lib \<longleftrightarrow>
     (\<forall>ks. ks \<noteq> [] \<longrightarrow> ml_argmin lib (map Fin ks) < length ks \<and>
        (\<forall>j<length ks. ks ! ml_argmin lib (map Fin ks) \<le> ks ! j))"

definition sum_law :: "metric_lib \<Rightarrow> bool" where
  "sum_law lib \<longleftrightarrow>
     (\<forall>ns. (\<forall>n\<in>set ns. 0 \<le> n) \<and> sum_list ns \<le> 2 ^ 53 \<longrightarrow>
        ml_sum lib (ints ns) = Fin (of_int (sum_list ns)) \<and>
        ml_cumsum lib (ints ns) = ints (map (\<lambda>k. sum_list (take (Suc k) ns)) [0..<length ns]))"

definition metric_laws :: "metric_lib \<Rightarrow> bool" where
  "metric_laws lib \<longleftrightarrow> roc_law lib \<and> searchsorted_law lib \<and> argsort_law lib \<and> argmin_law lib \<and> sum_law lib"

section \<open>The operating point\<close>

lemma pyfloat_less_le: "a < b \<Longrightarrow> b \<le> a \<Longrightarrow> False" for a b :: pyfloat
  by (cases a; cases b) auto

lemma sorted_wrt_le_nth:
  assumes "sorted_wrt (\<le>) xs" "\<forall>x\<in>set xs. fin_in 0 1 x" "i \<le> j" "j < length xs"
  shows "xs ! i \<le> (xs ! j :: pyfloat)"
proof (cases "i = j")
  case True
  have "fin_in 0 1 (xs ! j)" using assms(2, 4) by simp
  then show ?thesis using True by (auto elim: fin_inE)
next
  case False
  with assms show ?thesis by (auto simp: sorted_wrt_iff_nth_less)
qed

lemma op_index_best:
  assumes laws: "metric_laws lib" and curve: "sorted_wrt (\<le>) fpr" "\<forall>x\<in>set fpr. fin_in 0 1 x" "fpr \<noteq> []" "hd fpr = Fin 0"
    and t: "is_finite target" "Fin 0 \<le> target"
  defines "i \<equiv> op_index lib fpr target"
  shows "i < length fpr \<and> fpr ! i \<le> target \<and> (\<forall>j<length fpr. fpr ! j \<le> target \<longrightarrow> j \<le> i)"
proof -
  let ?s = "ml_searchsorted_right lib fpr target"
  have fin: "\<forall>x\<in>set fpr. is_finite x" using curve(2) by (blast intro: fin_in_is_finite)
  have ss: "?s \<le> length fpr" "\<forall>j<?s. fpr ! j \<le> target" "\<forall>j<length fpr. ?s \<le> j \<longrightarrow> target < fpr ! j"
    using laws curve(1) fin t(1) by (auto simp: metric_laws_def searchsorted_law_def)
  have "fpr ! 0 = Fin 0" using curve(3, 4) by (simp add: hd_conv_nth)
  then have "?s \<noteq> 0" using ss(3) curve(3) t(2) pyfloat_less_le by fastforce
  then have i: "i = ?s - 1" "i < ?s" by (auto simp: i_def op_index_def nat_diff_distrib)
  have "j \<le> i" if j: "j < length fpr" "fpr ! j \<le> target" for j
  proof -
    have "\<not> ?s \<le> j" using ss(3) j pyfloat_less_le by blast
    with i(1) show ?thesis by simp
  qed
  with i ss(1, 2) show ?thesis by simp
qed

text \<open>
  On labels of both classes the operating point for a friction budget keeps the budget, and no point of the
  ROC curve within it catches more.
\<close>

theorem operating_point_is_best:
  assumes laws: "metric_laws lib" and y: "set y = {0, 1}"
    and pack: "make_roc_pack lib y s neg_rate = Inr k"
    and target: "is_finite target" "Fin 0 \<le> target"
  shows "\<exists>p. op_at_fpr lib k target = Inr p \<and> op_fpr p \<le> target \<and>
    (\<forall>j<length (rk_fpr k). rk_fpr k ! j \<le> target \<longrightarrow> rk_tpr k ! j \<le> op_recall p)"
proof -
  obtain fpr tpr thr where rc: "ml_roc_curve lib y s = (fpr, tpr, thr)" by (cases "ml_roc_curve lib y s")
  with laws y have c: "fpr \<noteq> []" "length tpr = length fpr" "length thr = length fpr" "hd fpr = Fin 0"
    "sorted_wrt (\<le>) fpr" "sorted_wrt (\<le>) tpr" "\<forall>x\<in>set fpr. fin_in 0 1 x" "\<forall>x\<in>set tpr. fin_in 0 1 x"
    unfolding metric_laws_def roc_law_def by blast+
  from pack rc have k: "rk_fpr k = fpr" "rk_tpr k = tpr" "rk_thr k = thr" "length (rk_precision k) = length fpr"
    using c(2) by (auto simp: make_roc_pack_def sbind_eq_Inr Let_def)
  let ?i = "op_index lib fpr target"
  have i: "?i < length fpr" "fpr ! ?i \<le> target" "\<forall>j<length fpr. fpr ! j \<le> target \<longrightarrow> j \<le> ?i"
    using op_index_best [OF laws c(5, 7, 1, 4) target] by auto
  have "tpr ! j \<le> tpr ! ?i" if "j < length fpr" "fpr ! j \<le> target" for j
    using i(1, 3) that c(2) by (intro sorted_wrt_le_nth [OF c(6, 8)]) auto
  with i k c(2, 3) show ?thesis by (auto simp: op_at_fpr_def item_def Let_def)
qed

section \<open>Least expected cost\<close>

definition flagged :: "int \<Rightarrow> rat \<Rightarrow> (int \<times> rat) list \<Rightarrow> int" where
  "flagged c t data = int (length (filter (\<lambda>(l, q). l = c \<and> t \<le> q) data))"

definition missed :: "int \<Rightarrow> rat \<Rightarrow> (int \<times> rat) list \<Rightarrow> int" where
  "missed c t data = int (length (filter (\<lambda>(l, q). l = c \<and> q < t) data))"

text \<open>The reference: what flagging every score of at least \<open>t\<close> costs, a miss costing \<open>rt\<close> challenges.\<close>

definition expected_cost :: "int \<Rightarrow> (int \<times> rat) list \<Rightarrow> rat \<Rightarrow> int" where
  "expected_cost rt data t = 17 * rt * missed 1 t data + 17 * flagged 0 t data"

lemma filter_eq_take:
  assumes "\<forall>i<m. i < length xs \<longrightarrow> P (xs ! i)" "\<forall>i<length xs. m \<le> i \<longrightarrow> \<not> P (xs ! i)"
  shows "filter P xs = take m xs"
proof -
  have "filter P (take m xs) = take m xs" using assms(1) by (auto simp: filter_id_conv in_set_conv_nth)
  moreover have "filter P (drop m xs) = []" using assms(2) by (auto simp: filter_empty_conv in_set_conv_nth)
  ultimately show ?thesis by (metis append_Nil2 append_take_drop_id filter_append)
qed

lemma sum_indicator: "sum_list (map (\<lambda>x. if P x then 1 else 0) xs) = int (length (filter P xs))"
  by (induction xs) auto

lemma cut_counts:
  assumes "sorted_wrt (>) sq" "length ys = length sq" "k < length sq"
  shows "sum_list (take (Suc k) (map (\<lambda>l. if l = c then 1 else 0) ys)) = flagged c (sq ! k) (zip ys sq)"
proof -
  let ?d = "zip ys sq"
  have "filter (\<lambda>p. sq ! k \<le> snd p) ?d = take (Suc k) ?d"
  proof (intro filter_eq_take allI impI)
    fix i assume i: "i < Suc k" "i < length ?d"
    then have "sq ! k \<le> sq ! i"
      using assms by (cases "i = k") (auto simp: sorted_wrt_iff_nth_less intro: less_imp_le)
    with i assms(2) show "sq ! k \<le> snd (?d ! i)" by simp
  next
    fix i assume i: "i < length ?d" "Suc k \<le> i"
    then have "sq ! i < sq ! k" using assms by (auto simp: sorted_wrt_iff_nth_less)
    with i assms(2) show "\<not> sq ! k \<le> snd (?d ! i)" by simp
  qed
  moreover have "filter (\<lambda>(l, q). l = c \<and> sq ! k \<le> q) ?d = filter (\<lambda>p. fst p = c) (filter (\<lambda>p. sq ! k \<le> snd p) ?d)"
    by (auto simp: case_prod_unfold intro!: filter_cong)
  ultimately have "filter (\<lambda>(l, q). l = c \<and> sq ! k \<le> q) ?d = filter (\<lambda>p. fst p = c) (take (Suc k) ?d)"
    by simp
  moreover have "map (\<lambda>l. if l = c then 1 else 0) ys = map (\<lambda>l. if l = c then 1 else (0::int)) (map fst ?d)"
    using assms(2) by simp
  ultimately show ?thesis
    by (simp add: flagged_def take_map sum_indicator comp_def del: map_fst_zip)
qed

lemma missed_flagged: "missed c t data = int (length (filter (\<lambda>p. fst p = c) data)) - flagged c t data"
  by (induction data) (auto simp: missed_def flagged_def split: if_splits)

lemma flagged_mset: "mset d = mset d' \<Longrightarrow> flagged c t d = flagged c t d'"
  by (metis flagged_def mset_filter size_mset)

lemma missed_mset: "mset d = mset d' \<Longrightarrow> missed c t d = missed c t d'"
  by (metis missed_def mset_filter size_mset)

lemma ints_nth: "k < length ns \<Longrightarrow> ints ns ! k = Fin (of_int (ns ! k))"
  by (simp add: ints_def)

lemma sum_list_take_le: "\<forall>n\<in>set ns. 0 \<le> n \<Longrightarrow> sum_list (take k ns) \<le> sum_list (ns :: int list)"
proof -
  assume "\<forall>n\<in>set ns. 0 \<le> n"
  then have "0 \<le> sum_list (drop k ns)" by (intro sum_list_nonneg) (auto dest: in_set_dropD)
  moreover have "sum_list ns = sum_list (take k ns) + sum_list (drop k ns)"
    by (metis append_take_drop_id sum_list_append)
  ultimately show ?thesis by linarith
qed

lemma indicator_sum:
  "0 \<le> sum_list (map (\<lambda>l. if l = c then 1 else 0) ys :: int list) \<and>
   sum_list (map (\<lambda>l. if l = c then 1 else 0) ys :: int list) \<le> int (length ys)"
  by (simp add: sum_indicator)

text \<open>Arithmetic on small integers is exact.\<close>

lemma small_int_ops:
  "\<bar>a * b\<bar> \<le> 2 ^ 53 \<Longrightarrow> Fin (of_int a) * Fin (of_int b) = Fin (of_int (a * b))"
  "\<bar>a + b\<bar> \<le> 2 ^ 53 \<Longrightarrow> Fin (of_int a) + Fin (of_int b) = Fin (of_int (a + b))"
  "\<bar>a - b\<bar> \<le> 2 ^ 53 \<Longrightarrow> Fin (of_int a) - Fin (of_int b) = Fin (of_int (a - b))"
  using fl_f64 [OF f64_small_int [of "a * b"]] fl_f64 [OF f64_small_int [of "a + b"]]
    fl_f64 [OF f64_small_int [of "a - b"]]
  by simp_all

lemma exact_cost:
  assumes "1 \<le> rt" "rt \<le> 1000" "0 \<le> m" "m \<le> 2 ^ 20" "0 \<le> f" "f \<le> 2 ^ 20" "0 \<le> c" "c \<le> 2 ^ 20" "m = P - c"
  shows "float_of_int rt * COST_FP * (Fin (of_int P) - Fin (of_int c)) + COST_FP * Fin (of_int f) =
    Fin (of_int (17 * rt * m + 17 * f))"
proof -
  have rt: "float_of_int rt = Fin (of_int rt)"
    unfolding float_of_int_def by (rule fl_f64 [OF f64_small_int]) (use assms in simp)
  have cf: "COST_FP = Fin (of_int 17)" by (simp add: COST_FP_def)
  have b1: "0 \<le> rt * 17" "rt * 17 \<le> 17000" using assms by simp_all
  have b2: "0 \<le> rt * 17 * m" "rt * 17 * m \<le> 17825792000"
    using b1 assms(3, 4) mult_mono [of "rt * 17" 17000 m "2 ^ 20"] by simp_all
  define c1 where "c1 = rt * 17 * m"
  have d: "Fin (of_int P) - Fin (of_int c) = Fin (of_int m)"
    unfolding assms(9) by (rule small_int_ops) (use assms in simp)
  have p1: "Fin (of_int rt) * Fin (of_int 17) = Fin (of_int (rt * 17))" by (rule small_int_ops) (use b1 in simp)
  have p2: "Fin (of_int (rt * 17)) * Fin (of_int m) = Fin (of_int c1)"
    using b2 small_int_ops(1) [of "rt * 17" m] unfolding c1_def [symmetric] by simp
  have p3: "Fin (of_int 17) * Fin (of_int f) = Fin (of_int (17 * f))" by (rule small_int_ops) (use assms in simp)
  have "Fin (of_int c1) + Fin (of_int (17 * f)) = Fin (of_int (c1 + 17 * f))"
    by (rule small_int_ops) (use b2 assms(5, 6) in \<open>simp add: c1_def [symmetric]\<close>)
  moreover have "17 * rt * m + 17 * f = c1 + 17 * f" by (simp add: c1_def)
  ultimately show ?thesis by (simp only: rt cf d p1 p2 p3)
qed

lemma map_nth_mset: "mset os = mset [0..<length xs] \<Longrightarrow> mset (map ((!) xs) os) = mset xs"
  by (metis map_nth mset_map)

lemma nth_image_set: "mset os = mset [0..<n] \<Longrightarrow> set os = {0..<n}"
  by (metis atLeastLessThan_upt mset_eq_setD)

lemma sorted_neg_desc: "sorted (map uminus xs) \<Longrightarrow> distinct xs \<Longrightarrow> sorted_wrt (>) (xs :: rat list)"
  by (induction xs) (auto simp: order_less_le)

text \<open>The arrays of the analysis, sorted by falling score.\<close>

lemma by_score_desc:
  assumes laws: "argsort_law lib" and d: "distinct qs" and len: "length y = length qs"
  obtains ys sq where "by_score lib (map Fin qs) y = ys" "by_score lib (map Fin qs) (map Fin qs) = map Fin sq"
    "by_score lib (map Fin qs) (replicate (length qs) x) = replicate (length qs) x"
    "length ys = length qs" "length sq = length qs" "sorted_wrt (>) sq" "set sq = set qs"
    "mset (zip ys sq) = mset (zip y qs)"
proof -
  let ?os = "ml_argsort lib (map uminus (map Fin qs))"
  have u: "map uminus (map Fin qs) = map Fin (map uminus qs)" by simp
  have os: "mset ?os = mset [0..<length qs]" "sorted (map ((!) (map uminus qs)) ?os)"
    using laws unfolding argsort_law_def u by (metis length_map, metis)
  have sos: "set ?os = {0..<length qs}" by (rule nth_image_set [OF os(1)])
  have los: "length ?os = length qs" using os(1) by (metis diff_zero length_upt size_mset)
  let ?sq = "map ((!) qs) ?os" and ?ys = "map ((!) y) ?os"
  have zipm: "zip ?ys ?sq = map ((!) (zip y qs)) ?os"
    using sos len by (auto simp: zip_map_map zip_same_conv_map)
  have "mset (zip ?ys ?sq) = mset (zip y qs)"
    unfolding zipm by (rule map_nth_mset) (use os(1) len in simp)
  moreover have msq: "mset ?sq = mset qs" by (rule map_nth_mset [OF os(1)])
  then have dsq: "distinct ?sq" "set ?sq = set qs" using d by (metis distinct_count_atmost_1 set_mset_mset, metis set_mset_mset)
  have neg: "map ((!) (map uminus qs)) ?os = map uminus ?sq" using sos by simp
  have "sorted_wrt (>) ?sq" by (rule sorted_neg_desc [OF os(2) [unfolded neg] dsq(1)])
  moreover have "by_score lib (map Fin qs) (map Fin qs) = map Fin ?sq" using sos by (simp add: by_score_def)
  moreover have "by_score lib (map Fin qs) (replicate (length qs) x) = replicate (length qs) x"
  proof -
    have "map ((!) (replicate (length qs) x)) ?os = map (\<lambda>_. x) ?os" using sos by simp
    then show ?thesis by (simp only: by_score_def map_replicate_const los)
  qed
  ultimately show thesis
    using dsq(2) los by (intro that [of ?ys ?sq]) (auto simp: by_score_def)
qed


subsection \<open>Its limits\<close>

text \<open>
  Challenging nobody is not among the cuts: on a single genuine event it would cost nothing, and the analysis
  still challenges it.
\<close>

definition cost_of_nobody :: "int \<Rightarrow> (int \<times> rat) list \<Rightarrow> int" where
  "cost_of_nobody rt data = 17 * rt * int (length (filter (\<lambda>p. fst p = 1) data))"

lemma nobody_not_considered:
  "cost_of_nobody rt [(0, q)] = 0 \<and> (\<forall>t\<in>set (map snd [(0, q)]). 0 < expected_cost rt [(0::int, q)] t)"
  by (simp add: cost_of_nobody_def expected_cost_def missed_def flagged_def)

section \<open>A concrete library for the witnesses\<close>

definition rat_of :: "pyfloat \<Rightarrow> rat" where
  "rat_of x = (case x of Fin q \<Rightarrow> q | _ \<Rightarrow> 0)"

lemma rat_of_Fin [simp]: "rat_of (Fin q) = q"
  by (simp add: rat_of_def)

definition wit_metrics :: metric_lib where
  "wit_metrics =
     \<lparr> ml_roc_curve = (\<lambda>y s. ([Fin 0, Fin 1], [Fin 0, Fin 1], [PInf, Fin 0])),
       ml_roc_auc = (\<lambda>y s. Inr (Fin 1)), ml_pauc = (\<lambda>y s m. Inr (Fin 1)),
       ml_average_precision = (\<lambda>y s w. Inr (Fin 1)), ml_brier = (\<lambda>y s w. Fin 0), ml_trapz = (\<lambda>y x. Fin 1),
       ml_searchsorted_right = (\<lambda>xs v. length (takeWhile (\<lambda>x. x \<le> v) xs)),
       ml_argsort = (\<lambda>xs. sort_key (\<lambda>i. rat_of (xs ! i)) [0..<length xs]),
       ml_argmin = (\<lambda>xs. length (takeWhile (\<lambda>k. k \<noteq> Min (set (map rat_of xs))) (map rat_of xs))),
       ml_max = (\<lambda>xs. Fin 1), ml_nanmin = (\<lambda>xs. Fin 0), ml_nanmax = (\<lambda>xs. Fin 1),
       ml_cumsum = (\<lambda>xs. map (\<lambda>k. Fin (sum_list (map rat_of (take (Suc k) xs)))) [0..<length xs]),
       ml_sum = (\<lambda>xs. Fin (sum_list (map rat_of xs))),
       ml_average = (\<lambda>xs ws. Fin 0), ml_linspace = (\<lambda>n. []), ml_digitize = (\<lambda>es x. 0),
       ml_mean = (\<lambda>xs. Fin 0), ml_std = (\<lambda>xs. Fin 0), ml_percentile = (\<lambda>xs p. Fin 0) \<rparr>"

lemma takeWhile_searchsorted:
  assumes "sorted_wrt (\<le>) xs" "\<forall>x\<in>set xs. is_finite x" "is_finite v"
  shows "\<forall>j<length xs. length (takeWhile (\<lambda>x. x \<le> v) xs) \<le> j \<longrightarrow> v < xs ! j"
  using assms(1, 2)
proof (induction xs)
  case (Cons x xs)
  show ?case
  proof (cases "x \<le> v")
    case True
    with Cons show ?thesis by (auto simp: nth_Cons split: nat.splits)
  next
    case False
    have "v < z" if "z \<in> set (x # xs)" for z
    proof -
      have "x = z \<or> x \<le> z" using Cons.prems(1) that by auto
      moreover have "is_finite x" "is_finite z" using Cons.prems(2) that by auto
      ultimately show ?thesis using False assms(3) by (cases x; cases z; cases v) (auto simp: is_finite_def)
    qed
    with False show ?thesis using nth_mem [of _ "x # xs"] by auto
  qed
qed simp

lemma of_int_sum: "sum_list (map rat_of_int ns) = rat_of_int (sum_list ns)"
  by (induction ns) simp_all

lemma wit_metrics_laws: "metric_laws wit_metrics"
proof -
  have "roc_law wit_metrics" by (simp add: roc_law_def wit_metrics_def)
  moreover have "searchsorted_law wit_metrics"
    unfolding searchsorted_law_def
  proof (intro allI impI, elim conjE)
    fix xs v i
    assume a: "sorted_wrt (\<le>) xs" "\<forall>x\<in>set xs. is_finite x" "is_finite v"
      and i: "ml_searchsorted_right wit_metrics xs v = i"
    have "i = length (takeWhile (\<lambda>x. x \<le> v) xs)" using i by (simp add: wit_metrics_def)
    then show "i \<le> length xs \<and> (\<forall>j<i. xs ! j \<le> v) \<and> (\<forall>j<length xs. i \<le> j \<longrightarrow> v < xs ! j)"
      using takeWhile_searchsorted [OF a] by (auto simp: length_takeWhile_le dest: nth_length_takeWhile)
        (metis nth_mem set_takeWhileD takeWhile_nth)
  qed
  moreover have "argsort_law wit_metrics"
  proof -
    have "sorted (map ((!) ks) (sort_key (\<lambda>i. rat_of (map Fin ks ! i)) [0..<length ks]))" for ks
    proof -
      let ?os = "sort_key (\<lambda>i. rat_of (map Fin ks ! i)) [0..<length ks]"
      have eq: "map ((!) ks) ?os = map (\<lambda>i. rat_of (map Fin ks ! i)) ?os" by (rule map_cong) simp_all
      show ?thesis unfolding eq by (rule sorted_sort_key)
    qed
    then show ?thesis by (simp add: argsort_law_def wit_metrics_def)
  qed
  moreover have "argmin_law wit_metrics"
    unfolding argmin_law_def
  proof (intro allI impI)
    fix ks :: "rat list"
    assume ne: "ks \<noteq> []"
    let ?i = "length (takeWhile (\<lambda>k. k \<noteq> Min (set ks)) ks)"
    have "Min (set ks) \<in> set ks" using ne by (intro Min_in) simp_all
    then have "takeWhile (\<lambda>k. k \<noteq> Min (set ks)) ks \<noteq> ks" by (auto simp: takeWhile_eq_all_conv)
    then have "?i \<noteq> length ks" using takeWhile_eq_take [of "\<lambda>k. k \<noteq> Min (set ks)" ks] by auto
    then have l: "?i < length ks" using length_takeWhile_le [of "\<lambda>k. k \<noteq> Min (set ks)" ks] by linarith
    then have "ks ! ?i = Min (set ks)" using nth_length_takeWhile [OF l] by simp
    with l have "?i < length ks \<and> (\<forall>j<length ks. ks ! ?i \<le> ks ! j)" by simp
    then show "ml_argmin wit_metrics (map Fin ks) < length ks \<and>
        (\<forall>j<length ks. ks ! ml_argmin wit_metrics (map Fin ks) \<le> ks ! j)"
      by (simp add: wit_metrics_def comp_def image_image)
  qed
  moreover have "sum_law wit_metrics"
    by (simp add: sum_law_def wit_metrics_def ints_def take_map comp_def of_int_sum)
  ultimately show ?thesis by (simp add: metric_laws_def)
qed

theorem operating_point_is_best_witness:
  "\<exists>k p. make_roc_pack wit_metrics [0, 1] [Fin 0, Fin 1] (Fin 1) = Inr k \<and>
     op_at_fpr wit_metrics k (Fin (1 / 2)) = Inr p \<and> op_fpr p \<le> Fin (1 / 2)"
proof -
  obtain k where k: "make_roc_pack wit_metrics [0, 1] [Fin 0, Fin 1] (Fin 1) = Inr k"
    by (simp add: make_roc_pack_def wit_metrics_def py_div_def Let_def)
  from operating_point_is_best [OF wit_metrics_laws _ k, of "Fin (1 / 2)"] k show ?thesis
    by (auto simp: is_finite_def)
qed


end
