(* ===== verification/Headline.thy ===== *)
theory Headline
  imports Attestation
begin

text \<open>
  The reproducibility gate, \<^verbatim>\<open>scripts/check_headline.py\<close>, and the keep-or-replace summary,
  \<^verbatim>\<open>src/assemble_old_vs_new.py\<close>. Both read JSON artefacts from the disk, a map from paths to text read by the
  parameter \<open>js_loads\<close>. Regeneration before the gate (\<^verbatim>\<open>--regen\<close>) runs the two exports of theories \<open>Export\<close> and
  \<open>Cohorts\<close>; here it is a function on the disk. Console output is not modelled.

  The lemmas: the gate passes exactly when every headline number is read within its tolerance (and an absent
  adversarial report is not a failure); the summary keeps the entries it does not own.
\<close>

section \<open>The gate\<close>

text \<open>A claim: its name, metrics file, path into the JSON, expected value and tolerance.\<close>

type_synonym headline_check = "string \<times> string \<times> string list \<times> pyfloat \<times> pyfloat"

definition CHECKS :: "headline_check list" where
  "CHECKS =
     [(''CMU keystroke mean EER'', ''results/cmu_keystroke/metrics.json'', [''mean_eer''], fl 0.0955, fl 0.005),
      (''PaySim ROC-AUC'', ''results/paysim_full/metrics.json'', [''roc_auc''], fl 1.00, fl 0.01),
      (''PaySim PR-AUC'', ''results/paysim_full/metrics.json'', [''pr_auc''], fl 1.00, fl 0.02),
      (''RBA full ROC-AUC (no IP)'', ''results/evaluation/rba_full_noip/metrics_full.json'',
       [''threshold_free'', ''roc_auc''], fl 0.9934, fl 0.01),
      (''RBA full recall @1% step-up'', ''results/evaluation/rba_full_noip/metrics_full.json'',
       [''operating_points'', ''stepup_1pct'', ''recall''], fl 0.875, fl 0.04),
      (''DP export epsilon'', ''results/privacy_budget.json'', [''epsilon''], fl 1.1126, fl 0.25),
      (''Cold-start shipped step-up rate'', ''results/coldstart/report.json'',
       [''shipped_real_model_with_prior''], fl 0.0, fl 0.05)]"

type_synonym text_files = "string \<Rightarrow> string option"

fun dig :: "json \<Rightarrow> string list \<Rightarrow> py_exn + json" where
  "dig obj [] = Inr obj"
| "dig obj (k # ks) = sbind (json_item obj k) (\<lambda>v. dig v ks)"

datatype gate_failure = MissingFile string | CannotRead string | Drifted string | NotEarlier

definition check_claim :: "json_lib \<Rightarrow> text_files \<Rightarrow> headline_check \<Rightarrow> gate_failure option" where
  "check_claim J fs c =
     (case c of (name, rel, path, expected, tol) \<Rightarrow>
        (case fs rel of
           None \<Rightarrow> Some (MissingFile name)
         | Some content \<Rightarrow>
             (case sbind (sbind (js_loads J content) (\<lambda>v. dig v path)) (py_float J) of
                Inl e \<Rightarrow> Some (CannotRead name)
              | Inr got \<Rightarrow> if \<bar>got - expected\<bar> \<le> tol then None else Some (Drifted name))))"

text \<open>
  Python's comparison of two JSON values: numbers compare exactly, strings lexicographically; comparing two
  lists is not modelled, everything else raises.
\<close>

fun json_number :: "json \<Rightarrow> pyfloat option" where
  "json_number (JInt n) = Some (Fin (of_int n))"
| "json_number (JFloat f) = Some f"
| "json_number (JBool b) = Some (Fin (if b then 1 else 0))"
| "json_number _ = None"

definition json_less :: "json \<Rightarrow> json \<Rightarrow> py_exn + bool" where
  "json_less a b =
     (case (json_number a, json_number b) of
        (Some x, Some y) \<Rightarrow> Inr (x < y)
      | _ \<Rightarrow> (case (a, b) of
                (JStr s, JStr t) \<Rightarrow> Inr (s < t)
              | (JList _, JList _) \<Rightarrow> Inl Unmodelled
              | _ \<Rightarrow> Inl TypeError))"

text \<open>The adversarial report: NEW must be caught, and before OLD when OLD is caught at all.\<close>

definition ADVERSARIAL :: string where "ADVERSARIAL = ''results/adversarial/low_and_slow.json''"

definition check_adversarial :: "json_lib \<Rightarrow> text_files \<Rightarrow> py_exn + gate_failure option" where
  "check_adversarial J fs =
     (case fs ADVERSARIAL of
        None \<Rightarrow> Inr None
      | Some content \<Rightarrow>
          sbind (js_loads J content) (\<lambda>d.
          sbind (json_get d ''old_first_caught_session'') (\<lambda>old.
          sbind (json_get d ''new_first_caught_session'') (\<lambda>new.
          sbind (if new = JNull then Inr False else if old = JNull then Inr True else json_less new old) (\<lambda>ok.
          Inr (if ok then None else Some NotEarlier))))))"

definition headline_main ::
  "json_lib \<Rightarrow> (text_files \<Rightarrow> py_exn + text_files) \<Rightarrow> bool \<Rightarrow> text_files \<Rightarrow> py_exn + gate_failure list \<times> int" where
  "headline_main J regenerate regen fs0 =
     sbind (if regen then regenerate fs0 else Inr fs0) (\<lambda>fs.
     sbind (check_adversarial J fs) (\<lambda>adv.
       let failures = List.map_filter (check_claim J fs) CHECKS @ (case adv of None \<Rightarrow> [] | Some f \<Rightarrow> [f])
       in Inr (failures, if failures \<noteq> [] then 1 else 0)))"

section \<open>Old versus new\<close>

text \<open>\<^verbatim>\<open>_load\<close>, and \<^verbatim>\<open>d.get(k, default)\<close>.\<close>

definition load_json :: "json_lib \<Rightarrow> text_files \<Rightarrow> string \<Rightarrow> py_exn + json" where
  "load_json J fs p = (case fs p of None \<Rightarrow> Inr JNull | Some content \<Rightarrow> js_loads J content)"

definition get_default :: "json \<Rightarrow> string \<Rightarrow> json \<Rightarrow> py_exn + json" where
  "get_default p k dflt =
     (case p of JObj d \<Rightarrow> Inr (case map_of d k of None \<Rightarrow> dflt | Some v \<Rightarrow> v) | _ \<Rightarrow> Inl AttributeError)"

definition json_or :: "json \<Rightarrow> json \<Rightarrow> json" where
  "json_or a b = (if json_truthy a then a else b)"

text \<open>\<^verbatim>\<open>out[k] = v\<close>.\<close>

definition json_set :: "json \<Rightarrow> string \<Rightarrow> json \<Rightarrow> py_exn + json" where
  "json_set out k v = (case out of JObj d \<Rightarrow> Inr (JObj (dict_set k v d)) | _ \<Rightarrow> Inl TypeError)"

definition rba_entry :: "json \<Rightarrow> json \<Rightarrow> py_exn + json" where
  "rba_entry full sample =
     (let smp = json_or sample (JObj []) in
      sbind (json_get smp ''roc_auc'') (\<lambda>old_roc.
      sbind (get_default smp ''at_fixed_fpr'' (JObj [])) (\<lambda>fixed.
      sbind (get_default fixed ''fpr_1pct'' (JObj [])) (\<lambda>pct.
      sbind (json_get pct ''recall'') (\<lambda>old_recall.
      sbind (dig full [''threshold_free'', ''roc_auc'']) (\<lambda>new_roc.
      sbind (dig full [''operating_points'', ''stepup_1pct'', ''recall'']) (\<lambda>new_1.
      sbind (dig full [''operating_points'', ''stepup_2pct'', ''recall'']) (\<lambda>new_2.
      Inr (JObj
        [(''detection'', JStr ''rba''),
         (''incumbent'', JObj [(''model'', JStr ''sample-based HGB (unreproducible 2% neg sample)''),
                               (''roc_auc'', old_roc), (''recall_1pct'', old_recall)]),
         (''replacement'', JObj [(''model'', JStr ''full-data HGB (6.79M-login test, no IP feed)''),
                                 (''roc_auc'', new_roc), (''recall_1pct'', new_1), (''recall_2pct'', new_2)]),
         (''decision'', JStr ''replace''),
         (''decision_rule'', JStr (''the committed sample scores did not reproduce from code; the '' @
            ''full-data stream is reproducible AND improved the held-out numbers''))])))))))))"

text \<open>\<^verbatim>\<open>(inc or 0) + 0.01\<close> and \<^verbatim>\<open>lgbv <= ...\<close>.\<close>

definition incumbent_margin :: "json_lib \<Rightarrow> json \<Rightarrow> py_exn + pyfloat" where
  "incumbent_margin J inc =
     (case json_or inc (JInt 0) of
        JStr _ \<Rightarrow> Inl TypeError
      | v \<Rightarrow> sbind (py_float J v) (\<lambda>f. Inr (f + fl 0.01)))"

definition paysim_decision :: "json_lib \<Rightarrow> json \<Rightarrow> json \<Rightarrow> py_exn + string" where
  "paysim_decision J inc lgbv =
     sbind (if lgbv = JNull then Inr True
            else sbind (incumbent_margin J inc) (\<lambda>m.
              case json_number lgbv of None \<Rightarrow> Inl TypeError | Some x \<Rightarrow> Inr (x \<le> m))) (\<lambda>keep.
       Inr (if keep then ''keep_incumbent'' else ''lightgbm wins on val; verify on test before replacing''))"

definition paysim_entry :: "json_lib \<Rightarrow> json \<Rightarrow> py_exn + json" where
  "paysim_entry J pb =
     sbind (get_default pb ''behavioral_only_bakeoff_val'' (JObj [])) (\<lambda>bake.
     sbind (sbind (get_default bake ''hist_gbdt_incumbent'' (JObj [])) (\<lambda>m. json_get m ''pr_auc'')) (\<lambda>inc.
     sbind (sbind (get_default bake ''lightgbm'' (JObj [])) (\<lambda>m. json_get m ''pr_auc'')) (\<lambda>lgbv.
     sbind (paysim_decision J inc lgbv) (\<lambda>decision.
     sbind (json_get pb ''leak_robustness_full'') (\<lambda>leak.
     Inr (JObj
       [(''detection'', JStr ''paysim''),
        (''incumbent_val_pr_auc_behavioral'', inc),
        (''lightgbm_val_pr_auc_behavioral'', lgbv),
        (''full_features'', JStr (''ROC and PR-AUC at separability ceiling (1.000); reported as upper '' @
           ''bound, behaviour-only is the realistic arm'')),
        (''leak_robustness'', leak),
        (''decision'', JStr decision)]))))))"

definition cmu_entry :: "json \<Rightarrow> py_exn + json" where
  "cmu_entry cm =
     sbind (json_get cm ''scaled_manhattan_mean_eer'') (\<lambda>man.
     sbind (json_get cm ''mahalanobis_mean_eer'') (\<lambda>mah.
     Inr (JObj
       [(''detection'', JStr ''cmu_keystroke''),
        (''incumbent_scaled_manhattan_eer'', man),
        (''alternative_mahalanobis_eer'', mah),
        (''decision'', JStr ''keep_incumbent''),
        (''decision_rule'', JStr ''scaled-Manhattan has lower mean EER and is the published anchor'')])))"

definition cert_entry :: "json \<Rightarrow> py_exn + json" where
  "cert_entry ce =
     sbind (json_get ce ''incumbent_unsupervised_iforest'') (\<lambda>inc.
     sbind (json_get ce ''supervised_user_grouped_upper_bound'') (\<lambda>sup.
     Inr (JObj
       [(''detection'', JStr ''cert''),
        (''incumbent_unsupervised'', inc),
        (''supervised_upper_bound_not_deployable'', sup),
        (''decision'', JStr ''keep_incumbent''),
        (''decision_rule'', JStr (''production has no insider labels at train time; the supervised '' @
           ''number is context only''))])))"

text \<open>One block \<^verbatim>\<open>if artefact: out[k] = entry\<close>.\<close>

definition add_entry :: "json \<Rightarrow> string \<Rightarrow> (json \<Rightarrow> py_exn + json) \<Rightarrow> json \<Rightarrow> py_exn + json" where
  "add_entry artefact k entry out =
     (if json_truthy artefact then sbind (entry artefact) (json_set out k) else Inr out)"

definition EVAL :: "string \<Rightarrow> string" where
  "EVAL p = ''results/evaluation/'' @ p"

definition old_vs_new :: "json_lib \<Rightarrow> text_files \<Rightarrow> py_exn + json" where
  "old_vs_new J fs =
     sbind (load_json J fs (EVAL ''old_vs_new.json'')) (\<lambda>prev.
     sbind (load_json J fs (EVAL ''rba_full_noip/metrics_full.json'')) (\<lambda>full.
     sbind (load_json J fs ''results/rba_noip/metrics.json'') (\<lambda>sample.
     sbind (add_entry full ''rba'' (\<lambda>f. rba_entry f sample) (json_or prev (JObj []))) (\<lambda>out1.
     sbind (load_json J fs (EVAL ''paysim_full/tuning/bakeoff.json'')) (\<lambda>pb.
     sbind (add_entry pb ''paysim'' (paysim_entry J) out1) (\<lambda>out2.
     sbind (load_json J fs (EVAL ''cmu_keystroke/tuning/bakeoff.json'')) (\<lambda>cm.
     sbind (add_entry cm ''cmu_keystroke'' cmu_entry out2) (\<lambda>out3.
     sbind (load_json J fs (EVAL ''cert_score_iforest/tuning/bakeoff.json'')) (\<lambda>ce.
     add_entry ce ''cert'' cert_entry out3)))))))))"

definition assemble_main :: "json_lib \<Rightarrow> text_files \<Rightarrow> py_exn + text_files" where
  "assemble_main J fs =
     sbind (old_vs_new J fs) (\<lambda>out. Inr (fs(EVAL ''old_vs_new.json'' \<mapsto> js_dumps J out)))"

section \<open>Lemmas\<close>

lemma map_filter_Nil_iff: "List.map_filter f xs = [] \<longleftrightarrow> (\<forall>x\<in>set xs. f x = None)"
  by (induction xs) (auto simp: List.map_filter_simps split: option.splits)

definition claim_supported :: "json_lib \<Rightarrow> text_files \<Rightarrow> headline_check \<Rightarrow> bool" where
  "claim_supported J fs c \<longleftrightarrow>
     (case c of (name, rel, path, expected, tol) \<Rightarrow>
        \<exists>content v x got. fs rel = Some content \<and> js_loads J content = Inr v \<and> dig v path = Inr x \<and>
          py_float J x = Inr got \<and> \<bar>got - expected\<bar> \<le> tol)"

lemma check_claim_None: "check_claim J fs c = None \<longleftrightarrow> claim_supported J fs c"
  by (cases c) (auto simp: check_claim_def claim_supported_def sbind_eq_Inr sbind_eq_Inl
      split: option.splits sum.splits if_splits)

text \<open>Within tolerance, a committed number is finite.\<close>

lemma supported_finite:
  assumes "claim_supported J fs (name, rel, path, fl e, fl t)" "is_finite (fl e)" "is_finite (fl t)"
  obtains content v x q where "fs rel = Some content" "js_loads J content = Inr v" "dig v path = Inr x"
    "py_float J x = Inr (Fin q)"
proof -
  from assms(1) obtain content v x got where g: "fs rel = Some content" "js_loads J content = Inr v"
    "dig v path = Inr x" "py_float J x = Inr got" "\<bar>got - fl e\<bar> \<le> fl t"
    by (auto simp: claim_supported_def)
  from assms(2, 3) obtain a b where ab: "fl e = Fin a" "fl t = Fin b"
    by (auto simp: is_finite_def split: pyfloat.splits)
  from g(5) obtain q where "got = Fin q"
    unfolding ab by (cases got) (auto simp: minus_pyfloat_def)
  with g show thesis by (blast intro: that)
qed

lemma missing_report_passes: "fs ADVERSARIAL = None \<Longrightarrow> check_adversarial J fs = Inr None"
  by (simp add: check_adversarial_def)

lemma add_entry_other:
  assumes "add_entry artefact k entry (JObj d) = Inr out"
  shows "\<exists>d'. out = JObj d' \<and> (\<forall>j. j \<noteq> k \<longrightarrow> map_of d' j = map_of d j)"
  using assms by (auto simp: add_entry_def json_set_def sbind_eq_Inr split: if_splits)

text \<open>The decision on the keystroke detector does not look at either error rate.\<close>

lemma cmu_decision_fixed:
  "cmu_entry (JObj d) = Inr e \<Longrightarrow> json_item e ''decision'' = Inr (JStr ''keep_incumbent'')"
  by (auto simp: cmu_entry_def json_get_def json_item_def ditem_def)

section \<open>Properties\<close>


text \<open>
  Assembling the summary leaves the entries of other detections, the IEEE comparison among them, as they
  were.
\<close>

theorem foreign_entries_preserved:
  assumes "old_vs_new J fs = Inr out" "load_json J fs (EVAL ''old_vs_new.json'') = Inr (JObj prev)"
    and "k \<notin> {''rba'', ''paysim'', ''cmu_keystroke'', ''cert''}"
  shows "\<exists>d. out = JObj d \<and> map_of d k = map_of prev k"
proof -
  have p: "json_or (JObj prev) (JObj []) = JObj prev" by (simp add: json_or_def)
  from assms(1, 2) obtain full sample pb cm ce out1 out2 out3 where
    s1: "add_entry full ''rba'' (\<lambda>f. rba_entry f sample) (JObj prev) = Inr out1"
    and s2: "add_entry pb ''paysim'' (paysim_entry J) out1 = Inr out2"
    and s3: "add_entry cm ''cmu_keystroke'' cmu_entry out2 = Inr out3"
    and s4: "add_entry ce ''cert'' cert_entry out3 = Inr out"
    by (auto simp: old_vs_new_def sbind_eq_Inr p)
  from add_entry_other [OF s1] obtain d1 where d1: "out1 = JObj d1" "\<forall>j. j \<noteq> ''rba'' \<longrightarrow> map_of d1 j = map_of prev j"
    by blast
  from add_entry_other [OF s2 [unfolded d1(1)]] obtain d2 where
    d2: "out2 = JObj d2" "\<forall>j. j \<noteq> ''paysim'' \<longrightarrow> map_of d2 j = map_of d1 j" by blast
  from add_entry_other [OF s3 [unfolded d2(1)]] obtain d3 where
    d3: "out3 = JObj d3" "\<forall>j. j \<noteq> ''cmu_keystroke'' \<longrightarrow> map_of d3 j = map_of d2 j" by blast
  from add_entry_other [OF s4 [unfolded d3(1)]] obtain d4 where
    d4: "out = JObj d4" "\<forall>j. j \<noteq> ''cert'' \<longrightarrow> map_of d4 j = map_of d3 j" by blast
  from d4 d3(2) d2(2) d1(2) assms(3) show ?thesis by auto
qed

definition wit_report_json :: json_lib where
  "wit_report_json =
     \<lparr> js_dumps = (\<lambda>v. []), js_loads = (\<lambda>s. Inr (JObj [(''ieee_cis'', JStr ''kept'')])),
       js_float = (\<lambda>s. None), js_str = (\<lambda>v. []) \<rparr>"

definition wit_files :: text_files where
  "wit_files = [EVAL ''old_vs_new.json'' \<mapsto> ''{}'', EVAL ''cmu_keystroke/tuning/bakeoff.json'' \<mapsto> ''{}'']"

theorem foreign_entries_preserved_witness:
  "\<exists>out d. old_vs_new wit_report_json wit_files = Inr out \<and> out = JObj d \<and> map_of d ''ieee_cis'' = Some (JStr ''kept'')"
proof -
  have l: "load_json wit_report_json wit_files (EVAL ''old_vs_new.json'') = Inr (JObj [(''ieee_cis'', JStr ''kept'')])"
    by (simp add: load_json_def wit_report_json_def wit_files_def EVAL_def)
  obtain out where o: "old_vs_new wit_report_json wit_files = Inr out"
    by (simp add: old_vs_new_def load_json_def wit_report_json_def wit_files_def EVAL_def add_entry_def cmu_entry_def
        json_get_def json_or_def json_set_def)
  from foreign_entries_preserved [OF o l, of "''ieee_cis''"] o show ?thesis by auto
qed

end
