(* ===== verification/Evaluation.thy ===== *)
theory Evaluation
  imports Metrics Headline
begin

text \<open>
  The reports built on the metric protocol: bootstrap and full suite of \<^verbatim>\<open>src/eval_full.py\<close>, the short report of
  \<^verbatim>\<open>src/pramaan_eval.py\<close>, the key metrics of \<^verbatim>\<open>src/seed_sweep.py\<close> and \<^verbatim>\<open>src/tune.py\<close>, the equal error rate of
  \<^verbatim>\<open>src/phaseb_extra.py\<close>, the paired bootstrap of \<^verbatim>\<open>src/evaluate_tuned.py\<close>, the alert-budget sweep of
  \<^verbatim>\<open>src/evaluate.py\<close>, the leaderboard, and the travel flag of \<^verbatim>\<open>src/impossible_travel_lift.py\<close>. numpy's generator
  is a state with a function that draws positions.

  The lemmas: an alert budget is kept on every day and a larger one loses no insider; a travel flag has an
  earlier login of the same user behind it; the leaderboard row of a detection repeats its report.
\<close>

section \<open>The bootstrap\<close>

record boot_acc =
  ba_roc :: "pyfloat list"
  ba_pr :: "pyfloat list"
  ba_r1 :: "pyfloat list"
  ba_r2 :: "pyfloat list"
  ba_r5 :: "pyfloat list"

text \<open>The body of \<^verbatim>\<open>try\<close>: what was appended before an exception stays.\<close>

definition boot_scores ::
  "metric_lib \<Rightarrow> int list \<Rightarrow> pyfloat list \<Rightarrow> pyfloat list \<Rightarrow> boot_acc \<Rightarrow> boot_acc" where
  "boot_scores lib yb sb wb acc =
     (case ml_roc_auc lib yb sb of
        Inl _ \<Rightarrow> acc
      | Inr roc \<Rightarrow>
        let acc1 = acc\<lparr>ba_roc := ba_roc acc @ [roc]\<rparr> in
        (case ml_average_precision lib yb sb wb of
           Inl _ \<Rightarrow> acc1
         | Inr ap \<Rightarrow>
           let acc2 = acc1\<lparr>ba_pr := ba_pr acc1 @ [ap]\<rparr>;
               (fpr, tpr, thr) = ml_roc_curve lib yb sb
           in (case recall_at lib fpr tpr (fl 0.01) of
                 Inl _ \<Rightarrow> acc2
               | Inr r1 \<Rightarrow>
                 let acc3 = acc2\<lparr>ba_r1 := ba_r1 acc2 @ [r1]\<rparr> in
                 (case recall_at lib fpr tpr (fl 0.02) of
                    Inl _ \<Rightarrow> acc3
                  | Inr r2 \<Rightarrow>
                    let acc4 = acc3\<lparr>ba_r2 := ba_r2 acc3 @ [r2]\<rparr> in
                    (case recall_at lib fpr tpr (fl 0.05) of
                       Inl _ \<Rightarrow> acc4
                     | Inr r5 \<Rightarrow> acc4\<lparr>ba_r5 := ba_r5 acc4 @ [r5]\<rparr>)))))"

definition positions :: "int \<Rightarrow> int list \<Rightarrow> nat list" where
  "positions c y = filter (\<lambda>i. y ! i = c) [0..<length y]"

fun boot_loop ::
  "metric_lib \<Rightarrow> ('g \<Rightarrow> nat list \<Rightarrow> nat \<Rightarrow> 'g \<times> nat list) \<Rightarrow> int list \<Rightarrow> pyfloat list \<Rightarrow> pyfloat \<Rightarrow> nat \<Rightarrow> nat \<Rightarrow>
   'g \<Rightarrow> boot_acc \<Rightarrow> boot_acc" where
  "boot_loop lib choice y s neg_w n_neg_draw 0 g acc = acc"
| "boot_loop lib choice y s neg_w n_neg_draw (Suc n) g acc =
     (let pos = positions 1 y; neg = positions 0 y;
          (g1, bp) = choice g pos (length pos);
          (g2, bn) = choice g1 neg n_neg_draw;
          bi = bp @ bn; yb = map ((!) y) bi; sb = map ((!) s) bi;
          wb = map (\<lambda>c. if c = 1 then fl 1 else neg_w) yb
      in boot_loop lib choice y s neg_w n_neg_draw n g2
           (if sum_list yb = 0 \<or> count_label 0 yb = 0 then acc else boot_scores lib yb sb wb acc))"

record boot_ci =
  bc_mean :: pyfloat
  bc_std :: pyfloat
  bc_lo :: pyfloat
  bc_hi :: pyfloat

definition ci_of :: "metric_lib \<Rightarrow> pyfloat list \<Rightarrow> boot_ci option" where
  "ci_of lib v =
     (if v = [] then None
      else Some \<lparr> bc_mean = py_round 4 (ml_mean lib v), bc_std = py_round 4 (ml_std lib v),
                  bc_lo = py_round 4 (ml_percentile lib v (fl 2.5)), bc_hi = py_round 4 (ml_percentile lib v (fl 97.5)) \<rparr>)"

definition bootstrap ::
  "metric_lib \<Rightarrow> ('g \<Rightarrow> nat list \<Rightarrow> nat \<Rightarrow> 'g \<times> nat list) \<Rightarrow> 'g \<Rightarrow> int list \<Rightarrow> pyfloat list \<Rightarrow> pyfloat \<Rightarrow> nat \<Rightarrow>
   nat option \<Rightarrow> py_exn + (string \<times> boot_ci) list" where
  "bootstrap lib choice g y s neg_rate n boot_neg_cap =
     sbind (py_div (fl 1) neg_rate) (\<lambda>neg_w0.
     let n_neg = length (positions 0 y) in
     sbind (case boot_neg_cap of
              None \<Rightarrow> Inr (n_neg, neg_w0)
            | Some cap \<Rightarrow>
                if cap < n_neg
                then sbind (py_div (float_of_int (int n_neg)) (float_of_int (int cap))) (\<lambda>q.
                     sbind (py_div q neg_rate) (\<lambda>nw. Inr (cap, nw)))
                else Inr (n_neg, neg_w0)) (\<lambda>(n_draw, neg_w).
     let acc = boot_loop lib choice y s neg_w n_draw n g
                 \<lparr> ba_roc = [], ba_pr = [], ba_r1 = [], ba_r2 = [], ba_r5 = [] \<rparr>
     in Inr (List.map_filter (\<lambda>(k, v). map_option (\<lambda>c. (k, c)) (ci_of lib v))
          [(''roc_auc'', ba_roc acc), (''pr_auc'', ba_pr acc), (''recall_1pct'', ba_r1 acc),
           (''recall_2pct'', ba_r2 acc), (''recall_5pct'', ba_r5 acc)])))"

section \<open>Reports\<close>

record suite_report =
  su_name :: string
  su_n_pos :: int
  su_n_neg :: int
  su_n_neg_full :: int
  su_base_rate :: pyfloat
  su_threshold_free :: tf_metrics
  su_operating_points :: "op_report list"
  su_calibration :: "calibration_report option"
  su_cost :: cost_report
  su_boot :: "(string \<times> boot_ci) list"

definition full_suite ::
  "metric_lib \<Rightarrow> ('g \<Rightarrow> nat list \<Rightarrow> nat \<Rightarrow> 'g \<times> nat list) \<Rightarrow> 'g \<Rightarrow> string \<Rightarrow> int list \<Rightarrow> pyfloat list \<Rightarrow> pyfloat \<Rightarrow>
   pyfloat list option \<Rightarrow> bool \<Rightarrow> bool option \<Rightarrow> nat option \<Rightarrow> nat \<Rightarrow> py_exn + suite_report" where
  "full_suite lib choice g name y s neg_rate loss do_boot is_proba boot_neg_cap n_boot =
     sbind (threshold_free lib y s neg_rate) (\<lambda>tf.
     sbind (operating_points lib y s neg_rate FPR_TARGETS) (\<lambda>(ops, base_rate).
     sbind (calibration lib y s neg_rate 10 is_proba) (\<lambda>cal.
     sbind (cost_analysis lib y s neg_rate loss COST_FP [10, 100, 1000]) (\<lambda>cost.
     sbind (if do_boot then bootstrap lib choice g y s neg_rate n_boot boot_neg_cap else Inr []) (\<lambda>boot.
     sbind (sbind (py_div (float_of_int (count_label 0 y)) neg_rate) round_int) (\<lambda>n_full.
     Inr \<lparr> su_name = name, su_n_pos = count_label 1 y, su_n_neg = count_label 0 y, su_n_neg_full = n_full,
           su_base_rate = base_rate, su_threshold_free = tf, su_operating_points = ops,
           su_calibration = cal, su_cost = cost, su_boot = boot \<rparr>))))))"

text \<open>\<^verbatim>\<open>pramaan_eval.evaluate\<close>: the operating point, its confusion matrix on the sampled negatives, the fixed FPRs.\<close>

record eval_report =
  er_roc_auc :: pyfloat
  er_pr_auc :: pyfloat
  er_op :: op_point
  er_tp :: int
  er_fn :: int
  er_fp :: int
  er_tn :: int
  er_fixed :: "op_point list"

definition round_op :: "op_point \<Rightarrow> op_point" where
  "round_op p = \<lparr> op_fpr = py_round 4 (op_fpr p), op_recall = py_round 4 (op_recall p),
                  op_precision = py_round 4 (op_precision p), op_threshold = py_round 4 (op_threshold p) \<rparr>"

definition pe_evaluate ::
  "metric_lib \<Rightarrow> int list \<Rightarrow> pyfloat list \<Rightarrow> pyfloat \<Rightarrow> pyfloat \<Rightarrow> py_exn + eval_report" where
  "pe_evaluate lib y s neg_rate op_target =
     sbind (make_roc_pack lib y s neg_rate) (\<lambda>k.
     sbind (ml_roc_auc lib y s) (\<lambda>roc.
     sbind (try_map (op_at_fpr lib k) [fl 0.005, fl 0.01, fl 0.02, fl 0.05]) (\<lambda>ops.
     sbind (op_at_fpr lib k op_target) (\<lambda>p.
     let pr_auc = ml_trapz lib (map (\<lambda>p. if p = NaN then fl 1 else p) (rk_precision k)) (rk_tpr k);
         P = count_label 1 y; N = count_label 0 y in
     sbind (round_int (op_recall p * float_of_int P)) (\<lambda>tp.
     sbind (round_int (op_fpr p * float_of_int N)) (\<lambda>fp.
     Inr \<lparr> er_roc_auc = py_round 4 roc, er_pr_auc = py_round 4 pr_auc, er_op = round_op p,
           er_tp = tp, er_fn = P - tp, er_fp = fp, er_tn = N - fp, er_fixed = map round_op ops \<rparr>))))))"

record key_metrics =
  km_pr_auc :: pyfloat
  km_roc_auc :: pyfloat
  km_r1 :: pyfloat
  km_r2 :: pyfloat
  km_r5 :: pyfloat

definition key_metrics_of :: "metric_lib \<Rightarrow> int list \<Rightarrow> pyfloat list \<Rightarrow> pyfloat \<Rightarrow> py_exn + key_metrics" where
  "key_metrics_of lib y s neg_rate =
     sbind (sample_weights y neg_rate) (\<lambda>w.
     sbind (ml_average_precision lib y s w) (\<lambda>ap.
     sbind (ml_roc_auc lib y s) (\<lambda>roc.
     let (fpr, tpr, thr) = ml_roc_curve lib y s in
     sbind (recall_at lib fpr tpr (fl 0.01)) (\<lambda>r1.
     sbind (recall_at lib fpr tpr (fl 0.02)) (\<lambda>r2.
     sbind (recall_at lib fpr tpr (fl 0.05)) (\<lambda>r5.
     Inr \<lparr> km_pr_auc = ap, km_roc_auc = roc, km_r1 = r1, km_r2 = r2, km_r5 = r5 \<rparr>))))))"

text \<open>\<^verbatim>\<open>_eer\<close>: the point of the curve where the two error rates are closest.\<close>

definition eer :: "metric_lib \<Rightarrow> pyfloat list \<Rightarrow> pyfloat list \<Rightarrow> py_exn + pyfloat" where
  "eer lib fpr tpr =
     (if fpr = [] then Inl ValueError
      else let i = ml_argmin lib (map2 (\<lambda>f t. \<bar>f - (fl 1 - t)\<bar>) fpr tpr) in
        sbind (item fpr i) (\<lambda>f. sbind (item tpr i) (\<lambda>t. Inr (fdiv (f + fl 1 - t) (fl 2)))))"

definition eer_of :: "metric_lib \<Rightarrow> pyfloat list \<Rightarrow> pyfloat list \<Rightarrow> py_exn + pyfloat" where
  "eer_of lib s_gen s_imp =
     (let (fpr, tpr, thr) = ml_roc_curve lib (replicate (length s_gen) 0 @ replicate (length s_imp) 1) (s_gen @ s_imp)
      in eer lib fpr tpr)"

section \<open>Old against new\<close>

fun paired_loop ::
  "metric_lib \<Rightarrow> ('g \<Rightarrow> nat list \<Rightarrow> nat \<Rightarrow> 'g \<times> nat list) \<Rightarrow> int list \<Rightarrow> pyfloat list \<Rightarrow> pyfloat list \<Rightarrow> nat \<Rightarrow> 'g \<Rightarrow>
   py_exn + (pyfloat \<times> pyfloat) list" where
  "paired_loop lib choice y s_old s_new 0 g = Inr []"
| "paired_loop lib choice y s_old s_new (Suc n) g =
     (let pos = positions 1 y; neg = positions 0 y;
          (g1, bp) = choice g pos (length pos);
          (g2, bn) = choice g1 neg (length neg);
          bi = bp @ bn; yb = map ((!) y) bi; so = map ((!) s_old) bi; sn = map ((!) s_new) bi;
          ones = map (\<lambda>_. fl 1) yb;
          rec = (\<lambda>s. let (fpr, tpr, thr) = ml_roc_curve lib yb s in recall_at lib fpr tpr (fl 0.02))
      in sbind (ml_average_precision lib yb sn ones) (\<lambda>an.
         sbind (ml_average_precision lib yb so ones) (\<lambda>ao.
         sbind (rec sn) (\<lambda>rn. sbind (rec so) (\<lambda>ro.
         sbind (paired_loop lib choice y s_old s_new n g2) (\<lambda>ds. Inr ((an - ao, rn - ro) # ds))))))) "

section \<open>The alert budget\<close>

record cert_score =
  cs_user :: string
  cs_day :: string
  cs_y :: int

text \<open>\<^verbatim>\<open>groupby(key).head(k)\<close>: the first \<open>k\<close> rows of each group, in their order; here per day on rows sorted by score.\<close>

fun head_per :: "('a \<Rightarrow> string) \<Rightarrow> nat \<Rightarrow> string list \<Rightarrow> 'a list \<Rightarrow> 'a list" where
  "head_per key k seen [] = []"
| "head_per key k seen (r # rs) =
     (if length (filter ((=) (key r)) seen) < k
      then r # head_per key k (key r # seen) rs else head_per key k (key r # seen) rs)"

definition head_per_day :: "nat \<Rightarrow> cert_score list \<Rightarrow> cert_score list" where
  "head_per_day k rows = head_per cs_day k [] rows"

record budget_row =
  bg_budget :: nat
  bg_userday_recall :: pyfloat
  bg_detected :: nat
  bg_total :: nat
  bg_rate :: "pyfloat"
  bg_by_scenario :: "(int \<times> nat \<times> nat) list"

definition detected :: "nat \<Rightarrow> cert_score list \<Rightarrow> string set" where
  "detected k rows = set (map cs_user (filter (\<lambda>r. cs_y r = 1) (head_per_day k rows)))"

definition insiders :: "cert_score list \<Rightarrow> string set" where
  "insiders rows = set (map cs_user (filter (\<lambda>r. cs_y r = 1) rows))"

definition budget_row_of :: "cert_score list \<Rightarrow> (int \<times> string list) list \<Rightarrow> nat \<Rightarrow> py_exn + budget_row" where
  "budget_row_of rows by_scen k =
     (let det = detected k rows; ins = insiders rows;
          f_mal = filter (\<lambda>r. cs_y r = 1) (head_per_day k rows);
          quot = (\<lambda>a b. fl (of_int a / of_int b))
      in if card ins = 0 then Inl ZeroDivisionError
         else Inr \<lparr> bg_budget = k,
                    bg_userday_recall = py_round 4 (quot (int (length f_mal)) (max (sum_list (map cs_y rows)) 1)),
                    bg_detected = card det, bg_total = card ins,
                    bg_rate = py_round 4 (quot (int (card det)) (int (card ins))),
                    bg_by_scenario = map (\<lambda>(sc, us). (sc, card (det \<inter> set us), card (set us))) (sort_key fst by_scen) \<rparr>)"

definition budget_sweep :: "cert_score list \<Rightarrow> (int \<times> string list) list \<Rightarrow> py_exn + budget_row list" where
  "budget_sweep rows by_scen = try_map (budget_row_of rows by_scen) [5, 10, 25, 50]"

section \<open>The leaderboard\<close>

definition leaderboard_row :: "json_lib \<Rightarrow> json \<Rightarrow> py_exn + (string \<times> json) list option" where
  "leaderboard_row J m =
     sbind (json_get m ''threshold_free'') (\<lambda>tf.
     if json_truthy tf then
       sbind (sbind (json_item m ''operating_points'') (\<lambda>ops. get_default ops ''stepup_2pct'' (JObj []))) (\<lambda>op2.
       sbind (sbind (get_default m ''bootstrap_ci_95'' (JObj [])) (\<lambda>b. get_default b ''pr_auc'' (JObj []))) (\<lambda>boot.
       sbind (json_item m ''name'') (\<lambda>name. sbind (json_get m ''n_pos'') (\<lambda>n_pos.
       sbind (json_item tf ''pr_auc'') (\<lambda>pr. sbind (json_item tf ''roc_auc'') (\<lambda>roc.
       sbind (json_item tf ''pauc_fpr_le_1pct_standardized'') (\<lambda>pauc. sbind (json_item tf ''ks_statistic'') (\<lambda>ks.
       sbind (json_item tf ''gini'') (\<lambda>gini. sbind (json_get op2 ''recall'') (\<lambda>r2. sbind (json_get op2 ''f2'') (\<lambda>f2.
       sbind (get_default boot ''ci95'' (JList [JNull, JNull])) (\<lambda>ci.
       (case ci of
          JList (lo # hi # _) \<Rightarrow> Inr (Some
            [(''detection'', name), (''n_pos'', n_pos), (''pr_auc'', pr), (''roc_auc'', roc), (''pauc_1pct'', pauc),
             (''ks'', ks), (''gini'', gini), (''recall_at_2pct'', r2), (''f2_at_2pct'', f2),
             (''pr_auc_ci_lo'', lo), (''pr_auc_ci_hi'', hi)])
        | JList _ \<Rightarrow> Inl IndexError
        | _ \<Rightarrow> Inl Unmodelled)))))))))))))
     else (case m of
       JObj d \<Rightarrow>
         if map_of d ''mean_eer'' \<noteq> None
         then sbind (json_item m ''name'') (\<lambda>name. sbind (json_get m ''global_roc_auc'') (\<lambda>roc.
              sbind (json_item m ''mean_eer'') (\<lambda>e.
              Inr (Some [(''detection'', name), (''n_pos'', JStr ''51 users''), (''pr_auc'', JNull), (''roc_auc'', roc),
                         (''pauc_1pct'', JNull), (''ks'', JNull), (''gini'', JNull),
                         (''recall_at_2pct'', JStr (''EER='' @ json_str J e)), (''f2_at_2pct'', JNull), (''pr_auc_ci_lo'', JNull), (''pr_auc_ci_hi'', JNull)]))))
         else Inr None
     | _ \<Rightarrow> Inl AttributeError))"

section \<open>Impossible travel on the login log\<close>

record travel_row =
  tv_user :: int
  tv_ts :: int
  tv_country :: "string option"
  tv_success :: bool
  tv_takeover :: bool

definition MAX_HOURS :: pyfloat where "MAX_HOURS = fl 6"

text \<open>
  Whether a login, after the previous one of its user in time order, changed country within the limit; time
  stamps in seconds, and a country that is missing differs from every other.
\<close>

definition travel_flag :: "travel_row option \<Rightarrow> travel_row \<Rightarrow> bool" where
  "travel_flag prev r =
     (case prev of
        None \<Rightarrow> False
      | Some p \<Rightarrow> tv_country p \<noteq> None \<and> tv_country r \<noteq> tv_country p \<and>
          fl (of_int (tv_ts r - tv_ts p) / 3600) < MAX_HOURS)"

fun travel_flags :: "(int \<Rightarrow> travel_row option) \<Rightarrow> travel_row list \<Rightarrow> (travel_row \<times> bool) list" where
  "travel_flags prev [] = []"
| "travel_flags prev (r # rs) =
     (r, travel_flag (prev (tv_user r)) r) # travel_flags (prev(tv_user r := Some r)) rs"

definition travel_table :: "travel_row list \<Rightarrow> (travel_row \<times> bool) list" where
  "travel_table rows = travel_flags (\<lambda>_. None) (sort_key tv_user (sort_key tv_ts (filter tv_success rows)))"

record travel_report =
  tr_n_ato :: int
  tr_ato_flagged :: int
  tr_n_genuine :: int
  tr_false_positive_rate :: pyfloat

definition travel_main :: "travel_row list \<Rightarrow> travel_report" where
  "travel_main rows =
     (let t = travel_table rows; ato = filter (tv_takeover \<circ> fst) t; genuine = filter (Not \<circ> tv_takeover \<circ> fst) t;
          n = int (length genuine)
      in \<lparr> tr_n_ato = int (length ato), tr_ato_flagged = int (length (filter snd ato)), tr_n_genuine = n,
           tr_false_positive_rate = py_round 5 (fl (of_int (int (length (filter snd genuine))) / of_int (max n 1))) \<rparr>)"

section \<open>Properties\<close>

definition of_day :: "string \<Rightarrow> cert_score list \<Rightarrow> nat" where
  "of_day d rs = length (filter (\<lambda>r. cs_day r = d) rs)"

lemma head_per_bound: "length (filter (\<lambda>r. key r = d) (head_per key k seen rs)) \<le> k - length (filter ((=) d) seen)"
proof (induction rs arbitrary: seen)
  case (Cons r rs)
  show ?case using Cons.IH [of "key r # seen"] by (auto split: if_splits)
qed simp

lemma head_per_mono: "set (head_per key k seen rs) \<subseteq> set (head_per key (k + j) seen rs)"
  by (induction rs arbitrary: seen) (auto split: if_splits)

lemma head_per_subset: "set (head_per key k seen rs) \<subseteq> set rs"
  by (induction rs arbitrary: seen) (auto split: if_splits)

text \<open>
  With an analyst budget of \<open>k\<close> alerts no day has more than \<open>k\<close>, every detected user is an insider, and a
  larger budget detects every insider a smaller one does.
\<close>

theorem alert_budget_kept:
  "of_day d (head_per_day k rows) \<le> k \<and> detected k rows \<subseteq> detected (k + j) rows \<and>
   detected k rows \<subseteq> insiders rows"
  using head_per_bound [of cs_day d k "[]" rows] head_per_mono [of cs_day k "[]" rows j] head_per_subset [of cs_day k "[]" rows]
  by (auto simp: detected_def insiders_def of_day_def head_per_day_def)

lemma travel_flags_sound:
  assumes "\<forall>u p. prev u = Some p \<longrightarrow> p \<in> S \<and> tv_user p = u \<and> (\<forall>r\<in>set rs. tv_user r = u \<longrightarrow> tv_ts p \<le> tv_ts r)"
    and "\<forall>u. sorted (map tv_ts (filter (\<lambda>r. tv_user r = u) rs))" "set rs \<subseteq> S"
    and "(r, True) \<in> set (travel_flags prev rs)"
  shows "\<exists>p\<in>S. tv_user p = tv_user r \<and> tv_ts p \<le> tv_ts r \<and> travel_flag (Some p) r"
  using assms
proof (induction rs arbitrary: prev)
  case (Cons x rs)
  show ?case
  proof (cases "(r, True) \<in> set (travel_flags (prev(tv_user x := Some x)) rs)")
    case True
    show ?thesis
    proof (rule Cons.IH [OF _ _ _ True])
      show "\<forall>u. sorted (map tv_ts (filter (\<lambda>r. tv_user r = u) rs))"
      proof
        fix u from Cons.prems(2) show "sorted (map tv_ts (filter (\<lambda>r. tv_user r = u) rs))"
          by (cases "tv_user x = u") (auto dest: spec [of _ u])
      qed
      have "\<forall>z\<in>set rs. tv_user z = tv_user x \<longrightarrow> tv_ts x \<le> tv_ts z"
        using spec [OF Cons.prems(2), of "tv_user x"] by auto
      with Cons.prems(1, 3) show "\<forall>u p. (prev(tv_user x := Some x)) u = Some p \<longrightarrow>
          p \<in> S \<and> tv_user p = u \<and> (\<forall>r\<in>set rs. tv_user r = u \<longrightarrow> tv_ts p \<le> tv_ts r)"
        by auto
    qed (use Cons.prems(3) in auto)
  next
    case False
    with Cons.prems(4) have x: "r = x" "travel_flag (prev (tv_user x)) x" by auto
    then obtain p where "prev (tv_user x) = Some p" by (auto simp: travel_flag_def split: option.splits)
    with Cons.prems(1) x show ?thesis by auto
  qed
qed simp

text \<open>
  A login flagged for impossible travel is preceded by a successful login of the same user from a different
  country less than six hours before.
\<close>

theorem travel_flag_has_cause:
  assumes "(r, True) \<in> set (travel_table rows)"
  shows "\<exists>p\<in>set rows. tv_success p \<and> tv_user p = tv_user r \<and> tv_ts p \<le> tv_ts r \<and> tv_country p \<noteq> tv_country r \<and>
    fl (of_int (tv_ts r - tv_ts p) / 3600) < MAX_HOURS"
proof -
  let ?t = "sort_key tv_ts (filter tv_success rows)"
  let ?s = "sort_key tv_user ?t"
  have "sorted (map tv_ts (filter (\<lambda>r. tv_user r = u) ?s))" for u
  proof -
    have "filter (\<lambda>r. tv_user r = u) ?s = filter (\<lambda>r. tv_user r = u) ?t" by (rule sort_key_stable)
    then show ?thesis by (simp add: sorted_filter)
  qed
  then have "\<exists>p\<in>set ?s. tv_user p = tv_user r \<and> tv_ts p \<le> tv_ts r \<and> travel_flag (Some p) r"
    using assms unfolding travel_table_def by (intro travel_flags_sound [of "\<lambda>_. None"]) auto
  then show ?thesis by (auto simp: travel_flag_def)
qed

definition wit_travel :: "int \<Rightarrow> string \<Rightarrow> travel_row" where
  "wit_travel t c = \<lparr> tv_user = 1, tv_ts = t, tv_country = Some c, tv_success = True, tv_takeover = False \<rparr>"

theorem travel_flag_has_cause_witness:
  "\<exists>p\<in>set [wit_travel 3600 ''NO'', wit_travel 0 ''IN'']. tv_user p = 1 \<and> tv_ts p \<le> 3600 \<and> tv_country p \<noteq> Some ''NO''"
proof -
  have "(wit_travel 3600 ''NO'', True) \<in> set (travel_table [wit_travel 3600 ''NO'', wit_travel 0 ''IN''])"
    by (simp add: travel_table_def travel_flag_def wit_travel_def MAX_HOURS_def)
  from travel_flag_has_cause [OF this] show ?thesis by (auto simp: wit_travel_def)
qed

end
