(* ===== verification/Detectors.thy ===== *)
theory Detectors
  imports Training Evaluation
begin

text \<open>
  The detectors without a fitted model and the splits of the fitted ones. The keystroke detector: templates and
  scores of \<^verbatim>\<open>cmu_fit\<close> (\<^verbatim>\<open>src/train.py\<close>), its evaluation \<^verbatim>\<open>eval_cmu\<close> (\<^verbatim>\<open>src/evaluate.py\<close>) and the bake-off against the
  Mahalanobis distance (\<^verbatim>\<open>cmu\<close> of \<^verbatim>\<open>src/phaseb_extra.py\<close>). The insider table: \<^verbatim>\<open>cert_features\<close> of \<^verbatim>\<open>src/train.py\<close> from the raw
  logs. The IEEE-CIS splits of \<^verbatim>\<open>src/tune.py\<close>, the choice of a calibration in \<^verbatim>\<open>src/evaluate_tuned.py\<close>, and the parity simulation of \<^verbatim>\<open>src/fairness_audit.py\<close> on its draws.

  The lemmas: the evaluation and the bake-off measure the same error rates; the insider table loses and doubles no
  event; the temporal splits partition the data in time order; raising a threshold never catches more.
\<close>

section \<open>Keystroke dynamics\<close>

record keystroke =
  ks_subject :: string
  ks_session :: int
  ks_rep :: int
  ks_times :: "pyfloat list"

definition subjects :: "keystroke list \<Rightarrow> string list" where
  "subjects df = sort (remdups (map ks_subject df))"

text \<open>\<^verbatim>\<open>g.sort_values(["sessionIndex", "rep"])\<close>.\<close>

definition reps_of :: "keystroke list \<Rightarrow> string \<Rightarrow> keystroke list" where
  "reps_of df u = sort_key ks_session (sort_key ks_rep (filter (\<lambda>r. ks_subject r = u) df))"

text \<open>Per feature the mean and the mean absolute deviation of the first 200 repetitions.\<close>

definition ks_template :: "metric_lib \<Rightarrow> nat \<Rightarrow> keystroke list \<Rightarrow> (pyfloat \<times> pyfloat) list" where
  "ks_template lib n tr =
     map (\<lambda>j. let xs = map (\<lambda>r. ks_times r ! j) tr;
                  mu = ml_mean lib xs;
                  mad = ml_mean lib (map (\<lambda>x. \<bar>x - mu\<bar>) xs)
              in (mu, if mad = Fin 0 then fl 0.000001 else mad)) [0..<n]"

definition manhattan :: "metric_lib \<Rightarrow> (pyfloat \<times> pyfloat) list \<Rightarrow> keystroke \<Rightarrow> pyfloat" where
  "manhattan lib tpl r = ml_sum lib (map2 (\<lambda>x (mu, mad). fdiv \<bar>x - mu\<bar> mad) (ks_times r) tpl)"

definition impostors :: "keystroke list \<Rightarrow> string \<Rightarrow> keystroke list" where
  "impostors df u = head_per ks_subject 5 [] (filter (\<lambda>r. ks_subject r \<noteq> u) df)"

record attempt =
  at_user :: string
  at_y :: int
  at_score :: pyfloat

definition user_attempts :: "metric_lib \<Rightarrow> nat \<Rightarrow> keystroke list \<Rightarrow> string \<Rightarrow> attempt list" where
  "user_attempts lib n df u =
     (let g = reps_of df u;
          tpl = ks_template lib n (take 200 g);
          s_gen = map (\<lambda>r. - manhattan lib tpl r) (drop 200 g);
          s_imp = map (\<lambda>r. - manhattan lib tpl r) (impostors df u)
      in map (\<lambda>(y, s). \<lparr> at_user = u, at_y = y, at_score = - s \<rparr>)
           (zip (replicate (length s_gen) 0 @ replicate (length s_imp) 1) (s_gen @ s_imp)))"

definition cmu_fit :: "metric_lib \<Rightarrow> nat \<Rightarrow> keystroke list \<Rightarrow> attempt list" where
  "cmu_fit lib n df = concat (map (user_attempts lib n df) (subjects df))"

text \<open>\<^verbatim>\<open>eval_cmu\<close>: the equal error rate of each user, and its statistics.\<close>

definition user_eer :: "metric_lib \<Rightarrow> attempt list \<Rightarrow> string \<Rightarrow> py_exn + string \<times> pyfloat" where
  "user_eer lib scores u =
     (let g = filter (\<lambda>a. at_user a = u) scores;
          (fpr, tpr, thr) = ml_roc_curve lib (map at_y g) (map at_score g)
      in sbind (eer lib fpr tpr) (\<lambda>e. Inr (u, e)))"

definition user_eers :: "metric_lib \<Rightarrow> attempt list \<Rightarrow> py_exn + (string \<times> pyfloat) list" where
  "user_eers lib scores = try_map (user_eer lib scores) (sort (remdups (map at_user scores)))"

record eer_report =
  ee_users :: int
  ee_mean :: pyfloat
  ee_median :: pyfloat
  ee_std :: pyfloat

definition eval_cmu :: "metric_lib \<Rightarrow> (pyfloat list \<Rightarrow> pyfloat) \<Rightarrow> attempt list \<Rightarrow> py_exn + eer_report" where
  "eval_cmu lib median scores =
     sbind (user_eers lib scores) (\<lambda>es.
       Inr \<lparr> ee_users = int (length es), ee_mean = py_round 4 (ml_mean lib (map snd es)),
             ee_median = py_round 4 (median (map snd es)), ee_std = py_round 4 (ml_std lib (map snd es)) \<rparr>)"

text \<open>
  The bake-off of \<^verbatim>\<open>phaseb_extra.py\<close>; \<open>md\<close> is the Mahalanobis distance of a row under the covariance of the training
  rows (numpy's linear algebra).
\<close>

definition manhattan_eer :: "metric_lib \<Rightarrow> nat \<Rightarrow> keystroke list \<Rightarrow> string \<Rightarrow> py_exn + pyfloat" where
  "manhattan_eer lib n df u =
     (let g = reps_of df u; tpl = ks_template lib n (take 200 g)
      in eer_of lib (map (manhattan lib tpl) (drop 200 g)) (map (manhattan lib tpl) (impostors df u)))"

definition mahalanobis_eer ::
  "metric_lib \<Rightarrow> (pyfloat list list \<Rightarrow> pyfloat list \<Rightarrow> pyfloat) \<Rightarrow> keystroke list \<Rightarrow> string \<Rightarrow> py_exn + pyfloat" where
  "mahalanobis_eer lib md df u =
     (let g = reps_of df u; d = md (map ks_times (take 200 g)) \<circ> ks_times
      in eer_of lib (map d (drop 200 g)) (map d (impostors df u)))"

record bake_off =
  bo_manhattan :: pyfloat
  bo_mahalanobis :: pyfloat
  bo_users :: int
  bo_decision :: string

definition cmu_bakeoff ::
  "metric_lib \<Rightarrow> (pyfloat list list \<Rightarrow> pyfloat list \<Rightarrow> pyfloat) \<Rightarrow> nat \<Rightarrow> keystroke list \<Rightarrow> py_exn + bake_off" where
  "cmu_bakeoff lib md n df =
     sbind (try_map (\<lambda>u. sbind (manhattan_eer lib n df u) (\<lambda>a. sbind (mahalanobis_eer lib md df u) (\<lambda>b. Inr (a, b))))
              (subjects df)) (\<lambda>ps.
       let man = ml_mean lib (map fst ps); mah = ml_mean lib (map snd ps)
       in Inr \<lparr> bo_manhattan = py_round 4 man, bo_mahalanobis = py_round 4 mah, bo_users = int (length ps),
                bo_decision = (if man \<le> mah then ''keep scaled-Manhattan''
                               else ''Mahalanobis lower EER on this protocol'') \<rparr>)"

section \<open>Insider user-days\<close>

record cert_event =
  ce_user :: string
  ce_pc :: string
  ce_day :: int
  ce_hour :: int
  ce_activity :: string

definition off_hours :: "cert_event \<Rightarrow> bool" where
  "off_hours e \<longleftrightarrow> ce_hour e < 6 \<or> 20 \<le> ce_hour e"

text \<open>\<^verbatim>\<open>s.mode().iat[0]\<close>: the modes are sorted.\<close>

definition most_common :: "string list \<Rightarrow> string option" where
  "most_common xs =
     (if xs = [] then None
      else Some (hd (sort (filter (\<lambda>x. count_list xs x = Max (count_list xs ` set xs)) (remdups xs)))))"

definition logons :: "cert_event list \<Rightarrow> cert_event list" where
  "logons lo = filter (\<lambda>e. ce_activity e = ''Logon'') lo"

definition connects :: "cert_event list \<Rightarrow> cert_event list" where
  "connects dv = filter (\<lambda>e. ce_activity e = ''Connect'') dv"

definition modal_pc :: "cert_event list \<Rightarrow> string \<Rightarrow> string option" where
  "modal_pc lo u = most_common (map ce_pc (filter (\<lambda>e. ce_user e = u) (logons lo)))"

definition other_pc :: "cert_event list \<Rightarrow> cert_event \<Rightarrow> bool" where
  "other_pc lo e \<longleftrightarrow> modal_pc lo (ce_user e) \<noteq> Some (ce_pc e)"

definition event_key :: "cert_event \<Rightarrow> string \<times> int" where
  "event_key e = (ce_user e, ce_day e)"

definition on_day :: "string \<times> int \<Rightarrow> cert_event list \<Rightarrow> cert_event list" where
  "on_day k es = filter (\<lambda>e. event_key e = k) es"

text \<open>One row of the merged table, absent sides filled with 0; the columns are in the order of \<^verbatim>\<open>base\<close>.\<close>

definition user_day_of :: "cert_event list \<Rightarrow> cert_event list \<Rightarrow> cert_event list \<Rightarrow> string \<times> int \<Rightarrow> user_day" where
  "user_day_of lo dv fi k =
     (let l = on_day k (logons lo); c = on_day k (connects dv); f = on_day k fi
      in \<lparr> ud_user = fst k, ud_day = snd k,
           ud_counts = map (\<lambda>n. Fin (of_nat n))
             [length l, length (filter off_hours l), length (remdups (map ce_pc l)), length (filter (other_pc lo) l),
              length c, length (filter off_hours c), length f, length (filter off_hours f)] \<rparr>)"

text \<open>The outer merges: the keys of the three tables, sorted.\<close>

definition user_day_keys :: "cert_event list \<Rightarrow> cert_event list \<Rightarrow> cert_event list \<Rightarrow> (string \<times> int) list" where
  "user_day_keys lo dv fi =
     sort_key fst (sort_key snd (remdups (map event_key (logons lo @ connects dv @ fi))))"

definition cert_user_days :: "cert_event list \<Rightarrow> cert_event list \<Rightarrow> cert_event list \<Rightarrow> user_day list" where
  "cert_user_days lo dv fi = map (user_day_of lo dv fi) (user_day_keys lo dv fi)"

text \<open>The windows of \<^verbatim>\<open>insiders.csv\<close> for release 4.2; the last row of a user counts.\<close>

definition insider_windows :: "(string \<times> string \<times> int \<times> int) list \<Rightarrow> string \<Rightarrow> (int \<times> int) option" where
  "insider_windows ins = map_of (rev (map snd (filter (\<lambda>r. fst r = ''4.2'') ins)))"

definition cert_features ::
  "np_lib \<Rightarrow> cert_event list \<Rightarrow> cert_event list \<Rightarrow> cert_event list \<Rightarrow> (string \<times> string \<times> int \<times> int) list \<Rightarrow>
   (user_day \<times> int \<times> pyfloat list) list" where
  "cert_features np lo dv fi ins =
     map (\<lambda>(r, dev). (r, cert_label (insider_windows ins) r, dev)) (cert_deviations np (cert_user_days lo dv fi))"

section \<open>Temporal splits\<close>

text \<open>A cell of a data frame: a number, NaN when it is missing, or a category.\<close>

datatype cell = Num pyfloat | Cat "string option"

record txn =
  tx_dt :: int
  tx_fraud :: int
  tx_has_identity :: bool
  tx_cell :: "string \<Rightarrow> cell"

text \<open>\<^verbatim>\<open>ieee_fit\<close> and \<^verbatim>\<open>_ieee_data\<close>: the first 80 percent of the time stamps train.\<close>

definition ieee_split :: "(int list \<Rightarrow> pyfloat) \<Rightarrow> txn list \<Rightarrow> txn list \<times> txn list" where
  "ieee_split quantile80 df =
     (let cutoff = quantile80 (map tx_dt df)
      in (filter (\<lambda>r. float_of_int (tx_dt r) \<le> cutoff) df, filter (\<lambda>r. cutoff < float_of_int (tx_dt r)) df))"

definition ieee_splits :: "(int list \<Rightarrow> pyfloat) \<Rightarrow> txn list \<Rightarrow> txn list \<times> txn list \<times> txn list \<times> txn list" where
  "ieee_splits quantile80 df =
     (let (train_all, test) = ieee_split quantile80 df; (tr, val) = ieee_split quantile80 train_all
      in (tr, val, train_all, test))"

definition pos_weight :: "int list \<Rightarrow> pyfloat" where
  "pos_weight y = fdiv (float_of_int (count_label 0 y)) (py_max (float_of_int (count_label 1 y)) (fl 1))"

section \<open>Calibration and parity\<close>

definition brier_ece :: "metric_lib \<Rightarrow> int list \<Rightarrow> pyfloat list \<Rightarrow> nat \<Rightarrow> pyfloat \<times> pyfloat" where
  "brier_ece lib y p n_bins =
     (let p' = map clip01 p; yf = map float_of_int y;
          brier = ml_mean lib (map2 (\<lambda>a b. (a - b) * (a - b)) p' yf);
          rows = map (\<lambda>(a, b). (bin_of lib n_bins a, a, b)) (zip p' yf);
          ece = foldl (\<lambda>acc b.
             let m = map snd (filter (\<lambda>r. fst r = b) rows)
             in if m = [] then acc
                else acc + fl (of_nat (length m) / of_nat (length rows)) *
                       \<bar>ml_mean lib (map snd m) - ml_mean lib (map fst m)\<bar>) (Fin 0) [0..<n_bins]
      in (py_round 5 brier, py_round 5 ece))"

text \<open>\<^verbatim>\<open>min(cal_val, key=...)\<close>: the first of the least.\<close>

fun first_min :: "('a \<Rightarrow> pyfloat) \<Rightarrow> 'a \<Rightarrow> 'a list \<Rightarrow> 'a" where
  "first_min f best [] = best"
| "first_min f best (x # xs) = first_min f (if f x < f best then x else best) xs"

definition pick_calibration :: "metric_lib \<Rightarrow> int list \<Rightarrow> pyfloat list \<Rightarrow> pyfloat list \<Rightarrow> pyfloat list \<Rightarrow> string" where
  "pick_calibration lib yval raw isotonic platt =
     (let cal_val = [(''isotonic'', brier_ece lib yval isotonic 10), (''platt'', brier_ece lib yval platt 10)]
      in fst (first_min (\<lambda>c. fst (snd c)) (''raw'', brier_ece lib yval raw 10) cal_val))"

text \<open>\<^verbatim>\<open>_parity_cost_simulation\<close> on its draws: labels and risks of the hot cohort, risks of the safe one.\<close>

definition recall_above :: "int list \<Rightarrow> pyfloat list \<Rightarrow> pyfloat \<Rightarrow> pyfloat" where
  "recall_above y r t =
     fl (of_nat (length (filter (\<lambda>(c, x). t \<le> x \<and> c = 1) (zip y r))) / of_int (max (count_label 1 y) 1))"

record parity_report =
  py_global_threshold :: pyfloat
  py_recall_global :: pyfloat
  py_threshold_after :: pyfloat
  py_recall_after :: pyfloat

definition parity_cost :: "(pyfloat list \<Rightarrow> pyfloat \<Rightarrow> pyfloat) \<Rightarrow> int list \<Rightarrow> pyfloat list \<Rightarrow> pyfloat list \<Rightarrow> parity_report" where
  "parity_cost quantile yh rh rs =
     (let g_thr = fl 0.45;
          safe_sel = fl (of_nat (length (filter (\<lambda>x. g_thr \<le> x) rs)) / of_nat (length rs));
          hot_thr = quantile rh (fl 1 - safe_sel)
      in \<lparr> py_global_threshold = g_thr, py_recall_global = py_round 3 (recall_above yh rh g_thr),
           py_threshold_after = py_round 3 hot_thr, py_recall_after = py_round 3 (recall_above yh rh hot_thr) \<rparr>)"

section \<open>Lemmas\<close>

lemma try_map_cong [fundef_cong]:
  "xs = ys \<Longrightarrow> (\<And>x. x \<in> set ys \<Longrightarrow> f x = g x) \<Longrightarrow> try_map f xs = try_map g ys"
  by (induction ys arbitrary: xs) auto

text \<open>The impostors of a user are rows of others, at most five of each.\<close>

lemma impostor_pool:
  "set (impostors df u) \<subseteq> {r\<in>set df. ks_subject r \<noteq> u} \<and>
   length (filter (\<lambda>r. ks_subject r = v) (impostors df u)) \<le> 5"
  using head_per_subset [of ks_subject 5 "[]" "filter (\<lambda>r. ks_subject r \<noteq> u) df"]
    head_per_bound [of ks_subject v 5 "[]" "filter (\<lambda>r. ks_subject r \<noteq> u) df"]
  by (auto simp: impostors_def)

lemma neg_neg [simp]: "- (- x) = (x :: pyfloat)"
  by (cases x) auto

lemma map_zip_split [simp]: "length xs = length ys \<Longrightarrow> map (\<lambda>x. f (fst x)) (zip xs ys) = map f xs"
  "length xs = length ys \<Longrightarrow> map (\<lambda>x. g (snd x)) (zip xs ys) = map g ys"
  by (induction xs ys rule: list_induct2) auto

lemma user_attempts_parts:
  "map at_user (user_attempts lib n df u) = replicate (length (user_attempts lib n df u)) u"
  "map at_y (user_attempts lib n df u) =
     replicate (length (reps_of df u) - 200) 0 @ replicate (length (impostors df u)) 1"
  "map at_score (user_attempts lib n df u) =
     map (manhattan lib (ks_template lib n (take 200 (reps_of df u)))) (drop 200 (reps_of df u) @ impostors df u)"
  "length (user_attempts lib n df u) = length (reps_of df u) - 200 + length (impostors df u)"
  by (simp_all add: user_attempts_def Let_def comp_def case_prod_unfold map_replicate_const replicate_add)

lemma attempts_of_user:
  assumes "distinct us"
  shows "filter (\<lambda>a. at_user a = u) (concat (map (user_attempts lib n df) us)) =
    (if u \<in> set us then user_attempts lib n df u else [])"
proof -
  have own: "filter (\<lambda>a. at_user a = u) (user_attempts lib n df v) = (if u = v then user_attempts lib n df v else [])" for v
  proof -
    have "\<forall>a\<in>set (user_attempts lib n df v). at_user a = v"
      by (auto simp: user_attempts_def Let_def)
    then show ?thesis by (auto simp: filter_empty_conv)
  qed
  from assms show ?thesis by (induction us) (auto simp: own)
qed

text \<open>
  The evaluation and the bake-off agree: when every subject has more repetitions than the template uses, the
  error rates the report averages are, user by user, those the bake-off gives the incumbent detector.
\<close>

theorem keystroke_eers_agree:
  assumes "\<forall>u\<in>set (subjects df). 200 < length (filter (\<lambda>r. ks_subject r = u) df)"
  shows "user_eers lib (cmu_fit lib n df) =
    try_map (\<lambda>u. sbind (manhattan_eer lib n df u) (\<lambda>e. Inr (u, e))) (subjects df)"
proof -
  have ne: "user_attempts lib n df u \<noteq> []" if "u \<in> set (subjects df)" for u
  proof -
    have "0 < length (user_attempts lib n df u)"
      using assms that by (auto simp: user_attempts_parts(4) reps_of_def)
    then show ?thesis by simp
  qed
  have d: "distinct (subjects df)" by (simp add: subjects_def)
  have "set (map at_user (user_attempts lib n df u)) = {u}" if "u \<in> set (subjects df)" for u
    using ne [OF that] unfolding user_attempts_parts(1) by simp
  then have users: "set (map at_user (cmu_fit lib n df)) = set (subjects df)"
    by (simp add: cmu_fit_def image_UN)
  have "sort (remdups (map at_user (cmu_fit lib n df))) = subjects df"
    by (rule sorted_distinct_set_unique) (use users d in \<open>simp_all add: subjects_def\<close>)
  moreover have "user_eer lib (cmu_fit lib n df) u = sbind (manhattan_eer lib n df u) (\<lambda>e. Inr (u, e))"
    if "u \<in> set (subjects df)" for u
    using that by (simp add: user_eer_def cmu_fit_def attempts_of_user [OF d] user_attempts_parts manhattan_eer_def
        eer_of_def Let_def case_prod_unfold)
  ultimately show ?thesis
    unfolding user_eers_def by (simp cong: try_map_cong)
qed

definition wit_ks :: "string \<Rightarrow> int \<Rightarrow> keystroke" where
  "wit_ks u i = \<lparr> ks_subject = u, ks_session = 1, ks_rep = i, ks_times = [fl (of_int i)] \<rparr>"

theorem keystroke_eers_agree_witness:
  "user_eers wit_metrics (cmu_fit wit_metrics 1 (map (wit_ks ''s002'') [1..400] @ map (wit_ks ''s003'') [1..400])) =
   try_map (\<lambda>u. sbind (manhattan_eer wit_metrics 1 (map (wit_ks ''s002'') [1..400] @ map (wit_ks ''s003'') [1..400]) u)
       (\<lambda>e. Inr (u, e)))
     (subjects (map (wit_ks ''s002'') [1..400] @ map (wit_ks ''s003'') [1..400]))"
  by (rule keystroke_eers_agree) (auto simp: subjects_def wit_ks_def comp_def filter_map)

text \<open>Counting by key: over distinct keys that cover a list, the groups add up to it.\<close>

lemma on_day_counts:
  assumes "distinct ks" "\<forall>e\<in>set es. event_key e \<in> set ks"
  shows "(\<Sum>k\<leftarrow>ks. length (on_day k es)) = length es"
  using assms(2)
proof (induction es)
  case (Cons e es)
  have "(\<Sum>k\<leftarrow>ks. length (on_day k (e # es))) =
      (\<Sum>k\<leftarrow>ks. (if k = event_key e then 1 else 0) + length (on_day k es))"
    by (intro arg_cong [where f = sum_list] map_cong) (auto simp: on_day_def)
  also have "\<dots> = (\<Sum>k\<leftarrow>ks. if k = event_key e then 1 else 0) + (\<Sum>k\<leftarrow>ks. length (on_day k es))"
    by (simp add: sum_list_addf)
  also have "(\<Sum>k\<leftarrow>ks. if k = event_key e then 1 else 0) = (1 :: nat)"
    using assms(1) Cons.prems by (simp add: sum_list_distinct_conv_sum_set)
  finally show ?case using Cons by simp
qed (simp add: on_day_def)

lemma of_nat_sum_list_map: "(of_nat (\<Sum>x\<leftarrow>xs. f x) :: rat) = (\<Sum>x\<leftarrow>xs. of_nat (f x))"
  by (induction xs) simp_all

lemma user_day_keys_props:
  "distinct (user_day_keys lo dv fi)"
  "set (user_day_keys lo dv fi) = event_key ` (set (logons lo) \<union> set (connects dv) \<union> set fi)"
  by (auto simp: user_day_keys_def)

lemma column_total:
  assumes "\<And>k. rat_of (ud_counts (user_day_of lo dv fi k) ! j) = of_nat (length (on_day k es))"
    and "set es \<subseteq> set (logons lo) \<union> set (connects dv) \<union> set fi"
  shows "(\<Sum>r\<leftarrow>cert_user_days lo dv fi. rat_of (ud_counts r ! j)) = of_nat (length es)"
proof -
  have "(\<Sum>r\<leftarrow>cert_user_days lo dv fi. rat_of (ud_counts r ! j)) =
      (\<Sum>k\<leftarrow>user_day_keys lo dv fi. of_nat (length (on_day k es)))"
    by (simp add: cert_user_days_def comp_def assms(1))
  also have "\<dots> = of_nat (\<Sum>k\<leftarrow>user_day_keys lo dv fi. length (on_day k es))"
    by (rule of_nat_sum_list_map [symmetric])
  also have "(\<Sum>k\<leftarrow>user_day_keys lo dv fi. length (on_day k es)) = length es"
    by (rule on_day_counts [OF user_day_keys_props(1)]) (use assms(2) in \<open>auto simp: user_day_keys_props(2)\<close>)
  finally show ?thesis .
qed


text \<open>
  What the splits promise: for time stamps below 2^53 and a quantile that is a number, fitting, validation and test
  rows partition the data, and the time stamps of each part are before those of the next.
\<close>

definition dated :: "txn list \<Rightarrow> bool" where
  "dated df \<longleftrightarrow> (\<forall>r\<in>set df. 0 \<le> tx_dt r \<and> tx_dt r < 2 ^ 53)"

lemma ieee_split_spec:
  assumes "dated df" "quantile80 (map tx_dt df) = Fin q" "ieee_split quantile80 df = (train, test)"
  shows "mset train + mset test = mset df" "\<forall>a\<in>set train. \<forall>b\<in>set test. tx_dt a < tx_dt b" "dated train" "dated test"
proof -
  have f: "float_of_int (tx_dt r) = Fin (of_int (tx_dt r))" if "r \<in> set df" for r
    using assms(1) that fl_f64 [OF f64_small_int [of "tx_dt r"]] by (auto simp: dated_def float_of_int_def)
  have tr: "train = filter (\<lambda>r. of_int (tx_dt r) \<le> q) df" and te: "test = filter (\<lambda>r. \<not> of_int (tx_dt r) \<le> q) df"
    using assms(2, 3) f by (auto simp: ieee_split_def Let_def intro!: filter_cong)
  show "mset train + mset test = mset df" "dated train" "dated test"
    using assms(1) by (auto simp: tr te dated_def multiset_partition [symmetric])
  show "\<forall>a\<in>set train. \<forall>b\<in>set test. tx_dt a < tx_dt b"
    by (auto simp: tr te)
qed

lemma ieee_split_Nil [simp]: "ieee_split quantile80 [] = ([], [])"
  by (simp add: ieee_split_def Let_def)

text \<open>
  The temporal splits: fitting, validation and test rows partition the transactions, and every fitted one is before
  every validated one, every one of these before every tested one.
\<close>

theorem temporal_splits:
  assumes "dated df" "\<forall>xs. xs \<noteq> [] \<longrightarrow> (\<exists>q. quantile80 xs = Fin q)"
    and "ieee_splits quantile80 df = (tr, val, train_all, test)"
  shows "mset tr + mset val = mset train_all \<and> mset train_all + mset test = mset df \<and>
    (\<forall>a\<in>set tr. \<forall>b\<in>set val. tx_dt a < tx_dt b) \<and> (\<forall>a\<in>set train_all. \<forall>b\<in>set test. tx_dt a < tx_dt b)"
proof -
  have spec: "mset a + mset b = mset xs \<and> (\<forall>x\<in>set a. \<forall>y\<in>set b. tx_dt x < tx_dt y) \<and> dated a"
    if "dated xs" "ieee_split quantile80 xs = (a, b)" for xs a b
  proof (cases "xs = []")
    case False
    then obtain q where "quantile80 (map tx_dt xs) = Fin q" using assms(2) by fastforce
    from ieee_split_spec [OF that(1) this that(2)] show ?thesis by blast
  qed (use that in \<open>auto simp: dated_def\<close>)
  from assms(3) obtain s1: "ieee_split quantile80 df = (train_all, test)" and s2: "ieee_split quantile80 train_all = (tr, val)"
    by (auto simp: ieee_splits_def Let_def split: prod.splits)
  from spec [OF assms(1) s1] spec [OF _ s2] show ?thesis by blast
qed

definition wit_txns :: "txn list" where
  "wit_txns = map (\<lambda>i. \<lparr> tx_dt = 100 * i, tx_fraud = i mod 2, tx_has_identity = even i,
     tx_cell = (\<lambda>_. Num (Fin (of_int i))) \<rparr>) [0..4]"

theorem temporal_splits_witness:
  "\<exists>tr val train_all test. ieee_splits (\<lambda>xs. if xs = [] then NaN else Fin (of_int (sort xs ! (length xs - 2)))) wit_txns =
     (tr, val, train_all, test) \<and> mset tr + mset val = mset train_all \<and> mset train_all + mset test = mset wit_txns"
proof -
  let ?q = "\<lambda>xs. if xs = [] then NaN else Fin (of_int (sort xs ! (length xs - 2)))"
  obtain tr val train_all test where e: "ieee_splits ?q wit_txns = (tr, val, train_all, test)"
    by (cases "ieee_splits ?q wit_txns") auto
  have d: "dated wit_txns" by (auto simp: dated_def wit_txns_def)
  from temporal_splits [OF d _ e] e show ?thesis by auto
qed

lemma is_finite_E: "is_finite x \<Longrightarrow> (\<And>q. x = Fin q \<Longrightarrow> P) \<Longrightarrow> P"
  by (cases x) (auto simp: is_finite_def)

text \<open>\<open>first_min\<close> picks a least score when all scores are numbers.\<close>

lemma first_min_least:
  assumes "\<forall>x\<in>set (b # xs). is_finite (f x)"
  shows "first_min f b xs \<in> set (b # xs) \<and> (\<forall>x\<in>set (b # xs). f (first_min f b xs) \<le> f x)"
  using assms
proof (induction xs arbitrary: b)
  case (Cons x xs)
  from Cons.prems obtain p q where pq: "f b = Fin p" "f x = Fin q" by (auto elim!: is_finite_E)
  define c where "c = (if f x < f b then x else b)"
  have c: "f c \<le> f x" "f c \<le> f b" "c \<in> {b, x}" "is_finite (f c)" using pq by (auto simp: c_def is_finite_def)
  have ih: "first_min f c xs \<in> set (c # xs)" "\<forall>y\<in>set (c # xs). f (first_min f c xs) \<le> f y"
    using Cons.IH [of c] Cons.prems c(4) by auto
  then have "f (first_min f c xs) \<le> f c" "is_finite (f (first_min f c xs))" using Cons.prems c(3) by auto
  then have "f (first_min f c xs) \<le> f b" "f (first_min f c xs) \<le> f x"
    using c pq by (cases "f (first_min f c xs)"; cases "f c"; auto)+
  with ih c(3) show ?case by (auto simp: c_def [symmetric])
qed (auto elim!: is_finite_E)

text \<open>Raising the threshold never catches more.\<close>

lemma recall_above_antimono:
  assumes "t \<le> t'" "is_finite t" "is_finite t'" "\<forall>x\<in>set r. is_finite x"
  shows "length (filter (\<lambda>(c, x). t' \<le> x \<and> c = 1) (zip y r)) \<le> length (filter (\<lambda>(c, x). t \<le> x \<and> c = 1) (zip y r))"
proof -
  have "t \<le> x" if "(c, x) \<in> set (zip y r)" "t' \<le> x" for c x
    using assms that set_zip_rightD [OF that(1)] by (auto elim!: is_finite_E)
  then have "filter (\<lambda>(c, x). t' \<le> x \<and> c = 1) (zip y r) =
      filter (\<lambda>(c, x). t' \<le> x \<and> c = 1) (filter (\<lambda>(c, x). t \<le> x \<and> c = 1) (zip y r))"
    by (auto intro!: filter_cong)
  then show ?thesis by (metis length_filter_le)
qed

end
