(* ===== verification/Simulator.thy ===== *)
theory Simulator
  imports AttestationProps
begin

text \<open>
  The two simulators that drive the engine in-process: the low-and-slow attack
  (\<^verbatim>\<open>simulator/attack_low_and_slow.py\<close>) and the traffic and attack demo (\<^verbatim>\<open>simulator/simulate.py\<close>). They mint
  their own attestation and behaviour tokens and call \<open>assess\<close>; \<open>sim_env\<close> holds the keys, clocks and nonces of
  the providers and the inputs of the \<open>i\<close>-th call, and the draws of \<^verbatim>\<open>random\<close> are arguments. Plots, console
  output and the HTTP mode of the demo are not modelled.

  The lemmas: a simulated run never raises, and what a challenged session carries never enters the baseline.
\<close>

section \<open>Providers and events\<close>

record ('priv, 'pub) sim_env =
  si_crypto :: "('priv, 'pub) crypto"
  si_json :: json_lib
  si_attest :: "'priv signer"
  si_behav :: "'priv signer"
  si_clock :: "nat \<Rightarrow> pyfloat \<times> pyfloat"
  si_urandom :: "nat \<Rightarrow> string \<times> string"
  si_inputs :: "nat \<Rightarrow> call_inputs"

text \<open>\<^verbatim>\<open>_providers\<close> and \<^verbatim>\<open>_resolver\<close>: the engine's side of the two keys; its cache reads \<open>clock\<close>.\<close>

definition sim_resolver ::
  "('priv, 'pub) sim_env \<Rightarrow> (nat \<Rightarrow> pyfloat) \<Rightarrow> py_exn + (mem_nonce \<times> nat) resolver" where
  "sim_resolver env clock =
     sbind (ed25519_from_b64 (si_crypto env) (public_key_b64 (si_crypto env) (si_attest env))) (\<lambda>va.
     sbind (ed25519_from_b64 (si_crypto env) (public_key_b64 (si_crypto env) (si_behav env))) (\<lambda>vb.
     Inr (event_resolver (si_crypto env) (si_json env) clock va vb)))"

text \<open>\<^verbatim>\<open>_attested\<close>, at the \<open>i\<close>-th call.\<close>

definition attested :: "('priv, 'pub) sim_env \<Rightarrow> nat \<Rightarrow> string \<Rightarrow> string \<Rightarrow> pyfloat \<Rightarrow> identity_event \<Rightarrow> identity_event" where
  "attested env i device identity similarity e =
     e\<lparr>ev_device_attestation := Some (attest_issue (si_crypto env) (si_json env) (si_attest env)
           (fst (si_clock env i)) (fst (si_urandom env i)) device INTEGRITY_PASS (fl 300) None None),
       ev_behavior_assertion := Some (behavior_issue (si_crypto env) (si_json env) (si_behav env)
           (snd (si_clock env i)) (snd (si_urandom env i)) device identity similarity (fl 120) None None)\<rparr>"

definition plain_event ::
  "string \<Rightarrow> event_type \<Rightarrow> channel \<Rightarrow> string \<Rightarrow> string \<Rightarrow> int \<Rightarrow> pyfloat option \<Rightarrow> identity_event" where
  "plain_event identity et ch device geo hour amount =
     \<lparr> ev_identity_id = identity, ev_event_type = et, ev_channel = ch, ev_device_id = device, ev_geo = geo,
       ev_hour_of_day = hour, ev_amount = amount, ev_is_new_beneficiary = False,
       ev_recovery_contact_changed = False, ev_privileged_scope = None, ev_device_attestation = None,
       ev_behavior_assertion = None, ev_idempotency_key = None \<rparr>"

text \<open>Events assessed one after the other, the first at index \<open>i\<close>.\<close>

fun sim_assess ::
  "('o, 'n) trust_engine \<Rightarrow> (nat \<Rightarrow> call_inputs) \<Rightarrow> nat \<Rightarrow> identity_event list \<Rightarrow> mem_store \<times> 'n \<Rightarrow>
   (mem_store \<times> 'n) \<times> (py_exn + soc_assessment list)" where
  "sim_assess eng ci i [] w = (w, Inr [])"
| "sim_assess eng ci i (e # es) w =
     (case assess eng mem_ops (ci i) e w of
        (w1, Inl x) \<Rightarrow> (w1, Inl x)
      | (w1, Inr soc) \<Rightarrow>
          (case sim_assess eng ci (Suc i) es w1 of
             (w2, Inl x) \<Rightarrow> (w2, Inl x)
           | (w2, Inr socs) \<Rightarrow> (w2, Inr (soc # socs))))"

section \<open>The low-and-slow attack\<close>

definition N_CREEP :: nat where "N_CREEP = 20"

definition OWNER_DEVICE :: string where "OWNER_DEVICE = ''dev_owner_phone''"

text \<open>\<^verbatim>\<open>2000.0 + (i % 3) * 100\<close>.\<close>

definition warm_amount :: "nat \<Rightarrow> pyfloat" where
  "warm_amount i = fl 2000 + float_of_int (int (i mod 3) * 100)"

definition warm_event :: "('priv, 'pub) sim_env \<Rightarrow> string \<Rightarrow> nat \<Rightarrow> identity_event" where
  "warm_event env identity i =
     attested env i OWNER_DEVICE identity (fl 0.95)
       (plain_event identity TRANSACTION MOBILE_APP OWNER_DEVICE ''IN-GJ'' 12 (Some (warm_amount i)))"

definition creep_event :: "string \<Rightarrow> nat \<Rightarrow> pyfloat \<Rightarrow> identity_event" where
  "creep_event identity i amount =
     (plain_event identity TRANSACTION INTERNET_BANKING OWNER_DEVICE ''IN-GJ'' 12 (Some amount))
       \<lparr>ev_is_new_beneficiary := (N_CREEP - 1 \<le> i)\<rparr>"

record session =
  ss_session :: nat
  ss_amount :: int
  ss_trust :: int
  ss_event_risk :: pyfloat
  ss_decision :: string
  ss_caught :: bool

definition session_of :: "nat \<Rightarrow> pyfloat \<Rightarrow> soc_assessment \<Rightarrow> py_exn + session" where
  "session_of i amount soc =
     sbind (round_int amount) (\<lambda>r.
       Inr \<lparr> ss_session = i, ss_amount = r, ss_trust = soc_trust_score soc,
             ss_event_risk = py_round 3 (soc_event_risk soc), ss_decision = decision_str (soc_decision soc),
             ss_caught = (soc_decision soc \<noteq> ALLOW) \<rparr>)"

text \<open>The hijacked sessions \<open>i, i + 1, ...\<close>, \<open>k\<close> of them.\<close>

fun creep_loop ::
  "('o, 'n) trust_engine \<Rightarrow> (nat \<Rightarrow> call_inputs) \<Rightarrow> string \<Rightarrow> nat \<Rightarrow> nat \<Rightarrow> pyfloat \<Rightarrow> mem_store \<times> 'n \<Rightarrow>
   (mem_store \<times> 'n) \<times> (py_exn + session list)" where
  "creep_loop eng ci identity 0 i amount w = (w, Inr [])"
| "creep_loop eng ci identity (Suc k) i amount w =
     (case assess eng mem_ops (ci (10 + i)) (creep_event identity i amount) w of
        (w1, Inl x) \<Rightarrow> (w1, Inl x)
      | (w1, Inr soc) \<Rightarrow>
          (case session_of i amount soc of
             Inl x \<Rightarrow> (w1, Inl x)
           | Inr t \<Rightarrow>
               (case creep_loop eng ci identity k (Suc i) (amount * fl 1.25) w1 of
                  (w2, Inl x) \<Rightarrow> (w2, Inl x)
                | (w2, Inr traj) \<Rightarrow> (w2, Inr (t # traj)))))"

definition attack_run ::
  "('o, 'n) trust_engine \<Rightarrow> ('priv, 'pub) sim_env \<Rightarrow> string \<Rightarrow> mem_store \<times> 'n \<Rightarrow>
   (mem_store \<times> 'n) \<times> (py_exn + session list)" where
  "attack_run eng env identity w =
     (case sim_assess eng (si_inputs env) 0 (map (warm_event env identity) [0..<10]) w of
        (w1, Inl x) \<Rightarrow> (w1, Inl x)
      | (w1, Inr _) \<Rightarrow> creep_loop eng (si_inputs env) identity N_CREEP 0 (fl 2500) w1)"

text \<open>\<^verbatim>\<open>next((t["session"] for t in traj if t["caught"]), None)\<close>.\<close>

definition first_caught :: "session list \<Rightarrow> nat option" where
  "first_caught traj = map_option ss_session (find ss_caught traj)"

definition attack_main ::
  "'o num_lib \<Rightarrow> 'o serving_model \<Rightarrow> 'o serving_model \<Rightarrow> ('priv, 'pub) sim_env \<Rightarrow> ('priv, 'pub) sim_env \<Rightarrow>
   (nat \<Rightarrow> pyfloat) \<Rightarrow> py_exn + session list \<times> session list \<times> nat option \<times> nat option" where
  "attack_main lib m_old m_new env_old env_new clock =
     sbind (sim_resolver env_old clock) (\<lambda>res.
     case attack_run (engine_legacy lib m_old (Some res)) env_old ''victim_old'' (mem_empty, ([], 0)) of
       (w1, Inl x) \<Rightarrow> Inl x
     | (w1, Inr old_traj) \<Rightarrow>
         (case attack_run (engine_default lib m_new (Some res)) env_new ''victim_new'' (mem_empty, snd w1) of
            (w2, Inl x) \<Rightarrow> Inl x
          | (w2, Inr new_traj) \<Rightarrow>
              Inr (old_traj, new_traj, first_caught old_traj, first_caught new_traj)))"

section \<open>The demo\<close>

text \<open>The draws behind one normal event.\<close>

record draws =
  dr_type :: nat
  dr_channel :: nat
  dr_hour :: int
  dr_coin :: pyfloat
  dr_amount :: pyfloat
  dr_similarity :: pyfloat

definition CUSTOMERS :: "string list" where
  "CUSTOMERS = [''cust_000'', ''cust_001'', ''cust_002'', ''cust_003'', ''cust_004'']"

definition EMPLOYEE :: string where "EMPLOYEE = ''emp_ops_01''"

definition normal_event :: "('priv, 'pub) sim_env \<Rightarrow> nat \<Rightarrow> draws \<Rightarrow> string \<Rightarrow> identity_event" where
  "normal_event env i d identity =
     (let dev = ''dev_'' @ identity @ ''_home'' in
      attested env i dev identity (dr_similarity d)
        (plain_event identity ([LOGIN, TRANSACTION] ! dr_type d) ([MOBILE_APP, INTERNET_BANKING] ! dr_channel d)
           dev ''IN-GJ'' (dr_hour d) (if dr_coin d < fl 0.5 then Some (dr_amount d) else None)))"

definition employee_event :: "('priv, 'pub) sim_env \<Rightarrow> nat \<Rightarrow> draws \<Rightarrow> identity_event" where
  "employee_event env i d =
     attested env i ''dev_corp_laptop_01'' EMPLOYEE (dr_similarity d)
       ((plain_event EMPLOYEE PRIVILEGED_ACCESS ADMIN_CONSOLE ''dev_corp_laptop_01'' ''IN-GJ'' (dr_hour d) None)
          \<lparr>ev_privileged_scope := Some ''crm.read''\<rparr>)"

definition attack_events :: "identity_event list" where
  "attack_events =
     [(plain_event ''cust_000'' TRANSACTION INTERNET_BANKING ''dev_attacker_x'' ''RU-MOW'' 3 (Some (fl 95000)))
        \<lparr>ev_is_new_beneficiary := True\<rparr>,
      (plain_event ''cust_001'' ACCOUNT_RECOVERY INTERNET_BANKING ''dev_unknown_77'' ''IN-DL'' 3 None)
        \<lparr>ev_recovery_contact_changed := True\<rparr>,
      plain_event ''mule_0'' ONBOARDING MOBILE_APP ''dev_mule_farm_01'' ''IN-WB'' 2 None,
      plain_event ''mule_1'' ONBOARDING MOBILE_APP ''dev_mule_farm_01'' ''IN-WB'' 2 None,
      plain_event ''mule_2'' ONBOARDING MOBILE_APP ''dev_mule_farm_01'' ''IN-WB'' 2 None,
      (plain_event EMPLOYEE PRIVILEGED_ACCESS ADMIN_CONSOLE ''dev_personal_phone'' ''IN-MH'' 2 None)
        \<lparr>ev_privileged_scope := Some ''core_banking.write''\<rparr>]"

text \<open>The demo in-process: 12 rounds over the customers, one more login, ten employee events, the attacks.\<close>

definition demo_events :: "('priv, 'pub) sim_env \<Rightarrow> (nat \<Rightarrow> draws) \<Rightarrow> identity_event list" where
  "demo_events env dr =
     map (\<lambda>i. normal_event env i (dr i) (CUSTOMERS ! (i mod 5))) [0..<60] @
     [normal_event env 60 (dr 60) (CUSTOMERS ! 0)] @
     map (\<lambda>i. employee_event env i (dr i)) [61..<71] @ attack_events"

definition simulate_main ::
  "'o num_lib \<Rightarrow> 'o serving_model \<Rightarrow> ('priv, 'pub) sim_env \<Rightarrow> (nat \<Rightarrow> pyfloat) \<Rightarrow> (nat \<Rightarrow> draws) \<Rightarrow>
   py_exn + soc_assessment list" where
  "simulate_main lib m env clock dr =
     sbind (sim_resolver env clock) (\<lambda>res.
       snd (sim_assess (engine_default lib m (Some res)) (si_inputs env) 0 (demo_events env dr) (mem_empty, ([], 0))))"

section \<open>Lemmas\<close>

definition world_ok :: "nat \<Rightarrow> mem_store \<Rightarrow> bool" where
  "world_ok k s \<longleftrightarrow> (\<forall>i. state_ok (mem_load s i) \<and> st_event_count (mem_load s i) \<le> int k)"

lemma world_ok_empty: "world_ok 0 mem_empty"
  by (simp add: world_ok_def initial_state_ok) (simp add: initial_state_def)

definition amounts_from :: "mem_store \<Rightarrow> mem_store \<Rightarrow> pyfloat set \<Rightarrow> bool" where
  "amounts_from s s' A \<longleftrightarrow>
     (\<forall>i. set (st_amounts (mem_load s' i)) \<subseteq> set (st_amounts (mem_load s i)) \<union> A)"

lemma amounts_from_trans: "amounts_from s s1 A \<Longrightarrow> amounts_from s1 s2 B \<Longrightarrow> amounts_from s s2 (A \<union> B)"
  by (fastforce simp: amounts_from_def)

text \<open>One call: it succeeds, adds at most one event, and only an allowed amount to the baseline.\<close>

lemma sim_step:
  assumes "num_laws (te_lib eng)" "resolver_ok eng" "world_ok k s" "k < 2 ^ 52"
    and "event_ok e" "amount_ok (ev_amount e)"
  obtains s' n' soc where "assess eng mem_ops ci e (s, n) = ((s', n'), Inr soc)" "world_ok (Suc k) s'"
    "fin_in 0 1 (soc_event_risk soc)" "0 \<le> soc_trust_score soc" "soc_trust_score soc \<le> 1000"
    "amounts_from s s' {x. soc_decision soc = ALLOW \<and> ev_amount e = Some x}"
proof -
  have sok: "store_ok s"
    using assms(3, 4) unfolding store_ok_def world_ok_def by (metis less_le_trans linorder_not_le of_nat_less_iff of_nat_numeral of_nat_power)
  obtain s' n' soc st' oc dc where a: "assess eng mem_ops ci e (s, n) = ((s', n'), Inr soc)"
    and st: "assess_state eng e (anomaly_of eng n ci e) (ci_now ci) dc (mem_load s (ev_identity_id e)) = Inr (st', oc)"
      "state_ok st'"
    and ld: "mem_load s' = (mem_load s)(ev_identity_id e :=
       st'\<lparr>st_version := st_version (mem_load s (ev_identity_id e)) + 1\<rparr>)"
    and oc: "soc_of_outcome eng ci e oc = Inr soc" "fin_in 0 1 (oc_event_risk oc)" "0 \<le> oc_trust oc" "oc_trust oc \<le> 1000"
    by (rule assess_total_mem [OF assms(1, 2) sok assms(5, 6), of ci n])
  have d: "soc_decision soc = oc_decision oc" using soc_of_outcome_simps(1) [OF oc(1)] by simp
  have p: "profile st' = (if oc_decision oc = ALLOW then profile (commit_features (mem_load s (ev_identity_id e)) e)
      else profile (mem_load s (ev_identity_id e)))"
    using assess_state_reference [OF st(1)] by (auto simp: reference_of_def)
  have amts: "set (st_amounts st') \<subseteq> set (st_amounts (mem_load s (ev_identity_id e))) \<union>
      {x. soc_decision soc = ALLOW \<and> ev_amount e = Some x}"
    and cnt: "st_event_count st' \<le> st_event_count (mem_load s (ev_identity_id e)) + 1"
    using p d by (auto simp: profile_def commit_features_def split: if_splits option.splits)
  have w: "world_ok (Suc k) s'"
    using assms(3) st(2) cnt unfolding world_ok_def ld by (auto simp: add_increasing2 intro: order_trans)
  have am: "amounts_from s s' {x. soc_decision soc = ALLOW \<and> ev_amount e = Some x}"
    using amts by (auto simp: amounts_from_def ld)
  show thesis
    using oc soc_of_outcome_simps [OF oc(1)] by (intro that [OF a w _ _ _ am]) simp_all
qed

lemma sim_assess_total:
  assumes "num_laws (te_lib eng)" "resolver_ok eng"
  shows "world_ok k s \<Longrightarrow> k + length es \<le> 2 ^ 52 \<Longrightarrow> \<forall>e\<in>set es. event_ok e \<and> amount_ok (ev_amount e) \<Longrightarrow>
    \<exists>s' n' socs. sim_assess eng ci i es (s, n) = ((s', n'), Inr socs) \<and> length socs = length es \<and>
      world_ok (k + length es) s' \<and>
      (\<forall>soc\<in>set socs. fin_in 0 1 (soc_event_risk soc) \<and> 0 \<le> soc_trust_score soc \<and> soc_trust_score soc \<le> 1000) \<and>
      amounts_from s s' {x. \<exists>e\<in>set es. ev_amount e = Some x}"
proof (induction es arbitrary: k i s n)
  case Nil
  then show ?case by (simp add: amounts_from_def)
next
  case (Cons e es)
  from Cons.prems have k: "k < 2 ^ 52" "Suc k + length es \<le> 2 ^ 52" by simp_all
  obtain s1 n1 soc where a: "assess eng mem_ops (ci i) e (s, n) = ((s1, n1), Inr soc)" "world_ok (Suc k) s1"
    "fin_in 0 1 (soc_event_risk soc)" "0 \<le> soc_trust_score soc" "soc_trust_score soc \<le> 1000"
    "amounts_from s s1 {x. soc_decision soc = ALLOW \<and> ev_amount e = Some x}"
    using Cons.prems by (auto intro: sim_step [OF assms Cons.prems(1) k(1), of e "ci i" n])
  from Cons.IH [OF a(2) k(2), of "Suc i" n1] Cons.prems(3) obtain s' n' socs where
    b: "sim_assess eng ci (Suc i) es (s1, n1) = ((s', n'), Inr socs)" "length socs = length es"
      "world_ok (Suc k + length es) s'"
      "\<forall>soc\<in>set socs. fin_in 0 1 (soc_event_risk soc) \<and> 0 \<le> soc_trust_score soc \<and> soc_trust_score soc \<le> 1000"
      "amounts_from s1 s' {x. \<exists>e\<in>set es. ev_amount e = Some x}"
    by auto
  have "amounts_from s s' {x. \<exists>e'\<in>set (e # es). ev_amount e' = Some x}"
    using amounts_from_trans [OF a(6) b(5)] by (fastforce simp: amounts_from_def)
  with a b show ?case by auto
qed

fun creep_amount :: "nat \<Rightarrow> pyfloat" where
  "creep_amount 0 = fl 2500"
| "creep_amount (Suc i) = creep_amount i * fl 1.25"

lemma creep_amount_bounds: "i \<le> 20 \<Longrightarrow> fin_in 0 (2500 * 2 ^ i) (creep_amount i)"
proof (induction i)
  case (Suc i)
  have "(2::int) ^ Suc i \<le> 2 ^ 20" by (rule power_increasing) (use Suc.prems in simp_all)
  then have f: "f64 (of_int (2500 * 2 ^ Suc i))" by (intro f64_small_int) simp
  have "fin_in 1 2 (fl (5 / 4))" by (rule fl_bounds) simp_all
  with Suc show ?case
    using fin_in_mult_nonneg [of 0 "2500 * 2 ^ i" "creep_amount i" 1 2 "fl (5 / 4)" 0 "2500 * 2 ^ Suc i"] f
    by simp
qed simp

lemma creep_amount_ok: "i \<le> 20 \<Longrightarrow> amount_ok (Some (creep_amount i))"
proof -
  assume i: "i \<le> 20"
  have "(2::rat) ^ i \<le> 2 ^ 20" using i by (intro power_increasing) simp_all
  then have "(2500::rat) * 2 ^ i \<le> 2 ^ 60" by simp
  with creep_amount_bounds [OF i] show ?thesis by (auto simp: amount_ok_def intro: fin_in_mono)
qed

lemma creep_event_ok [simp]:
  "event_ok (creep_event identity i amount)" "ev_amount (creep_event identity i amount) = Some amount"
  by (simp_all add: creep_event_def plain_event_def event_ok_def)

lemma session_of_total:
  assumes "i \<le> 20" "fin_in 0 1 (soc_event_risk soc)" "0 \<le> soc_trust_score soc" "soc_trust_score soc \<le> 1000"
  obtains t where "session_of i (creep_amount i) soc = Inr t" "ss_session t = i"
    "ss_caught t = (soc_decision soc \<noteq> ALLOW)" "0 \<le> ss_trust t" "ss_trust t \<le> 1000" "fin_in 0 1 (ss_event_risk t)"
proof -
  obtain q where "creep_amount i = Fin q" using creep_amount_bounds [OF assms(1)] by (auto elim: fin_inE)
  with assms that show thesis by (simp add: session_of_def round_int_def py_round_unit)
qed

definition session_ok :: "nat \<Rightarrow> session \<Rightarrow> bool" where
  "session_ok i t \<longleftrightarrow> ss_session t = i \<and> 0 \<le> ss_trust t \<and> ss_trust t \<le> 1000 \<and> fin_in 0 1 (ss_event_risk t)"

lemma creep_loop_total:
  assumes "num_laws (te_lib eng)" "resolver_ok eng"
  shows "world_ok K s \<Longrightarrow> K + k \<le> 2 ^ 52 \<Longrightarrow> i + k \<le> 20 \<Longrightarrow>
    \<exists>s' n' traj. creep_loop eng ci identity k i (creep_amount i) (s, n) = ((s', n'), Inr traj) \<and>
      length traj = k \<and> (\<forall>j<k. session_ok (i + j) (traj ! j)) \<and>
      amounts_from s s' {x. \<exists>j<k. \<not> ss_caught (traj ! j) \<and> x = creep_amount (i + j)}"
proof (induction k arbitrary: i K s n)
  case 0
  then show ?case by (simp add: amounts_from_def)
next
  case (Suc k)
  from Suc.prems have b: "K < 2 ^ 52" "Suc K + k \<le> 2 ^ 52" "Suc i + k \<le> 20" "i \<le> 20" by simp_all
  obtain s1 n1 soc where a: "assess eng mem_ops (ci (10 + i)) (creep_event identity i (creep_amount i)) (s, n) = ((s1, n1), Inr soc)"
    "world_ok (Suc K) s1" "fin_in 0 1 (soc_event_risk soc)" "0 \<le> soc_trust_score soc" "soc_trust_score soc \<le> 1000"
    "amounts_from s s1 {x. soc_decision soc = ALLOW \<and> Some (creep_amount i) = Some x}"
    using creep_amount_ok [OF b(4)]
    by (auto intro: sim_step [OF assms Suc.prems(1) b(1), of "creep_event identity i (creep_amount i)" "ci (10 + i)" n])
  obtain t where t: "session_of i (creep_amount i) soc = Inr t" "ss_caught t = (soc_decision soc \<noteq> ALLOW)" "session_ok i t"
    using session_of_total [OF b(4) a(3-5)] by (metis session_ok_def)
  from Suc.IH [OF a(2) b(2, 3), of n1] obtain s' n' traj where
    r: "creep_loop eng ci identity k (Suc i) (creep_amount (Suc i)) (s1, n1) = ((s', n'), Inr traj)"
      "length traj = k" "\<forall>j<k. session_ok (Suc i + j) (traj ! j)"
      "amounts_from s1 s' {x. \<exists>j<k. \<not> ss_caught (traj ! j) \<and> x = creep_amount (Suc i + j)}"
    by blast
  have ok: "\<forall>j<Suc k. session_ok (i + j) ((t # traj) ! j)"
    using t(3) r(3) by (auto simp: less_Suc_eq_0_disj)
  have am: "amounts_from s s' {x. \<exists>j<Suc k. \<not> ss_caught ((t # traj) ! j) \<and> x = creep_amount (i + j)}"
    using amounts_from_trans [OF a(6) r(4)] t(2)
    unfolding amounts_from_def by (fastforce simp: Ex_less_Suc2)
  from a(1) t(1) r(1, 2) ok am show ?case by auto
qed

lemma sim_resolver_ok:
  assumes "sim_resolver env clock = Inr res" "te_resolver eng = Some res"
  shows "resolver_ok eng"
  unfolding resolver_ok_def
proof (intro allI impI)
  fix n now e sim
  assume r: "snd (resolve_behavior eng n now e) = Some sim"
  from assms obtain va vb where "te_resolver eng = Some (event_resolver (si_crypto env) (si_json env) clock va vb)"
    by (auto simp: sim_resolver_def sbind_eq_Inr)
  with r obtain n' where "event_resolver (si_crypto env) (si_json env) clock va vb n now e = (n', Inr (Some sim))"
    by (auto simp: resolve_behavior_def split: prod.splits sum.splits)
  then show "fin_in 0 1 sim"
    by (auto simp: event_resolver_def Let_def split: prod.splits intro: resolve_unit)
qed

lemma warm_event_ok: "event_ok (warm_event env identity i) \<and> amount_ok (ev_amount (warm_event env identity i))"
proof -
  have "fin_in 0 200 (float_of_int (int (i mod 3) * 100))"
  proof -
    have "int (i mod 3) \<le> 2" by simp
    then have "(of_int (int (i mod 3) * 100) :: rat) \<le> of_int (2 * 100)" by (simp only: of_int_le_iff)
    then show ?thesis unfolding float_of_int_def by (intro fl_bounds) simp_all
  qed
  then have "fin_in 0 2200 (warm_amount i)"
    unfolding warm_amount_def by (rule fin_in_add [of 2000 2000, rotated]) simp_all
  then have "fin_in 0 (2 ^ 60) (warm_amount i)" by (rule fin_in_mono) simp_all
  then show ?thesis by (simp add: warm_event_def attested_def plain_event_def event_ok_def amount_ok_def)
qed

section \<open>Properties\<close>

text \<open>
  The simulated attack always runs to its end, on the old engine and on the new: twenty sessions numbered
  from 0, each with a trust in [0, 1000] and a risk in [0, 1]; and no amount of a session that was caught ever
  enters the victim's baseline.
\<close>

theorem attack_run_outcome:
  assumes "num_laws lib" "sim_resolver env clock = Inr res"
    and "eng \<in> {engine_legacy lib m (Some res), engine_default lib m (Some res)}"
  shows "\<exists>s' n' traj. attack_run eng env identity (mem_empty, n) = ((s', n'), Inr traj) \<and> length traj = N_CREEP \<and>
    (\<forall>j<N_CREEP. ss_session (traj ! j) = j \<and> 0 \<le> ss_trust (traj ! j) \<and> ss_trust (traj ! j) \<le> 1000 \<and>
       fin_in 0 1 (ss_event_risk (traj ! j))) \<and>
    (\<forall>x\<in>set (st_amounts (mem_load s' identity)).
       (\<exists>i<10. x = warm_amount i) \<or> (\<exists>j<N_CREEP. \<not> ss_caught (traj ! j) \<and> x = creep_amount j))"
proof -
  have r: "resolver_ok eng"
    using assms(2, 3) by (intro sim_resolver_ok) (auto simp: engine_legacy_def engine_default_def)
  have l: "num_laws (te_lib eng)" using assms(1, 3) by (auto simp: engine_legacy_def engine_default_def)
  let ?es = "map (warm_event env identity) [0..<10]"
  from sim_assess_total [OF l r world_ok_empty, of ?es "si_inputs env" 0 n] warm_event_ok [of env identity]
  obtain s1 n1 socs where w: "sim_assess eng (si_inputs env) 0 ?es (mem_empty, n) = ((s1, n1), Inr socs)"
    "world_ok 10 s1" "amounts_from mem_empty s1 {x. \<exists>e\<in>set ?es. ev_amount e = Some x}"
    by auto
  from creep_loop_total [OF l r w(2), of N_CREEP 0 "si_inputs env" identity n1] obtain s' n' traj where
    c: "creep_loop eng (si_inputs env) identity N_CREEP 0 (fl 2500) (s1, n1) = ((s', n'), Inr traj)"
      "length traj = N_CREEP" "\<forall>j<N_CREEP. session_ok j (traj ! j)"
      "amounts_from s1 s' {x. \<exists>j<N_CREEP. \<not> ss_caught (traj ! j) \<and> x = creep_amount j}"
    by (auto simp: N_CREEP_def)
  have "set (st_amounts (mem_load s' identity)) \<subseteq>
      {x. \<exists>e\<in>set ?es. ev_amount e = Some x} \<union> {x. \<exists>j<N_CREEP. \<not> ss_caught (traj ! j) \<and> x = creep_amount j}"
    using amounts_from_trans [OF w(3) c(4)] by (auto simp: amounts_from_def initial_state_def)
  moreover have "ev_amount (warm_event env identity i) = Some (warm_amount i)" for i
    by (simp add: warm_event_def attested_def plain_event_def)
  ultimately have "\<forall>x\<in>set (st_amounts (mem_load s' identity)).
       (\<exists>i<10. x = warm_amount i) \<or> (\<exists>j<N_CREEP. \<not> ss_caught (traj ! j) \<and> x = creep_amount j)"
    by fastforce
  with w(1) c(1-3) show ?thesis by (auto simp: attack_run_def session_ok_def)
qed

definition wit_sim :: "(unit, unit) sim_env" where
  "wit_sim =
     \<lparr> si_crypto = wit_crypto, si_json = wit_json [], si_attest = Ed25519Signer (), si_behav = Ed25519Signer (),
       si_clock = (\<lambda>i. (Fin 0, Fin 0)), si_urandom = (\<lambda>i. (''a'', ''b'')), si_inputs = (\<lambda>i. wit_inputs) \<rparr>"

theorem attack_run_outcome_witness:
  "\<exists>res w' traj. sim_resolver wit_sim (\<lambda>_. Fin 60) = Inr res \<and>
     attack_run (engine_default wit_lib (te_model wit_engine) (Some res)) wit_sim ''victim_new'' (mem_empty, ([], 0))
       = (w', Inr traj) \<and> length traj = 20"
proof -
  obtain res where r: "sim_resolver wit_sim (\<lambda>_. Fin 60) = Inr res"
    by (simp add: sim_resolver_def wit_sim_def ed25519_from_b64_def wit_crypto_def)
  have l: "num_laws wit_lib" using wit_laws(1) by (simp add: wit_engine_def engine_default_def)
  from attack_run_outcome [OF l r, of "engine_default wit_lib (te_model wit_engine) (Some res)" "te_model wit_engine"
      "''victim_new''" "([], 0)"] r
  show ?thesis by (auto simp: N_CREEP_def)
qed

end
