(* ===== verification/Concurrency.thy ===== *)
theory Concurrency
  imports EngineLimits PodProps
begin

text \<open>
  Several processes on one store and one audit table. The engine's retry loop (\<^verbatim>\<open>risk_engine.py\<close>) and the Postgres append
  (\<^verbatim>\<open>stores.py\<close>) are cut at every call of the shared service, and the calls of any number of workers interleave in any
  order; a lock that expires or is not held excludes no interleaving.

  The lemmas: compare-and-set makes every interleaving of scorings and step-ups equal to running the committed ones
  one after another; the primary key makes every interleaving of appends a single verified chain, at the price of
  refusing each append whose head has been overtaken.
\<close>

section \<open>Scoring in steps\<close>

text \<open>What one pass of the retry loop computes: a scoring or the outcome of a validated step-up.\<close>

datatype job =
    Scoring identity_event "pyfloat option" pyfloat
  | Outcome string bool

fun job_identity :: "job \<Rightarrow> string" where
  "job_identity (Scoring e b now) = ev_identity_id e"
| "job_identity (Outcome i success) = i"

fun job_effect :: "('o, 'n) trust_engine \<Rightarrow> int \<Rightarrow> job \<Rightarrow> identity_state \<Rightarrow> py_exn + identity_state" where
  "job_effect eng n (Scoring e b now) st = sbind (assess_state eng e b now n st) (\<lambda>(st', oc). Inr st')"
| "job_effect eng n (Outcome i success) st = Inr (step_up_state success st)"

datatype phase = Idle | Loaded job identity_state | Ready job int identity_state

record 's workers =
  wk_store :: 's
  wk_phase :: "nat \<Rightarrow> phase"
  wk_log :: "(job \<times> int) list"

text \<open>
  The steps of worker \<open>w\<close>: load, the device graph with the scoring, the commit; a worker may fail or be given up at
  any point, and lock calls happen whenever they like. The log, which no code keeps, lists the committed jobs.
\<close>

inductive worker_step :: "('o, 'n) trust_engine \<Rightarrow> 's store_ops \<Rightarrow> 's workers \<Rightarrow> 's workers \<Rightarrow> bool" for eng ops where
  load: "wk_phase c w = Idle \<Longrightarrow> so_load ops (wk_store c) (job_identity j) = Inr st \<Longrightarrow>
    worker_step eng ops c (c\<lparr>wk_phase := (wk_phase c)(w := Loaded j st)\<rparr>)"
| score: "wk_phase c w = Loaded (Scoring e b now) st \<Longrightarrow>
    so_device_add ops (wk_store c) (ev_device_id e) (ev_identity_id e) = (s, Inr n) \<Longrightarrow>
    job_effect eng n (Scoring e b now) st = Inr st' \<Longrightarrow>
    worker_step eng ops c (c\<lparr>wk_store := s, wk_phase := (wk_phase c)(w := Ready (Scoring e b now) n st')\<rparr>)"
| step_up: "wk_phase c w = Loaded (Outcome i success) st \<Longrightarrow>
    worker_step eng ops c (c\<lparr>wk_phase := (wk_phase c)(w := Ready (Outcome i success) 0 (step_up_state success st))\<rparr>)"
| commit: "wk_phase c w = Ready j n st' \<Longrightarrow> so_commit ops (wk_store c) (job_identity j) st' (st_version st') = (s, ok) \<Longrightarrow>
    worker_step eng ops c (c\<lparr>wk_store := s, wk_phase := (wk_phase c)(w := Idle),
      wk_log := (if ok then wk_log c @ [(j, n)] else wk_log c)\<rparr>)"
| fail: "worker_step eng ops c (c\<lparr>wk_phase := (wk_phase c)(w := Idle)\<rparr>)"
| device: "so_device_add ops (wk_store c) d i = (s, r) \<Longrightarrow> worker_step eng ops c (c\<lparr>wk_store := s\<rparr>)"
| lock: "so_lock ops (wk_store c) i = (s, r) \<Longrightarrow> worker_step eng ops c (c\<lparr>wk_store := s\<rparr>)"
| unlock: "so_unlock ops (wk_store c) i = (s, r) \<Longrightarrow> worker_step eng ops c (c\<lparr>wk_store := s\<rparr>)"

inductive worker_run :: "('o, 'n) trust_engine \<Rightarrow> 's store_ops \<Rightarrow> 's \<Rightarrow> 's workers \<Rightarrow> bool" for eng ops s0 where
  start: "worker_run eng ops s0 \<lparr> wk_store = s0, wk_phase = (\<lambda>_. Idle), wk_log = [] \<rparr>"
| more: "worker_run eng ops s0 c \<Longrightarrow> worker_step eng ops c c' \<Longrightarrow> worker_run eng ops s0 c'"

text \<open>The same jobs one after another.\<close>

fun one_by_one ::
  "('o, 'n) trust_engine \<Rightarrow> (string \<Rightarrow> identity_state) \<Rightarrow> (job \<times> int) list \<Rightarrow> py_exn + (string \<Rightarrow> identity_state)" where
  "one_by_one eng v [] = Inr v"
| "one_by_one eng v ((j, n) # js) =
     sbind (job_effect eng n j (v (job_identity j))) (\<lambda>st'.
       one_by_one eng (v(job_identity j := st'\<lparr>st_version := st_version st' + 1\<rparr>)) js)"

lemma one_by_one_snoc:
  "one_by_one eng v (js @ [(j, n)]) =
     sbind (one_by_one eng v js) (\<lambda>v'. sbind (job_effect eng n j (v' (job_identity j))) (\<lambda>st'.
       Inr (v'(job_identity j := st'\<lparr>st_version := st_version st' + 1\<rparr>))))"
proof (induction js arbitrary: v)
  case Nil
  show ?case by (cases "job_effect eng n j (v (job_identity j))") (simp_all add: fun_upd_def)
next
  case (Cons p js)
  obtain k m where p: "p = (k, m)" by fastforce
  show ?case by (cases "job_effect eng m k (v (job_identity k))") (simp_all add: p Cons.IH fun_upd_def)
qed

lemma job_effect_version: "job_effect eng n j st = Inr st' \<Longrightarrow> st_version st' = st_version st"
  by (cases j) (auto simp: sbind_eq_Inr step_up_state_def Let_def dest: assess_state_version)

text \<open>A loaded state is still the one held, or the version has moved past it.\<close>

definition current_or_stale :: "identity_state \<Rightarrow> identity_state \<Rightarrow> bool" where
  "current_or_stale st held \<longleftrightarrow> st = held \<or> st_version st < st_version held"

lemma current_or_stale_moved [intro]:
  "current_or_stale st held \<Longrightarrow> st_version held < st_version held' \<Longrightarrow> current_or_stale st held'"
  by (auto simp: current_or_stale_def)

fun phase_ok :: "('o, 'n) trust_engine \<Rightarrow> (string \<Rightarrow> identity_state) \<Rightarrow> phase \<Rightarrow> bool" where
  "phase_ok eng v Idle \<longleftrightarrow> True"
| "phase_ok eng v (Loaded j st) \<longleftrightarrow> current_or_stale st (v (job_identity j))"
| "phase_ok eng v (Ready j n st') \<longleftrightarrow>
     (\<exists>st. job_effect eng n j st = Inr st' \<and> current_or_stale st (v (job_identity j)))"

lemma phase_ok_moved:
  "phase_ok eng v p \<Longrightarrow> st_version (v i) < st_version st \<Longrightarrow> phase_ok eng (v(i := st)) p"
  by (cases p) auto

context state_store
begin

lemma worker_step_serial:
  assumes "worker_step eng ops c c'" "inv (wk_store c)" "one_by_one eng v0 (wk_log c) = Inr (view (wk_store c))"
    and "\<forall>w. phase_ok eng (view (wk_store c)) (wk_phase c w)"
  shows "inv (wk_store c') \<and> one_by_one eng v0 (wk_log c') = Inr (view (wk_store c')) \<and>
    (\<forall>w. phase_ok eng (view (wk_store c')) (wk_phase c' w))"
  using assms(1)
proof cases
  case (load w j st)
  with load_view [OF assms(2) load(3)] assms show ?thesis by (auto simp: current_or_stale_def)
next
  case (score w e b now st s n st')
  with device_add_inv [OF assms(2) score(3)] assms show ?thesis
    by auto (metis phase_ok.simps(2) job_identity.simps(1))
next
  case (step_up w i success st)
  then show ?thesis using assms by auto (metis phase_ok.simps(2) job_identity.simps(2))
next
  case (commit w j n st' s ok)
  show ?thesis
  proof (cases ok)
    case False
    with commit commit_false [OF assms(2)] assms show ?thesis by auto
  next
    case True
    let ?i = "job_identity j" and ?v = "view (wk_store c)"
    have "so_commit ops (wk_store c) ?i st' (st_version st') = (s, True)" using commit(3) True by simp
    from commit_true [OF assms(2) this] have
      s: "inv s" "st_version (?v ?i) = st_version st'" "view s = ?v(?i := st'\<lparr>st_version := st_version st' + 1\<rparr>)" by auto
    from assms(4) commit(2) have "phase_ok eng ?v (Ready j n st')" by metis
    then obtain st where st: "job_effect eng n j st = Inr st'" "current_or_stale st (?v ?i)" by auto
    have "st = ?v ?i" using st(2) s(2) job_effect_version [OF st(1)] by (auto simp: current_or_stale_def)
    with st(1) assms(3) True have "one_by_one eng v0 (wk_log c @ [(j, n)]) = Inr (view s)"
      by (simp add: one_by_one_snoc s(3))
    moreover have "phase_ok eng (view s) (wk_phase c w')" for w'
      unfolding s(3) by (rule phase_ok_moved) (use assms(4) s(2) in auto)
    ultimately show ?thesis using commit(1) True s(1) by simp
  qed
next
  case (device d i s r)
  with device_add_inv [OF assms(2) device(2)] assms show ?thesis by auto
next
  case (lock i s r)
  with lock_view [OF assms(2) lock(2)] assms show ?thesis by auto
next
  case (unlock i s r)
  with unlock_view [OF assms(2) unlock(2)] assms show ?thesis by auto
qed (use assms in auto)

lemma worker_run_serial:
  assumes "worker_run eng ops s0 c" "inv s0"
  shows "inv (wk_store c) \<and> one_by_one eng (view s0) (wk_log c) = Inr (view (wk_store c)) \<and>
    (\<forall>w. phase_ok eng (view (wk_store c)) (wk_phase c w))"
  using assms(1)
proof induction
  case start
  with assms(2) show ?case by simp
next
  case (more c c')
  then show ?case by (intro worker_step_serial [OF more(2)]) auto
qed

end

lemma one_by_one_versions:
  "one_by_one eng v js = Inr v' \<Longrightarrow>
   st_version (v' i) = st_version (v i) + int (length (filter (\<lambda>p. job_identity (fst p) = i) js))"
proof (induction js arbitrary: v)
  case (Cons p js)
  obtain j n where p: "p = (j, n)" by fastforce
  from Cons.prems obtain st' where st: "job_effect eng n j (v (job_identity j)) = Inr st'"
    and r: "one_by_one eng (v(job_identity j := st'\<lparr>st_version := st_version st' + 1\<rparr>)) js = Inr v'"
    by (auto simp: p sbind_eq_Inr fun_upd_def)
  from Cons.IH [OF r] job_effect_version [OF st] show ?case by (auto simp: p)
qed simp

text \<open>The code's own pass is a run of these steps: without interference a worker ends where \<open>assess_locked\<close> ends.\<close>

lemma assess_locked_steps:
  assumes "assess_locked eng ops e b now s = (s', r)"
  shows "\<exists>ph lg. (worker_step eng ops)\<^sup>*\<^sup>* \<lparr> wk_store = s, wk_phase = (\<lambda>_. Idle), wk_log = [] \<rparr>
      \<lparr> wk_store = s', wk_phase = ph, wk_log = lg \<rparr> \<and>
    (case r of Inl _ \<Rightarrow> lg = [] | Inr (oc, ok) \<Rightarrow> lg \<noteq> [] \<longleftrightarrow> ok)"
proof -
  let ?c = "\<lambda>s p lg. \<lparr> wk_store = s, wk_phase = (\<lambda>_. Idle)(0 := p), wk_log = lg \<rparr>"
  let ?idle = "\<lparr> wk_store = s, wk_phase = (\<lambda>_. Idle), wk_log = [] \<rparr>"
  show ?thesis
  proof (cases "so_load ops s (ev_identity_id e)")
    case (Inl x)
    with assms show ?thesis by (auto simp: assess_locked_def)
  next
    case (Inr st)
    have l: "worker_step eng ops ?idle (?c s (Loaded (Scoring e b now) st) [])"
      using worker_step.load [of ?idle 0 ops "Scoring e b now" st eng] Inr by simp
    obtain s1 n where d: "so_device_add ops s (ev_device_id e) (ev_identity_id e) = (s1, n)" by fastforce
    have dv: "worker_step eng ops ?idle \<lparr> wk_store = s1, wk_phase = (\<lambda>_. Idle), wk_log = [] \<rparr>"
      using worker_step.device [of ops ?idle "ev_device_id e" "ev_identity_id e" s1 n eng] d by simp
    then have ds: "\<exists>ph. (worker_step eng ops)\<^sup>*\<^sup>* ?idle \<lparr> wk_store = s1, wk_phase = ph, wk_log = [] \<rparr>" by blast
    show ?thesis
    proof (cases n)
      case (Inl x)
      with assms \<open>so_load _ _ _ = _\<close> d ds show ?thesis by (auto simp: assess_locked_def)
    next
      case n: (Inr k)
      show ?thesis
      proof (cases "assess_state eng e b now k st")
        case (Inl x)
        with assms \<open>so_load _ _ _ = _\<close> d n ds show ?thesis by (auto simp: assess_locked_def)
      next
        case a: (Inr q)
        obtain st' oc where q: "q = (st', oc)" by fastforce
        obtain s2 ok where c: "so_commit ops s1 (ev_identity_id e) st' (st_version st') = (s2, ok)" by fastforce
        have sc: "worker_step eng ops (?c s (Loaded (Scoring e b now) st) []) (?c s1 (Ready (Scoring e b now) k st') [])"
          using worker_step.score [of "?c s (Loaded (Scoring e b now) st) []" 0 e b now st ops s1 k eng st'] d n a q by simp
        have co: "worker_step eng ops (?c s1 (Ready (Scoring e b now) k st') [])
            (?c s2 Idle (if ok then [(Scoring e b now, k)] else []))"
          using worker_step.commit [of "?c s1 (Ready (Scoring e b now) k st') []" 0 "Scoring e b now" k st' ops s2 ok eng] c
          by (cases ok) simp_all
        from l sc co have "(worker_step eng ops)\<^sup>*\<^sup>* ?idle (?c s2 Idle (if ok then [(Scoring e b now, k)] else []))"
          by (meson converse_rtranclp_into_rtranclp r_into_rtranclp)
        moreover have "s' = s2" "r = Inr (oc, ok)"
          using assms \<open>so_load _ _ _ = _\<close> d n a q c by (auto simp: assess_locked_def)
        ultimately show ?thesis by (cases ok) auto
      qed
    qed
  qed
qed

section \<open>Appending in steps\<close>

text \<open>
  A pod reads the head and computes its row; later it inserts. Between the two the others do as they like. \<open>ap_done\<close>
  lists the payloads of the inserts that succeeded, \<open>ap_refused\<close> those of the inserts that raised.
\<close>

record appenders =
  ap_table :: audit_table
  ap_row :: "nat \<Rightarrow> pg_row option"
  ap_done :: "json list"
  ap_refused :: "json list"

inductive append_step :: "audit_lib \<Rightarrow> string \<Rightarrow> jsonb \<Rightarrow> appenders \<Rightarrow> appenders \<Rightarrow> bool" for L key jsonb where
  read_head: "append_step L key jsonb a
    (a\<lparr>ap_row := (ap_row a)(w \<mapsto> pg_prepare L key (pg_head (ap_table a)) ts payload)\<rparr>)"
| inserted: "ap_row a w = Some r \<Longrightarrow> pg_insert jsonb (ap_table a) r = (t, Inr u) \<Longrightarrow>
    append_step L key jsonb a (a\<lparr>ap_table := t, ap_row := (ap_row a)(w := None), ap_done := ap_done a @ [pg_payload r]\<rparr>)"
| refused: "ap_row a w = Some r \<Longrightarrow> pg_insert jsonb (ap_table a) r = (t, Inl x) \<Longrightarrow>
    append_step L key jsonb a (a\<lparr>ap_table := t, ap_row := (ap_row a)(w := None), ap_refused := ap_refused a @ [pg_payload r]\<rparr>)"
| crashed: "append_step L key jsonb a (a\<lparr>ap_row := (ap_row a)(w := None)\<rparr>)"

inductive append_run :: "audit_lib \<Rightarrow> string \<Rightarrow> jsonb \<Rightarrow> audit_table \<Rightarrow> appenders \<Rightarrow> bool" for L key jsonb t0 where
  start: "append_run L key jsonb t0 \<lparr> ap_table = t0, ap_row = Map.empty, ap_done = [], ap_refused = [] \<rparr>"
| more: "append_run L key jsonb t0 a \<Longrightarrow> append_step L key jsonb a a' \<Longrightarrow> append_run L key jsonb t0 a'"

text \<open>A computed row was computed from the present head, or its sequence number is taken.\<close>

definition row_ok :: "audit_lib \<Rightarrow> string \<Rightarrow> audit_table \<Rightarrow> pg_row \<Rightarrow> bool" where
  "row_ok L key t r \<longleftrightarrow> (\<exists>ts p. r = pg_prepare L key (pg_head t) ts p) \<or> (0 \<le> pg_seq r \<and> pg_seq r < int (length t))"

lemma seq_taken:
  assumes "seq_ok t" "0 \<le> n" "n < int (length t)"
  shows "list_ex (\<lambda>r. pg_seq r = n) t"
proof -
  have "n \<in> set (map int [0..<length t])" using assms(2, 3) by (auto intro!: image_eqI [of _ _ "nat n"])
  then have "n \<in> pg_seq ` set (pg_ordered t)" using assms(1) unfolding seq_ok_def by (metis list.set_map)
  then show ?thesis by (auto simp: list_ex_iff)
qed

lemma prepared_payload [simp]: "pg_payload (pg_prepare L key h ts p) = p"
  by (simp add: pg_prepare_def Let_def)

lemma insert_row:
  assumes "row_ok L key t r" "table_ok L key jsonb t" "pg_insert jsonb t r = (t', x)"
  shows "case x of Inl _ \<Rightarrow> t' = t
    | Inr _ \<Rightarrow> table_ok L key jsonb t' \<and> length t' = length t + 1 \<and> pg_seq r = int (length t) \<and>
        (\<exists>rec. au_records (table_log key t') = au_records (table_log key t) @ [rec] \<and>
           dget rec ''payload'' = pg_payload r)"
proof (cases x)
  case (Inl e)
  with assms(3) show ?thesis by (auto simp: pg_insert_def split: sum.splits if_splits)
next
  case (Inr u)
  from assms(2) have seq: "seq_ok t" and fj: "faithful_jsonb jsonb" by (simp_all add: table_ok_def)
  from assms(3) Inr obtain p where p: "jsonb (pg_payload r) = Inr p" "\<not> list_ex (\<lambda>r'. pg_seq r' = pg_seq r) t"
    "t' = t @ [r\<lparr>pg_payload := p\<rparr>]"
    by (auto simp: pg_insert_def split: sum.splits if_splits)
  with seq_taken [OF seq] assms(1) obtain ts q where r: "r = pg_prepare L key (pg_head t) ts q"
    by (auto simp: row_ok_def)
  have q: "jsonb q = Inr q" using p(1) fj by (auto simp: r faithful_jsonb_def)
  have app: "pg_append L key jsonb t ts q = (t', Inr (row_record r))"
    using assms(3) Inr by (simp add: pg_append_def Let_def flip: r)
  have "au_records (table_log key t') = au_records (table_log key t) @ [row_record r]"
    using pg_trail.put_recs [OF assms(2), of ts q] app by simp
  moreover have "table_ok L key jsonb t'" using pg_trail.put_ok [OF assms(2), of ts q] app by simp
  moreover have "dget (row_record r) ''payload'' = pg_payload r"
    by (simp add: row_record_def pg_body_def dget_def)
  ultimately show ?thesis using Inr p(3) prepare_seq [OF seq] by (auto simp: r)
qed

lemma row_ok_overtaken:
  assumes "row_ok L key t r" "seq_ok t" "length t' = length t + 1"
  shows "row_ok L key t' r"
  using assms prepare_seq [OF assms(2)] by (auto simp: row_ok_def)

definition payloads :: "string \<Rightarrow> audit_table \<Rightarrow> json list" where
  "payloads key t = map (\<lambda>rec. dget rec ''payload'') (au_records (table_log key t))"

lemma append_run_chain:
  assumes "append_run L key jsonb t0 a" "table_ok L key jsonb t0"
  shows "table_ok L key jsonb (ap_table a) \<and> (\<forall>w r. ap_row a w = Some r \<longrightarrow> row_ok L key (ap_table a) r) \<and>
    payloads key (ap_table a) = payloads key t0 @ ap_done a \<and>
    (\<exists>rs. au_records (table_log key (ap_table a)) = au_records (table_log key t0) @ rs)"
  using assms(1)
proof induction
  case start
  with assms(2) show ?case by simp
next
  case (more a a')
  then have seq: "seq_ok (ap_table a)" by (simp add: table_ok_def)
  from more(2) show ?case
  proof cases
    case (read_head w ts payload)
    with more.IH show ?thesis by (auto simp: row_ok_def)
  next
    case (inserted w r t u)
    with more.IH insert_row [of L key "ap_table a" r jsonb t "Inr u"] row_ok_overtaken [OF _ seq]
    show ?thesis by (auto simp: payloads_def)
  next
    case (refused w r t x)
    with more.IH insert_row [of L key "ap_table a" r jsonb t "Inl x"] show ?thesis by auto
  next
    case (crashed w)
    with more.IH show ?thesis by auto
  qed
qed

section \<open>Properties\<close>





end
