(* ===== verification/Synthetic.thy ===== *)
theory Synthetic
  imports ModelLoader
begin

text \<open>
  The demonstration baseline: \<^verbatim>\<open>_build_synthetic\<close> of \<^verbatim>\<open>backend/app/model_loader.py\<close>, which draws the rows the demo model is
  fitted on. numpy's generator is a state; a distribution is a function that draws \<open>n\<close> values and returns the next
  state, in the order in which the code draws them.

  The lemmas: the baseline has 4600 rows, and every row is a serving vector: eleven features, each in [0, 1].
\<close>

record 'g draw_lib =
  dl_beta :: "pyfloat \<Rightarrow> pyfloat \<Rightarrow> nat \<Rightarrow> 'g \<Rightarrow> pyfloat list \<times> 'g"
  dl_random :: "nat \<Rightarrow> 'g \<Rightarrow> pyfloat list \<times> 'g"
  dl_binomial :: "pyfloat \<Rightarrow> nat \<Rightarrow> 'g \<Rightarrow> bool list \<times> 'g"
  dl_choice :: "pyfloat list \<Rightarrow> nat \<Rightarrow> 'g \<Rightarrow> pyfloat list \<times> 'g"

text \<open>The functions passed to \<^verbatim>\<open>block\<close>: \<^verbatim>\<open>rng.choice\<close>, \<^verbatim>\<open>np.full\<close>, \<^verbatim>\<open>rng.binomial(1, p, n)\<close>, \<^verbatim>\<open>rng.beta\<close>.\<close>

datatype column_source = Choice "pyfloat list" | Full pyfloat | Binomial pyfloat | Beta pyfloat pyfloat

definition bit_float :: "bool \<Rightarrow> pyfloat" where
  "bit_float b = (if b then fl 1 else fl 0)"

fun draw :: "'g draw_lib \<Rightarrow> column_source \<Rightarrow> nat \<Rightarrow> 'g \<Rightarrow> pyfloat list \<times> 'g" where
  "draw D (Choice xs) n g = dl_choice D xs n g"
| "draw D (Full x) n g = (replicate n x, g)"
| "draw D (Binomial p) n g = (let (bs, g') = dl_binomial D p n g in (map bit_float bs, g'))"
| "draw D (Beta a b) n g = dl_beta D a b n g"

definition behavior :: "'g draw_lib \<Rightarrow> nat \<Rightarrow> 'g \<Rightarrow> pyfloat list \<times> 'g" where
  "behavior D n g =
     (let (attested, g1) = dl_beta D (fl 1.5) (fl 12) n g;
          missing = replicate n (fl 0.5);
          (u, g2) = dl_random D n g1
      in (map2 (\<lambda>x (m, a). if x < fl 0.5 then m else a) u (zip missing attested), g2))"

text \<open>\<^verbatim>\<open>np.column_stack\<close> of columns of one length.\<close>

definition column_stack :: "nat \<Rightarrow> pyfloat list list \<Rightarrow> pyfloat list list" where
  "column_stack n cols = map (\<lambda>i. map (\<lambda>c. c ! i) cols) [0..<n]"

definition block ::
  "'g draw_lib \<Rightarrow> nat \<Rightarrow> column_source \<Rightarrow> column_source \<Rightarrow> column_source \<Rightarrow> column_source \<Rightarrow> column_source \<Rightarrow> 'g \<Rightarrow>
   pyfloat list list \<times> 'g" where
  "block D n criticality channel new_device new_geo hour g0 =
     (let (c0, g1) = draw D new_device n g0; (c1, g2) = draw D new_geo n g1; (c2, g3) = draw D hour n g2;
          (c3, g4) = draw D (Beta (fl 1.2) (fl 10)) n g3; (c4, g5) = behavior D n g4;
          (c5, g6) = draw D criticality n g5; (c6, g7) = draw D channel n g6;
          (c7, g8) = draw D (Binomial (fl 0.05)) n g7; (c8, g9) = draw D (Binomial (fl 0.005)) n g8;
          (c9, g10) = draw D (Beta (fl 1.5) (fl 15)) n g9; (c10, g11) = draw D (Binomial (fl 0.02)) n g10
      in (column_stack n [c0, c1, c2, c3, c4, c5, c6, c7, c8, c9, map (\<lambda>x. x * fl 0.33) c10], g11))"

definition synthetic_rows :: "'g draw_lib \<Rightarrow> 'g \<Rightarrow> pyfloat list list" where
  "synthetic_rows D g =
     (let (retail, g1) = block D 3500 (Choice [fl 0.2, fl 0.4, fl 0.5]) (Choice [fl 0.1, fl 0.3, fl 0.4])
            (Binomial (fl 0.03)) (Binomial (fl 0.02)) (Beta (fl 1.2) (fl 8)) g;
          (admin, g2) = block D 800 (Full (fl 0.9)) (Full (fl 0.7))
            (Binomial (fl 0.02)) (Binomial (fl 0.01)) (Beta (fl 1.2) (fl 10)) g1;
          (cold, g3) = block D 300 (Choice [fl 0.2, fl 0.4, fl 0.6]) (Choice [fl 0.3, fl 0.4])
            (Full (fl 0.4)) (Full (fl 0.5)) (Full (fl 0.5)) g2
      in retail @ admin @ cold)"

text \<open>The fitted pair: \<open>fit_scaler\<close> gives the scaler and its transform of the rows, \<open>fit_forest\<close> the model.\<close>

definition synthetic_pair ::
  "'g draw_lib \<Rightarrow> 'g \<Rightarrow> (pyfloat list list \<Rightarrow> 'o) \<Rightarrow> ('o \<Rightarrow> pyfloat list list \<Rightarrow> pyfloat list list) \<Rightarrow>
   (pyfloat list list \<Rightarrow> 'o) \<Rightarrow> 'o \<times> 'o" where
  "synthetic_pair D g fit_scaler transform fit_forest =
     (let x = synthetic_rows D g; scaler = fit_scaler x in (fit_forest (transform scaler x), scaler))"

section \<open>Lemmas\<close>

text \<open>What numpy documents: \<open>n\<close> values, those of a beta or uniform distribution in [0, 1], a choice from the list.\<close>

definition draw_laws :: "'g draw_lib \<Rightarrow> bool" where
  "draw_laws D \<longleftrightarrow>
     (\<forall>a b n g. length (fst (dl_beta D a b n g)) = n \<and> list_all (fin_in 0 1) (fst (dl_beta D a b n g))) \<and>
     (\<forall>n g. length (fst (dl_random D n g)) = n) \<and>
     (\<forall>p n g. length (fst (dl_binomial D p n g)) = n) \<and>
     (\<forall>xs n g. xs \<noteq> [] \<longrightarrow> length (fst (dl_choice D xs n g)) = n \<and> set (fst (dl_choice D xs n g)) \<subseteq> set xs)"

definition unit_column :: "nat \<Rightarrow> pyfloat list \<Rightarrow> bool" where
  "unit_column n c \<longleftrightarrow> length c = n \<and> list_all (fin_in 0 1) c"

fun unit_source :: "column_source \<Rightarrow> bool" where
  "unit_source (Choice xs) \<longleftrightarrow> xs \<noteq> [] \<and> list_all (fin_in 0 1) xs"
| "unit_source (Full x) \<longleftrightarrow> fin_in 0 1 x"
| "unit_source (Binomial p) \<longleftrightarrow> True"
| "unit_source (Beta a b) \<longleftrightarrow> True"

lemma bit_float_unit: "fin_in 0 1 (bit_float b)"
  by (simp add: bit_float_def fin_in_def)

lemma draw_unit:
  assumes "draw_laws D" "unit_source src"
  shows "unit_column n (fst (draw D src n g))"
proof (cases src)
  case (Choice xs)
  have "set (fst (dl_choice D xs n g)) \<subseteq> set xs" "length (fst (dl_choice D xs n g)) = n"
    using assms Choice by (simp_all add: draw_laws_def)
  moreover have "\<forall>x\<in>set xs. fin_in 0 1 x" using assms(2) Choice by (simp add: list_all_iff)
  ultimately show ?thesis unfolding Choice unit_column_def list_all_iff draw.simps by blast
qed (use assms in \<open>auto simp: draw_laws_def unit_column_def list_all_iff bit_float_unit split_beta\<close>)

lemma behavior_unit:
  assumes "draw_laws D"
  shows "unit_column n (fst (behavior D n g))"
proof -
  let ?a = "fst (dl_beta D (fl 1.5) (fl 12) n g)" and ?g = "snd (dl_beta D (fl 1.5) (fl 12) n g)"
  let ?u = "fst (dl_random D n ?g)"
  have a: "length ?a = n" "list_all (fin_in 0 1) ?a" and u: "length ?u = n" using assms by (simp_all add: draw_laws_def)
  have half: "fin_in 0 1 (fl 0.5)" by (rule fl_bounds) auto
  have b: "fst (behavior D n g) = map2 (\<lambda>x (m, a). if x < fl 0.5 then m else a) ?u (zip (replicate n (fl 0.5)) ?a)"
    by (simp add: behavior_def split_beta)
  show ?thesis using a u half by (simp add: unit_column_def b list_all_length)
qed

lemma column_stack_rows:
  "list_all (unit_column n) cols \<Longrightarrow>
   length (column_stack n cols) = n \<and> list_all (\<lambda>r. length r = length cols \<and> list_all (fin_in 0 1) r) (column_stack n cols)"
  by (auto simp: column_stack_def list_all_iff unit_column_def)

lemma third_unit: "fin_in 0 1 x \<Longrightarrow> fin_in 0 1 (x * fl (33 / 100))"
proof -
  have "fin_in 0 1 (fl (33 / 100))" by (rule fl_bounds) auto
  then show "fin_in 0 1 x \<Longrightarrow> fin_in 0 1 (x * fl (33 / 100))" by (intro fin_in_mult_nonneg [of 0 1 x 0 1]) auto
qed

lemma block_rows:
  assumes "draw_laws D" "unit_source criticality" "unit_source channel" "unit_source new_device" "unit_source new_geo" "unit_source hour"
  shows "length (fst (block D n criticality channel new_device new_geo hour g)) = n \<and>
    list_all (\<lambda>r. length r = 11 \<and> list_all (fin_in 0 1) r) (fst (block D n criticality channel new_device new_geo hour g))"
proof -
  have d: "unit_column n c" if "draw D src n h = (c, h')" "unit_source src" for src h c h'
    using draw_unit [OF assms(1) that(2), of n h] that(1) by simp
  have b: "unit_column n c" if "behavior D n h = (c, h')" for h c h'
    using behavior_unit [OF assms(1), of n h] that by simp
  have third: "unit_column n (map (\<lambda>x. x * fl (33 / 100)) c)" if "unit_column n c" for c
    using that third_unit by (auto simp: unit_column_def list_all_iff)
  have "\<exists>cols. fst (block D n criticality channel new_device new_geo hour g) = column_stack n cols \<and> length cols = 11 \<and>
    list_all (unit_column n) cols"
    unfolding block_def Let_def
    by (simp split: prod.split del: draw.simps) (intro allI impI exI conjI, rule refl, simp, auto intro!: third intro: d b simp: assms simp del: draw.simps)
  then show ?thesis using column_stack_rows by metis
qed

section \<open>Properties\<close>

text \<open>
  The demonstration baseline lives in the serving feature space: 4600 rows of eleven features, each in [0, 1].
\<close>

theorem synthetic_rows_are_serving_vectors:
  assumes "draw_laws D"
  shows "length (synthetic_rows D g) = 4600 \<and> list_all (\<lambda>r. length r = 11 \<and> list_all (fin_in 0 1) r) (synthetic_rows D g)"
proof -
  have u: "fin_in 0 1 (fl (k / 10))" if "0 \<le> k" "k \<le> 10" for k :: rat
    using that by (intro fl_bounds) auto
  show ?thesis
    using u [of 1] u [of 2] u [of 3] u [of 4] u [of 5] u [of 6] u [of 7] u [of 9]
    by (simp add: synthetic_rows_def split_beta block_rows [OF assms])
qed

text \<open>Draws that always give 1/2, false, and the first choice.\<close>

definition wit_draws :: "unit draw_lib" where
  "wit_draws = \<lparr> dl_beta = (\<lambda>a b n g. (replicate n (Fin (1 / 2)), g)), dl_random = (\<lambda>n g. (replicate n (Fin 0), g)),
     dl_binomial = (\<lambda>p n g. (replicate n False, g)),
     dl_choice = (\<lambda>xs n g. (replicate n (if xs = [] then Fin 0 else hd xs), g)) \<rparr>"

theorem synthetic_rows_are_serving_vectors_witness:
  "length (synthetic_rows wit_draws ()) = 4600 \<and> list_all (\<lambda>r. length r = 11) (synthetic_rows wit_draws ())"
proof -
  have "draw_laws wit_draws" by (auto simp: draw_laws_def wit_draws_def list_all_iff)
  from synthetic_rows_are_serving_vectors [OF this, of "()"] show ?thesis by (auto simp: list_all_iff)
qed

end
