(* ===== verification/Fitting.thy ===== *)
theory Fitting
  imports Detectors
begin

text \<open>
  What the offline detectors are fitted on and what they score: the join of \<^verbatim>\<open>ieee_features\<close>, the four fits of
  \<^verbatim>\<open>src/train.py\<close> and the one of \<^verbatim>\<open>src/train_rba_full.py\<close>, and the stages of its command line. A fitted model is the
  library's; fitting, scoring one row and sampling are the fields of \<open>fit_lib\<close>, and a fit is given the cells of the
  named columns and the labels, nothing else. A score table is the list of its rows.

  The lemmas: the join keeps one row per transaction; a score depends on the training rows and on the columns of
  its own row, never on a test label; the insider detector reads no label at all.
\<close>

section \<open>The IEEE-CIS table\<close>

definition TXN_NUM :: "string list" where
  "TXN_NUM = [''TransactionAmt'', ''card1'', ''card2'', ''card3'', ''card5'', ''addr1'', ''addr2'', ''dist1'', ''dist2''] @
     map (\<lambda>i. ''C'' @ nat_str i) [1..<15] @ [''D1'', ''D2'', ''D3'', ''D4'', ''D5'', ''D10'', ''D15'']"

definition TXN_CAT :: "string list" where
  "TXN_CAT = [''ProductCD'', ''card4'', ''card6'', ''P_emaildomain'', ''R_emaildomain'',
     ''M1'', ''M2'', ''M3'', ''M4'', ''M5'', ''M6'', ''M7'', ''M8'', ''M9'']"

definition ID_NUM :: "string list" where
  "ID_NUM = [''id_01'', ''id_02'', ''id_05'', ''id_06'', ''id_11'']"

definition ID_CAT :: "string list" where
  "ID_CAT = [''DeviceType'', ''DeviceInfo_top'', ''id30_fam'', ''id31_fam'', ''id_15'', ''id_28'', ''id_29'']"

text \<open>The two raw files: numbers and categories by column name.\<close>

record raw_txn =
  rt_id :: int
  rt_dt :: int
  rt_fraud :: int
  rt_num :: "string \<Rightarrow> pyfloat"
  rt_cat :: "string \<Rightarrow> string option"

record raw_identity =
  ri_id :: int
  ri_device_info :: "string option"
  ri_30 :: "string option"
  ri_31 :: "string option"
  ri_num :: "string \<Rightarrow> pyfloat"
  ri_cat :: "string \<Rightarrow> string option"

text \<open>\<^verbatim>\<open>value_counts().head(n).index\<close>: the most frequent present values, ties by first appearance.\<close>

definition top_values :: "nat \<Rightarrow> string option list \<Rightarrow> string list" where
  "top_values n xs =
     (let vs = List.map_filter (\<lambda>x. x) xs
      in take n (sort_key (\<lambda>v. - int (count_list vs v)) (rev (remdups (rev vs)))))"

definition device_info_top :: "string list \<Rightarrow> raw_identity \<Rightarrow> string option" where
  "device_info_top top_dev r =
     (case ri_device_info r of None \<Rightarrow> None | Some d \<Rightarrow> if d \<in> set top_dev then Some d else Some ''OTHER'')"

definition family :: "string option \<Rightarrow> string option" where
  "family x = (case x of None \<Rightarrow> None | Some s \<Rightarrow> map_option (map lower_char) (first_word s))"

definition identity_cat :: "string list \<Rightarrow> raw_identity \<Rightarrow> string \<Rightarrow> string option" where
  "identity_cat top_dev r c =
     (if c = ''DeviceInfo_top'' then device_info_top top_dev r
      else if c = ''id30_fam'' then family (ri_30 r)
      else if c = ''id31_fam'' then family (ri_31 r) else ri_cat r c)"

text \<open>One row of the left join; the columns of an absent side are missing.\<close>

definition join_cell ::
  "np_lib \<Rightarrow> string list \<Rightarrow> bool \<Rightarrow> raw_txn \<Rightarrow> raw_identity option \<Rightarrow> string \<Rightarrow> cell" where
  "join_cell np top_dev known t m c =
     (if c = ''has_identity'' then Num (if known then fl 1 else fl 0)
      else if c \<in> set TXN_NUM then Num (np_f32 np (rt_num t c))
      else if c \<in> set ID_NUM then Num (np_f32 np (case m of None \<Rightarrow> NaN | Some r \<Rightarrow> ri_num r c))
      else if c \<in> set TXN_CAT then Cat (rt_cat t c)
      else Cat (case m of None \<Rightarrow> None | Some r \<Rightarrow> identity_cat top_dev r c))"

definition join_row ::
  "np_lib \<Rightarrow> string list \<Rightarrow> bool \<Rightarrow> raw_txn \<Rightarrow> raw_identity option \<Rightarrow> txn" where
  "join_row np top_dev known t m =
     \<lparr> tx_dt = rt_dt t, tx_fraud = rt_fraud t, tx_has_identity = known, tx_cell = join_cell np top_dev known t m \<rparr>"

definition ieee_features :: "np_lib \<Rightarrow> raw_txn list \<Rightarrow> raw_identity list \<Rightarrow> txn list" where
  "ieee_features np tx idn =
     (let top_dev = top_values 100 (map ri_device_info idn)
      in concat (map (\<lambda>t.
           let known = rt_id t \<in> set (map ri_id idn);
               ms = filter (\<lambda>r. ri_id r = rt_id t) idn
           in if ms = [] then [join_row np top_dev known t None]
              else map (\<lambda>r. join_row np top_dev known t (Some r)) ms) tx))"

section \<open>Fitting and scoring\<close>

datatype estimator =
    HistGradientBoosting "(string \<times> json) list"
  | IsolationForest "(string \<times> json) list"
  | LightGBM "(string \<times> json) list" nat
  | XGBoost "(string \<times> json) list" nat
  | LogisticPipeline "(string \<times> json) list"

record 'm fit_lib =
  fb_fit :: "estimator \<Rightarrow> cell list list \<Rightarrow> int list \<Rightarrow> py_exn + 'm"
  fb_score :: "'m \<Rightarrow> cell list \<Rightarrow> pyfloat"
  fb_sample :: "int \<Rightarrow> nat \<Rightarrow> nat \<Rightarrow> nat list"
  fb_importance :: "'m \<Rightarrow> cell list list \<Rightarrow> int list \<Rightarrow> pyfloat list"

text \<open>\<^verbatim>\<open>DataFrame.sample\<close> without replacement raises when it is asked for more rows than there are.\<close>

definition frame_sample :: "'m fit_lib \<Rightarrow> int \<Rightarrow> nat \<Rightarrow> 'a list \<Rightarrow> py_exn + 'a list" where
  "frame_sample F seed n xs =
     (if length xs < n then Inl ValueError else Inr (map ((!) xs) (fb_sample F seed n (length xs))))"

text \<open>\<^verbatim>\<open>df[cols]\<close>.\<close>

definition columns :: "('r \<Rightarrow> string \<Rightarrow> cell) \<Rightarrow> string list \<Rightarrow> 'r list \<Rightarrow> cell list list" where
  "columns cell cols rows = map (\<lambda>r. map (cell r) cols) rows"

text \<open>Scoring an empty frame raises.\<close>

definition score_frame :: "'m fit_lib \<Rightarrow> 'm \<Rightarrow> cell list list \<Rightarrow> py_exn + pyfloat list" where
  "score_frame F m xs = (if xs = [] then Inl ValueError else Inr (map (fb_score F m) xs))"

definition fit_score ::
  "'m fit_lib \<Rightarrow> estimator \<Rightarrow> ('r \<Rightarrow> string \<Rightarrow> cell) \<Rightarrow> string list \<Rightarrow> 'r list \<Rightarrow> int list \<Rightarrow> 'r list \<Rightarrow> py_exn + pyfloat list" where
  "fit_score F est cell cols train y test =
     sbind (fb_fit F est (columns cell cols train) y) (\<lambda>m. score_frame F m (columns cell cols test))"

definition SEED :: int where "SEED = 42"

definition kwargs :: "(string \<times> json) list \<Rightarrow> (string \<times> json) list \<Rightarrow> (string \<times> json) list" where
  "kwargs p kw = foldl (\<lambda>p (k, v). dict_set k v p) p kw"

definition hgb :: "(string \<times> json) list \<Rightarrow> estimator" where
  "hgb kw = HistGradientBoosting (kwargs
     [(''max_iter'', JInt 200), (''learning_rate'', JFloat (fl 0.1)), (''max_leaf_nodes'', JInt 31),
      (''early_stopping'', JBool False), (''random_state'', JInt SEED),
      (''categorical_features'', JStr ''from_dtype'')] kw)"

subsection \<open>PaySim\<close>

definition BEHAV_COLS :: "string list" where
  "BEHAV_COLS = [''hour'', ''log_amount'', ''amount'', ''type'', ''orig_txn_idx'', ''dest_in_deg'', ''dest_is_merchant'']"

definition BALANCE_COLS :: "string list" where
  "BALANCE_COLS = [''oldbalanceOrg'', ''newbalanceOrig'', ''oldbalanceDest'', ''newbalanceDest'', ''err_orig'',
     ''err_dest'', ''orig_emptied'', ''dest_zero_before'', ''amt_ratio'', ''frac_orig_moved'', ''amount_eq_oldorig'']"

definition flag_cell :: "bool \<Rightarrow> cell" where
  "flag_cell b = Num (if b then fl 1 else fl 0)"

definition paysim_cells :: "paysim_feature \<Rightarrow> (string \<times> cell) list" where
  "paysim_cells r =
     [(''hour'', Num (float_of_int (pf_hour r))), (''log_amount'', Num (pf_log_amount r)), (''amount'', Num (pf_amount r)),
      (''type'', Cat (Some (pf_type r))), (''orig_txn_idx'', Num (float_of_int (pf_orig_txn_idx r))),
      (''dest_in_deg'', Num (float_of_int (pf_dest_in_deg r))), (''dest_is_merchant'', flag_cell (pf_dest_is_merchant r))] @
     zip [''oldbalanceOrg'', ''newbalanceOrig'', ''oldbalanceDest'', ''newbalanceDest''] (map Num (pf_balances r)) @
     [(''err_orig'', Num (pf_err_orig r)), (''err_dest'', Num (pf_err_dest r)),
      (''orig_emptied'', flag_cell (pf_orig_emptied r)), (''dest_zero_before'', flag_cell (pf_dest_zero_before r)),
      (''amt_ratio'', Num (pf_amt_ratio r)), (''frac_orig_moved'', Num (pf_frac_orig_moved r)),
      (''amount_eq_oldorig'', flag_cell (pf_amount_eq_oldorig r))]"

definition paysim_cell :: "paysim_feature \<Rightarrow> string \<Rightarrow> cell" where
  "paysim_cell r c = the (map_of (paysim_cells r) c)"

record paysim_score =
  ps_y :: int
  ps_flagged :: int
  ps_full :: pyfloat
  ps_behavioral :: pyfloat

text \<open>All frauds and \<open>n\<close> sampled others; the code's \<open>n\<close> is two million.\<close>

definition paysim_train :: "'m fit_lib \<Rightarrow> int \<Rightarrow> nat \<Rightarrow> paysim_feature list \<Rightarrow> py_exn + paysim_feature list" where
  "paysim_train F seed n train =
     sbind (frame_sample F seed n (filter (\<lambda>r. pf_fraud r = 0) train)) (\<lambda>neg.
       Inr (filter (\<lambda>r. pf_fraud r = 1) train @ neg))"

definition paysim_hgb :: estimator where
  "paysim_hgb = hgb [(''max_leaf_nodes'', JInt 63), (''max_iter'', JInt 300), (''class_weight'', JStr ''balanced'')]"

definition paysim_fit :: "'m fit_lib \<Rightarrow> nat \<Rightarrow> paysim_feature list \<Rightarrow> py_exn + paysim_score list" where
  "paysim_fit F n df =
     (let (train, test) = paysim_split df in
      sbind (paysim_train F SEED n train) (\<lambda>tr.
      sbind (fit_score F paysim_hgb paysim_cell (BEHAV_COLS @ BALANCE_COLS) tr (map pf_fraud tr) test) (\<lambda>full.
      sbind (fit_score F paysim_hgb paysim_cell BEHAV_COLS tr (map pf_fraud tr) test) (\<lambda>beh.
      Inr (map (\<lambda>(r, f, b). \<lparr> ps_y = pf_fraud r, ps_flagged = pf_flagged r, ps_full = f, ps_behavioral = b \<rparr>)
             (zip test (zip full beh)))))))"

subsection \<open>IEEE-CIS\<close>

record ieee_score =
  is_y :: int
  is_has_identity :: bool
  is_txn_only :: pyfloat
  is_with_device :: pyfloat

definition txn_cols :: "string list" where "txn_cols = TXN_NUM @ TXN_CAT"

definition device_cols :: "string list" where "device_cols = txn_cols @ ID_NUM @ ID_CAT @ [''has_identity'']"

definition ieee_fit :: "'m fit_lib \<Rightarrow> (int list \<Rightarrow> pyfloat) \<Rightarrow> txn list \<Rightarrow> py_exn + ieee_score list" where
  "ieee_fit F quantile80 df =
     (let (train, test) = ieee_split quantile80 df; y = map tx_fraud train in
      sbind (fit_score F (hgb []) tx_cell txn_cols train y test) (\<lambda>a.
      sbind (fit_score F (hgb []) tx_cell device_cols train y test) (\<lambda>b.
      Inr (map (\<lambda>(r, sa, sb). \<lparr> is_y = tx_fraud r, is_has_identity = tx_has_identity r, is_txn_only = sa, is_with_device = sb \<rparr>)
             (zip test (zip a b))))))"

subsection \<open>RBA\<close>

record rba_score =
  rs_y :: int
  rs_attack_ip :: int
  rs_noip :: pyfloat
  rs_ip :: pyfloat

definition rba_feats :: "string list" where
  "rba_feats = [''hour'', ''rtt'', ''f_country'', ''f_asn'', ''f_browser'', ''f_os'', ''device_type'']"

definition rba_cell :: "rba_features \<Rightarrow> string \<Rightarrow> cell" where
  "rba_cell r c =
     (if c = ''hour'' then Num (float_of_int (rp_hour (rf_row r)))
      else if c = ''rtt'' then Num (rp_rtt (rf_row r))
      else if c = ''f_country'' then Num (rf_f_country r)
      else if c = ''f_asn'' then Num (rf_f_asn r)
      else if c = ''f_browser'' then Num (rf_f_browser r)
      else if c = ''f_os'' then Num (rf_f_os r)
      else if c = ''device_type'' then Cat (Some (rp_device (rf_row r)))
      else Num (float_of_int (rp_attack_ip (rf_row r))))"

definition rba_scores ::
  "'m fit_lib \<Rightarrow> estimator \<Rightarrow> rba_features list \<times> rba_features list \<Rightarrow> py_exn + rba_score list" where
  "rba_scores F est tables =
     (let (train, test) = tables; y = map (\<lambda>r. rp_y (rf_row r)) train in
      sbind (fit_score F est rba_cell rba_feats train y test) (\<lambda>a.
      sbind (fit_score F est rba_cell (rba_feats @ [''attack_ip'']) train y test) (\<lambda>b.
      Inr (map (\<lambda>(r, sa, sb). \<lparr> rs_y = rp_y (rf_row r), rs_attack_ip = rp_attack_ip (rf_row r), rs_noip = sa, rs_ip = sb \<rparr>)
             (zip test (zip a b))))))"

definition rba_fit :: "'m fit_lib \<Rightarrow> np_lib \<Rightarrow> rba_row list \<Rightarrow> py_exn + rba_score list" where
  "rba_fit F np rows = rba_scores F (hgb [(''max_iter'', JInt 300)]) (rba_sample_tables np rows)"

text \<open>\<^verbatim>\<open>main\<close> of \<^verbatim>\<open>train_rba_full.py\<close>.\<close>

definition rba_full_main :: "'m fit_lib \<Rightarrow> np_lib \<Rightarrow> rba_row list list \<Rightarrow> nat \<Rightarrow> py_exn + rba_score list" where
  "rba_full_main F np chunks train_neg_cap =
     rba_scores F (HistGradientBoosting
         [(''max_iter'', JInt 300), (''learning_rate'', JFloat (fl 0.1)), (''max_leaf_nodes'', JInt 31),
          (''random_state'', JInt SEED), (''class_weight'', JStr ''balanced''),
          (''categorical_features'', JStr ''from_dtype'')])
       (rba_full_tables np chunks train_neg_cap)"

subsection \<open>CERT\<close>

record cert_scored =
  cd_user :: string
  cd_day :: int
  cd_y :: int
  cd_iforest :: pyfloat
  cd_zsum :: pyfloat

text \<open>A row of \<open>cert_features\<close> is a user-day with its label and its eight deviations, in this order.\<close>

definition DEV_COLS :: "string list" where
  "DEV_COLS = map ((@) ''dev_'')
     [''n_logon'', ''n_off_logon'', ''n_pcs'', ''n_other_pc'', ''n_usb'', ''n_off_usb'', ''n_file'', ''n_off_file'']"

definition cert_cell :: "user_day \<times> int \<times> pyfloat list \<Rightarrow> string \<Rightarrow> cell" where
  "cert_cell r c = (case r of (d, y, dev) \<Rightarrow> the (map_of (zip DEV_COLS (map Num dev)) c))"

definition iforest :: "int \<Rightarrow> estimator" where
  "iforest seed = IsolationForest [(''n_estimators'', JInt 400), (''random_state'', JInt seed), (''n_jobs'', JInt (- 1))]"

text \<open>\<^verbatim>\<open>-iso.score_samples\<close>; an isolation forest is fitted without labels.\<close>

definition iforest_scores ::
  "'m fit_lib \<Rightarrow> int \<Rightarrow> string list \<Rightarrow> (user_day \<times> int \<times> pyfloat list) list \<Rightarrow> py_exn + pyfloat list" where
  "iforest_scores F seed cols ud = sbind (fit_score F (iforest seed) cert_cell cols ud [] ud) (\<lambda>s. Inr (map uminus s))"

definition cell_num :: "cell \<Rightarrow> pyfloat" where
  "cell_num v = (case v of Num x \<Rightarrow> x | Cat s \<Rightarrow> NaN)"

definition zsum :: "metric_lib \<Rightarrow> user_day \<times> int \<times> pyfloat list \<Rightarrow> pyfloat" where
  "zsum lib r = ml_sum lib (map (\<lambda>c. cell_num (cert_cell r c))
     [''dev_n_off_logon'', ''dev_n_other_pc'', ''dev_n_off_usb'', ''dev_n_off_file'', ''dev_n_usb'', ''dev_n_file''])"

definition cert_fit ::
  "'m fit_lib \<Rightarrow> metric_lib \<Rightarrow> (user_day \<times> int \<times> pyfloat list) list \<Rightarrow> py_exn + cert_scored list" where
  "cert_fit F lib ud =
     sbind (iforest_scores F SEED DEV_COLS ud) (\<lambda>s.
       Inr (map (\<lambda>(r, x). case r of (d, y, dev) \<Rightarrow>
              \<lparr> cd_user = ud_user d, cd_day = ud_day d, cd_y = y, cd_iforest = x, cd_zsum = zsum lib r \<rparr>) (zip ud s)))"

subsection \<open>The command line\<close>

text \<open>The stages \<^verbatim>\<open>main\<close> runs; \<open>None\<close> is a usage error of argparse.\<close>

definition STAGES :: "(string \<times> string list) list" where
  "STAGES = [(''paysim'', [''features'', ''fit'']), (''ieee_cis'', [''features'', ''fit'']), (''rba'', [''fit'']),
     (''cmu_keystroke'', [''fit'']), (''cert_insider'', [''features'', ''fit''])]"

definition train_plan :: "string \<Rightarrow> string \<Rightarrow> string list option" where
  "train_plan dataset stage =
     (case map_of STAGES dataset of
        None \<Rightarrow> None
      | Some todo \<Rightarrow> if stage \<in> {''features'', ''fit'', ''all''}
          then Some (filter (\<lambda>st. stage = ''all'' \<or> stage = st) todo) else None)"

section \<open>Lemmas\<close>

lemma paysim_columns_present:
  "length (pf_balances r) = 4 \<Longrightarrow> list_all (\<lambda>c. map_of (paysim_cells r) c \<noteq> None) (BEHAV_COLS @ BALANCE_COLS)"
  by (auto simp: paysim_cells_def BEHAV_COLS_def BALANCE_COLS_def numeral_eq_Suc length_Suc_conv)

lemma hgb_default: "hgb [] = HistGradientBoosting
     [(''max_iter'', JInt 200), (''learning_rate'', JFloat (fl 0.1)), (''max_leaf_nodes'', JInt 31),
      (''early_stopping'', JBool False), (''random_state'', JInt 42), (''categorical_features'', JStr ''from_dtype'')]"
  by (simp add: hgb_def kwargs_def SEED_def)

lemma fit_score_cong:
  "columns cell cols test = columns cell cols test' \<Longrightarrow>
   fit_score F est cell cols train y test = fit_score F est cell cols train y test'"
  by (simp add: fit_score_def)

lemma fit_score_length: "fit_score F est cell cols train y test = Inr s \<Longrightarrow> length s = length test"
  by (auto simp: fit_score_def score_frame_def columns_def sbind_eq_Inr split: if_splits)

lemma columns_cong: "map g rows = map g rows' \<Longrightarrow> (\<And>r. cell r = cell' (g r)) \<Longrightarrow> columns cell cols rows = columns cell cols rows'"
proof (induction rows arbitrary: rows')
  case (Cons r rows)
  then obtain r' rest where rows': "rows' = r' # rest" "g r = g r'" "map g rows = map g rest" by (cases rows') auto
  with Cons.IH [OF rows'(3)] Cons.prems(2) show ?case by (simp add: columns_def)
qed (simp add: columns_def)

lemma map_fst_zip3 [simp]:
  "length xs = length ys \<Longrightarrow> length ys = length zs \<Longrightarrow> map (\<lambda>(r, a, b). f r) (zip xs (zip ys zs)) = map f xs"
  "length xs = length ys \<Longrightarrow> length ys = length zs \<Longrightarrow> map (\<lambda>(r, a, b). a) (zip xs (zip ys zs)) = ys"
  "length xs = length ys \<Longrightarrow> length ys = length zs \<Longrightarrow> map (\<lambda>(r, a, b). b) (zip xs (zip ys zs)) = zs"
  by (induction xs ys zs rule: list_induct3) auto

text \<open>What a fit writes: one row per test row, in order.\<close>

lemma paysim_fit_parts:
  assumes "paysim_fit F n df = Inr out"
  obtains tr full beh where "paysim_train F SEED n (fst (paysim_split df)) = Inr tr"
    "fit_score F paysim_hgb paysim_cell (BEHAV_COLS @ BALANCE_COLS) tr (map pf_fraud tr) (snd (paysim_split df)) = Inr full"
    "fit_score F paysim_hgb paysim_cell BEHAV_COLS tr (map pf_fraud tr) (snd (paysim_split df)) = Inr beh"
    "map ps_full out = full" "map ps_behavioral out = beh" "map ps_y out = map pf_fraud (snd (paysim_split df))"
proof -
  let ?test = "snd (paysim_split df)"
  from assms obtain tr full beh where p: "paysim_train F SEED n (fst (paysim_split df)) = Inr tr"
    "fit_score F paysim_hgb paysim_cell (BEHAV_COLS @ BALANCE_COLS) tr (map pf_fraud tr) ?test = Inr full"
    "fit_score F paysim_hgb paysim_cell BEHAV_COLS tr (map pf_fraud tr) ?test = Inr beh"
    and out: "out = map (\<lambda>(r, f, b). \<lparr> ps_y = pf_fraud r, ps_flagged = pf_flagged r, ps_full = f, ps_behavioral = b \<rparr>)
             (zip ?test (zip full beh))"
    by (auto simp: paysim_fit_def sbind_eq_Inr split_beta)
  note len = fit_score_length [OF p(2)] fit_score_length [OF p(3)]
  have "map ps_full out = full" "map ps_behavioral out = beh" "map ps_y out = map pf_fraud ?test"
    using len by (simp_all add: out comp_def case_prod_beta' [symmetric] split_beta flip: case_prod_unfold)
  with p that show thesis by blast
qed

lemma ieee_fit_parts:
  assumes "ieee_fit F quantile80 df = Inr out"
  shows "map is_y out = map tx_fraud (snd (ieee_split quantile80 df))"
    "map is_has_identity out = map tx_has_identity (snd (ieee_split quantile80 df))"
proof -
  let ?train = "fst (ieee_split quantile80 df)" and ?test = "snd (ieee_split quantile80 df)"
  from assms obtain a b where
    p: "fit_score F (hgb []) tx_cell txn_cols ?train (map tx_fraud ?train) ?test = Inr a"
      "fit_score F (hgb []) tx_cell device_cols ?train (map tx_fraud ?train) ?test = Inr b"
    and out: "out = map (\<lambda>(r, sa, sb). \<lparr> is_y = tx_fraud r, is_has_identity = tx_has_identity r, is_txn_only = sa, is_with_device = sb \<rparr>)
             (zip ?test (zip a b))"
    by (auto simp: ieee_fit_def sbind_eq_Inr split_beta Let_def)
  note len = fit_score_length [OF p(1)] fit_score_length [OF p(2)]
  show "map is_y out = map tx_fraud ?test" "map is_has_identity out = map tx_has_identity ?test"
    using len by (simp_all add: out comp_def split_beta flip: case_prod_unfold)
qed

section \<open>Properties\<close>

text \<open>
  The join keeps the transactions: one row each, in order, with its time and label, and marked as carrying an
  identity exactly when the identity file has its id.
\<close>

theorem join_keeps_transactions:
  assumes "distinct (map ri_id idn)"
  shows "map tx_dt (ieee_features np tx idn) = map rt_dt tx \<and> map tx_fraud (ieee_features np tx idn) = map rt_fraud tx \<and>
    map tx_has_identity (ieee_features np tx idn) = map (\<lambda>t. rt_id t \<in> ri_id ` set idn) tx"
proof -
  let ?top = "top_values 100 (map ri_device_info idn)"
  have one: "\<exists>m. (if filter (\<lambda>r. ri_id r = i) idn = [] then [f None] else map (\<lambda>r. f (Some r)) (filter (\<lambda>r. ri_id r = i) idn)) = [f m]"
    for i and f :: "raw_identity option \<Rightarrow> txn"
  proof -
    have "length (filter (\<lambda>r. ri_id r = i) idn) \<le> 1"
      using assms by (induction idn) (auto simp: filter_empty_conv image_iff)
    then consider "filter (\<lambda>r. ri_id r = i) idn = []" | r where "filter (\<lambda>r. ri_id r = i) idn = [r]"
      by (cases "filter (\<lambda>r. ri_id r = i) idn") auto
    then show ?thesis by cases auto
  qed
  have "\<exists>ms. ieee_features np tx idn = map2 (\<lambda>t m. join_row np ?top (rt_id t \<in> set (map ri_id idn)) t m) tx ms \<and> length ms = length tx"
  proof (induction tx)
    case (Cons t tx)
    then obtain ms where ms: "ieee_features np tx idn = map2 (\<lambda>t m. join_row np ?top (rt_id t \<in> set (map ri_id idn)) t m) tx ms"
      "length ms = length tx" by blast
    from one [of "rt_id t" "join_row np ?top (rt_id t \<in> set (map ri_id idn)) t"] obtain m where
      m: "(if filter (\<lambda>r. ri_id r = rt_id t) idn = [] then [join_row np ?top (rt_id t \<in> set (map ri_id idn)) t None]
        else map (\<lambda>r. join_row np ?top (rt_id t \<in> set (map ri_id idn)) t (Some r)) (filter (\<lambda>r. ri_id r = rt_id t) idn)) =
        [join_row np ?top (rt_id t \<in> set (map ri_id idn)) t m]" by blast
    show ?case using ms m by (intro exI [of _ "m # ms"]) (simp add: ieee_features_def Let_def split: if_splits)
  qed (simp add: ieee_features_def Let_def)
  then obtain ms where ms: "ieee_features np tx idn = map2 (\<lambda>t m. join_row np ?top (rt_id t \<in> set (map ri_id idn)) t m) tx ms"
    "length ms = length tx" by blast
  show ?thesis unfolding ms(1) using ms(2)
    by (induction ms tx rule: list_induct2) (auto simp: join_row_def)
qed

definition wit_raw_txn :: "int \<Rightarrow> raw_txn" where
  "wit_raw_txn i = \<lparr> rt_id = i, rt_dt = 60 * i, rt_fraud = i mod 2, rt_num = (\<lambda>_. Fin 1), rt_cat = (\<lambda>_. None) \<rparr>"

definition wit_raw_identity :: "int \<Rightarrow> raw_identity" where
  "wit_raw_identity i = \<lparr> ri_id = i, ri_device_info = Some ''Windows'', ri_30 = None, ri_31 = None,
     ri_num = (\<lambda>_. Fin 1), ri_cat = (\<lambda>_. None) \<rparr>"

theorem join_keeps_transactions_witness:
  "map tx_dt (ieee_features wit_np [wit_raw_txn 1, wit_raw_txn 2] [wit_raw_identity 2, wit_raw_identity 3]) = [60, 120] \<and>
   map tx_has_identity (ieee_features wit_np [wit_raw_txn 1, wit_raw_txn 2] [wit_raw_identity 2, wit_raw_identity 3]) = [False, True]"
proof -
  have "distinct (map ri_id [wit_raw_identity 2, wit_raw_identity 3])" by (simp add: wit_raw_identity_def)
  from join_keeps_transactions [OF this, of wit_np "[wit_raw_txn 1, wit_raw_txn 2]"] show ?thesis
    by (simp add: wit_raw_txn_def wit_raw_identity_def)
qed

text \<open>
  PaySim scores never see a test label: two tables with the same training rows whose test rows differ only in the
  fraud and flag columns get the same scores from both models.
\<close>

definition unlabelled :: "paysim_feature \<Rightarrow> paysim_feature" where
  "unlabelled r = r\<lparr>pf_fraud := 0, pf_flagged := 0\<rparr>"

lemma paysim_cell_unlabelled: "paysim_cell r = paysim_cell (unlabelled r)"
  by (simp add: fun_eq_iff paysim_cell_def paysim_cells_def unlabelled_def)

theorem paysim_scores_blind:
  assumes "paysim_fit F n df = Inr out" "paysim_fit F n df' = Inr out'"
    and "fst (paysim_split df) = fst (paysim_split df')"
    and "map unlabelled (snd (paysim_split df)) = map unlabelled (snd (paysim_split df'))"
  shows "map ps_full out = map ps_full out' \<and> map ps_behavioral out = map ps_behavioral out'"
proof -
  have c: "columns paysim_cell cols (snd (paysim_split df)) = columns paysim_cell cols (snd (paysim_split df'))" for cols
    by (rule columns_cong [OF assms(4), of paysim_cell paysim_cell]) (rule paysim_cell_unlabelled)
  have e: "fit_score F est paysim_cell cols tr y (snd (paysim_split df)) =
    fit_score F est paysim_cell cols tr y (snd (paysim_split df'))" for est cols tr y
    by (rule fit_score_cong [OF c])
  show ?thesis
    by (rule paysim_fit_parts [OF assms(1)], rule paysim_fit_parts [OF assms(2)]) (use assms(3) in \<open>auto simp: e\<close>)
qed

text \<open>A library for witnesses: the model is the number of training rows, a score the number of cells.\<close>

definition wit_fit :: "nat fit_lib" where
  "wit_fit = \<lparr> fb_fit = (\<lambda>est xs y. Inr (length xs)), fb_score = (\<lambda>m r. Fin (of_nat (m + length r))),
     fb_sample = (\<lambda>seed n len. [0..<n]), fb_importance = (\<lambda>m xs y. map (\<lambda>_. Fin 1) (hd xs)) \<rparr>"

definition wit_feature :: "int \<Rightarrow> int \<Rightarrow> paysim_feature" where
  "wit_feature t f = (paysim_feature_of wit_np [] [] (wit_paysim t))\<lparr>pf_step := t, pf_fraud := f\<rparr>"

lemma wit_feature_fields [simp]: "pf_step (wit_feature t f) = t" "pf_fraud (wit_feature t f) = f"
  by (simp_all add: wit_feature_def)

theorem paysim_scores_blind_witness:
  "\<exists>out out'. paysim_fit wit_fit 1 [wit_feature 1 0, wit_feature 700 0] = Inr out \<and>
     paysim_fit wit_fit 1 [wit_feature 1 0, wit_feature 700 1] = Inr out' \<and>
     map ps_y out \<noteq> map ps_y out' \<and> map ps_full out = map ps_full out'"
proof -
  let ?df = "\<lambda>f. [wit_feature 1 0, wit_feature 700 f]"
  have s: "paysim_split (?df f) = ([wit_feature 1 0], [wit_feature 700 f])" for f
    by (simp add: paysim_split_def)
  have "\<exists>out. paysim_fit wit_fit 1 (?df f) = Inr out \<and> map ps_y out = [f]" for f
    by (simp add: paysim_fit_def s paysim_train_def frame_sample_def fit_score_def score_frame_def columns_def wit_fit_def)
  then obtain out out' where o: "paysim_fit wit_fit 1 (?df 0) = Inr out" "map ps_y out = [0]"
    "paysim_fit wit_fit 1 (?df 1) = Inr out'" "map ps_y out' = [1]" by metis
  have "map unlabelled [wit_feature 700 0] = map unlabelled [wit_feature 700 1]"
    by (simp add: unlabelled_def wit_feature_def)
  with paysim_scores_blind [OF o(1) o(3)] have "map ps_full out = map ps_full out'" by (simp only: s fst_conv snd_conv)
  with o show ?thesis by auto
qed

text \<open>The insider detector is unsupervised: relabelling changes neither score.\<close>

definition cert_unlabelled :: "cert_scored \<Rightarrow> cert_scored" where
  "cert_unlabelled r = r\<lparr>cd_y := 0\<rparr>"

lemma cert_fit_relabel:
  assumes "map (\<lambda>(d, y, dev). (d, dev)) ud = map (\<lambda>(d, y, dev). (d, dev)) ud'"
  shows "(case cert_fit F lib ud of Inl e \<Rightarrow> Inl e | Inr out \<Rightarrow> Inr (map cert_unlabelled out)) =
    (case cert_fit F lib ud' of Inl e \<Rightarrow> Inl e | Inr out \<Rightarrow> Inr (map cert_unlabelled out))"
proof -
  have cell: "cert_cell r = cert_cell (fst r, 0, snd (snd r))" for r by (cases r) (simp add: fun_eq_iff cert_cell_def)
  have "columns cert_cell cols ud = columns cert_cell cols ud'" for cols
    by (rule columns_cong [OF assms, of cert_cell "\<lambda>(d, dev). cert_cell (d, 0, dev)"]) (use cell in \<open>auto split: prod.splits\<close>)
  then have sc: "iforest_scores F SEED DEV_COLS ud = iforest_scores F SEED DEV_COLS ud'"
    by (simp add: iforest_scores_def fit_score_def)
  have "map cert_unlabelled (map (\<lambda>(r, x). case r of (d, y, dev) \<Rightarrow>
              \<lparr> cd_user = ud_user d, cd_day = ud_day d, cd_y = y, cd_iforest = x, cd_zsum = zsum lib r \<rparr>) (zip ud s)) =
    map cert_unlabelled (map (\<lambda>(r, x). case r of (d, y, dev) \<Rightarrow>
              \<lparr> cd_user = ud_user d, cd_day = ud_day d, cd_y = y, cd_iforest = x, cd_zsum = zsum lib r \<rparr>) (zip ud' s))" for s
    using assms
  proof (induction ud arbitrary: ud' s)
    case (Cons r ud)
    then obtain r' rest where ud': "ud' = r' # rest" "(\<lambda>(d, y, dev). (d, dev)) r = (\<lambda>(d, y, dev). (d, dev)) r'"
      "map (\<lambda>(d, y, dev). (d, dev)) ud = map (\<lambda>(d, y, dev). (d, dev)) rest" by (cases ud') auto
    have z: "zsum lib r = zsum lib r'" unfolding zsum_def using cell ud'(2) by (auto split: prod.splits) (metis fst_conv snd_conv)
    show ?case
    proof (cases s)
      case (Cons x s')
      with Cons.IH [OF ud'(3), of s'] ud' z show ?thesis by (auto simp: cert_unlabelled_def split: prod.splits)
    qed simp
  qed simp
  with sc show ?thesis by (auto simp: cert_fit_def sbind_def split: sum.splits)
qed

lemma cert_fit_features:
  "(case cert_fit F lib (cert_features np lo dv fi ins) of Inl e \<Rightarrow> Inl e | Inr out \<Rightarrow> Inr (map cert_unlabelled out)) =
   (case cert_fit F lib (cert_features np lo dv fi ins') of Inl e \<Rightarrow> Inl e | Inr out \<Rightarrow> Inr (map cert_unlabelled out))"
  by (rule cert_fit_relabel) (simp add: cert_features_def split_beta comp_def)

end
