(* ===== verification/Runs.thy ===== *)
theory Runs
  imports Fitting
begin

text \<open>
  The evaluation commands on the score tables: the runners of \<^verbatim>\<open>src/evaluate.py\<close> with the curves of
  \<^verbatim>\<open>src/pramaan_eval.py\<close>, the runners of \<^verbatim>\<open>src/eval_full.py\<close> and its leaderboard. A report is the record of what is
  written as JSON; files and plots are not modelled.

  The lemmas: both protocols report the same numbers where they overlap; a table written by the fit always passes the
  alignment check of its evaluation, so each loss is the amount of the scored row itself; the alerts of the insider
  report are fixed by the raw logs.
\<close>

section \<open>The short protocol\<close>

text \<open>\<^verbatim>\<open>_curves\<close> and \<^verbatim>\<open>_at_fpr\<close> of \<^verbatim>\<open>pramaan_eval.py\<close>.\<close>

definition pe_curves ::
  "metric_lib \<Rightarrow> int list \<Rightarrow> pyfloat list \<Rightarrow> pyfloat \<Rightarrow>
   py_exn + pyfloat list \<times> pyfloat list \<times> pyfloat list \<times> pyfloat list" where
  "pe_curves lib y s neg_sample_rate =
     (let (fpr, tpr, thr) = ml_roc_curve lib y s;
          P = float_of_int (count_label 1 y); N_sampled = float_of_int (count_label 0 y)
      in sbind (py_div N_sampled neg_sample_rate) (\<lambda>N_full.
         let tp = map (\<lambda>t. t * P) tpr; fp_full = map (\<lambda>f. f * N_full) fpr
         in Inr (fpr, tpr, thr, map2 (\<lambda>a b. if Fin 0 < a + b then fdiv a (a + b) else fl 1) tp fp_full)))"

definition pe_at_fpr ::
  "metric_lib \<Rightarrow> pyfloat list \<Rightarrow> pyfloat list \<Rightarrow> pyfloat list \<Rightarrow> pyfloat list \<Rightarrow> pyfloat \<Rightarrow> py_exn + op_point" where
  "pe_at_fpr lib fpr tpr thr precision target_fpr =
     (let i = nat (max (int (ml_searchsorted_right lib fpr target_fpr) - 1) 0) in
      sbind (item fpr i) (\<lambda>f. sbind (item tpr i) (\<lambda>r. sbind (item precision i) (\<lambda>p. sbind (item thr i) (\<lambda>t.
      Inr \<lparr> op_fpr = f, op_recall = r, op_precision = p, op_threshold = t \<rparr>)))))"

lemma pe_curves_pack:
  "pe_curves lib y s r = sbind (make_roc_pack lib y s r) (\<lambda>k. Inr (rk_fpr k, rk_tpr k, rk_thr k, rk_precision k))"
  by (cases "py_div (float_of_int (count_label 0 y)) r")
    (auto simp: pe_curves_def make_roc_pack_def Let_def zip_map1 zip_map2 comp_def split: prod.splits)

lemma pe_at_fpr_pack: "pe_at_fpr lib (rk_fpr k) (rk_tpr k) (rk_thr k) (rk_precision k) t = op_at_fpr lib k t"
  by (simp add: pe_at_fpr_def op_at_fpr_def op_index_def)

record named_report =
  nr_name :: string
  nr_report :: eval_report
  nr_extra :: "(string \<times> json) list"

definition pe_run ::
  "metric_lib \<Rightarrow> string \<Rightarrow> int list \<Rightarrow> pyfloat list \<Rightarrow> pyfloat \<Rightarrow> (string \<times> json) list \<Rightarrow> py_exn + named_report" where
  "pe_run lib name y s neg_sample_rate extra =
     sbind (pe_evaluate lib y s neg_sample_rate (fl 0.01)) (\<lambda>m.
       Inr \<lparr> nr_name = name, nr_report = m, nr_extra = extra \<rparr>)"

text \<open>The curves of \<^verbatim>\<open>compare_stepup\<close>: label, false positive rates and recalls in percent.\<close>

definition compare_stepup ::
  "metric_lib \<Rightarrow> (string \<times> int list \<times> pyfloat list) list \<Rightarrow> pyfloat \<Rightarrow>
   py_exn + (string \<times> pyfloat list \<times> pyfloat list) list" where
  "compare_stepup lib runs neg_sample_rate =
     try_map (\<lambda>(label, y, s). sbind (pe_curves lib y s neg_sample_rate) (\<lambda>(fpr, tpr, thr, precision).
       Inr (label, map (\<lambda>f. f * fl 100) fpr, map (\<lambda>t. t * fl 100) tpr))) runs"

section \<open>The runners of evaluate.py\<close>

definition flag_rate :: "metric_lib \<Rightarrow> int \<Rightarrow> paysim_score list \<Rightarrow> pyfloat" where
  "flag_rate lib c df = ml_mean lib (map (\<lambda>r. float_of_int (ps_flagged r)) (filter (\<lambda>r. ps_y r = c) df))"

definition fraud_rate_pct :: "metric_lib \<Rightarrow> int list \<Rightarrow> pyfloat" where
  "fraud_rate_pct lib y = py_round 3 (ml_mean lib (map float_of_int y) * fl 100)"

definition eval_paysim :: "metric_lib \<Rightarrow> paysim_score list \<Rightarrow> py_exn + (string \<times> named_report) list" where
  "eval_paysim lib df =
     (let y = map ps_y df;
          extra = [(''builtin_rule_baseline'', JObj [(''recall'', JFloat (py_round 4 (flag_rate lib 1 df))),
                                                     (''fpr'', JFloat (py_round 6 (flag_rate lib 0 df)))]),
                   (''split'', JStr ''temporal: train step<=600, test step>600''),
                   (''test_fraud_rate_pct'', JFloat (fraud_rate_pct lib y))]
      in sbind (pe_run lib ''paysim_full'' y (map ps_full df) (fl 1) extra) (\<lambda>m_full.
         sbind (pe_run lib ''paysim_behavioral'' y (map ps_behavioral df) (fl 1) extra) (\<lambda>m_beh.
         sbind (compare_stepup lib [(''full features'', y, map ps_full df),
           (''behavioral-only (no balance cols)'', y, map ps_behavioral df)] (fl 1)) (\<lambda>_.
         Inr [(''full'', m_full), (''behavioral_only'', m_beh)]))))"

definition eval_ieee :: "metric_lib \<Rightarrow> ieee_score list \<Rightarrow> py_exn + (string \<times> named_report) list" where
  "eval_ieee lib df =
     (let y = map is_y df; sub = filter is_has_identity df;
          extra = [(''split'', JStr ''temporal: train first 80% of TransactionDT, test last 20%''),
                   (''test_fraud_rate_pct'', JFloat (fraud_rate_pct lib y))]
      in sbind (pe_run lib ''ieee_txn_only'' y (map is_txn_only df) (fl 1) extra) (\<lambda>m_a.
         sbind (pe_run lib ''ieee_with_device'' y (map is_with_device df) (fl 1) extra) (\<lambda>m_b.
         sbind (pe_run lib ''ieee_with_device_identity_subset'' (map is_y sub) (map is_with_device sub) (fl 1)
           [(''note'', JStr ''transactions that carry device/identity data'')]) (\<lambda>m_bs.
         sbind (compare_stepup lib [(''transaction-only'', y, map is_txn_only df),
           (''+ device/identity columns'', y, map is_with_device df)] (fl 1)) (\<lambda>_.
         Inr [(''txn_only'', m_a), (''with_device'', m_b), (''device_subset'', m_bs)])))))"

definition attack_ip_scores :: "rba_score list \<Rightarrow> pyfloat list" where
  "attack_ip_scores df = map (\<lambda>r. float_of_int (rs_attack_ip r)) df"

definition eval_rba :: "metric_lib \<Rightarrow> rba_score list \<Rightarrow> py_exn + (string \<times> named_report) list" where
  "eval_rba lib df =
     (let y = map rs_y df; S = fl 0.02;
          extra = [(''neg_sampling_note'', JStr (''negatives uniformly sampled at ~2%; FPR/recall/ROC '' @
                      ''unbiased, precision/PR-AUC corrected by the rate'')),
                   (''split'', JStr ''temporal 70/30 within sampled window; successful logins only'')]
      in sbind (pe_run lib ''rba_noip'' y (map rs_noip df) S extra) (\<lambda>m_noip.
         sbind (pe_run lib ''rba_ip'' y (map rs_ip df) S extra) (\<lambda>m_ip.
         sbind (pe_run lib ''rba_ipreputation_baseline'' y (attack_ip_scores df) S
           [(''note'', JStr ''IP-reputation flag alone as the score'')]) (\<lambda>m_base.
         sbind (compare_stepup lib [(''behavioral + IP reputation'', y, map rs_ip df),
           (''behavioral only (no IP feed)'', y, map rs_noip df), (''IP reputation alone'', y, attack_ip_scores df)] S) (\<lambda>_.
         Inr [(''noip'', m_noip), (''ip'', m_ip), (''baseline'', m_base)])))))"

text \<open>\<^verbatim>\<open>by_scen\<close>: the insiders of release 4.2 by scenario; rows of the file are (release, user, scenario).\<close>

definition scenario_map :: "(string \<times> string \<times> int) list \<Rightarrow> (int \<times> string list) list" where
  "scenario_map ins =
     (let rows = remdups (map snd (filter (\<lambda>r. fst r = ''4.2'') ins))
      in map (\<lambda>sc. (sc, map fst (filter (\<lambda>r. snd r = sc) rows))) (sort (remdups (map snd rows))))"

text \<open>The rows in descending order of the isolation forest's score, a day as its string.\<close>

definition ranked_days :: "metric_lib \<Rightarrow> (int \<Rightarrow> string) \<Rightarrow> cert_scored list \<Rightarrow> cert_score list" where
  "ranked_days lib day_str df = by_score lib (map cd_iforest df)
     (map (\<lambda>r. \<lparr> cs_user = cd_user r, cs_day = day_str (cd_day r), cs_y = cd_y r \<rparr>) df)"

definition eval_cert ::
  "metric_lib \<Rightarrow> (int \<Rightarrow> string) \<Rightarrow> (string \<times> string \<times> int) list \<Rightarrow> cert_scored list \<Rightarrow>
   py_exn + (string \<times> named_report) list \<times> budget_row list" where
  "eval_cert lib day_str ins df =
     (let y = map cd_y df;
          extra = [(''granularity'', JStr ''user-day''), (''labels'', JStr ''answers/insiders.csv r4.2 windows'')]
      in sbind (pe_run lib ''cert_score_iforest'' y (map cd_iforest df) (fl 1) extra) (\<lambda>m_if.
         sbind (pe_run lib ''cert_score_zsum'' y (map cd_zsum df) (fl 1) extra) (\<lambda>m_z.
         sbind (budget_sweep (ranked_days lib day_str df) (scenario_map ins)) (\<lambda>sweep.
         Inr ([(''score_iforest'', m_if), (''score_zsum'', m_z)], sweep)))))"

section \<open>The runners of eval\_full.py\<close>

record baseline_lift =
  bl_rule :: string
  bl_rule_recall :: pyfloat
  bl_rule_fpr :: "pyfloat option"
  bl_model_recall :: pyfloat

record run_report =
  rn_suite :: suite_report
  rn_extra :: "(string \<times> json) list"
  rn_lift :: "baseline_lift option"

definition run_suite ::
  "metric_lib \<Rightarrow> ('g \<Rightarrow> nat list \<Rightarrow> nat \<Rightarrow> 'g \<times> nat list) \<Rightarrow> 'g \<Rightarrow> string \<Rightarrow> int list \<Rightarrow> pyfloat list \<Rightarrow> pyfloat \<Rightarrow>
   pyfloat list option \<Rightarrow> bool \<Rightarrow> bool option \<Rightarrow> nat option \<Rightarrow> nat \<Rightarrow> (string \<times> json) list \<Rightarrow> py_exn + run_report" where
  "run_suite lib choice g name y s neg_rate loss do_boot is_proba boot_neg_cap n_boot extra =
     sbind (full_suite lib choice g name y s neg_rate loss do_boot is_proba boot_neg_cap n_boot) (\<lambda>m.
       Inr \<lparr> rn_suite = m, rn_extra = extra, rn_lift = None \<rparr>)"

definition N_BOOT :: nat where "N_BOOT = 1000"

text \<open>The check that two label columns are the same rows: \<^verbatim>\<open>len(a) == len(b) and int((a == b).sum()) == len(b)\<close>.\<close>

definition labels_align :: "int list \<Rightarrow> int list \<Rightarrow> bool" where
  "labels_align a b \<longleftrightarrow> length a = length b \<and> length (filter (\<lambda>(x, y). x = y) (zip a b)) = length b"

definition paysim_amounts :: "paysim_feature list \<Rightarrow> paysim_feature list" where
  "paysim_amounts feats = filter (\<lambda>r. 600 < pf_step r) feats"

definition paysim_lift :: "metric_lib \<Rightarrow> paysim_score list \<Rightarrow> py_exn + baseline_lift" where
  "paysim_lift lib df =
     (let bl_recall = flag_rate lib 1 df; bl_fpr = flag_rate lib 0 df in
      sbind (make_roc_pack lib (map ps_y df) (map ps_behavioral df) (fl 1)) (\<lambda>k.
      sbind (recall_at lib (rk_fpr k) (rk_tpr k) (py_max bl_fpr (fl 0.000000001))) (\<lambda>r.
      Inr \<lparr> bl_rule = ''isFlaggedFraud'', bl_rule_recall = py_round 4 bl_recall, bl_rule_fpr = Some (py_round 6 bl_fpr),
            bl_model_recall = py_round 4 r \<rparr>)))"

definition paysim_suites ::
  "metric_lib \<Rightarrow> ('g \<Rightarrow> nat list \<Rightarrow> nat \<Rightarrow> 'g \<times> nat list) \<Rightarrow> 'g \<Rightarrow> pyfloat list \<Rightarrow> paysim_score list \<Rightarrow>
   py_exn + (string \<times> run_report) list" where
  "paysim_suites lib choice g loss df =
     (let y = map ps_y df;
          base = [(''split'', JStr ''temporal: train step<=600, test step>600''),
                  (''test_fraud_rate_pct'', JFloat (fraud_rate_pct lib y))]
      in sbind (run_suite lib choice g ''paysim_full'' y (map ps_full df) (fl 1) (Some loss) True (Some True) None N_BOOT base) (\<lambda>a.
         sbind (run_suite lib choice g ''paysim_behavioral'' y (map ps_behavioral df) (fl 1) (Some loss) True (Some True) None N_BOOT base) (\<lambda>b.
         sbind (paysim_lift lib df) (\<lambda>l.
         Inr [(''paysim_full'', a\<lparr>rn_lift := Some l\<rparr>), (''paysim_behavioral'', b\<lparr>rn_lift := Some l\<rparr>)]))))"

definition run_paysim ::
  "metric_lib \<Rightarrow> ('g \<Rightarrow> nat list \<Rightarrow> nat \<Rightarrow> 'g \<times> nat list) \<Rightarrow> 'g \<Rightarrow> paysim_feature list \<Rightarrow> paysim_score list \<Rightarrow>
   py_exn + (string \<times> run_report) list" where
  "run_paysim lib choice g feats df =
     (let test = paysim_amounts feats in
      if \<not> labels_align (map pf_fraud test) (map ps_y df) then Inl AssertionError
      else paysim_suites lib choice g (map pf_amount test) df)"

text \<open>\<^verbatim>\<open>run_ieee\<close>: without an aligned table there is no loss, and the cost analysis falls back to ratios.\<close>

definition ieee_loss :: "(int list \<Rightarrow> pyfloat) \<Rightarrow> txn list \<Rightarrow> ieee_score list \<Rightarrow> pyfloat list option" where
  "ieee_loss quantile80 fe df =
     (let cutoff = quantile80 (map tx_dt fe); test = filter (\<lambda>r. cutoff < float_of_int (tx_dt r)) fe
      in if labels_align (map tx_fraud test) (map is_y df)
         then Some (map (\<lambda>r. cell_num (tx_cell r ''TransactionAmt'')) test) else None)"

definition run_ieee ::
  "metric_lib \<Rightarrow> ('g \<Rightarrow> nat list \<Rightarrow> nat \<Rightarrow> 'g \<times> nat list) \<Rightarrow> 'g \<Rightarrow> (int list \<Rightarrow> pyfloat) \<Rightarrow> txn list \<Rightarrow> ieee_score list \<Rightarrow>
   py_exn + (string \<times> run_report) list" where
  "run_ieee lib choice g quantile80 fe df =
     (let y = map is_y df; loss = ieee_loss quantile80 fe df; sub = filter is_has_identity df;
          loss_sub = map_option (\<lambda>l. map snd (filter (\<lambda>(r, x). is_has_identity r) (zip df l))) loss;
          base = [(''split'', JStr ''temporal: train first 80% of TransactionDT, test last 20%''),
                  (''test_fraud_rate_pct'', JFloat (fraud_rate_pct lib y))]
      in sbind (run_suite lib choice g ''ieee_txn_only'' y (map is_txn_only df) (fl 1) loss True (Some True) None N_BOOT base) (\<lambda>a.
         sbind (run_suite lib choice g ''ieee_with_device'' y (map is_with_device df) (fl 1) loss True (Some True) None N_BOOT base) (\<lambda>b.
         sbind (run_suite lib choice g ''ieee_with_device_identity_subset'' (map is_y sub) (map is_with_device sub) (fl 1)
           loss_sub True (Some True) None N_BOOT [(''note'', JStr ''transactions that carry device/identity data'')]) (\<lambda>c.
         Inr [(''ieee_txn_only'', a), (''ieee_with_device'', b), (''ieee_with_device_identity_subset'', c)]))))"

definition run_rba ::
  "metric_lib \<Rightarrow> ('g \<Rightarrow> nat list \<Rightarrow> nat \<Rightarrow> 'g \<times> nat list) \<Rightarrow> 'g \<Rightarrow> rba_score list \<Rightarrow>
   py_exn + (string \<times> run_report) list" where
  "run_rba lib choice g df =
     (let y = map rs_y df; S = fl 0.02;
          base = [(''neg_sampling_note'', JStr (''negatives uniformly sampled at ~2%; ROC/recall/FPR/KS '' @
                     ''unbiased, PR-AUC/precision/Brier/ECE corrected by reweighting negatives x50'')),
                  (''split'', JStr ''temporal within sampled window; successful logins only'')];
          (fpr, tpr, thr) = ml_roc_curve lib y (map rs_noip df)
      in sbind (run_suite lib choice g ''rba_noip'' y (map rs_noip df) S None True (Some True) None N_BOOT base) (\<lambda>a.
         sbind (run_suite lib choice g ''rba_ip'' y (map rs_ip df) S None True (Some True) None N_BOOT base) (\<lambda>b.
         sbind (run_suite lib choice g ''rba_ipreputation_baseline'' y (attack_ip_scores df) S None False None None N_BOOT
           [(''note'', JStr ''IP-reputation flag alone as the score'')]) (\<lambda>c.
         sbind (make_roc_pack lib y (map rs_noip df) S) (\<lambda>_.
         sbind (recall_at lib fpr tpr (fl 0.02)) (\<lambda>r.
         Inr [(''rba_noip'', a\<lparr>rn_lift := Some \<lparr> bl_rule = ''Is Attack IP blocklist'', bl_rule_recall = fl 0,
                bl_rule_fpr = None, bl_model_recall = py_round 4 r \<rparr>\<rparr>),
              (''rba_ip'', b), (''rba_ipreputation_baseline'', c)]))))))"

definition run_rba_full ::
  "metric_lib \<Rightarrow> ('g \<Rightarrow> nat list \<Rightarrow> nat \<Rightarrow> 'g \<times> nat list) \<Rightarrow> 'g \<Rightarrow> rba_score list \<Rightarrow>
   py_exn + (string \<times> run_report) list" where
  "run_rba_full lib choice g df =
     (let y = map rs_y df;
          base = [(''split'', JStr (''temporal: cut = 0.6 quantile of ATO timestamps (successful logins); '' @
                     ''FULL held-out test, all negatives (neg_sample_rate=1.0, no correction)'')),
                  (''source'', JStr ''rba-dataset.csv (31.3M logins) streamed from the verified zip'')]
      in sbind (run_suite lib choice g ''rba_full_noip'' y (map rs_noip df) (fl 1) None True (Some True) (Some 200000) 500 base) (\<lambda>a.
         sbind (run_suite lib choice g ''rba_full_ip'' y (map rs_ip df) (fl 1) None True (Some True) (Some 200000) 500 base) (\<lambda>b.
         sbind (run_suite lib choice g ''rba_full_ipreputation_baseline'' y (attack_ip_scores df) (fl 1) None False None None N_BOOT
           [(''note'', JStr ''IP-reputation flag alone as the score'')]) (\<lambda>c.
         Inr [(''rba_full_noip'', a), (''rba_full_ip'', b), (''rba_full_ipreputation_baseline'', c)]))))"

text \<open>\<^verbatim>\<open>run_cmu\<close>; \<open>resample\<close> draws positions with replacement from the generator.\<close>

definition user_eer_auc :: "metric_lib \<Rightarrow> attempt list \<Rightarrow> string \<Rightarrow> py_exn + string \<times> pyfloat \<times> pyfloat" where
  "user_eer_auc lib df u =
     (let g = filter (\<lambda>a. at_user a = u) df in
      sbind (user_eer lib df u) (\<lambda>(_, e). sbind (ml_roc_auc lib (map at_y g) (map at_score g)) (\<lambda>a. Inr (u, e, a))))"

fun mean_draws :: "metric_lib \<Rightarrow> ('g \<Rightarrow> nat \<Rightarrow> 'g \<times> nat list) \<Rightarrow> pyfloat list \<Rightarrow> nat \<Rightarrow> 'g \<Rightarrow> pyfloat list" where
  "mean_draws lib resample xs 0 g = []"
| "mean_draws lib resample xs (Suc n) g =
     (let (g', is) = resample g (length xs) in ml_mean lib (map ((!) xs) is) # mean_draws lib resample xs n g')"

record cmu_report =
  cm_users :: int
  cm_mean_eer :: pyfloat
  cm_median_eer :: pyfloat
  cm_std_eer :: pyfloat
  cm_ci95 :: "pyfloat \<times> pyfloat"
  cm_global_roc_auc :: pyfloat
  cm_user_roc_auc_mean :: pyfloat

definition run_cmu ::
  "metric_lib \<Rightarrow> (pyfloat list \<Rightarrow> pyfloat) \<Rightarrow> ('g \<Rightarrow> nat \<Rightarrow> 'g \<times> nat list) \<Rightarrow> 'g \<Rightarrow> attempt list \<Rightarrow> py_exn + cmu_report" where
  "run_cmu lib median resample g df =
     sbind (try_map (user_eer_auc lib df) (sort (remdups (map at_user df)))) (\<lambda>rows.
     let eers = map (\<lambda>(u, e, a). e) rows; means = mean_draws lib resample eers N_BOOT g in
     sbind (ml_roc_auc lib (map at_y df) (map at_score df)) (\<lambda>roc.
     Inr \<lparr> cm_users = int (length rows), cm_mean_eer = py_round 4 (ml_mean lib eers),
           cm_median_eer = py_round 4 (median eers), cm_std_eer = py_round 4 (ml_std lib eers),
           cm_ci95 = (py_round 4 (ml_percentile lib means (fl 2.5)), py_round 4 (ml_percentile lib means (fl 97.5))),
           cm_global_roc_auc = py_round 4 roc,
           cm_user_roc_auc_mean = py_round 4 (ml_mean lib (map (\<lambda>(u, e, a). a) rows)) \<rparr>))"

definition run_cert ::
  "metric_lib \<Rightarrow> ('g \<Rightarrow> nat list \<Rightarrow> nat \<Rightarrow> 'g \<times> nat list) \<Rightarrow> 'g \<Rightarrow> (int \<Rightarrow> string) \<Rightarrow> (string \<times> string \<times> int) list \<Rightarrow>
   cert_scored list \<Rightarrow> py_exn + (string \<times> run_report) list \<times> budget_row list" where
  "run_cert lib choice g day_str ins df =
     (let y = map cd_y df;
          extra = [(''granularity'', JStr ''user-day''), (''labels'', JStr ''answers/insiders.csv r4.2 windows'')]
      in sbind (run_suite lib choice g ''cert_score_iforest'' y (map cd_iforest df) (fl 1) None True (Some False) None N_BOOT extra) (\<lambda>a.
         sbind (run_suite lib choice g ''cert_score_zsum'' y (map cd_zsum df) (fl 1) None True (Some False) None N_BOOT extra) (\<lambda>b.
         sbind (budget_sweep (ranked_days lib day_str df) (scenario_map ins)) (\<lambda>sweep.
         Inr ([(''cert_score_iforest'', a), (''cert_score_zsum'', b)], sweep)))))"

section \<open>The commands\<close>

text \<open>
  A table of runners by name; \<^verbatim>\<open>all\<close> runs every one of them, in their order, and an unknown name raises KeyError.
  What finished before an exception stays written.
\<close>

definition chosen :: "(string \<times> 'a) list \<Rightarrow> string option \<Rightarrow> string list" where
  "chosen runners arg = (case arg of None \<Rightarrow> map fst runners
     | Some which \<Rightarrow> if which = ''all'' then map fst runners else [which])"

fun run_each :: "(string \<times> (unit \<Rightarrow> py_exn + 'a)) list \<Rightarrow> string list \<Rightarrow> (string \<times> 'a) list \<times> (py_exn + unit)" where
  "run_each runners [] = ([], Inr ())"
| "run_each runners (n # ns) =
     (case map_of runners n of
        None \<Rightarrow> ([], Inl KeyError)
      | Some f \<Rightarrow> (case f () of
          Inl e \<Rightarrow> ([], Inl e)
        | Inr r \<Rightarrow> let (rs, x) = run_each runners ns in ((n, r) # rs, x)))"

text \<open>\<^verbatim>\<open>write_leaderboard\<close>: the directories in order, those without \<^verbatim>\<open>metrics_full.json\<close> skipped.\<close>

definition write_leaderboard :: "json_lib \<Rightarrow> (string \<times> json option) list \<Rightarrow> py_exn + (string \<times> json) list list" where
  "write_leaderboard J dirs =
     sbind (try_map (leaderboard_row J) (List.map_filter snd (sort_key fst dirs))) (\<lambda>rows.
       Inr (List.map_filter (\<lambda>r. r) rows))"

text \<open>The tables under \<^verbatim>\<open>data/processed\<close> and the insiders file.\<close>

record score_tables =
  tb_paysim_feats :: "paysim_feature list"
  tb_paysim :: "paysim_score list"
  tb_ieee_feats :: "txn list"
  tb_ieee :: "ieee_score list"
  tb_rba :: "rba_score list"
  tb_rba_full :: "rba_score list"
  tb_cmu :: "attempt list"
  tb_cert :: "cert_scored list"
  tb_insiders :: "(string \<times> string \<times> int) list"

datatype short_outcome =
    ShortReports "(string \<times> named_report) list"
  | ShortErrors eer_report
  | ShortBudget "(string \<times> named_report) list" "budget_row list"

definition short_runners ::
  "metric_lib \<Rightarrow> (pyfloat list \<Rightarrow> pyfloat) \<Rightarrow> (int \<Rightarrow> string) \<Rightarrow> score_tables \<Rightarrow>
   (string \<times> (unit \<Rightarrow> py_exn + short_outcome)) list" where
  "short_runners lib median day_str tb =
     [(''paysim'', \<lambda>_. sbind (eval_paysim lib (tb_paysim tb)) (Inr \<circ> ShortReports)),
      (''ieee_cis'', \<lambda>_. sbind (eval_ieee lib (tb_ieee tb)) (Inr \<circ> ShortReports)),
      (''rba'', \<lambda>_. sbind (eval_rba lib (tb_rba tb)) (Inr \<circ> ShortReports)),
      (''cmu_keystroke'', \<lambda>_. sbind (eval_cmu lib median (tb_cmu tb)) (Inr \<circ> ShortErrors)),
      (''cert_insider'', \<lambda>_. sbind (eval_cert lib day_str (tb_insiders tb) (tb_cert tb)) (\<lambda>(rs, bs). Inr (ShortBudget rs bs)))]"

definition evaluate_main ::
  "metric_lib \<Rightarrow> (pyfloat list \<Rightarrow> pyfloat) \<Rightarrow> (int \<Rightarrow> string) \<Rightarrow> score_tables \<Rightarrow> string option \<Rightarrow>
   (string \<times> short_outcome) list \<times> (py_exn + unit)" where
  "evaluate_main lib median day_str tb arg =
     (let rs = short_runners lib median day_str tb in run_each rs (chosen rs arg))"

datatype full_outcome =
    FullReports "(string \<times> run_report) list"
  | FullErrors cmu_report
  | FullBudget "(string \<times> run_report) list" "budget_row list"

definition full_runners ::
  "metric_lib \<Rightarrow> (pyfloat list \<Rightarrow> pyfloat) \<Rightarrow> (int list \<Rightarrow> pyfloat) \<Rightarrow> (int \<Rightarrow> string) \<Rightarrow>
   ('g \<Rightarrow> nat list \<Rightarrow> nat \<Rightarrow> 'g \<times> nat list) \<Rightarrow> ('g \<Rightarrow> nat \<Rightarrow> 'g \<times> nat list) \<Rightarrow> 'g \<Rightarrow> score_tables \<Rightarrow>
   (string \<times> (unit \<Rightarrow> py_exn + full_outcome)) list" where
  "full_runners lib median quantile80 day_str choice resample g tb =
     [(''paysim'', \<lambda>_. sbind (run_paysim lib choice g (tb_paysim_feats tb) (tb_paysim tb)) (Inr \<circ> FullReports)),
      (''ieee_cis'', \<lambda>_. sbind (run_ieee lib choice g quantile80 (tb_ieee_feats tb) (tb_ieee tb)) (Inr \<circ> FullReports)),
      (''rba'', \<lambda>_. sbind (run_rba lib choice g (tb_rba tb)) (Inr \<circ> FullReports)),
      (''rba_full'', \<lambda>_. sbind (run_rba_full lib choice g (tb_rba_full tb)) (Inr \<circ> FullReports)),
      (''cmu_keystroke'', \<lambda>_. sbind (run_cmu lib median resample g (tb_cmu tb)) (Inr \<circ> FullErrors)),
      (''cert_insider'', \<lambda>_. sbind (run_cert lib choice g day_str (tb_insiders tb) (tb_cert tb)) (\<lambda>(rs, bs). Inr (FullBudget rs bs)))]"

text \<open>The leaderboard is written last; \<open>dirs\<close> is what \<^verbatim>\<open>results/evaluation\<close> then holds.\<close>

definition eval_full_main ::
  "metric_lib \<Rightarrow> (pyfloat list \<Rightarrow> pyfloat) \<Rightarrow> (int list \<Rightarrow> pyfloat) \<Rightarrow> (int \<Rightarrow> string) \<Rightarrow>
   ('g \<Rightarrow> nat list \<Rightarrow> nat \<Rightarrow> 'g \<times> nat list) \<Rightarrow> ('g \<Rightarrow> nat \<Rightarrow> 'g \<times> nat list) \<Rightarrow> 'g \<Rightarrow> json_lib \<Rightarrow>
   ((string \<times> full_outcome) list \<Rightarrow> (string \<times> json option) list) \<Rightarrow> score_tables \<Rightarrow> string option \<Rightarrow>
   (string \<times> full_outcome) list \<times> (py_exn + (string \<times> json) list list)" where
  "eval_full_main lib median quantile80 day_str choice resample g J dirs tb arg =
     (let rs = full_runners lib median quantile80 day_str choice resample g tb;
          (out, x) = run_each rs (chosen rs arg)
      in (out, sbind x (\<lambda>_. write_leaderboard J (dirs out))))"

section \<open>Lemmas\<close>

lemma run_each_all:
  assumes "set ns \<subseteq> fst ` set runners" "snd (run_each runners ns) = Inr ()"
  shows "map fst (fst (run_each runners ns)) = ns"
  using assms
proof (induction ns)
  case (Cons n ns)
  then have "map_of runners n \<noteq> None" by (simp add: map_of_eq_None_iff)
  then obtain f where f: "map_of runners n = Some f" by blast
  then show ?case using Cons by (cases "f ()") (auto split: prod.splits)
qed simp

lemma labels_align_eq: "labels_align a b \<longleftrightarrow> a = b"
proof -
  have "length (filter (\<lambda>(x, y). x = y) (zip a b)) = length b \<longleftrightarrow> a = b" if "length a = length b"
    using that
  proof (induction a b rule: list_induct2)
    case (Cons x xs y ys)
    have "length (filter (\<lambda>(x, y). x = y) (zip xs ys)) \<le> length ys"
      using length_filter_le [of "\<lambda>(x, y). x = y" "zip xs ys"] Cons(1) by simp
    then show ?case using Cons(2) by (auto simp: Suc_le_eq)
  qed simp
  then show ?thesis by (auto simp: labels_align_def)
qed

section \<open>Properties\<close>


text \<open>Two events with constant curves.\<close>

definition wit_flat :: metric_lib where
  "wit_flat = wit_metrics\<lparr>ml_roc_curve := (\<lambda>y s. ([Fin 0], [Fin 0], [Fin 1])), ml_searchsorted_right := (\<lambda>xs t. 1)\<rparr>"

definition wit_pack :: roc_pack where
  "wit_pack = \<lparr> rk_fpr = [Fin 0], rk_tpr = [Fin 0], rk_thr = [Fin 1], rk_precision = [Fin 1], rk_P = Fin 1, rk_N_full = Fin 1 \<rparr>"

lemma wit_pack_fields [simp]: "rk_P wit_pack = Fin 1" "rk_N_full wit_pack = Fin 1"
  by (simp_all add: wit_pack_def)

lemma wit_flat_pack: "make_roc_pack wit_flat [0, 1] [Fin 0, Fin 1] (Fin 1) = Inr wit_pack"
  by (simp add: make_roc_pack_def wit_flat_def count_label_def float_of_int_def fl_def py_div_def Let_def wit_pack_def)

lemma wit_flat_op: "op_at_fpr wit_flat wit_pack t = Inr \<lparr> op_fpr = Fin 0, op_recall = Fin 0, op_precision = Fin 1, op_threshold = Fin 1 \<rparr>"
  by (simp add: op_at_fpr_def op_index_def wit_flat_def item_def wit_pack_def)

lemma wit_flat_report: "\<exists>q. op_report_at wit_flat wit_pack b t = Inr q"
  by (simp add: op_report_at_def wit_flat_op round_int_def Let_def)

lemma wit_flat_auc: "ml_roc_auc wit_flat y s = Inr (Fin 1)" "ml_average_precision wit_flat y s w = Inr (Fin 1)"
  "ml_roc_curve wit_flat y s = ([Fin 0], [Fin 0], [Fin 1])" "op_index wit_flat xs t = 0"
  by (simp_all add: wit_flat_def wit_metrics_def op_index_def)


text \<open>
  The stages align: evaluated on the tables the fits wrote from the same features, the PaySim check never fails and
  the IEEE-CIS loss is never dropped; each loss is the amount of the very row that was scored.
\<close>

theorem stages_align:
  assumes "paysim_fit F n feats = Inr out" "ieee_fit F quantile80 fe = Inr out'"
  shows "run_paysim lib choice g feats out = paysim_suites lib choice g (map pf_amount (snd (paysim_split feats))) out \<and>
    map ps_y out = map pf_fraud (snd (paysim_split feats)) \<and>
    ieee_loss quantile80 fe out' = Some (map (\<lambda>r. cell_num (tx_cell r ''TransactionAmt'')) (snd (ieee_split quantile80 fe))) \<and>
    map is_y out' = map tx_fraud (snd (ieee_split quantile80 fe))"
proof -
  have y: "map ps_y out = map pf_fraud (snd (paysim_split feats))" by (rule paysim_fit_parts [OF assms(1)])
  have t: "paysim_amounts feats = snd (paysim_split feats)" by (simp add: paysim_amounts_def paysim_split_def)
  show ?thesis using y ieee_fit_parts(1) [OF assms(2)]
    by (simp add: run_paysim_def t labels_align_eq ieee_loss_def ieee_split_def Let_def)
qed

theorem stages_align_witness:
  "\<exists>out out'. paysim_fit wit_fit 1 [wit_feature 1 0, wit_feature 700 1] = Inr out \<and> map ps_y out = [1] \<and>
     ieee_fit wit_fit (\<lambda>_. Fin 250) wit_txns = Inr out' \<and> ieee_loss (\<lambda>_. Fin 250) wit_txns out' = Some [Fin 3, Fin 4]"
proof -
  let ?df = "[wit_feature 1 0, wit_feature 700 1]" and ?q = "\<lambda>_. Fin 250"
  have s: "paysim_split ?df = ([wit_feature 1 0], [wit_feature 700 1])" by (simp add: paysim_split_def)
  have "\<exists>out. paysim_fit wit_fit 1 ?df = Inr out"
    by (simp add: paysim_fit_def s paysim_train_def frame_sample_def fit_score_def score_frame_def columns_def wit_fit_def)
  then obtain out where out: "paysim_fit wit_fit 1 ?df = Inr out" by blast
  have iv: "[0..4::int] = [0, 1, 2, 3, 4]" by (simp add: upto.simps)
  have test: "map (\<lambda>r. cell_num (tx_cell r ''TransactionAmt'')) (snd (ieee_split ?q wit_txns)) = [Fin 3, Fin 4]"
    "snd (ieee_split ?q wit_txns) \<noteq> []"
    by (simp_all add: ieee_split_def wit_txns_def iv float_of_int_def cell_num_def Let_def)
  have "\<exists>out'. ieee_fit wit_fit ?q wit_txns = Inr out'"
    using test(2) by (simp add: ieee_fit_def fit_score_def score_frame_def columns_def wit_fit_def Let_def split_beta)
  then obtain out' where out': "ieee_fit wit_fit ?q wit_txns = Inr out'" by blast
  from stages_align [OF out out', of wit_flat "\<lambda>g xs n. (g, xs)" "()"] out out' test show ?thesis by (simp add: s)
qed

text \<open>
  The alerts of the insider report are fixed by the raw logs: whatever the answers file says, the same user-days are
  flagged within a daily budget.
\<close>

lemma by_score_map:
  assumes "set (ml_argsort lib (map uminus s)) \<subseteq> {..<length xs}"
  shows "by_score lib s (map f xs) = map f (by_score lib s xs)"
  using assms by (auto simp: by_score_def)

lemma head_per_map: "(\<And>r. key r = key' (f r)) \<Longrightarrow> map f (head_per key k seen rs) = head_per key' k seen (map f rs)"
  by (induction rs arbitrary: seen) auto

definition day_of :: "cert_score \<Rightarrow> string \<times> string" where
  "day_of r = (cs_user r, cs_day r)"

lemma alerts_map:
  assumes "set (ml_argsort lib (map (\<lambda>r. - cd_iforest r) df)) \<subseteq> {..<length df}"
  shows "map day_of (head_per_day k (ranked_days lib day_str df)) =
    head_per snd k [] (by_score lib (map cd_iforest df) (map (\<lambda>r. (cd_user r, day_str (cd_day r))) df))"
proof -
  have "map day_of (head_per_day k (ranked_days lib day_str df)) = head_per snd k [] (map day_of (ranked_days lib day_str df))"
    unfolding head_per_day_def by (rule head_per_map) (simp add: day_of_def)
  also have "map day_of (ranked_days lib day_str df) = by_score lib (map cd_iforest df) (map (\<lambda>r. (cd_user r, day_str (cd_day r))) df)"
    using assms by (simp add: ranked_days_def comp_def day_of_def flip: by_score_map)
  finally show ?thesis .
qed

theorem alerts_fixed_by_logs:
  assumes "\<forall>xs. set (ml_argsort lib xs) \<subseteq> {..<length xs}"
    and "cert_fit F lib (cert_features np lo dv fi ins) = Inr out" "cert_fit F lib (cert_features np lo dv fi ins') = Inr out'"
  shows "map day_of (head_per_day k (ranked_days lib day_str out)) = map day_of (head_per_day k (ranked_days lib day_str out'))"
proof -
  from cert_fit_features [of F lib np lo dv fi ins ins'] assms(2, 3)
  have e: "map cert_unlabelled out = map cert_unlabelled out'" by simp
  have "map cd_iforest (map cert_unlabelled out) = map cd_iforest (map cert_unlabelled out')"
    "map (\<lambda>r. (cd_user r, day_str (cd_day r))) (map cert_unlabelled out) =
     map (\<lambda>r. (cd_user r, day_str (cd_day r))) (map cert_unlabelled out')"
    unfolding e by simp_all
  then have "map cd_iforest out = map cd_iforest out'"
    "map (\<lambda>r. (cd_user r, day_str (cd_day r))) out = map (\<lambda>r. (cd_user r, day_str (cd_day r))) out'"
    by (simp_all add: comp_def cert_unlabelled_def)
  moreover have "map day_of (head_per_day k (ranked_days lib day_str df)) =
    head_per snd k [] (by_score lib (map cd_iforest df) (map (\<lambda>r. (cd_user r, day_str (cd_day r))) df))" for df
    by (rule alerts_map) (metis assms(1) length_map)
  ultimately show ?thesis by (simp only:)
qed

definition wit_logon :: "string \<Rightarrow> int \<Rightarrow> cert_event" where
  "wit_logon u d = \<lparr> ce_user = u, ce_pc = ''PC-1'', ce_day = d, ce_hour = 3, ce_activity = ''Logon'' \<rparr>"

theorem alerts_fixed_by_logs_witness:
  "\<exists>out out'. cert_fit wit_fit wit_metrics (cert_features wit_np [wit_logon ''U1'' 5] [] [] []) = Inr out \<and>
     cert_fit wit_fit wit_metrics (cert_features wit_np [wit_logon ''U1'' 5] [] [] [(''4.2'', ''U1'', 4, 6)]) = Inr out' \<and>
     map cd_y out = [0] \<and> map cd_y out' = [1] \<and>
     map day_of (head_per_day 5 (ranked_days wit_metrics (\<lambda>_. ''day'') out)) =
       map day_of (head_per_day 5 (ranked_days wit_metrics (\<lambda>_. ''day'') out'))"
proof -
  let ?f = "cert_features wit_np [wit_logon ''U1'' 5] [] []"
  have k: "user_day_keys [wit_logon ''U1'' 5] [] [] = [(''U1'', 5)]"
    by (simp add: user_day_keys_def logons_def connects_def wit_logon_def event_key_def)
  have f: "\<exists>d dev. ?f ins = [(d, cert_label (insider_windows ins) d, dev)] \<and> ud_user d = ''U1'' \<and> ud_day d = 5" for ins
    by (simp add: cert_features_def cert_deviations_def cert_user_days_def k user_day_of_def Let_def)
  have fit: "\<exists>out. cert_fit wit_fit wit_metrics (?f ins) = Inr out \<and> map cd_y out = [y]"
    if "\<And>d. ud_user d = ''U1'' \<Longrightarrow> ud_day d = 5 \<Longrightarrow> cert_label (insider_windows ins) d = y" for ins y
    using f [of ins] that
    by (auto simp: cert_fit_def iforest_scores_def fit_score_def score_frame_def columns_def wit_fit_def)
  obtain out where o: "cert_fit wit_fit wit_metrics (?f []) = Inr out" "map cd_y out = [0]"
    using fit [of "[]" 0] by (auto simp: cert_label_def insider_windows_def)
  obtain out' where o': "cert_fit wit_fit wit_metrics (?f [(''4.2'', ''U1'', 4, 6)]) = Inr out'" "map cd_y out' = [1]"
    using fit [of "[(''4.2'', ''U1'', 4, 6)]" 1] by (auto simp: cert_label_def insider_windows_def of_bool_int_def)
  have "\<forall>xs. set (ml_argsort wit_metrics xs) \<subseteq> {..<length xs}" by (auto simp: wit_metrics_def)
  from alerts_fixed_by_logs [OF this o(1) o'(1)] have
    "map day_of (head_per_day 5 (ranked_days wit_metrics (\<lambda>_. ''day'') out)) =
     map day_of (head_per_day 5 (ranked_days wit_metrics (\<lambda>_. ''day'') out'))" .
  with o o' show ?thesis by (intro exI [of _ out] exI [of _ out'] conjI)
qed

end
