(* ===== verification/Sweeps.thy ===== *)
theory Sweeps
  imports Runs
begin

text \<open>
  The variance and leakage audits of \<^verbatim>\<open>src/seed_sweep.py\<close> and the remaining bake-offs of \<^verbatim>\<open>src/phaseb_extra.py\<close>, on the
  tables and fits of \<open>Fitting\<close>. Sampling, permutation importance, correlations and the folds of GroupKFold are
  parameters.

  The lemmas: in the grouped cross-validation every user is scored by a model that never saw that user; a correlation
  that is not a number is reported as the highest one.
\<close>

section \<open>Seeds\<close>

definition SEEDS :: "int list" where "SEEDS = [42, 43, 44, 45, 46]"

definition hgb_seed :: "int \<Rightarrow> (string \<times> json) list \<Rightarrow> estimator" where
  "hgb_seed seed kw = HistGradientBoosting (kwargs
     [(''max_iter'', JInt 200), (''learning_rate'', JFloat (fl 0.1)), (''max_leaf_nodes'', JInt 31),
      (''early_stopping'', JBool False), (''random_state'', JInt seed),
      (''categorical_features'', JStr ''from_dtype'')] kw)"

record agg_stat =
  ag_mean :: pyfloat
  ag_std :: pyfloat
  ag_min :: pyfloat
  ag_max :: pyfloat

definition agg_of :: "metric_lib \<Rightarrow> pyfloat list \<Rightarrow> agg_stat" where
  "agg_of lib a =
     \<lparr> ag_mean = py_round 4 (ml_mean lib a), ag_std = py_round 4 (ml_std lib a),
       ag_min = py_round 4 (- ml_max lib (map uminus a)), ag_max = py_round 4 (ml_max lib a) \<rparr>"

definition agg :: "metric_lib \<Rightarrow> key_metrics list \<Rightarrow> py_exn + (string \<times> agg_stat) list" where
  "agg lib per_seed =
     (if per_seed = [] then Inl IndexError
      else Inr (map (\<lambda>(k, f). (k, agg_of lib (map f per_seed)))
             [(''pr_auc'', km_pr_auc), (''roc_auc'', km_roc_auc), (''recall_1pct'', km_r1),
              (''recall_2pct'', km_r2), (''recall_5pct'', km_r5)]))"

record sweep_report =
  sw_variant :: string
  sw_neg_rate :: "pyfloat option"
  sw_seeds :: "int list"
  sw_metric :: "(string \<times> agg_stat) list"

text \<open>The loop over the seeds; \<open>score\<close> fits one seed and scores the test rows.\<close>

definition sweep_seeds ::
  "metric_lib \<Rightarrow> int list \<Rightarrow> pyfloat \<Rightarrow> (int \<Rightarrow> py_exn + pyfloat list) \<Rightarrow> py_exn + (string \<times> agg_stat) list" where
  "sweep_seeds lib y neg_rate score =
     sbind (try_map (\<lambda>sd. sbind (score sd) (\<lambda>s. key_metrics_of lib y s neg_rate)) SEEDS) (agg lib)"

definition sweep_paysim :: "'m fit_lib \<Rightarrow> metric_lib \<Rightarrow> nat \<Rightarrow> paysim_feature list \<Rightarrow> py_exn + sweep_report" where
  "sweep_paysim F lib n df =
     (let (train, test) = paysim_split df in
      sbind (sweep_seeds lib (map pf_fraud test) (fl 1) (\<lambda>sd.
        sbind (paysim_train F sd n train) (\<lambda>tr.
        fit_score F (hgb_seed sd [(''max_leaf_nodes'', JInt 63), (''max_iter'', JInt 300), (''class_weight'', JStr ''balanced'')])
          paysim_cell (BEHAV_COLS @ BALANCE_COLS) tr (map pf_fraud tr) test))) (\<lambda>a.
      Inr \<lparr> sw_variant = ''paysim_full'', sw_neg_rate = None, sw_seeds = SEEDS, sw_metric = a \<rparr>))"

text \<open>\<^verbatim>\<open>_ieee_data\<close> and \<^verbatim>\<open>_rba_data\<close> repeat the preparation of \<^verbatim>\<open>ieee_fit\<close> and \<^verbatim>\<open>rba_fit\<close>, line by line.\<close>

definition ieee_data :: "(int list \<Rightarrow> pyfloat) \<Rightarrow> txn list \<Rightarrow> txn list \<times> txn list" where
  "ieee_data quantile80 df = ieee_split quantile80 df"

definition rba_data :: "np_lib \<Rightarrow> rba_row list \<Rightarrow> rba_features list \<times> rba_features list" where
  "rba_data np rows = rba_sample_tables np rows"

definition sweep_ieee :: "'m fit_lib \<Rightarrow> metric_lib \<Rightarrow> (int list \<Rightarrow> pyfloat) \<Rightarrow> txn list \<Rightarrow> py_exn + sweep_report" where
  "sweep_ieee F lib quantile80 df =
     (let (train, test) = ieee_data quantile80 df in
      sbind (sweep_seeds lib (map tx_fraud test) (fl 1) (\<lambda>sd.
        fit_score F (hgb_seed sd []) tx_cell device_cols train (map tx_fraud train) test)) (\<lambda>a.
      Inr \<lparr> sw_variant = ''ieee_with_device'', sw_neg_rate = None, sw_seeds = SEEDS, sw_metric = a \<rparr>))"

definition rba_y :: "rba_features list \<Rightarrow> int list" where
  "rba_y rows = map (\<lambda>r. rp_y (rf_row r)) rows"

definition sweep_rba :: "'m fit_lib \<Rightarrow> metric_lib \<Rightarrow> np_lib \<Rightarrow> rba_row list \<Rightarrow> py_exn + sweep_report" where
  "sweep_rba F lib np rows =
     (let (train, test) = rba_data np rows in
      sbind (sweep_seeds lib (rba_y test) (fl 0.02) (\<lambda>sd.
        fit_score F (hgb_seed sd [(''max_iter'', JInt 300)]) rba_cell rba_feats train (rba_y train) test)) (\<lambda>a.
      Inr \<lparr> sw_variant = ''rba_noip'', sw_neg_rate = Some (fl 0.02), sw_seeds = SEEDS, sw_metric = a \<rparr>))"

type_synonym cert_row = "user_day \<times> int \<times> pyfloat list"

definition cert_y :: "cert_row list \<Rightarrow> int list" where
  "cert_y ud = map (\<lambda>(d, y, dev). y) ud"

definition sweep_cert :: "'m fit_lib \<Rightarrow> metric_lib \<Rightarrow> cert_row list \<Rightarrow> py_exn + sweep_report" where
  "sweep_cert F lib ud =
     sbind (sweep_seeds lib (cert_y ud) (fl 1) (\<lambda>sd. iforest_scores F sd DEV_COLS ud)) (\<lambda>a.
     Inr \<lparr> sw_variant = ''cert_score_iforest'', sw_neg_rate = None, sw_seeds = SEEDS, sw_metric = a \<rparr>)"

section \<open>Leakage\<close>

record leak_report =
  lk_top :: "string option"
  lk_full :: key_metrics
  lk_ablated :: key_metrics

definition leak_paysim :: "'m fit_lib \<Rightarrow> metric_lib \<Rightarrow> nat \<Rightarrow> paysim_feature list \<Rightarrow> py_exn + leak_report" where
  "leak_paysim F lib n df =
     (let (train, test) = paysim_split df; y = map pf_fraud test;
          est = hgb_seed 42 [(''max_leaf_nodes'', JInt 63), (''max_iter'', JInt 300), (''class_weight'', JStr ''balanced'')] in
      sbind (paysim_train F 42 n train) (\<lambda>tr.
      let metrics = (\<lambda>cols. sbind (fit_score F est paysim_cell cols tr (map pf_fraud tr) test) (\<lambda>s. key_metrics_of lib y s (fl 1))) in
      sbind (metrics (BEHAV_COLS @ BALANCE_COLS)) (\<lambda>full. sbind (metrics BEHAV_COLS) (\<lambda>ablated.
      Inr \<lparr> lk_top = None, lk_full = full, lk_ablated = ablated \<rparr>))))"

definition argmax :: "metric_lib \<Rightarrow> pyfloat list \<Rightarrow> nat" where
  "argmax lib xs = ml_argmin lib (map uminus xs)"

text \<open>The feature whose permutation costs most on the sampled rows.\<close>

definition top_feature ::
  "'m fit_lib \<Rightarrow> metric_lib \<Rightarrow> 'm \<Rightarrow> ('r \<Rightarrow> string \<Rightarrow> cell) \<Rightarrow> ('r \<Rightarrow> int) \<Rightarrow> string list \<Rightarrow> 'r list \<Rightarrow> py_exn + string" where
  "top_feature F lib m cell label cols sub =
     item cols (argmax lib (fb_importance F m (columns cell cols sub) (map label sub)))"

definition leak_ieee :: "'m fit_lib \<Rightarrow> metric_lib \<Rightarrow> (int list \<Rightarrow> pyfloat) \<Rightarrow> txn list \<Rightarrow> py_exn + leak_report" where
  "leak_ieee F lib quantile80 df =
     (let (train, test) = ieee_data quantile80 df; y = map tx_fraud test in
      sbind (fb_fit F (hgb_seed 42 []) (columns tx_cell device_cols train) (map tx_fraud train)) (\<lambda>m.
      sbind (score_frame F m (columns tx_cell device_cols test)) (\<lambda>s.
      sbind (key_metrics_of lib y s (fl 1)) (\<lambda>base.
      sbind (frame_sample F 42 (min 20000 (length test)) test) (\<lambda>sub.
      sbind (top_feature F lib m tx_cell tx_fraud device_cols sub) (\<lambda>top.
      sbind (fit_score F (hgb_seed 42 []) tx_cell (filter (\<lambda>c. c \<noteq> top) device_cols) train (map tx_fraud train) test) (\<lambda>s2.
      sbind (key_metrics_of lib y s2 (fl 1)) (\<lambda>abl.
      Inr \<lparr> lk_top = Some top, lk_full = base, lk_ablated = abl \<rparr>))))))))"

definition leak_rba :: "'m fit_lib \<Rightarrow> metric_lib \<Rightarrow> np_lib \<Rightarrow> rba_row list \<Rightarrow> py_exn + leak_report" where
  "leak_rba F lib np rows =
     (let (train, test) = rba_data np rows;
          metrics = (\<lambda>cols. sbind (fit_score F (hgb_seed 42 [(''max_iter'', JInt 300)]) rba_cell cols train (rba_y train) test)
            (\<lambda>s. key_metrics_of lib (rba_y test) s (fl 0.02))) in
      sbind (metrics rba_feats) (\<lambda>noip. sbind (metrics (rba_feats @ [''attack_ip''])) (\<lambda>ip.
      Inr \<lparr> lk_top = None, lk_full = ip, lk_ablated = noip \<rparr>)))"

text \<open>\<^verbatim>\<open>max(corr, key=corr.get)\<close>: a later key replaces the best one only when its value is greater.\<close>

fun first_max :: "('a \<Rightarrow> pyfloat) \<Rightarrow> 'a \<Rightarrow> 'a list \<Rightarrow> 'a" where
  "first_max f best [] = best"
| "first_max f best (x # xs) = first_max f (if f best < f x then x else best) xs"

definition correlated ::
  "(pyfloat list \<Rightarrow> int list \<Rightarrow> pyfloat) \<Rightarrow> cert_row list \<Rightarrow> string \<Rightarrow> pyfloat" where
  "correlated corrcoef ud c = \<bar>corrcoef (map (\<lambda>r. cell_num (cert_cell r c)) ud) (cert_y ud)\<bar>"

definition leak_cert ::
  "'m fit_lib \<Rightarrow> metric_lib \<Rightarrow> (pyfloat list \<Rightarrow> int list \<Rightarrow> pyfloat) \<Rightarrow> cert_row list \<Rightarrow> py_exn + leak_report" where
  "leak_cert F lib corrcoef ud =
     sbind (iforest_scores F 42 DEV_COLS ud) (\<lambda>s.
     sbind (key_metrics_of lib (cert_y ud) s (fl 1)) (\<lambda>base.
     let top = first_max (correlated corrcoef ud) (hd DEV_COLS) (tl DEV_COLS) in
     sbind (iforest_scores F 42 (filter (\<lambda>c. c \<noteq> top) DEV_COLS) ud) (\<lambda>s2.
     sbind (key_metrics_of lib (cert_y ud) s2 (fl 1)) (\<lambda>abl.
     Inr \<lparr> lk_top = Some top, lk_full = base, lk_ablated = abl \<rparr>))))"

section \<open>The command\<close>

datatype sweep_file = SweepFile sweep_report | NoteFile | LeakFile leak_report

text \<open>Each detection writes its sweep, then its audit when it has one.\<close>

type_synonym sweep_fns = "(unit \<Rightarrow> py_exn + sweep_file) \<times> (unit \<Rightarrow> py_exn + leak_report) option"

fun sweep_each :: "(string \<times> sweep_fns) list \<Rightarrow> string list \<Rightarrow> (string \<times> sweep_file) list \<times> (py_exn + unit)" where
  "sweep_each fns [] = ([], Inr ())"
| "sweep_each fns (n # ns) =
     (case map_of fns n of
        None \<Rightarrow> ([], Inl KeyError)
      | Some (sweep_fn, leak_fn) \<Rightarrow>
        (case sweep_fn () of
           Inl e \<Rightarrow> ([], Inl e)
         | Inr sw \<Rightarrow>
           (case leak_fn of
              None \<Rightarrow> let (fs, x) = sweep_each fns ns in ((n, sw) # fs, x)
            | Some leak \<Rightarrow>
              (case leak () of
                 Inl e \<Rightarrow> ([(n, sw)], Inl e)
               | Inr la \<Rightarrow> let (fs, x) = sweep_each fns ns in ((n, sw) # (n, LeakFile la) # fs, x)))))"

definition SWEEPS ::
  "'m fit_lib \<Rightarrow> metric_lib \<Rightarrow> np_lib \<Rightarrow> (int list \<Rightarrow> pyfloat) \<Rightarrow> (pyfloat list \<Rightarrow> int list \<Rightarrow> pyfloat) \<Rightarrow> nat \<Rightarrow>
   paysim_feature list \<Rightarrow> txn list \<Rightarrow> rba_row list \<Rightarrow> cert_row list \<Rightarrow> (string \<times> sweep_fns) list" where
  "SWEEPS F lib np quantile80 corrcoef n paysim ieee rba ud =
     (let w = (\<lambda>x. sbind x (\<lambda>r. Inr (SweepFile r))) in
      [(''paysim'', \<lambda>_. w (sweep_paysim F lib n paysim), Some (\<lambda>_. leak_paysim F lib n paysim)),
       (''ieee_cis'', \<lambda>_. w (sweep_ieee F lib quantile80 ieee), Some (\<lambda>_. leak_ieee F lib quantile80 ieee)),
       (''rba'', \<lambda>_. w (sweep_rba F lib np rba), Some (\<lambda>_. leak_rba F lib np rba)),
       (''cert_insider'', \<lambda>_. w (sweep_cert F lib ud), Some (\<lambda>_. leak_cert F lib corrcoef ud)),
       (''cmu_keystroke'', \<lambda>_. Inr NoteFile, None)])"

definition seed_sweep_main ::
  "(string \<times> sweep_fns) list \<Rightarrow> string option \<Rightarrow> (string \<times> sweep_file) list \<times> (py_exn + unit)" where
  "seed_sweep_main sweeps arg = sweep_each sweeps (chosen sweeps arg)"

section \<open>The bake-offs of phaseb\_extra.py\<close>

record val_metrics =
  vm_pr_auc :: pyfloat
  vm_roc_auc :: pyfloat
  vm_recall_2pct :: pyfloat

text \<open>\<^verbatim>\<open>val_metrics\<close> of \<^verbatim>\<open>tune.py\<close>, and its rounded form \<^verbatim>\<open>vm\<close>.\<close>

definition val_metrics_of :: "metric_lib \<Rightarrow> int list \<Rightarrow> pyfloat list \<Rightarrow> py_exn + val_metrics" where
  "val_metrics_of lib y s =
     sbind (ml_average_precision lib y s (map (\<lambda>_. fl 1) y)) (\<lambda>ap.
     sbind (ml_roc_auc lib y s) (\<lambda>roc.
     let (fpr, tpr, thr) = ml_roc_curve lib y s in
     sbind (recall_at lib fpr tpr (fl 0.02)) (\<lambda>r.
     Inr \<lparr> vm_pr_auc = ap, vm_roc_auc = roc, vm_recall_2pct = r \<rparr>)))"

definition vm :: "metric_lib \<Rightarrow> int list \<Rightarrow> pyfloat list \<Rightarrow> py_exn + val_metrics" where
  "vm lib y s = sbind (val_metrics_of lib y s) (\<lambda>m.
     Inr \<lparr> vm_pr_auc = py_round 4 (vm_pr_auc m), vm_roc_auc = py_round 4 (vm_roc_auc m),
           vm_recall_2pct = py_round 4 (vm_recall_2pct m) \<rparr>)"

definition neg_per_pos :: "int list \<Rightarrow> pyfloat" where
  "neg_per_pos y = fl (of_int (count_label 0 y) / of_int (max (count_label 1 y) 1))"

text \<open>\<^verbatim>\<open>cat.codes\<close>: the position of a type among the sorted types of the whole table.\<close>

definition type_code :: "paysim_feature list \<Rightarrow> string \<Rightarrow> int" where
  "type_code df t = int (length (takeWhile (\<lambda>x. x \<noteq> t) (sort (remdups (map pf_type df)))))"

definition coded_cell :: "paysim_feature list \<Rightarrow> paysim_feature \<Rightarrow> string \<Rightarrow> cell" where
  "coded_cell df r c = (if c = ''type'' then Num (float_of_int (type_code df (pf_type r))) else paysim_cell r c)"

record paysim_bakeoff =
  pb_top :: string
  pb_full :: val_metrics
  pb_drop_top :: val_metrics
  pb_behavioral :: "(string \<times> val_metrics) list"

definition phaseb_hgb :: estimator where
  "phaseb_hgb = HistGradientBoosting
     [(''max_leaf_nodes'', JInt 63), (''max_iter'', JInt 300), (''random_state'', JInt 42),
      (''class_weight'', JStr ''balanced''), (''categorical_features'', JStr ''from_dtype'')]"

definition phaseb_paysim ::
  "'m fit_lib \<Rightarrow> metric_lib \<Rightarrow> bool \<Rightarrow> nat \<Rightarrow> nat \<Rightarrow> paysim_feature list \<Rightarrow> py_exn + paysim_bakeoff" where
  "phaseb_paysim F lib have_lgb n_neg n_sub df =
     (let (train_all, test) = paysim_split df;
          val = filter (\<lambda>r. 480 < pf_step r) train_all;
          yval = map pf_fraud val; ytest = map pf_fraud test; full = BEHAV_COLS @ BALANCE_COLS in
      sbind (paysim_train F 42 n_neg (filter (\<lambda>r. pf_step r \<le> 480) train_all)) (\<lambda>tr.
      let ytr = map pf_fraud tr in
      sbind (fb_fit F phaseb_hgb (columns paysim_cell full tr) ytr) (\<lambda>m.
      sbind (frame_sample F 42 n_sub test) (\<lambda>sub.
      sbind (top_feature F lib m paysim_cell pf_fraud full sub) (\<lambda>top.
      let full2 = filter (\<lambda>c. c \<noteq> top) full in
      sbind (fb_fit F phaseb_hgb (columns paysim_cell full2 tr) ytr) (\<lambda>m2.
      sbind (sbind (score_frame F m (columns paysim_cell full test)) (vm lib ytest)) (\<lambda>v1.
      sbind (sbind (score_frame F m2 (columns paysim_cell full2 test)) (vm lib ytest)) (\<lambda>v2.
      sbind (sbind (fit_score F phaseb_hgb paysim_cell BEHAV_COLS tr ytr val) (vm lib yval)) (\<lambda>inc.
      sbind (if have_lgb
             then sbind (sbind (fit_score F (LightGBM
                 [(''objective'', JStr ''binary''), (''metric'', JStr ''average_precision''), (''num_leaves'', JInt 127),
                  (''learning_rate'', JFloat (fl 0.05)), (''scale_pos_weight'', JFloat (neg_per_pos ytr)), (''seed'', JInt 42),
                  (''verbose'', JInt (- 1))] 300) (coded_cell df) BEHAV_COLS tr ytr val) (vm lib yval))
               (\<lambda>v. Inr [(''lightgbm'', v)])
             else Inr []) (\<lambda>lgb.
      Inr \<lparr> pb_top = top, pb_full = v1, pb_drop_top = v2, pb_behavioral = (''hist_gbdt_incumbent'', inc) # lgb \<rparr>))))))))))"

text \<open>The grouped cross-validation of \<^verbatim>\<open>cert\<close>: the folds as pairs of row positions, the out-of-fold scores filled in.\<close>

definition fold_params :: "int list \<Rightarrow> estimator" where
  "fold_params y = LightGBM
     [(''objective'', JStr ''binary''), (''metric'', JStr ''average_precision''), (''num_leaves'', JInt 31),
      (''learning_rate'', JFloat (fl 0.05)), (''scale_pos_weight'', JFloat (neg_per_pos y)), (''seed'', JInt 42),
      (''verbose'', JInt (- 1))] 200"

fun put_all :: "'a list \<Rightarrow> (nat \<times> 'a) list \<Rightarrow> 'a list" where
  "put_all xs [] = xs"
| "put_all xs ((i, v) # ps) = put_all (xs[i := v]) ps"

fun fold_loop ::
  "'m fit_lib \<Rightarrow> cert_row list \<Rightarrow> (nat list \<times> nat list) list \<Rightarrow> pyfloat list \<Rightarrow> py_exn + pyfloat list" where
  "fold_loop F ud [] oof = Inr oof"
| "fold_loop F ud ((tri, tei) # folds) oof =
     (let tr = map ((!) ud) tri; ytr = map ((!) (cert_y ud)) tri in
      sbind (fb_fit F (fold_params ytr) (columns cert_cell DEV_COLS tr) ytr) (\<lambda>m.
      fold_loop F ud folds
        (put_all oof (map (\<lambda>i. (i, fb_score F m (map (cert_cell (ud ! i)) DEV_COLS))) tei))))"

record cert_bakeoff =
  cb_incumbent :: "json \<times> json"
  cb_supervised :: "val_metrics option"

definition phaseb_cert ::
  "'m fit_lib \<Rightarrow> metric_lib \<Rightarrow> bool \<Rightarrow> (cert_row list \<Rightarrow> (nat list \<times> nat list) list) \<Rightarrow> json \<Rightarrow> cert_row list \<Rightarrow>
   py_exn + cert_bakeoff" where
  "phaseb_cert F lib have_lgb folds metrics_full ud =
     sbind (if have_lgb
            then sbind (fold_loop F ud (folds ud) (replicate (length ud) (fl 0))) (\<lambda>oof.
                 sbind (vm lib (cert_y ud) oof) (\<lambda>v. Inr (Some v)))
            else Inr None) (\<lambda>sup.
     sbind (json_item metrics_full ''threshold_free'') (\<lambda>inc.
     sbind (json_item inc ''pr_auc'') (\<lambda>pr. sbind (json_item inc ''roc_auc'') (\<lambda>roc.
     Inr \<lparr> cb_incumbent = (pr, roc), cb_supervised = sup \<rparr>))))"

section \<open>Lemmas\<close>

lemma hgb_is_seed_42: "hgb kw = hgb_seed 42 kw"
  by (simp add: hgb_def hgb_seed_def SEED_def)

lemma put_all_length [simp]: "length (put_all xs ps) = length xs"
  by (induction xs ps rule: put_all.induct) auto

lemma put_all_nth:
  "k < length xs \<Longrightarrow> put_all xs (map (\<lambda>i. (i, f i)) is) ! k = (if k \<in> set is then f k else xs ! k)"
  by (induction "is" arbitrary: xs) (auto simp: nth_list_update)

text \<open>What GroupKFold promises: the test parts partition the rows, and no group is on both sides of a fold.\<close>

definition grouped_folds :: "cert_row list \<Rightarrow> (nat list \<times> nat list) list \<Rightarrow> bool" where
  "grouped_folds ud folds \<longleftrightarrow>
     distinct (concat (map snd folds)) \<and> set (concat (map snd folds)) = {..<length ud} \<and>
     (\<forall>(tri, tei)\<in>set folds. \<forall>j\<in>set tri. \<forall>i\<in>set tei. ud_user (fst (ud ! j)) \<noteq> ud_user (fst (ud ! i)))"

lemma fold_loop_keeps:
  "fold_loop F ud folds oof = Inr out \<Longrightarrow>
   length out = length oof \<and> (i < length oof \<longrightarrow> i \<notin> set (concat (map snd folds)) \<longrightarrow> out ! i = oof ! i)"
proof (induction F ud folds oof arbitrary: out rule: fold_loop.induct)
  case (2 F ud tri tei folds oof)
  then show ?case by (auto simp: sbind_eq_Inr Let_def put_all_nth)
qed simp

lemma fold_loop_scores:
  assumes "fold_loop F ud folds oof = Inr out" "distinct (concat (map snd folds))" "i < length oof" "i \<in> set (concat (map snd folds))"
  shows "\<exists>tri tei m. (tri, tei) \<in> set folds \<and> i \<in> set tei \<and>
    fb_fit F (fold_params (map ((!) (cert_y ud)) tri)) (columns cert_cell DEV_COLS (map ((!) ud) tri)) (map ((!) (cert_y ud)) tri) = Inr m \<and>
    out ! i = fb_score F m (map (cert_cell (ud ! i)) DEV_COLS)"
  using assms
proof (induction folds arbitrary: oof)
  case (Cons fold folds)
  obtain tri tei where fold: "fold = (tri, tei)" by fastforce
  let ?f = "\<lambda>m i. fb_score F m (map (cert_cell (ud ! i)) DEV_COLS)"
  from Cons.prems(1) obtain m where
    m: "fb_fit F (fold_params (map ((!) (cert_y ud)) tri)) (columns cert_cell DEV_COLS (map ((!) ud) tri)) (map ((!) (cert_y ud)) tri) = Inr m"
    and rest: "fold_loop F ud folds (put_all oof (map (\<lambda>i. (i, ?f m i)) tei)) = Inr out"
    by (auto simp: fold sbind_eq_Inr Let_def)
  show ?case
  proof (cases "i \<in> set tei")
    case True
    then have "i \<notin> set (concat (map snd folds))" using Cons.prems(2) by (auto simp: fold)
    then have "out ! i = ?f m i" using fold_loop_keeps [OF rest] Cons.prems(3) True by (simp add: put_all_nth)
    with m True show ?thesis by (auto simp: fold)
  next
    case False
    with Cons.IH [OF rest] Cons.prems show ?thesis by (auto simp: fold)
  qed
qed simp

text \<open>A first key whose value is not a number stays the best.\<close>

lemma first_max_NaN: "f b = NaN \<Longrightarrow> first_max f b xs = b"
  by (induction xs) auto

text \<open>
  A deviation column that never varies has no correlation with the labels (numpy gives NaN); as the first column it
  is reported as the feature most correlated with them, and the audit drops it.
\<close>

lemma nan_correlation_is_top:
  assumes "leak_cert F lib corrcoef ud = Inr r" "correlated corrcoef ud ''dev_n_logon'' = NaN"
  shows "lk_top r = Some ''dev_n_logon''"
  using assms by (auto simp: leak_cert_def sbind_eq_Inr Let_def DEV_COLS_def first_max_NaN)

section \<open>Properties\<close>

text \<open>
  C34: The grouped cross-validation does not leak: every user-day gets its score from a model fitted on one fold's training
  rows, and no row of its user is among them.
\<close>

theorem users_are_scored_unseen:
  assumes "grouped_folds ud folds" "fold_loop F ud folds (replicate (length ud) (fl 0)) = Inr oof" "i < length ud"
  shows "length oof = length ud \<and> (\<exists>tri tei m. (tri, tei) \<in> set folds \<and> i \<in> set tei \<and>
    fb_fit F (fold_params (map ((!) (cert_y ud)) tri)) (columns cert_cell DEV_COLS (map ((!) ud) tri)) (map ((!) (cert_y ud)) tri) = Inr m \<and>
    oof ! i = fb_score F m (map (cert_cell (ud ! i)) DEV_COLS) \<and>
    (\<forall>j\<in>set tri. ud_user (fst (ud ! j)) \<noteq> ud_user (fst (ud ! i))))"
proof -
  have g: "distinct (concat (map snd folds))" "i \<in> set (concat (map snd folds))"
    "\<And>tri tei j. (tri, tei) \<in> set folds \<Longrightarrow> j \<in> set tri \<Longrightarrow> i \<in> set tei \<Longrightarrow> ud_user (fst (ud ! j)) \<noteq> ud_user (fst (ud ! i))"
    using assms(1, 3) unfolding grouped_folds_def by (simp, simp, blast)
  have len: "length oof = length ud" using fold_loop_keeps [OF assms(2)] by simp
  have "i < length (replicate (length ud) (fl 0))" using assms(3) by simp
  from fold_loop_scores [OF assms(2) g(1) this g(2)] obtain tri tei m where
    f: "(tri, tei) \<in> set folds" "i \<in> set tei"
      "fb_fit F (fold_params (map ((!) (cert_y ud)) tri)) (columns cert_cell DEV_COLS (map ((!) ud) tri)) (map ((!) (cert_y ud)) tri) = Inr m"
      "oof ! i = fb_score F m (map (cert_cell (ud ! i)) DEV_COLS)" by blast
  with g(3) [OF f(1) _ f(2)] len show ?thesis by blast
qed

definition wit_cert_row :: "string \<Rightarrow> int \<Rightarrow> cert_row" where
  "wit_cert_row u y = (\<lparr> ud_user = u, ud_day = 1, ud_counts = replicate 8 (Fin 0) \<rparr>, y, replicate 8 (Fin 0))"

definition wit_cert_rows :: "cert_row list" where
  "wit_cert_rows = [wit_cert_row ''U1'' 0, wit_cert_row ''U2'' 1]"

theorem users_are_scored_unseen_witness:
  "\<exists>oof. fold_loop wit_fit wit_cert_rows [([1], [0]), ([0], [1])] (replicate (length wit_cert_rows) (fl 0)) = Inr oof \<and>
     length oof = 2"
proof -
  let ?folds = "[([1], [0]), ([0], [1 :: nat])]"
  have g: "grouped_folds wit_cert_rows ?folds"
    by (auto simp: grouped_folds_def wit_cert_rows_def wit_cert_row_def lessThan_Suc)
  have "\<exists>oof. fold_loop wit_fit wit_cert_rows ?folds (replicate (length wit_cert_rows) (fl 0)) = Inr oof"
    by (simp add: wit_fit_def)
  then obtain oof where o: "fold_loop wit_fit wit_cert_rows ?folds (replicate (length wit_cert_rows) (fl 0)) = Inr oof" by blast
  have "0 < length wit_cert_rows" by (simp add: wit_cert_rows_def)
  from users_are_scored_unseen [OF g o this] have "length oof = length wit_cert_rows" by (rule conjunct1)
  with o show ?thesis by (auto simp: wit_cert_rows_def)
qed

end
