(* ===== verification/Tuning.thy ===== *)
theory Tuning
  imports Sweeps
begin

text \<open>
  The hyperparameter search \<^verbatim>\<open>src/tune.py\<close> and the evaluation of its winner \<^verbatim>\<open>src/evaluate_tuned.py\<close>. The boosted trees
  that stop early on the validation rows, the study of Optuna and the two calibrators are parameters; which rows each
  of them is given, which candidate is picked and when the incumbent is replaced are the code's.

  The lemmas: a model that scores like the incumbent never replaces it; the evaluation's alignment check passes on the
  score table the incumbent's fit wrote.
\<close>

section \<open>The bake-off\<close>

text \<open>
  \<open>tl_early\<close> fits on the training rows and stops on the validation rows; \<open>tl_optimize\<close> runs a study, an objective
  being a function of the suggested parameters to the best iteration and the value.
\<close>

record study =
  sy_best_value :: pyfloat
  sy_best_params :: "(string \<times> json) list"
  sy_best_iter :: "nat option"
  sy_trials :: nat

record 'm tune_lib =
  tl_fit :: "'m fit_lib"
  tl_early :: "estimator \<Rightarrow> nat \<Rightarrow> cell list list \<Rightarrow> int list \<Rightarrow> cell list list \<Rightarrow> int list \<Rightarrow> py_exn + 'm"
  tl_best_iter :: "'m \<Rightarrow> nat"
  tl_optimize :: "((string \<times> json) list \<Rightarrow> py_exn + nat option \<times> pyfloat) \<Rightarrow> nat \<Rightarrow> nat \<Rightarrow> py_exn + study"
  tl_have_xgb :: bool
  tl_have_lgb :: bool
  tl_have_optuna :: bool

record tune_data =
  td_tr :: "txn list"
  td_val :: "txn list"
  td_train_all :: "txn list"
  td_test :: "txn list"

definition tune_data_of :: "(int list \<Rightarrow> pyfloat) \<Rightarrow> txn list \<Rightarrow> tune_data" where
  "tune_data_of quantile80 df =
     (let (tr, val, train_all, test) = ieee_splits quantile80 df
      in \<lparr> td_tr = tr, td_val = val, td_train_all = train_all, td_test = test \<rparr>)"

definition labels :: "txn list \<Rightarrow> int list" where
  "labels rows = map tx_fraud rows"

text \<open>\<^verbatim>\<open>astype(str)\<close> of the categorical columns: a missing category becomes \<^verbatim>\<open>nan\<close>.\<close>

definition str_cell :: "txn \<Rightarrow> string \<Rightarrow> cell" where
  "str_cell r c = (if c \<in> set (TXN_CAT @ ID_CAT)
     then (case tx_cell r c of Cat s \<Rightarrow> Cat (Some (col_str s)) | Num x \<Rightarrow> Num x) else tx_cell r c)"

definition incumbent_hgb :: estimator where
  "incumbent_hgb = HistGradientBoosting
     [(''max_iter'', JInt 200), (''learning_rate'', JFloat (fl 0.1)), (''max_leaf_nodes'', JInt 31), (''random_state'', JInt 42),
      (''categorical_features'', JStr ''from_dtype'')]"

definition logistic :: estimator where
  "logistic = LogisticPipeline [(''max_iter'', JInt 200), (''C'', JFloat (fl 1)), (''class_weight'', JStr ''balanced'')]"

definition xgb_params :: "int list \<Rightarrow> (string \<times> json) list" where
  "xgb_params ytr =
     [(''max_depth'', JInt 6), (''eta'', JFloat (fl 0.1)), (''subsample'', JFloat (fl 0.8)), (''colsample_bytree'', JFloat (fl 0.8)),
      (''objective'', JStr ''binary:logistic''), (''eval_metric'', JStr ''aucpr''), (''tree_method'', JStr ''hist''),
      (''scale_pos_weight'', JFloat (pos_weight ytr)), (''seed'', JInt 42)]"

definition lgb_params :: "int list \<Rightarrow> (string \<times> json) list" where
  "lgb_params ytr =
     [(''objective'', JStr ''binary''), (''metric'', JStr ''average_precision''), (''num_leaves'', JInt 63),
      (''learning_rate'', JFloat (fl 0.05)), (''feature_fraction'', JFloat (fl 0.8)), (''bagging_fraction'', JFloat (fl 0.8)),
      (''bagging_freq'', JInt 1), (''scale_pos_weight'', JFloat (pos_weight ytr)), (''seed'', JInt 42), (''verbose'', JInt (- 1))]"

text \<open>A boosted candidate that stops early, scored on the validation rows.\<close>

definition early_candidate ::
  "'m tune_lib \<Rightarrow> metric_lib \<Rightarrow> string \<Rightarrow> estimator \<Rightarrow> nat \<Rightarrow> tune_data \<Rightarrow> py_exn + (string \<times> val_metrics) list" where
  "early_candidate T lib name est rounds d =
     (let xtr = columns tx_cell device_cols (td_tr d); xval = columns tx_cell device_cols (td_val d);
          yval = labels (td_val d) in
      sbind (tl_early T est rounds xtr (labels (td_tr d)) xval yval) (\<lambda>m.
      sbind (val_metrics_of lib yval (map (fb_score (tl_fit T) m) xval)) (\<lambda>v. Inr [(name, v)])))"

definition ieee_bakeoff :: "'m tune_lib \<Rightarrow> metric_lib \<Rightarrow> tune_data \<Rightarrow> py_exn + (string \<times> val_metrics) list" where
  "ieee_bakeoff T lib d =
     (let F = tl_fit T; tr = td_tr d; val = td_val d; ytr = labels tr; yval = labels val in
      sbind (sbind (fit_score F incumbent_hgb tx_cell device_cols tr ytr val) (val_metrics_of lib yval)) (\<lambda>inc.
      sbind (sbind (fit_score F logistic str_cell device_cols tr ytr val) (val_metrics_of lib yval)) (\<lambda>logit.
      sbind (if tl_have_xgb T then early_candidate T lib ''xgboost'' (XGBoost (xgb_params ytr) 400) 30 d else Inr []) (\<lambda>x.
      sbind (if tl_have_lgb T then early_candidate T lib ''lightgbm'' (LightGBM (lgb_params ytr) 600) 40 d else Inr []) (\<lambda>l.
      Inr ([(''hist_gbdt_incumbent'', inc), (''logistic_balanced'', logit)] @ x @ l))))))"

section \<open>The search\<close>

definition search_rows :: "'m fit_lib \<Rightarrow> nat \<Rightarrow> txn list \<Rightarrow> py_exn + txn list" where
  "search_rows F search_neg_cap tr =
     (let tr_pos = filter (\<lambda>r. tx_fraud r = 1) tr; tr_neg = filter (\<lambda>r. tx_fraud r = 0) tr in
      sbind (if search_neg_cap < length tr_neg then frame_sample F 42 search_neg_cap tr_neg else Inr tr_neg) (\<lambda>neg.
      Inr (tr_pos @ neg)))"

text \<open>One trial: the suggested parameters with the fixed ones, fitted on the search rows, valued on the validation rows.\<close>

definition objective ::
  "'m tune_lib \<Rightarrow> metric_lib \<Rightarrow> txn list \<Rightarrow> txn list \<Rightarrow> (string \<times> json) list \<Rightarrow> py_exn + nat option \<times> pyfloat" where
  "objective T lib trs val suggested =
     (let F = tl_fit T; xval = columns tx_cell device_cols val; yval = labels val; ones = map (\<lambda>_. fl 1) yval in
      if tl_have_lgb T
      then sbind (tl_early T (LightGBM ([(''objective'', JStr ''binary''), (''metric'', JStr ''average_precision'')] @ suggested @
               [(''feature_pre_filter'', JBool False), (''seed'', JInt 42), (''verbose'', JInt (- 1)), (''num_threads'', JInt 4)]) 300)
               25 (columns tx_cell device_cols trs) (labels trs) xval yval) (\<lambda>m.
           sbind (ml_average_precision lib yval (map (fb_score F m) xval) ones) (\<lambda>ap. Inr (Some (tl_best_iter T m), ap)))
      else sbind (fit_score F (HistGradientBoosting (suggested @ [(''random_state'', JInt 42),
               (''categorical_features'', JStr ''from_dtype''), (''early_stopping'', JBool False)])) tx_cell device_cols
               trs (labels trs) val) (\<lambda>s.
           sbind (ml_average_precision lib yval s ones) (\<lambda>ap. Inr (None, ap))))"

definition ieee_optuna ::
  "'m tune_lib \<Rightarrow> metric_lib \<Rightarrow> tune_data \<Rightarrow> nat \<Rightarrow> nat \<Rightarrow> nat \<Rightarrow> py_exn + string \<times> study" where
  "ieee_optuna T lib d n_trials timeout search_neg_cap =
     sbind (search_rows (tl_fit T) search_neg_cap (td_tr d)) (\<lambda>trs.
     sbind (tl_optimize T (objective T lib trs (td_val d)) n_trials timeout) (\<lambda>sy.
     Inr (if tl_have_lgb T then ''lightgbm'' else ''hist_gbdt'', sy)))"

text \<open>\<^verbatim>\<open>run_ieee\<close> of \<^verbatim>\<open>tune.py\<close>: the bake-off is written before the search starts.\<close>

record tune_files =
  tf_bakeoff :: "(string \<times> val_metrics) list option"
  tf_best :: "(string \<times> study) option"

definition tune_ieee ::
  "'m tune_lib \<Rightarrow> metric_lib \<Rightarrow> (int list \<Rightarrow> pyfloat) \<Rightarrow> txn list \<Rightarrow> nat \<Rightarrow> nat \<Rightarrow> tune_files \<times> (py_exn + unit)" where
  "tune_ieee T lib quantile80 df n_trials timeout =
     (let d = tune_data_of quantile80 df in
      case ieee_bakeoff T lib d of
        Inl e \<Rightarrow> (\<lparr> tf_bakeoff = None, tf_best = None \<rparr>, Inl e)
      | Inr bake \<Rightarrow>
        if \<not> tl_have_optuna T then (\<lparr> tf_bakeoff = Some bake, tf_best = None \<rparr>, Inr ())
        else (case ieee_optuna T lib d n_trials timeout 80000 of
                Inl e \<Rightarrow> (\<lparr> tf_bakeoff = Some bake, tf_best = None \<rparr>, Inl e)
              | Inr best \<Rightarrow> (\<lparr> tf_bakeoff = Some bake, tf_best = Some best \<rparr>, Inr ())))"

section \<open>The winner on the test rows\<close>

text \<open>A calibrator is fitted on the validation scores and labels and maps scores.\<close>

record calibrators =
  cal_isotonic :: "pyfloat list \<Rightarrow> int list \<Rightarrow> pyfloat list \<Rightarrow> pyfloat list"
  cal_platt :: "pyfloat list \<Rightarrow> int list \<Rightarrow> pyfloat list \<Rightarrow> pyfloat list"

definition tuned_rounds :: "nat option \<Rightarrow> nat" where
  "tuned_rounds best_iter = (let n_round = (case best_iter of None \<Rightarrow> 300 | Some k \<Rightarrow> if k = 0 then 300 else k) in max n_round 1)"

definition tuned_params :: "(string \<times> json) list \<Rightarrow> (string \<times> json) list" where
  "tuned_params best_params = kwargs best_params
     [(''objective'', JStr ''binary''), (''verbose'', JInt (- 1)), (''seed'', JInt 42), (''feature_pre_filter'', JBool False)]"

text \<open>\<^verbatim>\<open>summ\<close> of the paired bootstrap.\<close>

record delta_summary =
  ds_mean :: pyfloat
  ds_lo :: pyfloat
  ds_hi :: pyfloat

definition summ :: "metric_lib \<Rightarrow> pyfloat list \<Rightarrow> delta_summary" where
  "summ lib a = \<lparr> ds_mean = py_round 4 (ml_mean lib a), ds_lo = py_round 4 (ml_percentile lib a (fl 2.5)),
                  ds_hi = py_round 4 (ml_percentile lib a (fl 97.5)) \<rparr>"

definition paired_bootstrap_delta ::
  "metric_lib \<Rightarrow> ('g \<Rightarrow> nat list \<Rightarrow> nat \<Rightarrow> 'g \<times> nat list) \<Rightarrow> 'g \<Rightarrow> int list \<Rightarrow> pyfloat list \<Rightarrow> pyfloat list \<Rightarrow> nat \<Rightarrow>
   py_exn + delta_summary \<times> delta_summary" where
  "paired_bootstrap_delta lib choice g y s_old s_new n =
     sbind (paired_loop lib choice y s_old s_new n g) (\<lambda>ds. Inr (summ lib (map fst ds), summ lib (map snd ds)))"

record comparison =
  cp_old_ap :: pyfloat
  cp_old_r2 :: pyfloat
  cp_new_ap :: pyfloat
  cp_new_r2 :: pyfloat
  cp_delta_ap :: delta_summary
  cp_delta_r2 :: delta_summary
  cp_decision :: string

text \<open>Old against new on the same test rows; \<open>m_new\<close> is the suite of the calibrated scores.\<close>

definition compare_tuned ::
  "metric_lib \<Rightarrow> ('g \<Rightarrow> nat list \<Rightarrow> nat \<Rightarrow> 'g \<times> nat list) \<Rightarrow> 'g \<Rightarrow> int list \<Rightarrow> pyfloat list \<Rightarrow> ieee_score list \<Rightarrow>
   suite_report \<Rightarrow> py_exn + comparison" where
  "compare_tuned lib choice g ytest p_test old m_new =
     (if \<not> labels_align (map is_y old) ytest then Inl AssertionError
      else let s_old = map is_with_device old; (fpr, tpr, thr) = ml_roc_curve lib ytest s_old in
        sbind (ml_average_precision lib ytest s_old (map (\<lambda>_. fl 1) ytest)) (\<lambda>old_ap.
        sbind (recall_at lib fpr tpr (fl 0.02)) (\<lambda>old_r2.
        sbind (item (su_operating_points m_new) 3) (\<lambda>op2.
        sbind (paired_bootstrap_delta lib choice g ytest s_old p_test 1000) (\<lambda>(d_ap, d_r2).
        Inr \<lparr> cp_old_ap = py_round 4 old_ap, cp_old_r2 = py_round 4 old_r2,
              cp_new_ap = tf_pr_auc (su_threshold_free m_new), cp_new_r2 = or_recall op2,
              cp_delta_ap = d_ap, cp_delta_r2 = d_r2,
              cp_decision = (if Fin 0 < ds_lo d_ap then ''replace'' else ''keep_incumbent'') \<rparr>)))))"

text \<open>\<^verbatim>\<open>run_ieee\<close> of \<^verbatim>\<open>evaluate_tuned.py\<close>: the booster is fitted on the inner training rows; without LightGBM nothing is done.\<close>

definition calibrate_test ::
  "metric_lib \<Rightarrow> calibrators \<Rightarrow> int list \<Rightarrow> pyfloat list \<Rightarrow> pyfloat list \<Rightarrow> string \<times> pyfloat list" where
  "calibrate_test lib C yval p_val_raw p_test_raw =
     (let iso = cal_isotonic C p_val_raw yval; platt = cal_platt C p_val_raw yval;
          pick = pick_calibration lib yval p_val_raw (iso p_val_raw) (platt p_val_raw)
      in (pick, if pick = ''isotonic'' then iso p_test_raw
                else if pick = ''platt'' then platt p_test_raw else p_test_raw))"

definition evaluate_tuned ::
  "'m tune_lib \<Rightarrow> metric_lib \<Rightarrow> calibrators \<Rightarrow> ('g \<Rightarrow> nat list \<Rightarrow> nat \<Rightarrow> 'g \<times> nat list) \<Rightarrow> 'g \<Rightarrow> (int list \<Rightarrow> pyfloat) \<Rightarrow>
   txn list \<Rightarrow> study \<Rightarrow> ieee_score list \<Rightarrow> py_exn + (string \<times> suite_report \<times> comparison) option" where
  "evaluate_tuned T lib C choice g quantile80 df best old =
     (if \<not> tl_have_lgb T then Inr None
      else let F = tl_fit T; d = tune_data_of quantile80 df; ytest = labels (td_test d);
               score = (\<lambda>m rows. map (fb_score F m) (columns tx_cell device_cols rows)) in
        sbind (fb_fit F (LightGBM (tuned_params (sy_best_params best)) (tuned_rounds (sy_best_iter best)))
                 (columns tx_cell device_cols (td_tr d)) (labels (td_tr d))) (\<lambda>booster.
        let (pick, p_test) = calibrate_test lib C (labels (td_val d)) (score booster (td_val d)) (score booster (td_test d)) in
        sbind (full_suite lib choice g ''ieee_tuned'' ytest p_test (fl 1) None True (Some True) None N_BOOT) (\<lambda>m_new.
        sbind (compare_tuned lib choice g ytest p_test old m_new) (\<lambda>cmp. Inr (Some (pick, m_new, cmp))))))"

text \<open>The gains of the booster's columns, sorted in descending order (Python's sort is stable).\<close>

fun insert_gain :: "string \<times> pyfloat \<Rightarrow> (string \<times> pyfloat) list \<Rightarrow> (string \<times> pyfloat) list" where
  "insert_gain x [] = [x]"
| "insert_gain x (y # ys) = (if - snd x < - snd y then x # y # ys else y # insert_gain x ys)"

definition importances :: "string list \<Rightarrow> pyfloat list \<Rightarrow> (string \<times> pyfloat) list" where
  "importances cols gains = foldl (\<lambda>acc x. insert_gain x acc) [] (zip cols gains)"

section \<open>Lemmas\<close>

lemma insert_gain_mset [simp]: "mset (insert_gain x ys) = add_mset x (mset ys)"
  by (induction ys) auto

lemma importances_mset: "mset (importances cols gains) = mset (zip cols gains)"
proof -
  have "mset (foldl (\<lambda>acc x. insert_gain x acc) acc xs) = mset acc + mset xs" for acc xs
    by (induction xs arbitrary: acc) auto
  then show ?thesis by (simp add: importances_def)
qed

lemma tuned_rounds_positive: "0 < tuned_rounds k"
  by (auto simp: tuned_rounds_def Let_def split: option.splits)

lemma set_pick: "set is \<subseteq> {..<length xs} \<Longrightarrow> set (map ((!) xs) is) \<subseteq> set xs"
  by auto

lemma search_rows_subset:
  assumes "search_rows F cap tr = Inr trs" "set (fb_sample F 42 cap (length (filter (\<lambda>r. tx_fraud r = 0) tr))) \<subseteq>
    {..<length (filter (\<lambda>r. tx_fraud r = 0) tr)}"
  shows "set trs \<subseteq> set tr \<and> filter (\<lambda>r. tx_fraud r = 1) trs = filter (\<lambda>r. tx_fraud r = 1) tr"
proof -
  let ?neg = "filter (\<lambda>r. tx_fraud r = 0) tr"
  from assms(1) obtain neg where trs: "trs = filter (\<lambda>r. tx_fraud r = 1) tr @ neg"
    and neg: "neg = ?neg \<or> neg = map ((!) ?neg) (fb_sample F 42 cap (length ?neg))"
    by (auto simp: search_rows_def Let_def sbind_eq_Inr frame_sample_def split: if_splits)
  have "set neg \<subseteq> set ?neg" using neg set_pick [OF assms(2)] by blast
  then have n: "set neg \<subseteq> set tr" "\<forall>r\<in>set neg. tx_fraud r = 0" by auto
  then have "filter (\<lambda>r. tx_fraud r = 1) neg = []" by (auto simp: filter_empty_conv)
  with n trs show ?thesis by auto
qed

text \<open>The score table of the incumbent's fit is aligned with the test rows of the search.\<close>

lemma incumbent_aligned:
  "ieee_fit F quantile80 df = Inr old \<Longrightarrow> map is_y old = labels (td_test (tune_data_of quantile80 df))"
  using ieee_fit_parts(1) [of F quantile80 df old]
  by (simp add: tune_data_of_def ieee_splits_def labels_def Let_def split_beta)

lemma finite_diff_self: "is_finite x \<Longrightarrow> x - x = Fin 0"
  by (cases x) (auto simp: is_finite_def)

lemma paired_loop_same:
  assumes "\<forall>y s w a. ml_average_precision lib y s w = Inr a \<longrightarrow> is_finite a"
    and "paired_loop lib choice y s s n g = Inr ds"
  shows "map fst ds = replicate n (Fin 0)"
  using assms(2)
proof (induction n arbitrary: g ds)
  case (Suc n)
  obtain g1 bp where bp: "choice g (positions 1 y) (length (positions 1 y)) = (g1, bp)" by fastforce
  obtain g2 bn where bn: "choice g1 (positions 0 y) (length (positions 0 y)) = (g2, bn)" by fastforce
  from Suc.prems obtain a r ds' where
    a: "ml_average_precision lib (map ((!) y) (bp @ bn)) (map ((!) s) (bp @ bn)) (map (\<lambda>_. fl 1) (map ((!) y) (bp @ bn))) = Inr a"
    and ds: "ds = (a - a, r) # ds'" and rest: "paired_loop lib choice y s s n g2 = Inr ds'"
    by (auto simp: bp bn sbind_eq_Inr Let_def split: prod.splits)
  from assms(1) a have "a - a = Fin 0" by (blast intro: finite_diff_self)
  with Suc.IH [OF rest] ds show ?case by simp
qed simp

section \<open>Properties\<close>

text \<open>
  A model that only matches the incumbent never replaces it: on the incumbent's own scores every paired difference is
  0, the interval is [0, 0], and the decision is to keep the incumbent.
\<close>

theorem same_scores_keep_incumbent:
  assumes "\<forall>y s w a. ml_average_precision lib y s w = Inr a \<longrightarrow> is_finite a"
    and "\<forall>n p. ml_percentile lib (replicate n (Fin 0)) p = Fin 0"
    and "compare_tuned lib choice g ytest (map is_with_device old) old m_new = Inr c"
  shows "cp_decision c = ''keep_incumbent'' \<and> ds_lo (cp_delta_ap c) = Fin 0 \<and> ds_hi (cp_delta_ap c) = Fin 0"
proof -
  from assms(3) obtain ds where ds: "paired_loop lib choice ytest (map is_with_device old) (map is_with_device old) 1000 g = Inr ds"
    and c: "cp_delta_ap c = summ lib (map fst ds)"
      "cp_decision c = (if Fin 0 < ds_lo (summ lib (map fst ds)) then ''replace'' else ''keep_incumbent'')"
    by (auto simp: compare_tuned_def paired_bootstrap_delta_def sbind_eq_Inr Let_def split: if_splits prod.splits)
  have "py_round 4 (Fin 0) = Fin 0" by (simp add: round_half_even_def)
  with c assms(2) paired_loop_same [OF assms(1) ds] show ?thesis by (simp add: summ_def)
qed

definition wit_suite :: suite_report where
  "wit_suite =
     \<lparr> su_name = ''ieee_tuned'', su_n_pos = 1, su_n_neg = 1, su_n_neg_full = 1, su_base_rate = Fin (1 / 2),
       su_threshold_free = \<lparr> tf_pr_auc = Fin 1, tf_pr_auc_trapz = Fin 1, tf_roc_auc = Fin 1, tf_pauc = Fin 1, tf_ks = Fin 1, tf_gini = Fin 1 \<rparr>,
       su_operating_points = replicate 5 \<lparr> or_step_up_rate = Fin 0, or_recall = Fin 0, or_precision = Fin 1, or_f1 = Fin 0, or_f2 = Fin 0,
         or_specificity = Fin 1, or_lift = None, or_threshold = Fin 1, or_tp = 0, or_fn = 1, or_fp = 0, or_tn = 1 \<rparr>,
       su_calibration = None, su_cost = RatioBased [], su_boot = [] \<rparr>"

definition wit_old :: "ieee_score list" where
  "wit_old = map (\<lambda>y. \<lparr> is_y = y, is_has_identity = False, is_txn_only = Fin 0, is_with_device = Fin (of_int y) \<rparr>) [0, 1]"

lemma wit_paired: "\<exists>ds. paired_loop wit_flat choice y s_old s_new n g = Inr ds"
proof (induction n arbitrary: g)
  case (Suc n)
  show ?case
    using Suc by (auto simp: wit_flat_auc recall_at_def item_def sbind_eq_Inr Let_def split: prod.splits)
qed simp

theorem same_scores_keep_incumbent_witness:
  "\<exists>c. compare_tuned wit_flat (\<lambda>g xs n. (g, xs)) (0 :: nat) [0, 1] (map is_with_device wit_old) wit_old wit_suite = Inr c \<and>
     cp_decision c = ''keep_incumbent''"
proof -
  let ?cmp = "compare_tuned wit_flat (\<lambda>g xs n. (g, xs)) (0 :: nat) [0, 1] (map is_with_device wit_old) wit_old wit_suite"
  have y: "map is_y wit_old = [0, 1]" by (simp add: wit_old_def)
  have ops: "\<exists>p. item (su_operating_points wit_suite) 3 = Inr p" by (simp add: wit_suite_def item_def)
  have i0: "item [Fin 0] 0 = Inr (Fin 0)" by (simp add: item_def)
  obtain ds where ds: "paired_loop wit_flat (\<lambda>g xs n. (g, xs)) [0, 1] (map is_with_device wit_old) (map is_with_device wit_old) 1000 (0 :: nat) = Inr ds"
    using wit_paired [of "\<lambda>g xs n. (g, xs)" "[0, 1]" "map is_with_device wit_old" "map is_with_device wit_old" 1000 "0 :: nat"] by blast
  have "\<exists>c. ?cmp = Inr c"
    using ops by (auto simp: compare_tuned_def labels_align_eq y wit_flat_auc recall_at_def i0 paired_bootstrap_delta_def ds)
  then obtain c where c: "?cmp = Inr c" by blast
  have "\<forall>y s w a. ml_average_precision wit_flat y s w = Inr a \<longrightarrow> is_finite a"
    by (simp add: wit_flat_auc is_finite_def)
  moreover have "\<forall>n p. ml_percentile wit_flat (replicate n (Fin 0)) p = Fin 0" by (simp add: wit_flat_def wit_metrics_def)
  ultimately have "cp_decision c = ''keep_incumbent''" using same_scores_keep_incumbent [OF _ _ c] by blast
  with c show ?thesis by blast
qed

end
