(* ===== verification/Checks.thy ===== *)
theory Checks
  imports Tools Sweeps Synthetic
begin

text \<open>
  The scripts around the service: the request loop of \<^verbatim>\<open>scripts/loadtest.py\<close>, the end-to-end check
  \<^verbatim>\<open>scripts/e2e_smoke.py\<close> and the attribution summary \<^verbatim>\<open>src/explain_shap.py\<close>. What a server answers, and when, is an
  argument; the shap library, the scaler and numpy's generator are parameters. Also the draws of the parity simulation of
  \<^verbatim>\<open>src/fairness_audit.py\<close>.

  The lemmas: the load report counts a refused request as a sample, so a server that refuses everything quickly meets
  the latency claim; the attribution summary lists every feature once; equalising selection rates never raises the
  reported recall of the cohort whose threshold is raised.
\<close>

section \<open>The load test\<close>

text \<open>What became of one request, with its latency in milliseconds; in the order in which they completed.\<close>

datatype request_outcome = Response int pyfloat | RequestRaised

definition load_event :: "int \<Rightarrow> (string \<times> json) list" where
  "load_event i =
     (let k = nat_str (nat (i mod 500)) in
      [(''identity_id'', JStr (''load_'' @ k)), (''event_type'', JStr ''login''), (''channel'', JStr ''mobile_app''),
       (''device_id'', JStr (''dev_'' @ k)), (''geo'', JStr ''IN-GJ''), (''hour_of_day'', JInt 12)])"

fun load_one :: "request_outcome \<Rightarrow> pyfloat list \<times> int \<Rightarrow> pyfloat list \<times> int" where
  "load_one (Response status ms) (latencies, errors) =
     (latencies @ [ms], if status \<noteq> 200 then errors + 1 else errors)"
| "load_one RequestRaised (latencies, errors) = (latencies, errors + 1)"

definition load_run :: "request_outcome list \<Rightarrow> pyfloat list \<times> int" where
  "load_run outcomes = fold load_one outcomes ([], 0)"

text \<open>\<^verbatim>\<open>main\<close>: exit code 1 without a sample; \<open>sort_floats\<close> is \<^verbatim>\<open>list.sort\<close> on the measured floats.\<close>

definition loadtest_main ::
  "(pyfloat list \<Rightarrow> pyfloat list) \<Rightarrow> request_outcome list \<Rightarrow> pyfloat \<Rightarrow> py_exn + load_report option" where
  "loadtest_main sort_floats outcomes wall =
     (let (latencies, errors) = load_run outcomes in load_report_of (sort_floats latencies) errors wall)"

section \<open>The end-to-end check\<close>

text \<open>
  \<^verbatim>\<open>_wait\<close>: the polls as pairs of the time passed at the loop's test and the status of the answer, if there was
  one; \<open>None\<close> when the given polls do not decide yet.
\<close>

fun wait_up :: "pyfloat \<Rightarrow> (pyfloat \<times> int option) list \<Rightarrow> bool option" where
  "wait_up timeout [] = None"
| "wait_up timeout ((t, r) # ps) =
     (if t < timeout then (if r = Some 200 then Some True else wait_up timeout ps) else Some False)"

text \<open>The thirty polls for the decision.\<close>

fun poll_decision :: "nat \<Rightarrow> (int \<times> json) list \<Rightarrow> json" where
  "poll_decision (Suc n) ((status, body) # ps) = (if status = 200 then body else poll_decision n ps)"
| "poll_decision n ps = JNull"

record smoke_world =
  sk_ingress :: "(pyfloat \<times> int option) list"
  sk_verifier :: "(pyfloat \<times> int option) list"
  sk_health :: json
  sk_post :: "int \<times> json"
  sk_polls :: "(int \<times> json) list"
  sk_chain :: "py_exn + bool"
  sk_count :: int
  sk_issue :: json

definition lower_contains :: "string \<Rightarrow> string \<Rightarrow> bool" where
  "lower_contains w s = contains w (map lower_char s)"

definition assert_that :: "bool \<Rightarrow> py_exn + unit" where
  "assert_that b = (if b then Inr () else Inl AssertionError)"

text \<open>\<open>str\<close> is Python's \<^verbatim>\<open>str\<close> of a parsed answer; the exit code, or \<open>None\<close> while a service is still waited for.\<close>

definition smoke_main :: "(json \<Rightarrow> string) \<Rightarrow> smoke_world \<Rightarrow> (py_exn + int) option" where
  "smoke_main str w =
     (case wait_up (fl 120) (sk_ingress w) of
        None \<Rightarrow> None
      | Some False \<Rightarrow> Some (Inr 1)
      | Some True \<Rightarrow>
        (case wait_up (fl 120) (sk_verifier w) of
           None \<Rightarrow> None
         | Some False \<Rightarrow> Some (Inr 1)
         | Some True \<Rightarrow> Some (
             sbind (json_get (sk_health w) ''public_key'') (\<lambda>pk.
             sbind (assert_that (json_truthy pk \<and> \<not> lower_contains ''private'' (str (sk_health w)))) (\<lambda>_.
             sbind (assert_that (fst (sk_post w) = 202)) (\<lambda>_.
             sbind (json_item (snd (sk_post w)) ''event_id'') (\<lambda>_.
             let decision = poll_decision 30 (sk_polls w) in
             sbind (assert_that (json_truthy decision)) (\<lambda>_.
             sbind (json_item decision ''decision'') (\<lambda>d.
             sbind (assert_that (d \<in> {JStr ''ALLOW'', JStr ''STEP_UP'', JStr ''BLOCK''})) (\<lambda>_.
             let blob = str decision in
             sbind (assert_that (\<not> lower_contains ''trust'' blob \<and> \<not> lower_contains ''reason'' blob \<and>
               \<not> lower_contains ''shap'' blob)) (\<lambda>_.
             sbind (sk_chain w) (\<lambda>ok.
             sbind (assert_that (ok \<and> 1 \<le> sk_count w)) (\<lambda>_.
             sbind (json_get (sk_issue w) ''assertion'') (\<lambda>a.
             sbind (assert_that (case a of JStr s \<Rightarrow> contains ''.'' s | _ \<Rightarrow> False)) (\<lambda>_.
             Inr 0)))))))))))))))"

section \<open>The parity simulation\<close>

text \<open>The draws of \<^verbatim>\<open>_parity_cost_simulation\<close> (\<^verbatim>\<open>src/fairness_audit.py\<close>): labels, risks and the next state of the generator.\<close>

definition parity_cohort :: "'g draw_lib \<Rightarrow> nat \<Rightarrow> pyfloat \<Rightarrow> 'g \<Rightarrow> int list \<times> pyfloat list \<times> 'g" where
  "parity_cohort D n ato_rate g =
     (let (u, g1) = dl_random D n g;
          y = map (\<lambda>x. if x < ato_rate then 1 else 0) u;
          (attack, g2) = dl_beta D (fl 7) (fl 3) n g1;
          (genuine, g3) = dl_beta D (fl 2) (fl 8) n g2
      in (y, map2 (\<lambda>c (a, b). if c = 1 then a else b) y (zip attack genuine), g3))"

definition parity_cost_simulation ::
  "(pyfloat list \<Rightarrow> pyfloat \<Rightarrow> pyfloat) \<Rightarrow> 'g draw_lib \<Rightarrow> 'g \<Rightarrow> parity_report" where
  "parity_cost_simulation quantile D g =
     (let (ys, rs, g1) = parity_cohort D 5000 (fl 0.02) g;
          (yh, rh, g2) = parity_cohort D 5000 (fl 0.2) g1
      in parity_cost quantile yh rh rs)"

section \<open>Attribution\<close>

record shap_summary =
  sh_background :: nat
  sh_explained :: nat
  sh_mean_abs :: "(string \<times> pyfloat) list"

definition mean_abs_shap :: "metric_lib \<Rightarrow> pyfloat list list \<Rightarrow> pyfloat list" where
  "mean_abs_shap lib sv = map (\<lambda>j. ml_mean lib (map (\<lambda>r. \<bar>r ! j\<bar>) sv)) [0..<length FEATURE_NAMES]"

definition shap_main ::
  "metric_lib \<Rightarrow> (pyfloat list list \<Rightarrow> py_exn + pyfloat list list) \<Rightarrow> ('g \<Rightarrow> nat \<Rightarrow> nat \<Rightarrow> 'g \<times> nat list) \<Rightarrow> 'g \<Rightarrow>
   (pyfloat list list \<Rightarrow> pyfloat list list \<Rightarrow> pyfloat list list) \<Rightarrow> pyfloat list list \<Rightarrow> py_exn + shap_summary" where
  "shap_main lib transform choice g shap x =
     sbind (transform x) (\<lambda>xs.
       let n = length xs;
           (g1, bi) = choice g n (min 50 n); (g2, ei) = choice g1 n (min 200 n);
           bg = map ((!) xs) bi; explained = map ((!) xs) ei;
           mean_abs = mean_abs_shap lib (shap bg explained);
           order = rev (ml_argsort lib mean_abs)
       in Inr \<lparr> sh_background = length bg, sh_explained = length explained,
                sh_mean_abs = map (\<lambda>i. (FEATURE_NAMES ! i, py_round 5 (mean_abs ! i))) order \<rparr>)"

section \<open>Lemmas\<close>

text \<open>An answer counts as a sample whatever its status.\<close>

lemma load_run_counts:
  "load_run outcomes =
     (List.map_filter (\<lambda>r. case r of Response st ms \<Rightarrow> Some ms | RequestRaised \<Rightarrow> None) outcomes,
      int (length (filter (\<lambda>r. case r of Response st ms \<Rightarrow> st \<noteq> 200 | RequestRaised \<Rightarrow> True) outcomes)))"
proof -
  have "fold load_one outcomes (l, e) =
      (l @ List.map_filter (\<lambda>r. case r of Response st ms \<Rightarrow> Some ms | RequestRaised \<Rightarrow> None) outcomes,
       e + int (length (filter (\<lambda>r. case r of Response st ms \<Rightarrow> st \<noteq> 200 | RequestRaised \<Rightarrow> True) outcomes)))" for l e
  proof (induction outcomes arbitrary: l e)
    case (Cons r outcomes)
    then show ?case by (cases r) (simp_all add: map_filter_simps)
  qed (simp add: map_filter_simps)
  then show ?thesis by (simp add: load_run_def)
qed

text \<open>A server that refuses its requests in 1 ms meets the latency claim.\<close>

lemma pct_single: "0 \<le> p \<Longrightarrow> p \<le> 100 \<Longrightarrow> pct [Fin 1] p = Inr (py_round 2 (Fin 1))"
proof -
  assume p: "0 \<le> p" "p \<le> 100"
  have "fin_in 0 1 (fl (of_int p / 100))" by (rule fl_bounds) (use p in auto)
  then have "fin_in 0 1 (fl (of_int p / 100) * float_of_int 1)"
    by (rule fin_in_mult_nonneg [of 0 1 _ 1 1]) (simp_all add: float_of_int_def fl_def)
  then obtain q where "fl (of_int p / 100) * float_of_int 1 = Fin q" by (auto elim: fin_inE)
  then show ?thesis by (simp add: pct_def pct_index_def)
qed

lemma refusals_meet_the_claim:
  "\<exists>r. loadtest_main (\<lambda>xs. xs) [Response 401 (Fin 1)] (Fin 1) = Inr (Some r) \<and> lr_claim r \<and> lr_errors r = 1 \<and> lr_samples r = 1"
proof -
  have run: "load_run [Response 401 (Fin 1)] = ([Fin 1], 1)" by (simp add: load_run_def)
  have "round_half_even 100 = 100" using round_half_even_of_int [of 100] by simp
  then have r: "py_round 2 (Fin 1) = Fin 1" by (simp add: fl_def)
  show ?thesis
    by (simp add: loadtest_main_def run load_report_of_def py_div_def pct_single r del: py_round.simps)
qed

text \<open>The attribution summary lists every feature once.\<close>

lemma shap_lists_every_feature:
  assumes "shap_main lib transform choice g shap x = Inr r" "\<forall>xs. mset (ml_argsort lib xs) = mset [0..<length xs]"
  shows "mset (map fst (sh_mean_abs r)) = mset FEATURE_NAMES"
proof -
  obtain sv where r: "map fst (sh_mean_abs r) = map ((!) FEATURE_NAMES) (rev (ml_argsort lib (mean_abs_shap lib sv)))"
    using assms(1) by (auto simp: shap_main_def sbind_eq_Inr Let_def split_beta comp_def)
  have "mset (map ((!) FEATURE_NAMES) (rev (ml_argsort lib (mean_abs_shap lib sv)))) = mset (map ((!) FEATURE_NAMES) [0..<length FEATURE_NAMES])"
    using assms(2) by (simp add: mean_abs_shap_def)
  then show ?thesis unfolding r by (simp only: map_nth)
qed

text \<open>Raising a cohort's threshold to match another cohort's selection rate never raises the recall it is reported with.\<close>

lemma fl_mono: "x \<le> y \<Longrightarrow> fl x \<le> fl y"
  using f64_round_mono [of x y] by (auto simp: fl_def Let_def)

lemma py_round_mono_Fin: "a \<le> b \<Longrightarrow> py_round n (Fin a) \<le> py_round n (Fin b)"
  by (auto intro!: fl_mono divide_right_mono round_half_even_mono simp del: of_int_le_iff simp: of_int_le_iff mult_right_mono)

lemma recall_above_unit: "fin_in 0 1 (recall_above y r t)"
proof -
  have "length (filter (\<lambda>(c, x). t \<le> x \<and> c = 1) (zip y r)) \<le> length (filter ((=) 1) y)"
    by (induction y r rule: list_induct2') auto
  then show ?thesis
    by (auto simp: recall_above_def count_label_def intro!: fl_bounds divide_le_eq_1_pos [THEN iffD2] divide_nonneg_pos)
qed

lemma parity_raises_no_recall:
  assumes "parity_cost quantile yh rh rs = r" "fl 0.45 \<le> quantile rh (fl 1 - fl (of_nat (length (filter (\<lambda>x. fl 0.45 \<le> x) rs)) / of_nat (length rs)))"
    and "is_finite (quantile rh (fl 1 - fl (of_nat (length (filter (\<lambda>x. fl 0.45 \<le> x) rs)) / of_nat (length rs))))" "\<forall>x\<in>set rh. is_finite x"
  shows "py_recall_after r \<le> py_recall_global r"
proof -
  let ?t = "quantile rh (fl 1 - fl (of_nat (length (filter (\<lambda>x. fl 0.45 \<le> x) rs)) / of_nat (length rs)))"
  have "is_finite (fl 0.45)" by (rule fin_in_is_finite [of 0 1], rule fl_bounds) auto
  from recall_above_antimono [OF assms(2) this assms(3, 4), of yh]
  have "recall_above yh rh ?t \<le> recall_above yh rh (fl 0.45)"
    unfolding recall_above_def by (intro fl_mono divide_right_mono) auto
  moreover obtain a b where "recall_above yh rh ?t = Fin a" "recall_above yh rh (fl 0.45) = Fin b"
    using recall_above_unit by (metis fin_inE)
  ultimately have "py_round 3 (recall_above yh rh ?t) \<le> py_round 3 (recall_above yh rh (fl 0.45))"
    by (metis py_round_mono_Fin less_eq_pyfloat.simps(1))
  then show ?thesis using assms(1) by (auto simp: parity_cost_def Let_def)
qed

end
