(* ===== verification/Spec2Isabelle.thy ===== *)
theory Spec2Isabelle
  imports EngineLimits AttestationProps AuditProps Stores ModelLoader ApiProps Explain Privacy PodProps Cohorts
    Downloader Detectors Simulator Tools Concurrency Synthetic Tuning Checks
begin

text \<open>
  PRAMAAN, an identity trust engine for a bank: a service that scores identity events (logins, transactions,
  recoveries, privileged access), keeps a trust score per identity and decides to allow, to ask for a step-up or
  to block. The service is under \<^verbatim>\<open>src/backend/app\<close>; the programs that train, export, evaluate and attack it are under
  \<^verbatim>\<open>src/src\<close>, \<^verbatim>\<open>src/scripts\<close> and \<^verbatim>\<open>src/simulator\<close>. This development models them in definitions that follow the code
  function by function and proves what makes them correct.

  How the parts interact. A client posts an event to the API (\<^verbatim>\<open>main.py\<close>), which authenticates the caller, stashes
  personal data in the vault, and lets the engine assess. The engine loads the identity's state from a store,
  resolves the behavioural similarity from signed tokens, computes eleven features, scores them with the serving
  model and deterministic rules, runs the drift detector, updates trust, asks the policy and the degradation
  policy for a decision and commits the state by compare-and-set. The assessment goes into the hash-chained audit
  log and, projected, back to the client. A client that passed a challenge brings an assertion signed by the
  verifier service; the validator consumes its nonce and the engine raises trust. In the distributed topology an
  ingress produces events to Kafka, scoring pods consume, assess, audit to Postgres and publish decisions that the
  ingress serves. Offline, the exporter replays logins through the same features to fit the serving model.

  Theories, from the bottom:

  \<^item> \<^theory_text>\<open>Prelude\<close>: exceptions as values (\<open>py_exn\<close>), sequencing (\<open>sbind\<close> on sums), Python slices, dictionaries in
    insertion order. \<^theory_text>\<open>PyFloat\<close>: binary64 with exact rounding on rationals, infinities and NaN, \<open>int()\<close>, \<open>round()\<close>, and
    the bounds lemmas every numeric proof rests on.
  \<^item> The engine. \<^theory_text>\<open>Schemas\<close> (\<^verbatim>\<open>schemas.py\<close>), \<^theory_text>\<open>Policy\<close> (\<^verbatim>\<open>policy.py\<close>, \<^verbatim>\<open>resilience.py\<close>), \<^theory_text>\<open>StateStore\<close> (\<^verbatim>\<open>state_store.py\<close>:
    the identity state, its JSON form, the in-memory and the Redis store, and the locale \<open>state_store\<close> of what the
    engine relies on), \<^theory_text>\<open>Drift\<close>, \<^theory_text>\<open>Features\<close>, \<^theory_text>\<open>Explain\<close>, \<^theory_text>\<open>ServingModel\<close>, \<^theory_text>\<open>RiskEngine\<close> (\<^verbatim>\<open>risk_engine.py\<close>). \<^theory_text>\<open>FeatureFacts\<close> bounds
    the features, \<^theory_text>\<open>EngineFacts\<close> takes one scoring apart, \<^theory_text>\<open>EngineStore\<close> lifts it to any store that keeps the
    contract, \<^theory_text>\<open>EngineProps\<close> and \<^theory_text>\<open>EngineLimits\<close> state the properties.
  \<^item> Signed assertions. \<^theory_text>\<open>Base64\<close>, \<^theory_text>\<open>Verifier\<close> (\<^verbatim>\<open>verifier.py\<close>), \<^theory_text>\<open>VerifierFacts\<close> (the locale \<open>nonce_store\<close>, interpreted on the
    in-memory cache), \<^theory_text>\<open>VerifierProps\<close>; \<^theory_text>\<open>Attestation\<close> and \<^theory_text>\<open>AttestationProps\<close> (\<^verbatim>\<open>attestation.py\<close>).
  \<^item> Records. \<^theory_text>\<open>AuditLog\<close> (the locale \<open>audit_trail\<close>, interpreted here and on the Postgres table) and \<^theory_text>\<open>AuditProps\<close>
    (\<^verbatim>\<open>audit.py\<close>), \<^theory_text>\<open>Stores\<close> (\<^verbatim>\<open>stores.py\<close>: the Postgres tables refine the in-memory chain), \<^theory_text>\<open>Vault\<close> (\<^verbatim>\<open>keystore.py\<close> and the Postgres vault: the locale \<open>pii_vault\<close>, interpreted on both).
  \<^item> The service. \<^theory_text>\<open>Auth\<close>, \<^theory_text>\<open>Config\<close>, \<^theory_text>\<open>ModelLoader\<close>, \<^theory_text>\<open>Privacy\<close>, \<^theory_text>\<open>Api\<close> (\<^verbatim>\<open>main.py\<close>: every route as a function of the
    service state, \<open>api_step\<close> and \<open>api_reach\<close> for the runs) and \<^theory_text>\<open>ApiProps\<close>; \<^theory_text>\<open>Pods\<close> and \<^theory_text>\<open>PodProps\<close> (\<^verbatim>\<open>bus.py\<close>, \<^verbatim>\<open>ingress.py\<close>,
    \<^verbatim>\<open>scoring_pod.py\<close>, \<^verbatim>\<open>verifier_service.py\<close>).
  \<^item> Many processes. \<^theory_text>\<open>Concurrency\<close>: \<open>worker_step\<close> cuts the engine's retry loop, \<open>append_step\<close> the Postgres append, at each
    call of the shared service; the calls of any number of processes interleave in any order.
  \<^item> Around the service. \<^theory_text>\<open>Export\<close> (\<^verbatim>\<open>export_models.py\<close>), \<^theory_text>\<open>Cohorts\<close> (\<^verbatim>\<open>coldstart_metric.py\<close>, \<^verbatim>\<open>fairness_audit.py\<close>,
    \<^verbatim>\<open>dp_export.py\<close>), \<^theory_text>\<open>Downloader\<close> (\<^verbatim>\<open>download_data.py\<close>), \<^theory_text>\<open>Training\<close> (\<^verbatim>\<open>train.py\<close>, \<^verbatim>\<open>train_rba_full.py\<close>), \<^theory_text>\<open>Metrics\<close> and
    \<^theory_text>\<open>Evaluation\<close> (\<^verbatim>\<open>eval_full.py\<close>, \<^verbatim>\<open>pramaan_eval.py\<close>, \<^verbatim>\<open>evaluate.py\<close>, \<^verbatim>\<open>evaluate_tuned.py\<close>, \<^verbatim>\<open>seed_sweep.py\<close>, \<^verbatim>\<open>phaseb_extra.py\<close>,
    \<^verbatim>\<open>impossible_travel_lift.py\<close>), \<^theory_text>\<open>Detectors\<close> (the keystroke detector, the insider table and
    the splits of \<^verbatim>\<open>train.py\<close>, \<^verbatim>\<open>phaseb_extra.py\<close> and \<^verbatim>\<open>tune.py\<close>), \<^theory_text>\<open>Fitting\<close> (what every fit is given and scores),
    \<^theory_text>\<open>Runs\<close> (the runners of \<^verbatim>\<open>evaluate.py\<close> and \<^verbatim>\<open>eval_full.py\<close>), \<^theory_text>\<open>Sweeps\<close> (\<^verbatim>\<open>seed_sweep.py\<close>, \<^verbatim>\<open>phaseb_extra.py\<close>),
    \<^theory_text>\<open>Tuning\<close> (\<^verbatim>\<open>tune.py\<close>, \<^verbatim>\<open>evaluate_tuned.py\<close>), \<^theory_text>\<open>Synthetic\<close> (the demonstration baseline of \<^verbatim>\<open>model_loader.py\<close>),
    \<^theory_text>\<open>Headline\<close> (\<^verbatim>\<open>check_headline.py\<close>, \<^verbatim>\<open>assemble_old_vs_new.py\<close>), \<^theory_text>\<open>Simulator\<close> (\<^verbatim>\<open>simulator/\<close>),
    \<^theory_text>\<open>Tools\<close> (\<^verbatim>\<open>profile_rba.py\<close>, \<^verbatim>\<open>scan_rba.py\<close>, the report of \<^verbatim>\<open>loadtest.py\<close>), \<^theory_text>\<open>Checks\<close>
    (\<^verbatim>\<open>loadtest.py\<close>, \<^verbatim>\<open>e2e_smoke.py\<close>, \<^verbatim>\<open>explain_shap.py\<close>).

  How code becomes definitions. A class's state is a record, an operation is a function from state and arguments to
  state and result; a \<^verbatim>\<open>raise\<close> is \<open>Inl\<close> of an exception and state changed before it is kept. Clocks, random bytes and
  uuids are arguments. Python floats are \<open>pyfloat\<close>; the sign of zero is not kept, and \<open>exp\<close>, \<open>log\<close>, \<open>sqrt\<close> and fractional
  powers are parameters with the laws used (range, monotonicity, value at 0). Parameters with named hypotheses also
  stand for third-party code: the signature scheme (only the holder of the private key makes tokens that verify),
  SHA-256 and HMAC (as functions; a property that needs it says unless digests collide), \<^verbatim>\<open>json\<close> (a dump loads back),
  Fernet, the Redis and Kafka clients, Postgres' \<^verbatim>\<open>jsonb\<close>, scikit-learn's fitted models, pandas' statistics. Every
  property with such a hypothesis has a witness that instantiates it by concrete functions.

  What the lemmas show. Types and bounds: trust in [0, 1000], risks and features in [0, 1], recovery capped per
  window, operating points within their budget. Safety: poisoning, review, degradation and travel rules of the
  engine; genuineness and single use of assertions; tamper evidence of the chain; durable erasure; pinned artifacts
  and archives; training that does not see the future and
  scores that read no test label and, in cross-validation, no row of the scored user. Refinement: Redis and in-memory stores, Postgres and in-memory
  chain, both vaults. Equivalence: the gate against its specification, streaming against batch, the reported cost cut
  against least expected cost, interleaved scoring against one job after another, the two report
  protocols against each other. Behaviour at the limits: refused commits, NaN amounts, clock readings across an expiry,
  undecodable messages.

  Bounds and fuel. The compare-and-set loops run six times (\<open>CAS_RETRIES\<close>, the code's constant), so they are
  structural recursions on that number and their exhaustion is an outcome, not a missing case. Connecting to Kafka and
  Postgres recurses on the code's number of retries. The pod's \<^verbatim>\<open>while True\<close> is a fold over the batches polled so far,
  any finite prefix of its run; downloads read a finite body. No other loop of the program is unbounded.

  Not modelled. FastAPI's and pydantic's dispatch and validation (events are assumed to satisfy the field
  constraints); the inside of the fits and searches of scikit-learn, XGBoost, LightGBM and Optuna, which are parameters
  (\<open>fit_lib\<close>, \<open>tune_lib\<close>) given exactly the rows and columns the code passes them; plots
  (\<^verbatim>\<open>_plots\<close> and the figures of the scripts), sockets, console output and the demonstration assets: input and output only.
\<close>

end
